(* ===== verification/Prelude.thy ===== *)
theory Prelude
  imports "HOL-Library.Word"
begin

unbundle bit_operations_syntax

text \<open>
  Shared vocabulary of the development: the C integer types as words, the byte order
  functions of \<open>arpa/inet.h\<close> on a little endian host (the only host the headers support, see
  the remark in \<open>include/ip.h\<close>), encoding of 16 and 32 bit fields into bytes, and
  bounds-checked reads and writes of a byte region.  The collections \<open>enc_simps\<close>
  (encoding and decoding of fields) and \<open>mem_simps\<close> (regions) carry the proofs of
  the later theories.
\<close>

named_theorems enc_simps "encoding and decoding of integer fields"
named_theorems mem_simps "reads and writes of byte regions"
named_theorems len_simps "lengths of encodings"

type_synonym u4 = "4 word"
type_synonym u8 = "8 word"
type_synonym u16 = "16 word"
type_synonym u32 = "32 word"
type_synonym bytes = "u8 list"

subsection \<open>Integer fields as little endian bytes\<close>

definition le16 :: "u16 \<Rightarrow> bytes" where
  "le16 v = [ucast v, ucast (drop_bit 8 v)]"

definition le32 :: "u32 \<Rightarrow> bytes" where
  "le32 v = [ucast v, ucast (drop_bit 8 v), ucast (drop_bit 16 v), ucast (drop_bit 24 v)]"

definition of_le16 :: "u8 \<Rightarrow> u8 \<Rightarrow> u16" where
  "of_le16 a b = ucast a OR push_bit 8 (ucast b)"

definition of_le32 :: "u8 \<Rightarrow> u8 \<Rightarrow> u8 \<Rightarrow> u8 \<Rightarrow> u32" where
  "of_le32 a b c d = ucast a OR push_bit 8 (ucast b) OR push_bit 16 (ucast c) OR push_bit 24 (ucast d)"

lemma length_le16 [len_simps, simp]: "length (le16 v) = 2"
  by (simp add: le16_def)

lemma length_le32 [len_simps, simp]: "length (le32 v) = 4"
  by (simp add: le32_def)

lemma unat_u8_less: "unat (x :: u8) < 256"
  using unsigned_less [of x] by simp

lemma unat_u16_less: "unat (x :: u16) < 65536"
  using unsigned_less [of x] by simp

lemma unat_u32_less: "unat (x :: u32) < 4294967296"
  using unsigned_less [of x] by simp

lemma bit_u8_beyond [simp]: "8 \<le> n \<Longrightarrow> \<not> bit (a :: u8) n"
  by (auto dest: bit_imp_le_length)

lemma bit_u16_beyond [simp]: "16 \<le> n \<Longrightarrow> \<not> bit (a :: u16) n"
  by (auto dest: bit_imp_le_length)

lemma bit_u32_beyond [simp]: "32 \<le> n \<Longrightarrow> \<not> bit (a :: u32) n"
  by (auto dest: bit_imp_le_length)

lemma bit_of_le16:
  "bit (of_le16 a b) n \<longleftrightarrow> (if n < 8 then bit a n else bit b (n - 8))"
  by (auto simp: of_le16_def bit_simps dest: bit_imp_le_length)

lemma bit_of_le32:
  "bit (of_le32 a b c d) n \<longleftrightarrow>
     (if n < 8 then bit a n else if n < 16 then bit b (n - 8)
      else if n < 24 then bit c (n - 16) else bit d (n - 24))"
  by (auto simp: of_le32_def bit_simps dest: bit_imp_le_length)

lemma of_le16_le16 [enc_simps]: "of_le16 (ucast v) (ucast (drop_bit 8 v)) = v"
  by (rule bit_word_eqI) (auto simp: bit_of_le16 bit_simps)

lemma of_le32_le32 [enc_simps]:
  "of_le32 (ucast v) (ucast (drop_bit 8 v)) (ucast (drop_bit 16 v)) (ucast (drop_bit 24 v)) = v"
  by (rule bit_word_eqI) (auto simp: bit_of_le32 bit_simps)

lemma le16_of_le16 [enc_simps]: "le16 (of_le16 a b) = [a, b]"
  by (auto simp: le16_def bit_of_le16 bit_simps intro!: bit_word_eqI)

lemma le32_of_le32 [enc_simps]: "le32 (of_le32 a b c d) = [a, b, c, d]"
  by (auto simp: le32_def bit_of_le32 bit_simps intro!: bit_word_eqI)

lemma of_le16_arith: "of_le16 a b = ucast a + 256 * ucast b"
proof -
  have "ucast a AND push_bit 8 (ucast b) = (0 :: u16)"
    by (rule bit_word_eqI) (auto simp: bit_simps)
  then have "of_le16 a b = ucast a + push_bit 8 (ucast b)"
    unfolding of_le16_def by (metis disjunctive_add_eq_or)
  then show ?thesis by (simp add: push_bit_eq_mult)
qed

lemma unat_of_le16: "unat (of_le16 a b) = unat a + 256 * unat b"
proof -
  have "unat a < 256" "unat b < 256"
    using unsigned_less [of a] unsigned_less [of b] by simp_all
  then show ?thesis
    by (simp add: of_le16_arith unat_word_ariths unsigned_ucast_eq take_bit_eq_mod)
qed

subsection \<open>Host and network byte order\<close>

definition bswap16 :: "u16 \<Rightarrow> u16" where
  "bswap16 v = push_bit 8 v OR drop_bit 8 v"

definition bswap32 :: "u32 \<Rightarrow> u32" where
  "bswap32 v = of_le32 (ucast (drop_bit 24 v)) (ucast (drop_bit 16 v)) (ucast (drop_bit 8 v)) (ucast v)"

abbreviation ntohs :: "u16 \<Rightarrow> u16" where "ntohs \<equiv> bswap16"
abbreviation htons :: "u16 \<Rightarrow> u16" where "htons \<equiv> bswap16"
abbreviation ntohl :: "u32 \<Rightarrow> u32" where "ntohl \<equiv> bswap32"
abbreviation htonl :: "u32 \<Rightarrow> u32" where "htonl \<equiv> bswap32"

lemma bit_bswap16:
  "bit (bswap16 v) n \<longleftrightarrow> (if n < 8 then bit v (n + 8) else n < 16 \<and> bit v (n - 8))"
  by (auto simp: bswap16_def bit_simps ac_simps)

lemma bit_bswap32:
  "bit (bswap32 v) n \<longleftrightarrow>
     (if n < 8 then bit v (n + 24) else if n < 16 then bit v (n + 8)
      else if n < 24 then bit v (n - 8) else n < 32 \<and> bit v (n - 24))"
  by (auto simp: bswap32_def bit_of_le32 bit_simps ac_simps dest: bit_imp_le_length)

lemma bswap16_bswap16 [simp]: "bswap16 (bswap16 v) = v"
  by (rule bit_word_eqI) (auto simp: bit_bswap16)

lemma bswap32_bswap32 [simp]: "bswap32 (bswap32 v) = v"
  by (rule bit_word_eqI) (auto simp: bit_bswap32)

lemma bswap16_of_le16: "bswap16 (of_le16 a b) = of_le16 b a"
  by (rule bit_word_eqI) (auto simp: bit_bswap16 bit_of_le16)

lemma bswap16_0 [simp]: "bswap16 0 = 0"
  by (simp add: bswap16_def)

lemma bswap16_inj [simp]: "bswap16 a = bswap16 b \<longleftrightarrow> a = b"
  by (metis bswap16_bswap16)

lemma bswap32_inj [simp]: "bswap32 a = bswap32 b \<longleftrightarrow> a = b"
  by (metis bswap32_bswap32)

lemma bswap32_0 [simp]: "bswap32 0 = 0"
  by (simp add: bswap32_def of_le32_def)

subsection \<open>Byte regions\<close>

text \<open>
  \<open>rd8\<close> reads one byte.  \<open>mread\<close> reads a run of bytes, \<open>mwrite\<close> overwrites one that lies
  inside the region and leaves the region as it is otherwise; callers whose offsets are not
  fixed test \<open>in_region\<close> and record a fault when it fails.
\<close>

definition rd8 :: "bytes \<Rightarrow> nat \<Rightarrow> u8" where
  "rd8 m i = (if i < length m then m ! i else 0)"

definition mread :: "bytes \<Rightarrow> nat \<Rightarrow> nat \<Rightarrow> bytes" where
  "mread m off n = take n (drop off m)"

definition mwrite :: "bytes \<Rightarrow> nat \<Rightarrow> bytes \<Rightarrow> bytes" where
  "mwrite m off bs =
     (if off + length bs \<le> length m then take off m @ bs @ drop (off + length bs) m else m)"

definition in_region :: "bytes \<Rightarrow> int \<Rightarrow> nat \<Rightarrow> bool" where
  "in_region m off n \<longleftrightarrow> 0 \<le> off \<and> nat off + n \<le> length m"

lemma rd8_Cons_0 [simp]: "rd8 (x # xs) 0 = x"
  by (simp add: rd8_def)

lemma rd8_Cons_Suc [simp]: "rd8 (x # xs) (Suc i) = rd8 xs i"
  by (simp add: rd8_def)

lemma rd8_Cons_numeral [simp]: "rd8 (x # xs) (numeral n) = rd8 xs (pred_numeral n)"
  by (simp add: numeral_eq_Suc)

lemma rd8_append: "rd8 (xs @ ys) i = (if i < length xs then rd8 xs i else rd8 ys (i - length xs))"
  by (auto simp: rd8_def nth_append)

lemma length_mwrite [simp]: "length (mwrite m off bs) = length m"
  by (simp add: mwrite_def)

lemma length_mread: "length (mread m off n) = min n (length m - off)"
  by (simp add: mread_def)

lemma mread_mwrite_same [mem_simps]:
  "off + length bs \<le> length m \<Longrightarrow> n = length bs \<Longrightarrow> mread (mwrite m off bs) off n = bs"
  by (simp add: mread_def mwrite_def)

lemma mread_mwrite_before [mem_simps]:
  "off' + n \<le> off \<Longrightarrow> mread (mwrite m off bs) off' n = mread m off' n"
  by (auto simp: mread_def mwrite_def drop_take min_def)

lemma mread_mwrite_after [mem_simps]:
  assumes "off + length bs \<le> off'"
  shows "mread (mwrite m off bs) off' n = mread m off' n"
proof (cases "off + length bs \<le> length m")
  case True
  then have "min (length m) off = off" by simp
  with assms True show ?thesis
    by (simp add: mread_def mwrite_def)
next
  case False
  then show ?thesis by (simp add: mwrite_def)
qed

lemma mread_all [mem_simps]: "length m \<le> n \<Longrightarrow> mread m 0 n = m"
  by (simp add: mread_def)

lemma mread_mread_append:
  "mread m off (n + k) = mread m off n @ mread m (off + n) k"
  unfolding mread_def take_add drop_drop by (simp only: add.commute)

end
