(* ===== verification/Headers.thy ===== *)
theory Headers
  imports Prelude
begin

unbundle bit_operations_syntax

text \<open>
  The packed wire structures of \<open>include/ethernet.h\<close>, \<open>include/arp.h\<close>, \<open>include/ip.h\<close>,
  \<open>include/icmpv4.h\<close> and \<open>include/tcp.h\<close>, and the device and route records of
  \<open>include/netdev.h\<close> and \<open>include/route.h\<close>.  A record holds the fields as the C code reads
  them through a pointer to the structure (little endian host); \<open>enc_\<close> gives the bytes of
  the structure in memory and \<open>dec_\<close> reads them back.  Every structure is a round trip.
\<close>

subsection \<open>Bit fields\<close>

text \<open>
  Bit fields fill a byte from its low end.  A pair of 4 bit fields is the low and the high
  nibble; a run of 1 bit fields is a list of booleans, lowest bit first.
\<close>

definition pack_nibbles :: "u4 \<Rightarrow> u4 \<Rightarrow> u8" where
  "pack_nibbles lo hi = ucast lo OR push_bit 4 (ucast hi)"

definition pack_flags :: "bool list \<Rightarrow> u8" where
  "pack_flags bs = horner_sum of_bool 2 bs"

lemma bit_u4_beyond [simp]: "4 \<le> n \<Longrightarrow> \<not> bit (a :: u4) n"
  by (auto dest: bit_imp_le_length)

lemma low_nibble [enc_simps]: "ucast (pack_nibbles a b) = a"
  by (rule bit_word_eqI) (auto simp: pack_nibbles_def bit_simps)

lemma high_nibble [enc_simps]: "ucast (drop_bit 4 (pack_nibbles a b)) = b"
  by (rule bit_word_eqI) (auto simp: pack_nibbles_def bit_simps)

lemma bit_pack_flags:
  "length bs = 8 \<Longrightarrow> bit (pack_flags bs) i \<longleftrightarrow> i < 8 \<and> bs ! i"
  by (simp add: pack_flags_def bit_horner_sum_bit_word_iff)

subsection \<open>Devices and routes\<close>

record netdev =
  nd_addr :: u32
  nd_addr_len :: u8
  nd_hwaddr :: bytes
  nd_mtu :: u32

record rtentry =
  rt_dst :: u32
  rt_gateway :: u32
  rt_netmask :: u32
  rt_flags :: u8
  rt_metric :: u32
  rt_dev :: netdev

definition RT_LOOPBACK :: u8 where "RT_LOOPBACK = 0x01"
definition RT_GATEWAY :: u8 where "RT_GATEWAY = 0x02"
definition RT_HOST :: u8 where "RT_HOST = 0x04"

lemmas rt_flag_defs = RT_LOOPBACK_def RT_GATEWAY_def RT_HOST_def

subsection \<open>Ethernet\<close>

record eth_hdr =
  eth_dmac :: bytes
  eth_smac :: bytes
  eth_type :: u16

definition ETH_P_ARP :: u16 where "ETH_P_ARP = 0x0806"
definition ETH_P_IP :: u16 where "ETH_P_IP = 0x0800"

abbreviation (input) ETH_HDR_LEN :: nat where "ETH_HDR_LEN \<equiv> 14"

definition enc_eth_hdr :: "eth_hdr \<Rightarrow> bytes" where
  "enc_eth_hdr h = eth_dmac h @ eth_smac h @ le16 (eth_type h)"

definition dec_eth_hdr :: "bytes \<Rightarrow> eth_hdr" where
  "dec_eth_hdr b =
     \<lparr>eth_dmac = mread b 0 6, eth_smac = mread b 6 6, eth_type = of_le16 (rd8 b 12) (rd8 b 13)\<rparr>"

subsection \<open>ARP\<close>

record arp_hdr =
  arp_hwtype :: u16
  arp_protype :: u16
  arp_hwsize :: u8
  arp_prosize :: u8
  arp_opcode :: u16

record arp_ipv4 =
  ar_smac :: bytes
  ar_sip :: u32
  ar_dmac :: bytes
  ar_dip :: u32

definition ARP_ETHERNET :: u16 where "ARP_ETHERNET = 0x0001"
definition ARP_IPV4 :: u16 where "ARP_IPV4 = 0x0800"
definition ARP_REQUEST :: u16 where "ARP_REQUEST = 0x0001"
definition ARP_REPLY :: u16 where "ARP_REPLY = 0x0002"

abbreviation (input) ARP_HDR_LEN :: nat where "ARP_HDR_LEN \<equiv> 8"
abbreviation (input) ARP_DATA_LEN :: nat where "ARP_DATA_LEN \<equiv> 20"

definition enc_arp_hdr :: "arp_hdr \<Rightarrow> bytes" where
  "enc_arp_hdr h = le16 (arp_hwtype h) @ le16 (arp_protype h) @ [arp_hwsize h, arp_prosize h]
     @ le16 (arp_opcode h)"

definition dec_arp_hdr :: "bytes \<Rightarrow> arp_hdr" where
  "dec_arp_hdr b =
     \<lparr>arp_hwtype = of_le16 (rd8 b 0) (rd8 b 1), arp_protype = of_le16 (rd8 b 2) (rd8 b 3),
      arp_hwsize = rd8 b 4, arp_prosize = rd8 b 5, arp_opcode = of_le16 (rd8 b 6) (rd8 b 7)\<rparr>"

definition enc_arp_ipv4 :: "arp_ipv4 \<Rightarrow> bytes" where
  "enc_arp_ipv4 d = ar_smac d @ le32 (ar_sip d) @ ar_dmac d @ le32 (ar_dip d)"

definition dec_arp_ipv4 :: "bytes \<Rightarrow> arp_ipv4" where
  "dec_arp_ipv4 b =
     \<lparr>ar_smac = mread b 0 6, ar_sip = of_le32 (rd8 b 6) (rd8 b 7) (rd8 b 8) (rd8 b 9),
      ar_dmac = mread b 10 6, ar_dip = of_le32 (rd8 b 16) (rd8 b 17) (rd8 b 18) (rd8 b 19)\<rparr>"

subsection \<open>IPv4\<close>

record iphdr =
  ip_ihl :: u4
  ip_version :: u4
  ip_tos :: u8
  ip_len :: u16
  ip_id :: u16
  ip_frag_offset :: u16
  ip_ttl :: u8
  ip_proto :: u8
  ip_csum :: u16
  ip_saddr :: u32
  ip_daddr :: u32

definition IPV4 :: u4 where "IPV4 = 0x04"
definition IP_TCP :: u8 where "IP_TCP = 0x06"
definition ICMPV4 :: u8 where "ICMPV4 = 0x01"

abbreviation (input) IP_HDR_LEN :: nat where "IP_HDR_LEN \<equiv> 20"

definition enc_iphdr :: "iphdr \<Rightarrow> bytes" where
  "enc_iphdr h =
     [pack_nibbles (ip_ihl h) (ip_version h), ip_tos h] @ le16 (ip_len h)
     @ le16 (ip_id h) @ le16 (ip_frag_offset h) @ [ip_ttl h, ip_proto h] @ le16 (ip_csum h)
     @ le32 (ip_saddr h) @ le32 (ip_daddr h)"

definition dec_iphdr :: "bytes \<Rightarrow> iphdr" where
  "dec_iphdr b =
     \<lparr>ip_ihl = ucast (rd8 b 0), ip_version = ucast (drop_bit 4 (rd8 b 0)), ip_tos = rd8 b 1,
      ip_len = of_le16 (rd8 b 2) (rd8 b 3), ip_id = of_le16 (rd8 b 4) (rd8 b 5),
      ip_frag_offset = of_le16 (rd8 b 6) (rd8 b 7), ip_ttl = rd8 b 8, ip_proto = rd8 b 9,
      ip_csum = of_le16 (rd8 b 10) (rd8 b 11),
      ip_saddr = of_le32 (rd8 b 12) (rd8 b 13) (rd8 b 14) (rd8 b 15),
      ip_daddr = of_le32 (rd8 b 16) (rd8 b 17) (rd8 b 18) (rd8 b 19)\<rparr>"

text \<open>The macro \<open>ip_len(ip)\<close>: total length less the header, computed in \<open>int\<close>.\<close>

definition ip_payload_len :: "iphdr \<Rightarrow> int" where
  "ip_payload_len h = int (unat (ip_len h)) - int (unat (ip_ihl h)) * 4"

subsection \<open>ICMPv4\<close>

record icmp_v4 =
  icmp_type :: u8
  icmp_code :: u8
  icmp_csum :: u16

definition ICMP_V4_REPLY :: u8 where "ICMP_V4_REPLY = 0x00"
definition ICMP_V4_DST_UNREACHABLE :: u8 where "ICMP_V4_DST_UNREACHABLE = 0x03"
definition ICMP_V4_ECHO :: u8 where "ICMP_V4_ECHO = 0x08"

definition enc_icmp_v4 :: "icmp_v4 \<Rightarrow> bytes" where
  "enc_icmp_v4 h = [icmp_type h, icmp_code h] @ le16 (icmp_csum h)"

definition dec_icmp_v4 :: "bytes \<Rightarrow> icmp_v4" where
  "dec_icmp_v4 b =
     \<lparr>icmp_type = rd8 b 0, icmp_code = rd8 b 1, icmp_csum = of_le16 (rd8 b 2) (rd8 b 3)\<rparr>"

subsection \<open>TCP\<close>

record tcphdr =
  th_sport :: u16
  th_dport :: u16
  th_seq :: u32
  th_ack_seq :: u32
  th_rsvd :: u4
  th_hl :: u4
  th_fin :: bool
  th_syn :: bool
  th_rst :: bool
  th_psh :: bool
  th_ack :: bool
  th_urg :: bool
  th_ece :: bool
  th_cwr :: bool
  th_win :: u16
  th_csum :: u16
  th_urp :: u16

abbreviation (input) TCP_HDR_LEN :: nat where "TCP_HDR_LEN \<equiv> 20"
abbreviation (input) TCP_DOFFSET :: u4 where "TCP_DOFFSET \<equiv> 5"

definition th_flags :: "tcphdr \<Rightarrow> bool list" where
  "th_flags h = [th_fin h, th_syn h, th_rst h, th_psh h, th_ack h, th_urg h, th_ece h, th_cwr h]"

definition enc_tcphdr :: "tcphdr \<Rightarrow> bytes" where
  "enc_tcphdr h =
     le16 (th_sport h) @ le16 (th_dport h) @ le32 (th_seq h) @ le32 (th_ack_seq h)
     @ [pack_nibbles (th_rsvd h) (th_hl h), pack_flags (th_flags h)]
     @ le16 (th_win h) @ le16 (th_csum h) @ le16 (th_urp h)"

definition dec_tcphdr :: "bytes \<Rightarrow> tcphdr" where
  "dec_tcphdr b =
     \<lparr>th_sport = of_le16 (rd8 b 0) (rd8 b 1), th_dport = of_le16 (rd8 b 2) (rd8 b 3),
      th_seq = of_le32 (rd8 b 4) (rd8 b 5) (rd8 b 6) (rd8 b 7),
      th_ack_seq = of_le32 (rd8 b 8) (rd8 b 9) (rd8 b 10) (rd8 b 11),
      th_rsvd = ucast (rd8 b 12), th_hl = ucast (drop_bit 4 (rd8 b 12)),
      th_fin = bit (rd8 b 13) 0, th_syn = bit (rd8 b 13) 1, th_rst = bit (rd8 b 13) 2,
      th_psh = bit (rd8 b 13) 3, th_ack = bit (rd8 b 13) 4, th_urg = bit (rd8 b 13) 5,
      th_ece = bit (rd8 b 13) 6, th_cwr = bit (rd8 b 13) 7,
      th_win = of_le16 (rd8 b 14) (rd8 b 15), th_csum = of_le16 (rd8 b 16) (rd8 b 17),
      th_urp = of_le16 (rd8 b 18) (rd8 b 19)\<rparr>"

text \<open>The macro \<open>tcp_hlen(tcp)\<close>, \<open>hl << 2\<close>.\<close>

definition tcp_hlen :: "tcphdr \<Rightarrow> nat" where
  "tcp_hlen th = unat (th_hl th) * 4"

subsection \<open>Round trips\<close>

lemma length_enc_eth_hdr [simp]:
  "length (eth_dmac h) = 6 \<Longrightarrow> length (eth_smac h) = 6 \<Longrightarrow> length (enc_eth_hdr h) = 14"
  by (simp add: enc_eth_hdr_def)

lemma length_enc_arp_hdr [simp]: "length (enc_arp_hdr h) = 8"
  by (simp add: enc_arp_hdr_def)

lemma length_enc_arp_ipv4 [simp]:
  "length (ar_smac d) = 6 \<Longrightarrow> length (ar_dmac d) = 6 \<Longrightarrow> length (enc_arp_ipv4 d) = 20"
  by (simp add: enc_arp_ipv4_def)

lemma length_enc_iphdr [simp]: "length (enc_iphdr h) = 20"
  by (simp add: enc_iphdr_def)

lemma length_enc_icmp_v4 [simp]: "length (enc_icmp_v4 h) = 4"
  by (simp add: enc_icmp_v4_def)

lemma length_enc_tcphdr [simp]: "length (enc_tcphdr h) = 20"
  by (simp add: enc_tcphdr_def)

lemma flag_bits [enc_simps]:
  "bit (pack_flags (th_flags h)) 0 = th_fin h" "bit (pack_flags (th_flags h)) 1 = th_syn h"
  "bit (pack_flags (th_flags h)) 2 = th_rst h" "bit (pack_flags (th_flags h)) 3 = th_psh h"
  "bit (pack_flags (th_flags h)) 4 = th_ack h" "bit (pack_flags (th_flags h)) 5 = th_urg h"
  "bit (pack_flags (th_flags h)) 6 = th_ece h" "bit (pack_flags (th_flags h)) 7 = th_cwr h"
  by (simp_all add: bit_pack_flags th_flags_def)

lemma flag_bit_fin [enc_simps]: "odd (pack_flags (th_flags h)) = th_fin h"
  using flag_bits(1) [of h] by (simp add: bit_0)

lemma flag_bit_syn [enc_simps]: "bit (pack_flags (th_flags h)) (Suc 0) = th_syn h"
  using flag_bits(2) [of h] by simp

lemma dec_enc_iphdr [enc_simps]: "dec_iphdr (enc_iphdr h) = h"
  by (simp add: dec_iphdr_def enc_iphdr_def le16_def le32_def enc_simps)

lemma dec_enc_arp_hdr [enc_simps]: "dec_arp_hdr (enc_arp_hdr h) = h"
  by (simp add: dec_arp_hdr_def enc_arp_hdr_def le16_def enc_simps)

lemma dec_enc_icmp_v4 [enc_simps]: "dec_icmp_v4 (enc_icmp_v4 h) = h"
  by (simp add: dec_icmp_v4_def enc_icmp_v4_def le16_def enc_simps)

lemma dec_enc_tcphdr [enc_simps]: "dec_tcphdr (enc_tcphdr h) = h"
  by (simp add: dec_tcphdr_def enc_tcphdr_def le16_def le32_def enc_simps)

lemma dec_enc_eth_hdr [enc_simps]:
  "length (eth_dmac h) = 6 \<Longrightarrow> length (eth_smac h) = 6 \<Longrightarrow> dec_eth_hdr (enc_eth_hdr h) = h"
  by (simp add: dec_eth_hdr_def enc_eth_hdr_def le16_def rd8_append mread_def enc_simps)

lemma dec_enc_arp_ipv4 [enc_simps]:
  "length (ar_smac d) = 6 \<Longrightarrow> length (ar_dmac d) = 6 \<Longrightarrow> dec_arp_ipv4 (enc_arp_ipv4 d) = d"
  by (simp add: dec_arp_ipv4_def enc_arp_ipv4_def le32_def rd8_append mread_def enc_simps)

end
