(* ===== verification/List_H.thy ===== *)
theory List_H
  imports Prelude
begin

text \<open>
  The intrusive circular lists of \<open>include/list.h\<close>.  A \<open>list_head\<close> is an address; the
  \<open>next\<close> and \<open>prev\<close> fields of all list heads are two functions from addresses to addresses.
  Every operation is the sequence of pointer assignments of the C function.  \<open>dll m h xs\<close>
  says that the ring at head \<open>h\<close> holds the nodes \<open>xs\<close>, linked both ways; each operation is
  shown to refine the corresponding operation on \<open>xs\<close> and to leave other rings alone.
\<close>

record list_mem =
  nxt :: "nat \<Rightarrow> nat"
  prv :: "nat \<Rightarrow> nat"

definition set_next :: "nat \<Rightarrow> nat \<Rightarrow> list_mem \<Rightarrow> list_mem" where
  "set_next a b m = m\<lparr>nxt := (nxt m)(a := b)\<rparr>"

definition set_prev :: "nat \<Rightarrow> nat \<Rightarrow> list_mem \<Rightarrow> list_mem" where
  "set_prev a b m = m\<lparr>prv := (prv m)(a := b)\<rparr>"

subsection \<open>The operations\<close>

definition list_init :: "nat \<Rightarrow> list_mem \<Rightarrow> list_mem" where
  "list_init head m = set_prev head head (set_next head head m)"

definition list_add :: "nat \<Rightarrow> nat \<Rightarrow> list_mem \<Rightarrow> list_mem" where
  "list_add new head m =
     (let m = set_prev (nxt m head) new m;
          m = set_next new (nxt m head) m;
          m = set_prev new head m
      in set_next head new m)"

definition list_add_tail :: "nat \<Rightarrow> nat \<Rightarrow> list_mem \<Rightarrow> list_mem" where
  "list_add_tail new head m =
     (let m = set_next (prv m head) new m;
          m = set_prev new (prv m head) m;
          m = set_next new head m
      in set_prev head new m)"

definition list_del :: "nat \<Rightarrow> list_mem \<Rightarrow> list_mem" where
  "list_del elem m =
     (let prev = prv m elem; next = nxt m elem
      in set_prev next prev (set_next prev next m))"

definition list_empty :: "nat \<Rightarrow> list_mem \<Rightarrow> bool" where
  "list_empty head m \<longleftrightarrow> nxt m head = head"

text \<open>
  \<open>list_for_each\<close>: the positions visited from \<open>pos\<close> until the head comes round.  A ring that
  is not closed would be walked for ever, so the walk has fuel and gives \<open>None\<close> when it
  runs out.
\<close>

fun list_for_each :: "nat \<Rightarrow> nat \<Rightarrow> nat \<Rightarrow> list_mem \<Rightarrow> nat list option" where
  "list_for_each 0 pos head m = None"
| "list_for_each (Suc fuel) pos head m =
     (if pos = head then Some []
      else map_option (Cons pos) (list_for_each fuel (nxt m pos) head m))"

subsection \<open>Rings\<close>

fun links :: "list_mem \<Rightarrow> nat list \<Rightarrow> bool" where
  "links m (a # b # r) \<longleftrightarrow> nxt m a = b \<and> prv m b = a \<and> links m (b # r)"
| "links m _ \<longleftrightarrow> True"

definition dll :: "list_mem \<Rightarrow> nat \<Rightarrow> nat list \<Rightarrow> bool" where
  "dll m h xs \<longleftrightarrow> distinct (h # xs) \<and> links m (h # xs @ [h])"

lemma links_append: "links m (xs @ a # ys) \<longleftrightarrow> links m (xs @ [a]) \<and> links m (a # ys)"
  by (induction xs rule: links.induct [of "\<lambda>_ xs. links m (xs @ a # ys) \<longleftrightarrow> links m (xs @ [a]) \<and> links m (a # ys)" m])
    auto

lemma links_set_next [simp]: "a \<notin> set (butlast xs) \<Longrightarrow> links (set_next a b m) xs = links m xs"
  by (induction m xs rule: links.induct) (auto simp: set_next_def)

lemma links_set_prev [simp]: "a \<notin> set (tl xs) \<Longrightarrow> links (set_prev a b m) xs = links m xs"
  by (induction m xs rule: links.induct) (auto simp: set_prev_def split: if_splits)

lemma set_next_sel [simp]: "nxt (set_next a b m) = (nxt m)(a := b)" "prv (set_next a b m) = prv m"
  by (simp_all add: set_next_def)

lemma set_prev_sel [simp]: "prv (set_prev a b m) = (prv m)(a := b)" "nxt (set_prev a b m) = nxt m"
  by (simp_all add: set_prev_def)

text \<open>
  The two surgeries behind all operations: splicing a node into a chain before \<open>p\<close>, and
  cutting a node out.  The chain of a ring repeats only its head, at both ends.
\<close>

definition ring_chain :: "nat list \<Rightarrow> bool" where
  "ring_chain l \<longleftrightarrow> distinct (butlast l) \<and> distinct (tl l)"

lemma ring_chain_dll: "distinct (h # xs) \<Longrightarrow> ring_chain (h # xs @ [h])"
  by (auto simp: ring_chain_def butlast_append)

lemma links_splice:
  assumes l: "links m (A @ q # p # B)" and r: "ring_chain (A @ q # p # B)"
    and n: "n \<notin> set (A @ q # p # B)"
  shows "links (list_add_tail n p m) (A @ q # n # p # B)"
proof -
  have c: "links m (A @ [q])" "prv m p = q" "links m (p # B)"
    using l links_append [of m A q "p # B"] by auto
  have q: "q \<notin> set A" "q \<notin> set (butlast (p # B))"
    using r by (auto simp: ring_chain_def butlast_append)
  have p: "p \<notin> set (tl (A @ [q]))" "p \<notin> set B"
    using r by (cases A; auto simp: ring_chain_def)+
  have n': "n \<noteq> q" "n \<noteq> p" "n \<notin> set A" "n \<notin> set B" "n \<notin> set (tl (A @ [q]))"
    "n \<notin> set (butlast (p # B))"
    using n by (cases A; auto dest: in_set_butlastD)+
  have "links (list_add_tail n p m) (A @ [q])"
    using c(1) q p n' by (simp add: list_add_tail_def Let_def c(2))
  moreover have "links (list_add_tail n p m) (p # B)"
    using c(3) q(2) p(2) n' by (simp add: list_add_tail_def Let_def c(2))
  moreover have "nxt (list_add_tail n p m) q = n" "prv (list_add_tail n p m) n = q"
    "nxt (list_add_tail n p m) n = p" "prv (list_add_tail n p m) p = n"
    using n' by (auto simp: list_add_tail_def Let_def c(2))
  ultimately show ?thesis
    using links_append [of _ A q "n # p # B"] by simp
qed

lemma links_cut:
  assumes l: "links m (A @ q # e # p # B)" and r: "ring_chain (A @ q # e # p # B)"
  shows "links (list_del e m) (A @ q # p # B)"
proof -
  have c: "links m (A @ [q])" "prv m e = q" "nxt m e = p" "links m (p # B)"
    using l links_append [of m A q "e # p # B"] by auto
  have q: "q \<notin> set A" "q \<notin> set (butlast (p # B))"
    using r by (auto simp: ring_chain_def butlast_append)
  have p: "p \<notin> set (tl (A @ [q]))" "p \<notin> set B"
    using r by (cases A; auto simp: ring_chain_def)+
  have "links (list_del e m) (A @ [q])" "links (list_del e m) (p # B)"
    using c q p by (simp_all add: list_del_def Let_def)
  moreover have "nxt (list_del e m) q = p" "prv (list_del e m) p = q"
    using c by (auto simp: list_del_def Let_def)
  ultimately show ?thesis
    using links_append [of _ A q "p # B"] by simp
qed

subsection \<open>Refinement of the list operations\<close>

lemma dll_init: "dll (list_init h m) h []"
  by (simp add: dll_def list_init_def)

lemma dll_chain_tail: "\<exists>A q. h # xs = A @ [q]"
  by (metis append_butlast_last_id list.distinct(1))

lemma dll_add_tail:
  assumes d: "dll m h xs" and n: "n \<notin> set (h # xs)"
  shows "dll (list_add_tail n h m) h (xs @ [n])"
proof -
  obtain A q where Aq: "h # xs = A @ [q]" using dll_chain_tail [of h xs] by blast
  have ch: "h # xs @ [h] = A @ q # h # []" using Aq by simp
  have "links m (A @ q # h # [])" "ring_chain (A @ q # h # [])"
    using d ring_chain_dll [of h xs] unfolding dll_def ch by simp_all
  moreover have "n \<notin> set (A @ q # h # [])" using n unfolding ch [symmetric] by simp
  ultimately have "links (list_add_tail n h m) (A @ q # n # h # [])"
    by (rule links_splice)
  moreover have "A @ q # n # h # [] = h # (xs @ [n]) @ [h]" using Aq by simp
  ultimately show ?thesis using d n by (auto simp: dll_def)
qed

lemma dll_add_before:
  assumes d: "dll m h (xs @ y # ys)" and n: "n \<notin> set (h # xs @ y # ys)"
  shows "dll (list_add_tail n y m) h (xs @ n # y # ys)"
proof -
  obtain A q where Aq: "h # xs = A @ [q]" using dll_chain_tail [of h xs] by blast
  have ch: "h # (xs @ y # ys) @ [h] = A @ q # y # ys @ [h]" using Aq by simp
  have "links m (A @ q # y # ys @ [h])" "ring_chain (A @ q # y # ys @ [h])"
    using d ring_chain_dll [of h "xs @ y # ys"] unfolding dll_def ch by simp_all
  moreover have "n \<notin> set (A @ q # y # ys @ [h])" using n unfolding ch [symmetric] by simp
  ultimately have "links (list_add_tail n y m) (A @ q # n # y # ys @ [h])"
    by (rule links_splice)
  moreover have "A @ q # n # y # ys @ [h] = h # (xs @ n # y # ys) @ [h]" using Aq by simp
  ultimately show ?thesis using d n by (auto simp: dll_def)
qed

lemma dll_add:
  assumes d: "dll m h xs" and n: "n \<notin> set (h # xs)"
  shows "dll (list_add n h m) h (n # xs)"
proof -
  obtain p B where pB: "xs @ [h] = p # B" by (cases "xs @ [h]") auto
  have p: "nxt m h = p" "prv m p = h" using d pB by (auto simp: dll_def)
  have np: "n \<noteq> p" "n \<noteq> h" using n pB by (cases xs; auto)+
  have "list_add n h m = list_add_tail n p m"
    using p np by (intro list_mem.equality) (auto simp: list_add_def list_add_tail_def Let_def)
  moreover have "links (list_add_tail n p m) ([] @ h # n # p # B)"
  proof (rule links_splice)
    show "links m ([] @ h # p # B)" "ring_chain ([] @ h # p # B)"
      using d ring_chain_dll [of h xs] pB by (auto simp: dll_def)
    show "n \<notin> set ([] @ h # p # B)"
      using n by (auto simp flip: pB)
  qed
  ultimately show ?thesis using d n pB by (auto simp: dll_def)
qed

lemma dll_del:
  assumes d: "dll m h (xs @ e # ys)"
  shows "dll (list_del e m) h (xs @ ys)"
proof -
  obtain A q where Aq: "h # xs = A @ [q]" using dll_chain_tail [of h xs] by blast
  obtain p B where pB: "ys @ [h] = p # B" by (cases "ys @ [h]") auto
  have ch: "h # (xs @ e # ys) @ [h] = A @ q # e # p # B" using Aq pB by simp
  have "links (list_del e m) (A @ q # p # B)"
    using d ring_chain_dll [of h "xs @ e # ys"] unfolding dll_def ch by (intro links_cut) auto
  moreover have "A @ q # p # B = h # (xs @ ys) @ [h]" using Aq pB by simp
  ultimately show ?thesis using d by (auto simp: dll_def)
qed

lemma dll_empty_iff: "dll m h xs \<Longrightarrow> list_empty h m \<longleftrightarrow> xs = []"
  by (cases xs) (auto simp: dll_def list_empty_def)

lemma walk_links:
  "links m (xs @ [h]) \<Longrightarrow> h \<notin> set xs \<Longrightarrow> length xs < fuel \<Longrightarrow>
     list_for_each fuel (hd (xs @ [h])) h m = Some xs"
proof (induction xs arbitrary: fuel)
  case Nil
  then show ?case by (cases fuel) auto
next
  case (Cons x xs)
  then obtain f where f: "fuel = Suc f" by (cases fuel) auto
  have "nxt m x = hd (xs @ [h])" "links m (xs @ [h])"
    using Cons.prems(1) by (cases xs; simp)+
  then show ?case using Cons f by auto
qed

text \<open>\<open>list_for_each\<close> visits the nodes in order; one more step than there are nodes is enough.\<close>

lemma dll_for_each:
  assumes "dll m h xs" and "length xs < fuel"
  shows "list_for_each fuel (nxt m h) h m = Some xs"
proof -
  have "nxt m h = hd (xs @ [h])" using assms(1) by (cases xs) (auto simp: dll_def)
  moreover have "links m (xs @ [h])" using assms(1) by (cases xs) (auto simp: dll_def)
  ultimately show ?thesis using assms walk_links [of m xs h fuel] by (auto simp: dll_def)
qed

lemma links_cong:
  "\<forall>a \<in> set xs. nxt m' a = nxt m a \<and> prv m' a = prv m a \<Longrightarrow> links m' xs = links m xs"
  by (induction m xs rule: links.induct) auto

text \<open>Operations on one ring leave a ring with other nodes as it is.\<close>

lemma links_mem: "links m (A @ q # e # p # B) \<Longrightarrow> prv m e = q \<and> nxt m e = p"
  using links_append [of m A q "e # p # B"] by auto

lemma dll_frame_del:
  assumes d: "dll m h (xs @ e # ys)" and o: "dll m h' zs"
    and dis: "set (h # xs @ e # ys) \<inter> set (h' # zs) = {}"
  shows "dll (list_del e m) h' zs"
proof -
  obtain A q where Aq: "h # xs = A @ [q]" using dll_chain_tail [of h xs] by blast
  obtain p B where pB: "ys @ [h] = p # B" by (cases "ys @ [h]") auto
  have ch: "h # (xs @ e # ys) @ [h] = A @ q # e # p # B" using Aq pB by simp
  have "prv m e = q \<and> nxt m e = p" using d links_mem unfolding dll_def ch by blast
  moreover have "q \<in> set (h # xs)" using Aq by simp
  moreover have "p \<in> set (ys @ [h])" using pB by simp
  ultimately have "links (list_del e m) (h' # zs @ [h']) = links m (h' # zs @ [h'])"
    using dis by (intro links_cong) (auto simp: list_del_def Let_def)
  then show ?thesis using o by (simp add: dll_def)
qed

end
