(* ===== verification/Skbuff.thy ===== *)
theory Skbuff
  imports Headers List_H
begin

text \<open>
  The packet buffers of \<open>include/skbuff.h\<close> and \<open>src/skbuff.c\<close>.  A buffer owns the bytes
  \<open>b_mem\<close> between \<open>head\<close> and \<open>end\<close>; the pointers \<open>data\<close> and \<open>payload\<close> are offsets from
  \<open>head\<close>, integers because \<open>skb_push\<close> subtracts without a check.  The queues are given twice:
  as the code has them, a ring of \<open>list.h\<close> with a length counter, and as the lists of buffer
  names the TCP theories use; both satisfy the contract \<open>skb_fifo\<close>, so the second is an
  abstraction of the first.
\<close>

record sk_buff =
  b_mem :: bytes
  b_rt :: "rtentry option"
  b_dev :: "netdev option"
  b_refcnt :: int
  b_protocol :: u16
  b_len :: u32
  b_dlen :: u32
  b_seq :: u32
  b_end_seq :: u32
  b_data :: int
  b_payload :: int

definition new_skb :: "nat \<Rightarrow> sk_buff" where
  "new_skb sz =
     \<lparr>b_mem = replicate sz 0, b_rt = None, b_dev = None, b_refcnt = 0, b_protocol = 0, b_len = 0,
      b_dlen = 0, b_seq = 0, b_end_seq = 0, b_data = 0, b_payload = 0\<rparr>"

definition skb_reserve :: "nat \<Rightarrow> sk_buff \<Rightarrow> sk_buff" where
  "skb_reserve len skb = skb\<lparr>b_data := b_data skb + int len\<rparr>"

definition skb_push :: "nat \<Rightarrow> sk_buff \<Rightarrow> sk_buff" where
  "skb_push len skb = skb\<lparr>b_data := b_data skb - int len, b_len := b_len skb + of_nat len\<rparr>"

definition skb_reset_header :: "sk_buff \<Rightarrow> sk_buff" where
  "skb_reset_header skb =
     skb\<lparr>b_data := int (length (b_mem skb)) - int (unat (b_dlen skb)), b_len := b_dlen skb\<rparr>"

text \<open>
  The header accessors \<open>eth_hdr\<close>, \<open>arp_hdr\<close>, \<open>ip_hdr\<close>, \<open>tcp_hdr\<close> return pointers at fixed
  offsets from \<open>head\<close>.  Reading through the pointer is \<open>dec_\<close> of the bytes there, writing the
  fields back is a \<open>put_\<close>.
\<close>

definition ip_hdr :: "sk_buff \<Rightarrow> iphdr" where
  "ip_hdr skb = dec_iphdr (mread (b_mem skb) ETH_HDR_LEN 20)"

definition arp_hdr :: "sk_buff \<Rightarrow> arp_hdr" where
  "arp_hdr skb = dec_arp_hdr (mread (b_mem skb) ETH_HDR_LEN 8)"

definition arp_data :: "sk_buff \<Rightarrow> arp_ipv4" where
  "arp_data skb = dec_arp_ipv4 (mread (b_mem skb) (ETH_HDR_LEN + ARP_HDR_LEN) 20)"

definition tcp_hdr :: "sk_buff \<Rightarrow> tcphdr" where
  "tcp_hdr skb = dec_tcphdr (mread (b_mem skb) (ETH_HDR_LEN + IP_HDR_LEN) 20)"

definition put_bytes :: "nat \<Rightarrow> bytes \<Rightarrow> sk_buff \<Rightarrow> sk_buff" where
  "put_bytes off bs skb = skb\<lparr>b_mem := mwrite (b_mem skb) off bs\<rparr>"

abbreviation "put_ip_hdr h \<equiv> put_bytes 14 (enc_iphdr h)"
abbreviation "put_arp_hdr h \<equiv> put_bytes 14 (enc_arp_hdr h)"
abbreviation "put_arp_data d \<equiv> put_bytes 22 (enc_arp_ipv4 d)"
abbreviation "put_tcp_hdr h \<equiv> put_bytes 34 (enc_tcphdr h)"

lemma put_bytes_sel [simp]:
  "b_rt (put_bytes off bs k) = b_rt k" "b_dev (put_bytes off bs k) = b_dev k"
  "b_refcnt (put_bytes off bs k) = b_refcnt k" "b_protocol (put_bytes off bs k) = b_protocol k"
  "b_len (put_bytes off bs k) = b_len k" "b_dlen (put_bytes off bs k) = b_dlen k"
  "b_seq (put_bytes off bs k) = b_seq k" "b_end_seq (put_bytes off bs k) = b_end_seq k"
  "b_data (put_bytes off bs k) = b_data k" "b_payload (put_bytes off bs k) = b_payload k"
  "length (b_mem (put_bytes off bs k)) = length (b_mem k)"
  by (simp_all add: put_bytes_def)

lemma b_mem_put_bytes: "b_mem (put_bytes off bs k) = mwrite (b_mem k) off bs"
  by (simp add: put_bytes_def)

lemma skb_push_sel [simp]:
  "b_mem (skb_push n k) = b_mem k" "b_rt (skb_push n k) = b_rt k" "b_dev (skb_push n k) = b_dev k"
  "b_refcnt (skb_push n k) = b_refcnt k" "b_protocol (skb_push n k) = b_protocol k"
  "b_len (skb_push n k) = b_len k + of_nat n" "b_dlen (skb_push n k) = b_dlen k"
  "b_seq (skb_push n k) = b_seq k" "b_end_seq (skb_push n k) = b_end_seq k"
  "b_data (skb_push n k) = b_data k - int n" "b_payload (skb_push n k) = b_payload k"
  by (simp_all add: skb_push_def)

lemma tcp_hdr_put [simp]: "54 \<le> length (b_mem k) \<Longrightarrow> tcp_hdr (put_tcp_hdr h k) = h"
  by (simp add: tcp_hdr_def b_mem_put_bytes mem_simps enc_simps)

lemma ip_hdr_put [simp]: "34 \<le> length (b_mem k) \<Longrightarrow> ip_hdr (put_ip_hdr h k) = h"
  by (simp add: ip_hdr_def b_mem_put_bytes mem_simps enc_simps)

lemma tcp_hdr_put_ip [simp]: "tcp_hdr (put_ip_hdr h k) = tcp_hdr k"
  by (simp add: tcp_hdr_def b_mem_put_bytes mem_simps)

lemma tcp_hdr_put_low [simp]: "off + length bs \<le> 34 \<Longrightarrow> tcp_hdr (put_bytes off bs k) = tcp_hdr k"
  by (simp add: tcp_hdr_def b_mem_put_bytes mem_simps)

lemma tcp_hdr_put_high [simp]: "54 \<le> off \<Longrightarrow> tcp_hdr (put_bytes off bs k) = tcp_hdr k"
  by (simp add: tcp_hdr_def b_mem_put_bytes mem_simps)

lemma ip_hdr_put_high [simp]: "34 \<le> off \<Longrightarrow> ip_hdr (put_bytes off bs k) = ip_hdr k"
  by (simp add: ip_hdr_def b_mem_put_bytes mem_simps)

lemma hdr_push [simp]: "tcp_hdr (skb_push n k) = tcp_hdr k" "ip_hdr (skb_push n k) = ip_hdr k"
  by (simp_all add: tcp_hdr_def ip_hdr_def)

subsection \<open>Queues\<close>

record sk_buff_head =
  q_head :: nat
  q_len :: u32

type_synonym ring_queue = "list_mem \<times> sk_buff_head"

definition skb_queue_len :: "ring_queue \<Rightarrow> u32" where
  "skb_queue_len q = q_len (snd q)"

definition skb_queue_init :: "ring_queue \<Rightarrow> ring_queue" where
  "skb_queue_init q = (list_init (q_head (snd q)) (fst q), (snd q)\<lparr>q_len := 0\<rparr>)"

definition skb_queue_add :: "nat \<Rightarrow> nat \<Rightarrow> ring_queue \<Rightarrow> ring_queue" where
  "skb_queue_add new next q =
     (list_add_tail new next (fst q), (snd q)\<lparr>q_len := q_len (snd q) + 1\<rparr>)"

definition skb_queue_tail :: "nat \<Rightarrow> ring_queue \<Rightarrow> ring_queue" where
  "skb_queue_tail new q =
     (list_add_tail new (q_head (snd q)) (fst q), (snd q)\<lparr>q_len := q_len (snd q) + 1\<rparr>)"

definition skb_dequeue :: "ring_queue \<Rightarrow> nat \<times> ring_queue" where
  "skb_dequeue q =
     (let skb = nxt (fst q) (q_head (snd q))
      in (skb, (list_del skb (fst q), (snd q)\<lparr>q_len := q_len (snd q) - 1\<rparr>)))"

definition skb_queue_empty :: "ring_queue \<Rightarrow> bool" where
  "skb_queue_empty q \<longleftrightarrow> skb_queue_len q < 1"

definition skb_peek :: "ring_queue \<Rightarrow> nat option" where
  "skb_peek q = (if skb_queue_empty q then None else Some (nxt (fst q) (q_head (snd q))))"

text \<open>The contract of a queue of buffers, in terms of the list of its elements.\<close>

locale skb_fifo =
  fixes items :: "'q \<Rightarrow> nat list"
    and good :: "'q \<Rightarrow> bool"
    and fresh :: "'q \<Rightarrow> nat \<Rightarrow> bool"
    and add :: "nat \<Rightarrow> nat \<Rightarrow> 'q \<Rightarrow> 'q"
    and tail :: "nat \<Rightarrow> 'q \<Rightarrow> 'q"
    and deq :: "'q \<Rightarrow> nat \<times> 'q"
    and peek :: "'q \<Rightarrow> nat option"
  assumes add_law: "good q \<Longrightarrow> fresh q n \<Longrightarrow> items q = xs @ y # ys \<Longrightarrow>
      good (add n y q) \<and> items (add n y q) = xs @ n # y # ys"
    and tail_law: "good q \<Longrightarrow> fresh q n \<Longrightarrow> good (tail n q) \<and> items (tail n q) = items q @ [n]"
    and deq_law: "good q \<Longrightarrow> items q = x # xs \<Longrightarrow>
      fst (deq q) = x \<and> good (snd (deq q)) \<and> items (snd (deq q)) = xs"
    and peek_law: "good q \<Longrightarrow> peek q = (case items q of [] \<Rightarrow> None | x # _ \<Rightarrow> Some x)"
begin

text \<open>The loop of \<open>skb_queue_free\<close>: dequeue while there is a first element.\<close>

lemma drain:
  "good q \<Longrightarrow> n \<le> length (items q) \<Longrightarrow>
     good (((\<lambda>q. snd (deq q)) ^^ n) q) \<and> items (((\<lambda>q. snd (deq q)) ^^ n) q) = drop n (items q)"
proof (induction n)
  case 0
  then show ?case by simp
next
  case (Suc n)
  let ?q = "((\<lambda>q. snd (deq q)) ^^ n) q"
  have IH: "good ?q" "items ?q = drop n (items q)" using Suc by auto
  have "items ?q = items q ! n # drop (Suc n) (items q)"
    using IH(2) Suc.prems(2) by (simp add: Cons_nth_drop_Suc)
  then show ?case using deq_law [OF IH(1)] by simp
qed

lemma drained:
  "good q \<Longrightarrow> peek (((\<lambda>q. snd (deq q)) ^^ length (items q)) q) = None"
  using drain [of q "length (items q)"] peek_law by simp

end

text \<open>The ring of \<open>list.h\<close> with its counter meets the contract.\<close>

definition ring_items :: "ring_queue \<Rightarrow> nat list" where
  "ring_items q =
     (let h = q_head (snd q)
      in case list_for_each (Suc (unat (q_len (snd q)))) (nxt (fst q) h) h (fst q) of
           Some xs \<Rightarrow> xs | None \<Rightarrow> [])"

definition ring_good :: "ring_queue \<Rightarrow> bool" where
  "ring_good q \<longleftrightarrow> dll (fst q) (q_head (snd q)) (ring_items q)
     \<and> unat (q_len (snd q)) = length (ring_items q)"

definition ring_fresh :: "ring_queue \<Rightarrow> nat \<Rightarrow> bool" where
  "ring_fresh q n \<longleftrightarrow> n \<notin> set (q_head (snd q) # ring_items q) \<and> q_len (snd q) \<noteq> - 1"

lemma ring_goodI:
  assumes "dll (fst q) (q_head (snd q)) xs" and "unat (q_len (snd q)) = length xs"
  shows "ring_good q \<and> ring_items q = xs"
proof -
  have "ring_items q = xs"
    using dll_for_each [OF assms(1), of "Suc (length xs)"] assms(2)
    by (simp add: ring_items_def Let_def del: list_for_each.simps)
  then show ?thesis using assms by (simp add: ring_good_def)
qed

lemma unat_Suc_u32: "(x :: u32) \<noteq> - 1 \<Longrightarrow> unat (x + 1) = Suc (unat x)"
  by (metis add.commute eq_neg_iff_add_eq_0 unatSuc)

lemma ring_init: "ring_good (skb_queue_init q) \<and> ring_items (skb_queue_init q) = []"
  by (rule ring_goodI) (simp_all add: skb_queue_init_def dll_init)

lemma ring_tail:
  assumes "ring_good q" and "ring_fresh q n"
  shows "ring_good (skb_queue_tail n q) \<and> ring_items (skb_queue_tail n q) = ring_items q @ [n]"
  using assms
  by (intro ring_goodI) (simp_all add: skb_queue_tail_def ring_good_def ring_fresh_def dll_add_tail unat_Suc_u32)

lemma ring_add:
  assumes "ring_good q" and "ring_fresh q n" and "ring_items q = xs @ y # ys"
  shows "ring_good (skb_queue_add n y q) \<and> ring_items (skb_queue_add n y q) = xs @ n # y # ys"
  using assms
  by (intro ring_goodI) (simp_all add: skb_queue_add_def ring_good_def ring_fresh_def dll_add_before unat_Suc_u32)

lemma ring_first: "ring_good q \<Longrightarrow> ring_items q = x # xs \<Longrightarrow> nxt (fst q) (q_head (snd q)) = x"
  by (auto simp: ring_good_def dll_def)

lemma ring_deq:
  assumes g: "ring_good q" and i: "ring_items q = x # xs"
  shows "fst (skb_dequeue q) = x \<and> ring_good (snd (skb_dequeue q)) \<and> ring_items (snd (skb_dequeue q)) = xs"
proof -
  have n: "nxt (fst q) (q_head (snd q)) = x" using g i by (rule ring_first)
  have "dll (list_del x (fst q)) (q_head (snd q)) xs"
    using g i dll_del [of "fst q" "q_head (snd q)" "[]" x xs] by (simp add: ring_good_def)
  moreover have "unat (q_len (snd q) - 1) = length xs"
  proof -
    have "unat (q_len (snd q)) = Suc (length xs)" using g i by (simp add: ring_good_def)
    moreover from this have "q_len (snd q) \<noteq> 0" by auto
    ultimately show ?thesis by (simp add: unat_minus_one)
  qed
  ultimately have "ring_good (snd (skb_dequeue q)) \<and> ring_items (snd (skb_dequeue q)) = xs"
    by (intro ring_goodI) (simp_all add: skb_dequeue_def Let_def n)
  then show ?thesis by (simp add: skb_dequeue_def Let_def n)
qed

lemma ring_empty: "ring_good q \<Longrightarrow> skb_queue_empty q \<longleftrightarrow> ring_items q = []"
  by (auto simp: skb_queue_empty_def skb_queue_len_def ring_good_def word_less_nat_alt)

lemma ring_peek:
  "ring_good q \<Longrightarrow> skb_peek q = (case ring_items q of [] \<Rightarrow> None | x # _ \<Rightarrow> Some x)"
  by (auto simp: skb_peek_def ring_empty ring_first split: list.split)

interpretation ring: skb_fifo ring_items ring_good ring_fresh skb_queue_add skb_queue_tail skb_dequeue skb_peek
  by unfold_locales (use ring_add ring_tail ring_deq ring_peek in blast)+

text \<open>
  The abstraction the TCP theories use: a queue is the list of the names of its buffers.
\<close>

definition q_tail :: "nat \<Rightarrow> nat list \<Rightarrow> nat list" where
  "q_tail n xs = xs @ [n]"

fun q_add :: "nat \<Rightarrow> nat \<Rightarrow> nat list \<Rightarrow> nat list" where
  "q_add n y [] = []"
| "q_add n y (x # xs) = (if x = y then n # x # xs else x # q_add n y xs)"

definition q_dequeue :: "nat list \<Rightarrow> nat \<times> nat list" where
  "q_dequeue xs = (hd xs, tl xs)"

definition q_peek :: "nat list \<Rightarrow> nat option" where
  "q_peek xs = (case xs of [] \<Rightarrow> None | x # _ \<Rightarrow> Some x)"

lemma q_add_split: "distinct (xs @ y # ys) \<Longrightarrow> q_add n y (xs @ y # ys) = xs @ n # y # ys"
  by (induction xs) auto

interpretation absq: skb_fifo "\<lambda>xs. xs" distinct "\<lambda>xs n. n \<notin> set xs" q_add q_tail q_dequeue q_peek
  by unfold_locales (auto simp: q_tail_def q_add_split q_dequeue_def q_peek_def split: list.split)

text \<open>Running both side by side, every operation of the ring is the operation on its list.\<close>

lemma ring_refines_list:
  assumes "ring_good q"
  shows "ring_fresh q n \<Longrightarrow> ring_items (skb_queue_tail n q) = q_tail n (ring_items q)"
    and "ring_fresh q n \<Longrightarrow> y \<in> set (ring_items q) \<Longrightarrow>
           ring_items (skb_queue_add n y q) = q_add n y (ring_items q)"
    and "ring_items q \<noteq> [] \<Longrightarrow>
           (fst (skb_dequeue q), ring_items (snd (skb_dequeue q))) = q_dequeue (ring_items q)"
    and "skb_peek q = q_peek (ring_items q)"
proof -
  show "ring_fresh q n \<Longrightarrow> ring_items (skb_queue_tail n q) = q_tail n (ring_items q)"
    using assms ring.tail_law by (simp add: q_tail_def)
  show "skb_peek q = q_peek (ring_items q)"
    using assms by (simp add: ring.peek_law q_peek_def)
  show "(fst (skb_dequeue q), ring_items (snd (skb_dequeue q))) = q_dequeue (ring_items q)"
    if "ring_items q \<noteq> []"
    using assms that ring.deq_law [of q "hd (ring_items q)" "tl (ring_items q)"]
    by (simp add: q_dequeue_def)
  show "ring_items (skb_queue_add n y q) = q_add n y (ring_items q)"
    if f: "ring_fresh q n" and y: "y \<in> set (ring_items q)"
  proof -
    obtain xs ys where xy: "ring_items q = xs @ y # ys" using y by (meson split_list)
    have "distinct (ring_items q)" using assms by (simp add: ring_good_def dll_def)
    then show ?thesis using ring.add_law [OF assms f xy] by (simp add: xy q_add_split)
  qed
qed

end
