(* ===== verification/Utils.thy ===== *)
theory Utils
  imports Prelude
begin

unbundle bit_operations_syntax

text \<open>
  The helpers of \<open>src/utils.c\<close> and of \<open>include/utils.h\<close>: the Internet checksum
  (\<open>sum_every_16bits\<close>, \<open>checksum\<close>), \<open>parse_ipv4_string\<close> and \<open>min\<close>.  A byte list stands for
  the \<open>count\<close> bytes at the address the C function receives.  The lemmas characterise
  the checksum by the sum of the 16 bit words modulo \<open>2 ^ 16 - 1\<close> and show that writing the
  computed value into the checksum field makes the region verify.
\<close>

subsection \<open>The code\<close>

fun sum_loop :: "u32 \<Rightarrow> bytes \<Rightarrow> u32" where
  "sum_loop s (a # b # rest) = sum_loop (s + ucast (of_le16 a b)) rest"
| "sum_loop s [a] = s + ucast a"
| "sum_loop s [] = s"

definition sum_every_16bits :: "bytes \<Rightarrow> u32" where
  "sum_every_16bits addr = sum_loop 0 addr"

lemma unat_low16: "unat ((s :: u32) AND 0xffff) = unat s mod 65536"
proof -
  have "s AND 0xffff = take_bit 16 s"
    by (simp add: take_bit_eq_mask mask_eq_exp_minus_1)
  then have "unat (s AND 0xffff) = take_bit 16 (unat s)"
    by (simp only: unsigned_take_bit_eq)
  then show ?thesis by (simp add: take_bit_eq_mod)
qed

lemma unat_high16: "unat (drop_bit 16 (s :: u32)) = unat s div 65536"
proof -
  have "unat (drop_bit 16 s) = drop_bit 16 (unat s)" by (rule unat_drop_bit_eq)
  then show ?thesis by (simp add: drop_bit_eq_div)
qed

lemma unat_fold_step:
  "unat (((s :: u32) AND 0xffff) + drop_bit 16 s) = unat s mod 65536 + unat s div 65536"
proof -
  have "unat s < 4294967296" using unsigned_less [of s] by simp
  then have "unat s mod 65536 + unat s div 65536 < 4294967296" by linarith
  then show ?thesis by (simp add: unat_word_ariths unat_low16 unat_high16)
qed

lemma fold_decreases:
  assumes "drop_bit 16 (s :: u32) \<noteq> 0"
  shows "unat ((s AND 0xffff) + drop_bit 16 s) < unat s"
proof -
  have "unat s div 65536 \<noteq> 0"
    using assms by (metis unat_high16 unat_eq_zero)
  moreover have "unat s mod 65536 + unat s div 65536 * 65536 = unat s"
    by (rule mod_div_mult_eq)
  ultimately show ?thesis unfolding unat_fold_step by linarith
qed

function fold_sum :: "u32 \<Rightarrow> u32" where
  "fold_sum s = (if drop_bit 16 s \<noteq> 0 then fold_sum ((s AND 0xffff) + drop_bit 16 s) else s)"
  by pat_completeness auto
termination
  by (relation "measure unat") (use fold_decreases in auto)

declare fold_sum.simps [simp del]

definition checksum :: "bytes \<Rightarrow> u32 \<Rightarrow> u16" where
  "checksum addr start_sum = NOT (ucast (fold_sum (start_sum + sum_every_16bits addr)))"

definition min_u32 :: "u32 \<Rightarrow> u32 \<Rightarrow> u32" where
  "min_u32 x y = (if y < x then y else x)"

text \<open>
  \<open>sscanf (addr, "%hhu.%hhu.%hhu.%hhu")\<close>: a decimal number, stored modulo 256, then a dot.
  When a conversion fails the C code reads uninitialised bytes; the model returns \<open>None\<close>.
  Only plain digit strings are scanned (no sign, no leading blank), which is what the one
  call site passes.
\<close>

definition is_digit :: "char \<Rightarrow> bool" where
  "is_digit c \<longleftrightarrow> 48 \<le> (of_char c :: nat) \<and> (of_char c :: nat) \<le> 57"

fun scan_digits :: "nat \<Rightarrow> string \<Rightarrow> nat \<times> string" where
  "scan_digits n [] = (n, [])"
| "scan_digits n (c # cs) =
     (if is_digit c then scan_digits (10 * n + (of_char c - 48)) cs else (n, c # cs))"

definition scan_hhu :: "string \<Rightarrow> (u8 \<times> string) option" where
  "scan_hhu cs =
     (case cs of [] \<Rightarrow> None
      | c # _ \<Rightarrow> if is_digit c
                 then (case scan_digits 0 cs of (n, rest) \<Rightarrow> Some (of_nat n, rest)) else None)"

fun scan_dot :: "string \<Rightarrow> string option" where
  "scan_dot (c # cs) = (if c = CHR ''.'' then Some cs else None)"
| "scan_dot [] = None"

definition parse_ipv4_string :: "string \<Rightarrow> u32 option" where
  "parse_ipv4_string addr =
     Option.bind (scan_hhu addr) (\<lambda>(b3, r).
     Option.bind (scan_dot r) (\<lambda>r.
     Option.bind (scan_hhu r) (\<lambda>(b2, r).
     Option.bind (scan_dot r) (\<lambda>r.
     Option.bind (scan_hhu r) (\<lambda>(b1, r).
     Option.bind (scan_dot r) (\<lambda>r.
     Option.bind (scan_hhu r) (\<lambda>(b0, r).
       Some (of_le32 b0 b1 b2 b3))))))))"

subsection \<open>The sum of a region and its folding\<close>

fun wsum :: "bytes \<Rightarrow> nat" where
  "wsum (a # b # rest) = unat a + 256 * unat b + wsum rest"
| "wsum [a] = unat a"
| "wsum [] = 0"

lemma wsum_bound: "wsum bs \<le> 65535 * ((length bs + 1) div 2)"
proof (induction bs rule: wsum.induct)
  case (1 a b rest)
  have "unat a < 256" "unat b < 256"
    using unsigned_less [of a] unsigned_less [of b] by simp_all
  then show ?case using 1 by simp
next
  case (2 a)
  have "unat a < 256" using unsigned_less [of a] by simp
  then show ?case by simp
qed simp

lemma unat_sum_loop:
  "unat s + wsum bs < 2 ^ 32 \<Longrightarrow> unat (sum_loop s bs) = unat s + wsum bs"
proof (induction s bs rule: sum_loop.induct)
  case (1 s a b rest)
  have step: "unat (s + ucast (of_le16 a b)) = unat s + unat a + 256 * unat b"
    using 1(2) by (simp add: unat_word_ariths unsigned_ucast_eq take_bit_eq_mod unat_of_le16)
  then show ?case using 1 by simp
next
  case (2 s a)
  then show ?case by (simp add: unat_word_ariths unsigned_ucast_eq take_bit_eq_mod)
qed simp

lemma unat_sum_every_16bits:
  "wsum bs < 2 ^ 32 \<Longrightarrow> unat (sum_every_16bits bs) = wsum bs"
  by (simp add: sum_every_16bits_def unat_sum_loop)

lemma wsum_append: "even (length xs) \<Longrightarrow> wsum (xs @ ys) = wsum xs + wsum ys"
  by (induction xs rule: wsum.induct) auto

lemma wsum_le16 [simp]: "wsum (le16 v @ ys) = unat v + wsum ys"
proof -
  have "unat (of_le16 (ucast v) (ucast (drop_bit 8 v))) = unat v"
    by (simp add: of_le16_le16)
  then show ?thesis by (simp add: le16_def unat_of_le16)
qed

lemma fold_sum_spec:
  "unat (fold_sum s) \<le> 65535 \<and> unat (fold_sum s) mod 65535 = unat s mod 65535
     \<and> (fold_sum s = 0 \<longleftrightarrow> s = 0)"
proof (induction s rule: fold_sum.induct)
  case (1 s)
  show ?case
  proof (cases "drop_bit 16 s = 0")
    case True
    have "unat s div 65536 = 0"
      using True by (metis unat_high16 unat_0)
    then have "unat s \<le> 65535" by linarith
    with True show ?thesis by (simp add: fold_sum.simps [of s])
  next
    case False
    let ?t = "(s AND 0xffff) + drop_bit 16 s"
    have ut: "unat ?t = unat s mod 65536 + unat s div 65536" by (rule unat_fold_step)
    have "unat s = unat s mod 65536 + unat s div 65536 + 65535 * (unat s div 65536)"
      using mod_div_mult_eq [of "unat s" 65536] by linarith
    then have "unat s mod 65535 = (unat s mod 65536 + unat s div 65536) mod 65535"
      by (metis mod_mult_self2)
    then have m: "unat ?t mod 65535 = unat s mod 65535" unfolding ut by (rule sym)
    have "unat s div 65536 \<noteq> 0" using False by (metis unat_high16 unat_eq_zero)
    then have nz: "?t \<noteq> 0" "s \<noteq> 0" using ut by (auto simp flip: unat_eq_zero)
    show ?thesis
      using 1 [OF False] m nz False by (simp add: fold_sum.simps [of s])
  qed
qed

lemmas fold_sum_le = fold_sum_spec [THEN conjunct1]
lemmas fold_sum_mod = fold_sum_spec [THEN conjunct2, THEN conjunct1]
lemmas fold_sum_0 = fold_sum_spec [THEN conjunct2, THEN conjunct2]

lemma unat_not_u16: "unat (NOT x :: u16) = 65535 - unat x"
proof -
  have "NOT x = - 1 - x" by (simp add: not_eq_complement)
  moreover have "unat (- 1 - x) = unat (- 1 :: u16) - unat x"
    by (rule unat_sub) simp
  moreover have "unat (- 1 :: u16) = 65535"
    by (simp add: unsigned_minus_1_eq_mask mask_eq_exp_minus_1)
  ultimately show ?thesis by simp
qed

lemma unat_checksum:
  "unat (checksum bs st) = 65535 - unat (fold_sum (st + sum_every_16bits bs))"
proof -
  let ?f = "fold_sum (st + sum_every_16bits bs)"
  have "unat (ucast ?f :: u16) = unat ?f"
    using fold_sum_le [of "st + sum_every_16bits bs"]
    by (simp add: unsigned_ucast_eq take_bit_eq_mod)
  then show ?thesis
    unfolding checksum_def by (simp add: unat_not_u16)
qed

lemma checksum_0_iff:
  "checksum bs st = 0 \<longleftrightarrow>
     st + sum_every_16bits bs \<noteq> 0 \<and> unat (st + sum_every_16bits bs) mod 65535 = 0"
proof -
  let ?s = "st + sum_every_16bits bs"
  have "checksum bs st = 0 \<longleftrightarrow> unat (fold_sum ?s) = 65535"
    using unat_checksum [of bs st] fold_sum_le [of ?s] by (auto simp flip: unat_eq_zero)
  also have "\<dots> \<longleftrightarrow> unat (fold_sum ?s) \<noteq> 0 \<and> unat (fold_sum ?s) mod 65535 = 0"
    using fold_sum_le [of ?s] by (cases "unat (fold_sum ?s) < 65535") auto
  finally show ?thesis
    using fold_sum_mod [of ?s] fold_sum_0 [of ?s] by (simp add: unat_eq_zero)
qed

text \<open>
  Writing the checksum of a region whose checksum field is zero into that field makes the
  region verify, when the sum does not exceed 32 bits.
\<close>

lemma checksum_fill:
  assumes even: "even (length pre)"
    and bound: "unat st + wsum (pre @ le16 0 @ post) + 65535 < 2 ^ 32"
  shows "checksum (pre @ le16 (checksum (pre @ le16 0 @ post) st) @ post) st = 0"
proof -
  let ?S = "pre @ le16 0 @ post"
  let ?c = "checksum ?S st"
  let ?T = "pre @ le16 ?c @ post"
  let ?s = "unat st + wsum ?S"
  have wT: "wsum ?T = wsum ?S + unat ?c"
    using even by (simp add: wsum_append)
  have cb: "unat ?c \<le> 65535"
    using unat_u16_less [of ?c] by simp
  have sS: "unat (st + sum_every_16bits ?S) = ?s"
    using bound by (simp add: unat_word_ariths unat_sum_every_16bits)
  have sT: "unat (st + sum_every_16bits ?T) = ?s + unat ?c"
    using bound cb wT by (simp add: unat_word_ariths unat_sum_every_16bits)
  let ?f = "unat (fold_sum (st + sum_every_16bits ?S))"
  have f1: "?f \<le> 65535" by (rule fold_sum_le)
  have f2: "?f mod 65535 = ?s mod 65535"
    using fold_sum_mod [of "st + sum_every_16bits ?S"] sS by (simp only:)
  have "?f = 0 \<longleftrightarrow> st + sum_every_16bits ?S = 0"
    using fold_sum_0 unat_eq_zero by blast
  then have f3: "?f = 0 \<longleftrightarrow> ?s = 0" using sS unat_eq_zero by metis
  have c: "unat ?c = 65535 - ?f" by (rule unat_checksum)
  have "(?s + unat ?c) mod 65535 = (?f + unat ?c) mod 65535"
    by (rule mod_add_cong) (simp_all add: f2)
  also have "\<dots> = 0" using c f1 by simp
  finally have "(?s + unat ?c) mod 65535 = 0" .
  moreover have "?s + unat ?c \<noteq> 0" using c f1 f3 by auto
  ultimately have "unat (st + sum_every_16bits ?T) mod 65535 = 0"
    and "st + sum_every_16bits ?T \<noteq> 0"
    using sT unat_eq_zero by metis+
  then show ?thesis by (simp only: checksum_0_iff) simp
qed

end
