(* ===== verification/Stack.thy ===== *)
theory Stack
  imports Skbuff Utils
begin

unbundle bit_operations_syntax

text \<open>
  The state the stack's threads share: the clock and the timer list of \<open>src/timer.c\<close>, the
  heap of packet buffers, the ARP cache of \<open>src/arp.c\<close>, the routing table of \<open>src/route.c\<close>,
  the two devices of \<open>src/netdev.c\<close> and the tap descriptor of \<open>src/tuntap_if.c\<close> (the frames
  written to it, and the result \<open>write(2)\<close> gives for a frame, which is the kernel's).
  \<open>s_fault\<close> becomes true, and stays so, when a step reads a buffer that was freed, frees one
  twice, follows a NULL pointer or leaves the bytes of a buffer: what the C code does from
  there on is undefined.  The record is extensible: per connection code works on an extension
  of it.
\<close>

datatype handler = H_connect_rto | H_retransmission_timeout | H_send_delack | H_linger
  | H_user_timeout | H_garbage_collect

record timer =
  t_id :: nat
  t_refcnt :: int
  t_expires :: u32
  t_cancelled :: bool
  t_handler :: handler
  t_arg :: nat

record arp_cache_entry =
  ae_hwtype :: u16
  ae_sip :: u32
  ae_smac :: bytes
  ae_state :: nat

record stack =
  s_tick :: u32
  s_timers :: "timer list"
  s_tnext :: nat
  s_threads :: "(handler \<times> nat) list"
  s_skbs :: "nat \<Rightarrow> sk_buff option"
  s_bnext :: nat
  s_arp_cache :: "arp_cache_entry list"
  s_routes :: "rtentry list"
  s_loop :: netdev
  s_netdev :: netdev
  s_tap :: "bytes list"
  s_write :: "bytes \<Rightarrow> int"
  s_fault :: bool

definition check :: "bool \<Rightarrow> 'a stack_scheme \<Rightarrow> 'a stack_scheme" where
  "check c s = (if c then s else s\<lparr>s_fault := True\<rparr>)"

lemma check_True [simp]: "check True s = s"
  by (simp add: check_def)

lemma check_sel [simp]:
  "s_tick (check c s) = s_tick s" "s_timers (check c s) = s_timers s" "s_tnext (check c s) = s_tnext s"
  "s_threads (check c s) = s_threads s" "s_skbs (check c s) = s_skbs s" "s_bnext (check c s) = s_bnext s"
  "s_arp_cache (check c s) = s_arp_cache s" "s_routes (check c s) = s_routes s"
  "s_loop (check c s) = s_loop s" "s_netdev (check c s) = s_netdev s" "s_tap (check c s) = s_tap s"
  "s_write (check c s) = s_write s" "s_fault (check c s) = (s_fault s \<or> \<not> c)"
  "stack.more (check c s) = stack.more s"
  by (simp_all add: check_def)

subsection \<open>The heap of buffers\<close>

definition deref :: "nat \<Rightarrow> 'a stack_scheme \<Rightarrow> sk_buff" where
  "deref b s = (case s_skbs s b of Some k \<Rightarrow> k | None \<Rightarrow> new_skb 0)"

definition live :: "nat \<Rightarrow> 'a stack_scheme \<Rightarrow> bool" where
  "live b s \<longleftrightarrow> s_skbs s b \<noteq> None"

definition touch :: "nat \<Rightarrow> 'a stack_scheme \<Rightarrow> 'a stack_scheme" where
  "touch b s = check (live b s) s"

definition put_skb :: "nat \<Rightarrow> sk_buff \<Rightarrow> 'a stack_scheme \<Rightarrow> 'a stack_scheme" where
  "put_skb b k s = (if live b s then s\<lparr>s_skbs := (s_skbs s)(b \<mapsto> k)\<rparr> else check False s)"

definition alloc_skb :: "nat \<Rightarrow> 'a stack_scheme \<Rightarrow> nat \<times> 'a stack_scheme" where
  "alloc_skb sz s =
     (s_bnext s, s\<lparr>s_skbs := (s_skbs s)(s_bnext s \<mapsto> new_skb sz), s_bnext := Suc (s_bnext s)\<rparr>)"

definition free_skb :: "nat \<Rightarrow> 'a stack_scheme \<Rightarrow> 'a stack_scheme" where
  "free_skb b s =
     (let s = touch b s
      in if b_refcnt (deref b s) < 1 then s\<lparr>s_skbs := (s_skbs s)(b := None)\<rparr> else s)"

text \<open>\<open>skb_queue_free\<close> of a queue given as the list of its buffers.\<close>

fun skb_queue_free :: "nat list \<Rightarrow> 'a stack_scheme \<Rightarrow> 'a stack_scheme" where
  "skb_queue_free [] s = s"
| "skb_queue_free (b # bs) s =
     (let k = deref b s;
          s = put_skb b (k\<lparr>b_refcnt := b_refcnt k - 1\<rparr>) s
      in skb_queue_free bs (free_skb b s))"

text \<open>Names not yet handed out by \<open>malloc\<close> are not in use.\<close>

definition heap_ok :: "'a stack_scheme \<Rightarrow> bool" where
  "heap_ok s \<longleftrightarrow> (\<forall>b. live b s \<longrightarrow> b < s_bnext s)"

subsection \<open>The tap device\<close>

definition tun_write :: "nat \<Rightarrow> int \<Rightarrow> nat \<Rightarrow> 'a stack_scheme \<Rightarrow> int \<times> 'a stack_scheme" where
  "tun_write b data len s =
     (let m = b_mem (deref b s);
          s = check (in_region m data len) s;
          frame = mread m (nat data) len
      in (s_write s frame, s\<lparr>s_tap := s_tap s @ [frame]\<rparr>))"

subsection \<open>Facts about the heap\<close>

lemma live_check [simp]: "live b (check c s) = live b s"
  by (simp add: live_def)

lemma deref_check [simp]: "deref b (check c s) = deref b s"
  by (simp add: deref_def)

lemma touch_live [simp]: "live b s \<Longrightarrow> touch b s = s"
  by (simp add: touch_def)

lemma put_skb_sel [simp]:
  "s_tick (put_skb b k s) = s_tick s" "s_timers (put_skb b k s) = s_timers s"
  "s_tnext (put_skb b k s) = s_tnext s" "s_threads (put_skb b k s) = s_threads s"
  "s_bnext (put_skb b k s) = s_bnext s" "s_arp_cache (put_skb b k s) = s_arp_cache s"
  "s_routes (put_skb b k s) = s_routes s" "s_loop (put_skb b k s) = s_loop s"
  "s_netdev (put_skb b k s) = s_netdev s" "s_tap (put_skb b k s) = s_tap s"
  "s_write (put_skb b k s) = s_write s" "s_fault (put_skb b k s) = (s_fault s \<or> \<not> live b s)"
  "stack.more (put_skb b k s) = stack.more s"
  by (simp_all add: put_skb_def)

lemma live_put_skb [simp]: "live b' (put_skb b k s) = live b' s"
  by (auto simp: put_skb_def live_def)

lemma s_skbs_put_skb: "live b s \<Longrightarrow> s_skbs (put_skb b k s) = (s_skbs s)(b \<mapsto> k)"
  by (simp add: put_skb_def)

lemma deref_put_skb [simp]:
  "live b s \<Longrightarrow> deref b (put_skb b k s) = k"
  "b' \<noteq> b \<Longrightarrow> deref b' (put_skb b k s) = deref b' s"
  by (auto simp: put_skb_def deref_def)

lemma put_skb_put_skb [simp]: "put_skb b k' (put_skb b k s) = put_skb b k' s"
  by (auto simp: put_skb_def check_def live_def)

lemma free_skb_live:
  "live b s \<Longrightarrow> free_skb b s =
     (if b_refcnt (deref b s) < 1 then s\<lparr>s_skbs := (s_skbs s)(b := None)\<rparr> else s)"
  by (simp add: free_skb_def)

lemma free_skb_sel [simp]:
  "s_tick (free_skb b s) = s_tick s" "s_timers (free_skb b s) = s_timers s"
  "s_tnext (free_skb b s) = s_tnext s" "s_threads (free_skb b s) = s_threads s"
  "s_bnext (free_skb b s) = s_bnext s" "s_arp_cache (free_skb b s) = s_arp_cache s"
  "s_routes (free_skb b s) = s_routes s" "s_loop (free_skb b s) = s_loop s"
  "s_netdev (free_skb b s) = s_netdev s" "s_tap (free_skb b s) = s_tap s"
  "s_write (free_skb b s) = s_write s" "s_fault (free_skb b s) = (s_fault s \<or> \<not> live b s)"
  "stack.more (free_skb b s) = stack.more s"
  by (simp_all add: free_skb_def touch_def Let_def)

lemma deref_free_skb [simp]: "b' \<noteq> b \<Longrightarrow> deref b' (free_skb b s) = deref b' s"
  by (simp add: free_skb_def touch_def Let_def deref_def)

lemma live_free_skb:
  "live b' (free_skb b s) \<longleftrightarrow> live b' s \<and> (b' \<noteq> b \<or> \<not> b_refcnt (deref b s) < 1)"
  by (auto simp: free_skb_def touch_def Let_def live_def)

lemma alloc_skb_sel:
  "alloc_skb sz s = (b, s') \<Longrightarrow> b = s_bnext s \<and> live b s' \<and> deref b s' = new_skb sz
     \<and> (\<forall>b'. b' \<noteq> b \<longrightarrow> s_skbs s' b' = s_skbs s b')"
  by (auto simp: alloc_skb_def live_def deref_def)

text \<open>A buffer allocated, worked on and freed with no reference left leaves the heap as it was.\<close>

lemma alloc_put_free:
  assumes "s_skbs s b = None" and "s_skbs s' = (s_skbs s)(b \<mapsto> k)" and "b_refcnt k < 1"
  shows "s_skbs (free_skb b s') = s_skbs s"
  using assms by (auto simp: free_skb_def touch_def Let_def deref_def live_def fun_eq_iff)

text \<open>Updates of the other fields do not touch the heap.\<close>

lemma live_field [simp]:
  "live b (s_tick_update f1 s) = live b s" "live b (s_timers_update f2 s) = live b s"
  "live b (s_tnext_update f3 s) = live b s" "live b (s_threads_update f4 s) = live b s"
  "live b (s_arp_cache_update f5 s) = live b s" "live b (s_tap_update f6 s) = live b s"
  "live b (s_routes_update f7 s) = live b s" "live b (s_fault_update f8 s) = live b s"
  by (simp_all add: live_def)

lemma deref_field [simp]:
  "deref b (s_tick_update f1 s) = deref b s" "deref b (s_timers_update f2 s) = deref b s"
  "deref b (s_tnext_update f3 s) = deref b s" "deref b (s_threads_update f4 s) = deref b s"
  "deref b (s_arp_cache_update f5 s) = deref b s" "deref b (s_tap_update f6 s) = deref b s"
  "deref b (s_routes_update f7 s) = deref b s" "deref b (s_fault_update f8 s) = deref b s"
  by (simp_all add: deref_def)

lemma heap_ok_field [simp]:
  "heap_ok (s_tick_update f1 s) = heap_ok s" "heap_ok (s_timers_update f2 s) = heap_ok s"
  "heap_ok (s_tnext_update f3 s) = heap_ok s" "heap_ok (s_threads_update f4 s) = heap_ok s"
  "heap_ok (s_arp_cache_update f5 s) = heap_ok s" "heap_ok (s_tap_update f6 s) = heap_ok s"
  "heap_ok (s_routes_update f7 s) = heap_ok s" "heap_ok (s_fault_update f8 s) = heap_ok s"
  by (simp_all add: heap_ok_def)

lemma heap_ok_check [simp]: "heap_ok (check c s) = heap_ok s"
  by (simp add: heap_ok_def)

lemma heap_ok_put_skb [simp]: "heap_ok (put_skb b k s) = heap_ok s"
  by (simp add: heap_ok_def)

lemma heap_ok_free_skb: "heap_ok s \<Longrightarrow> heap_ok (free_skb b s)"
  by (auto simp: heap_ok_def live_free_skb)

lemma heap_ok_alloc_skb: "heap_ok s \<Longrightarrow> heap_ok (snd (alloc_skb n s))"
  by (auto simp: heap_ok_def live_def alloc_skb_def less_Suc_eq split: if_splits)

lemma heap_ok_fresh: "heap_ok s \<Longrightarrow> \<not> live (s_bnext s) s"
  by (auto simp: heap_ok_def)

end
