(* ===== verification/Netdev.thy ===== *)
theory Netdev
  imports Stack
begin

unbundle bit_operations_syntax

text \<open>
  The devices of \<open>src/netdev.c\<close> and the transmit path down to the tap device.  The address
  parsers stand for \<open>inet_pton(AF_INET)\<close> and for \<open>sscanf\<close> with \<open>%hhx\<close> as far as the code uses
  them; where the C program exits or reads uninitialised bytes they give \<open>None\<close>.
\<close>

subsection \<open>Parsing addresses\<close>

definition digit_val :: "char \<Rightarrow> nat" where
  "digit_val c = of_char c - 48"

definition octet :: "string \<Rightarrow> (u8 \<times> string) option" where
  "octet cs =
     (let ds = takeWhile is_digit cs;
          v = foldl (\<lambda>n d. 10 * n + digit_val d) 0 ds
      in if ds \<noteq> [] \<and> v \<le> 255 \<and> (length ds = 1 \<or> digit_val (hd ds) \<noteq> 0)
         then Some (of_nat v, dropWhile is_digit cs) else None)"

definition ip_parse :: "string \<Rightarrow> u32 option" where
  "ip_parse addr =
     Option.bind (octet addr) (\<lambda>(a, r).
     Option.bind (scan_dot r) (\<lambda>r.
     Option.bind (octet r) (\<lambda>(b, r).
     Option.bind (scan_dot r) (\<lambda>r.
     Option.bind (octet r) (\<lambda>(c, r).
     Option.bind (scan_dot r) (\<lambda>r.
     Option.bind (octet r) (\<lambda>(d, r).
       if r = [] then Some (ntohl (of_le32 a b c d)) else None)))))))"

definition hex_val :: "char \<Rightarrow> nat option" where
  "hex_val c =
     (let n = of_char c in
      if 48 \<le> n \<and> n \<le> 57 then Some (n - 48)
      else if 97 \<le> n \<and> n \<le> 102 then Some (n - 87)
      else if 65 \<le> n \<and> n \<le> 70 then Some (n - 55) else None)"

fun scan_hex :: "nat \<Rightarrow> string \<Rightarrow> nat \<times> string" where
  "scan_hex n [] = (n, [])"
| "scan_hex n (c # cs) =
     (case hex_val c of Some d \<Rightarrow> scan_hex (16 * n + d) cs | None \<Rightarrow> (n, c # cs))"

fun scan_mac :: "nat \<Rightarrow> string \<Rightarrow> bytes option" where
  "scan_mac 0 cs = Some []"
| "scan_mac (Suc n) cs =
     (case cs of [] \<Rightarrow> None
      | c # _ \<Rightarrow>
        if hex_val c = None then None
        else (case scan_hex 0 cs of (v, rest) \<Rightarrow>
          if n = 0 then Some [of_nat v]
          else (case rest of [] \<Rightarrow> None
                | d # rest' \<Rightarrow> if d = CHR '':''
                              then map_option (Cons (of_nat v)) (scan_mac n rest') else None)))"

subsection \<open>The devices\<close>

definition netdev_alloc :: "string \<Rightarrow> string \<Rightarrow> u32 \<Rightarrow> netdev option" where
  "netdev_alloc addr hwaddr mtu =
     Option.bind (ip_parse addr) (\<lambda>a.
     Option.bind (scan_mac 6 hwaddr) (\<lambda>mac.
       Some \<lparr>nd_addr = a, nd_addr_len = 6, nd_hwaddr = mac, nd_mtu = mtu\<rparr>))"

definition netdev_init :: "'a stack_scheme \<Rightarrow> 'a stack_scheme option" where
  "netdev_init s =
     Option.bind (netdev_alloc ''127.0.0.1'' ''00:00:00:00:00:00'' 1500) (\<lambda>l.
     Option.bind (netdev_alloc ''10.0.0.4'' ''00:0c:29:6d:50:25'' 1500) (\<lambda>d.
       Some (s\<lparr>s_loop := l, s_netdev := d\<rparr>)))"

definition netdev_get :: "u32 \<Rightarrow> 'a stack_scheme \<Rightarrow> netdev option" where
  "netdev_get sip s = (if nd_addr (s_netdev s) = sip then Some (s_netdev s) else None)"

definition netdev_transmit :: "nat \<Rightarrow> bytes \<Rightarrow> u16 \<Rightarrow> 'a stack_scheme \<Rightarrow> int \<times> 'a stack_scheme" where
  "netdev_transmit b dst_hw ethertype s =
     (case b_dev (deref b s) of
        None \<Rightarrow> (0, check False s)
      | Some dev \<Rightarrow>
          let k = skb_push ETH_HDR_LEN (deref b s);
              s = check (in_region (b_mem k) (b_data k) 14) s;
              hdr = nat (b_data k);
              k = put_bytes hdr (take (unat (nd_addr_len dev)) dst_hw) k;
              k = put_bytes (hdr + 6) (take (unat (nd_addr_len dev)) (nd_hwaddr dev)) k;
              k = put_bytes (hdr + 12) (le16 (htons ethertype)) k;
              s = put_skb b k s
          in tun_write b (b_data k) (unat (b_len k)) s)"

text \<open>A device as \<open>netdev_alloc\<close> makes it.\<close>

definition netdev_ok :: "netdev \<Rightarrow> bool" where
  "netdev_ok d \<longleftrightarrow> nd_addr_len d = 6 \<and> length (nd_hwaddr d) = 6"

lemma length_scan_mac: "scan_mac n cs = Some m \<Longrightarrow> length m = n"
  by (induction n cs arbitrary: m rule: scan_mac.induct)
    (auto split: list.splits if_splits prod.splits option.splits)

lemma netdev_alloc_ok: "netdev_alloc addr hwaddr mtu = Some d \<Longrightarrow> netdev_ok d"
  by (auto simp: netdev_alloc_def netdev_ok_def bind_eq_Some_conv length_scan_mac)

subsection \<open>The frame a transmission writes\<close>

definition be16 :: "u16 \<Rightarrow> bytes" where "be16 v = le16 (htons v)"
definition be32 :: "u32 \<Rightarrow> bytes" where "be32 v = le32 (htonl v)"

lemma length_be [simp]: "length (be16 v) = 2" "length (be32 w) = 4"
  by (simp_all add: be16_def be32_def)

definition eth_frame :: "bytes \<Rightarrow> bytes \<Rightarrow> u16 \<Rightarrow> bytes \<Rightarrow> bytes" where
  "eth_frame dst src et payload = dst @ src @ be16 et @ payload"

lemma mwrite_eth:
  assumes "14 \<le> length m" and "length a = 6" and "length b = 6" and "length c = 2"
  shows "mwrite (mwrite (mwrite m 0 a) 6 b) 12 c = a @ b @ c @ drop 14 m"
  using assms by (simp add: mwrite_def)

lemma netdev_transmit_eq:
  fixes et :: u16
  assumes l: "live b s" and d: "b_dev (deref b s) = Some dev" "netdev_ok dev" "length dst = 6"
    and k: "b_data (deref b s) = 14" "length (b_mem (deref b s)) = 14 + n"
      "unat (b_len (deref b s)) = n" "n + 14 < 2 ^ 32"
  defines "F \<equiv> eth_frame dst (nd_hwaddr dev) et (drop 14 (b_mem (deref b s)))"
  shows "netdev_transmit b dst et s =
    (s_write s F,
     (put_skb b ((skb_push 14 (deref b s))\<lparr>b_mem := F\<rparr>) s)\<lparr>s_tap := s_tap s @ [F]\<rparr>)"
proof -
  let ?k = "deref b s"
  have dev: "nd_addr_len dev = 6" "length (nd_hwaddr dev) = 6" using d by (auto simp: netdev_ok_def)
  have F: "mwrite (mwrite (mwrite (b_mem ?k) 0 dst) 6 (nd_hwaddr dev)) 12 (le16 (htons et)) = F"
    using k d dev by (subst mwrite_eth) (simp_all add: F_def eth_frame_def be16_def)
  have lF: "length F = 14 + n" using k d dev by (simp add: F_def eth_frame_def)
  have ul: "unat (b_len ?k + 14) = 14 + n" using k by (simp add: unat_word_ariths)
  let ?K = "(skb_push 14 ?k)\<lparr>b_mem := F\<rparr>"
  have K: "put_bytes 12 (le16 (htons et)) (put_bytes 6 (nd_hwaddr dev) (put_bytes 0 dst (skb_push 14 ?k))) = ?K"
    by (simp add: put_bytes_def F)
  have r: "in_region (b_mem ?k) 0 14" "in_region F 0 (14 + n)" "mread F 0 (14 + n) = F"
    using k lF by (simp_all add: in_region_def mem_simps)
  show ?thesis
    unfolding netdev_transmit_def using d k dev l ul r
    by (simp add: K tun_write_def Let_def)
qed

text \<open>The same in a buffer longer than the packet, as the receive buffers are.\<close>

lemma netdev_transmit_long:
  fixes et :: u16
  assumes l: "live b s" and d: "b_dev (deref b s) = Some dev" "netdev_ok dev" "length dst = 6"
    and k: "b_data (deref b s) = 14" "14 + n \<le> length (b_mem (deref b s))"
      "unat (b_len (deref b s)) = n" "n + 14 < 2 ^ 32"
  defines "F \<equiv> eth_frame dst (nd_hwaddr dev) et (take n (drop 14 (b_mem (deref b s))))"
  shows "netdev_transmit b dst et s =
    (s_write s F,
     (put_skb b ((skb_push 14 (deref b s))\<lparr>b_mem := F @ drop (14 + n) (b_mem (deref b s))\<rparr>) s)
       \<lparr>s_tap := s_tap s @ [F]\<rparr>)"
proof -
  let ?k = "deref b s"
  let ?M = "F @ drop (14 + n) (b_mem ?k)"
  have dev: "nd_addr_len dev = 6" "length (nd_hwaddr dev) = 6" using d by (auto simp: netdev_ok_def)
  have split: "take n (drop 14 (b_mem ?k)) @ drop (14 + n) (b_mem ?k) = drop 14 (b_mem ?k)"
    using append_take_drop_id [of n "drop 14 (b_mem ?k)"] by (simp add: add.commute)
  have F: "mwrite (mwrite (mwrite (b_mem ?k) 0 dst) 6 (nd_hwaddr dev)) 12 (le16 (htons et)) = ?M"
    using k d dev split
    by (subst mwrite_eth) (simp_all add: F_def eth_frame_def be16_def)
  have lF: "length F = 14 + n" using k d dev by (simp add: F_def eth_frame_def)
  have ul: "unat (b_len ?k + 14) = 14 + n" using k by (simp add: unat_word_ariths)
  let ?K = "(skb_push 14 ?k)\<lparr>b_mem := ?M\<rparr>"
  have K: "put_bytes 12 (le16 (htons et)) (put_bytes 6 (nd_hwaddr dev) (put_bytes 0 dst (skb_push 14 ?k))) = ?K"
    by (simp add: put_bytes_def F)
  have r: "in_region (b_mem ?k) 0 14" "in_region ?M 0 (14 + n)" "mread ?M 0 (14 + n) = F"
    using k lF by (simp_all add: in_region_def mread_def)
  show ?thesis
    unfolding netdev_transmit_def using d k dev l ul r
    by (simp add: K tun_write_def Let_def)
qed

end
