(* ===== verification/Route.thy ===== *)
theory Route
  imports Netdev
begin

unbundle bit_operations_syntax

text \<open>
  The routing table of \<open>src/route.c\<close>: a list searched in insertion order.  The first entry whose
  network matches wins; when none matches the search ends on the last entry, and an empty
  table gives NULL.
\<close>

definition route_alloc :: "u32 \<Rightarrow> u32 \<Rightarrow> u32 \<Rightarrow> u8 \<Rightarrow> u32 \<Rightarrow> netdev \<Rightarrow> rtentry" where
  "route_alloc dst gateway netmask flags metric dev =
     \<lparr>rt_dst = dst, rt_gateway = gateway, rt_netmask = netmask, rt_flags = flags,
      rt_metric = metric, rt_dev = dev\<rparr>"

definition route_add ::
  "u32 \<Rightarrow> u32 \<Rightarrow> u32 \<Rightarrow> u8 \<Rightarrow> u32 \<Rightarrow> netdev \<Rightarrow> 'a stack_scheme \<Rightarrow> 'a stack_scheme" where
  "route_add dst gateway netmask flags metric dev s =
     s\<lparr>s_routes := s_routes s @ [route_alloc dst gateway netmask flags metric dev]\<rparr>"

definition tapaddr :: string where "tapaddr = ''10.0.0.5''"

definition route_init :: "'a stack_scheme \<Rightarrow> 'a stack_scheme option" where
  "route_init s =
     Option.bind (ip_parse tapaddr) (\<lambda>gw.
       let s = route_add (nd_addr (s_loop s)) 0 0xff000000 RT_LOOPBACK 0 (s_loop s) s;
           s = route_add (nd_addr (s_netdev s)) 0 0xffffff00 RT_HOST 0 (s_netdev s) s
       in Some (route_add 0 gw 0 RT_GATEWAY 0 (s_netdev s) s))"

definition route_matches :: "u32 \<Rightarrow> rtentry \<Rightarrow> bool" where
  "route_matches daddr rt \<longleftrightarrow> daddr AND rt_netmask rt = rt_dst rt AND rt_netmask rt"

fun route_loop :: "u32 \<Rightarrow> rtentry option \<Rightarrow> rtentry list \<Rightarrow> rtentry option" where
  "route_loop daddr rt [] = rt"
| "route_loop daddr rt (r # rs) =
     (if route_matches daddr r then Some r else route_loop daddr (Some r) rs)"

definition route_lookup :: "u32 \<Rightarrow> 'a stack_scheme \<Rightarrow> rtentry option" where
  "route_lookup daddr s = route_loop daddr None (s_routes s)"

definition free_routes :: "'a stack_scheme \<Rightarrow> 'a stack_scheme" where
  "free_routes s = s\<lparr>s_routes := []\<rparr>"

lemma route_loop_first:
  "\<forall>r \<in> set pre. \<not> route_matches d r \<Longrightarrow> route_matches d r \<Longrightarrow> route_loop d rt (pre @ r # post) = Some r"
  by (induction pre arbitrary: rt) auto

lemma route_loop_none:
  "\<forall>r \<in> set rs. \<not> route_matches d r \<Longrightarrow>
     route_loop d rt rs = (if rs = [] then rt else Some (last rs))"
  by (induction rs arbitrary: rt) auto

lemma route_loop_member: "route_loop d rt rs = Some r \<Longrightarrow> r \<in> set rs \<or> rt = Some r"
  by (induction d rt rs rule: route_loop.induct) (auto split: if_splits)

text \<open>The table \<open>route_init\<close> builds.\<close>

definition netdev_addr :: u32 where "netdev_addr = 0x0a000004"

lemma ip_parse_tapaddr: "ip_parse tapaddr = Some 0x0a000005"
  by code_simp

subsection \<open>The stack after \<open>init_stack\<close>\<close>

text \<open>
  \<open>init_stack\<close> of \<open>src/main.c\<close> on the zeroed static data; \<open>wr\<close> is what \<open>write(2)\<close> returns for
  a frame.  \<open>tun_init\<close> talks to the kernel, \<open>arp_init\<close> and \<open>tcp_init\<close> do nothing.
\<close>

definition zero_netdev :: netdev where
  "zero_netdev = \<lparr>nd_addr = 0, nd_addr_len = 0, nd_hwaddr = replicate 6 0, nd_mtu = 0\<rparr>"

definition static_data :: "(bytes \<Rightarrow> int) \<Rightarrow> stack" where
  "static_data wr =
     \<lparr>s_tick = 0, s_timers = [], s_tnext = 0, s_threads = [], s_skbs = (\<lambda>_. None), s_bnext = 0,
      s_arp_cache = [], s_routes = [], s_loop = zero_netdev, s_netdev = zero_netdev, s_tap = [],
      s_write = wr, s_fault = False\<rparr>"

definition init_stack :: "(bytes \<Rightarrow> int) \<Rightarrow> stack option" where
  "init_stack wr = Option.bind (netdev_init (static_data wr)) route_init"

definition loop_dev :: netdev where
  "loop_dev = \<lparr>nd_addr = 0x7f000001, nd_addr_len = 6, nd_hwaddr = replicate 6 0, nd_mtu = 1500\<rparr>"

definition tap_dev :: netdev where
  "tap_dev = \<lparr>nd_addr = netdev_addr, nd_addr_len = 6,
     nd_hwaddr = [0x00, 0x0c, 0x29, 0x6d, 0x50, 0x25], nd_mtu = 1500\<rparr>"

definition booted :: "(bytes \<Rightarrow> int) \<Rightarrow> stack" where
  "booted wr = (static_data wr)
     \<lparr>s_loop := loop_dev, s_netdev := tap_dev,
      s_routes :=
        [route_alloc 0x7f000001 0 0xff000000 RT_LOOPBACK 0 loop_dev,
         route_alloc 0x0a000004 0 0xffffff00 RT_HOST 0 tap_dev,
         route_alloc 0 0x0a000005 0 RT_GATEWAY 0 tap_dev]\<rparr>"

lemma loop_dev_parsed: "netdev_alloc ''127.0.0.1'' ''00:00:00:00:00:00'' 1500 = Some loop_dev"
  by code_simp

lemma tap_dev_parsed: "netdev_alloc ''10.0.0.4'' ''00:0c:29:6d:50:25'' 1500 = Some tap_dev"
  by code_simp

lemma init_stack_booted: "init_stack wr = Some (booted wr)"
  by (simp add: init_stack_def netdev_init_def route_init_def loop_dev_parsed tap_dev_parsed
      ip_parse_tapaddr route_add_def booted_def static_data_def loop_dev_def tap_dev_def
      netdev_addr_def)

lemma netdev_ok_tap [simp]: "netdev_ok tap_dev" "netdev_ok loop_dev"
  by (simp_all add: netdev_ok_def tap_dev_def loop_dev_def)

lemma booted_sel [simp]:
  "s_arp_cache (booted wr) = []" "s_tap (booted wr) = []" "s_fault (booted wr) = False"
  "s_netdev (booted wr) = tap_dev" "s_write (booted wr) = wr" "s_skbs (booted wr) = (\<lambda>_. None)"
  "s_bnext (booted wr) = 0" "s_timers (booted wr) = []" "s_tick (booted wr) = 0"
  "s_tnext (booted wr) = 0" "s_threads (booted wr) = []"
  by (simp_all add: booted_def static_data_def)

text \<open>
  After init_stack a route lookup always succeeds: loopback addresses (127.0.0.0/8) leave by
  the loopback device, the addresses of 10.0.0.0/24 directly by the tap device, and every other
  address by the tap device through the gateway 10.0.0.5, the only entry with RT_GATEWAY set.
\<close>

theorem route_lookup_init_stack:
  "\<exists>s. init_stack wr = Some s \<and>
     (\<exists>rt. route_lookup d s = Some rt \<and>
       (if d AND 0xff000000 = 0x7f000000 then rt_dev rt = s_loop s \<and> rt_flags rt AND RT_GATEWAY = 0
        else rt_dev rt = s_netdev s \<and>
          (if d AND 0xffffff00 = 0x0a000000 then rt_flags rt AND RT_GATEWAY = 0
           else rt_flags rt AND RT_GATEWAY \<noteq> 0 \<and> rt_gateway rt = 0x0a000005)))"
  by (simp add: init_stack_booted route_lookup_def booted_def route_matches_def route_alloc_def
      RT_LOOPBACK_def RT_GATEWAY_def RT_HOST_def static_data_def)

end
