(* ===== verification/Arp.thy ===== *)
theory Arp
  imports Route
begin

unbundle bit_operations_syntax

text \<open>
  Address resolution, \<open>src/arp.c\<close>: the translation table, the receiver of requests, the
  requester and the replier.  The table is the list of cache entries in insertion order.
  The mutex around it makes each table operation atomic.
\<close>

definition ARP_RESOLVED :: nat where "ARP_RESOLVED = 2"

definition broadcast_hw :: bytes where
  "broadcast_hw = [0xff, 0xff, 0xff, 0xff, 0xff, 0xff]"

definition arp_alloc_skb :: "'a stack_scheme \<Rightarrow> nat \<times> 'a stack_scheme" where
  "arp_alloc_skb s =
     (let (b, s) = alloc_skb (ETH_HDR_LEN + ARP_HDR_LEN + ARP_DATA_LEN) s;
          k = skb_reserve (ETH_HDR_LEN + ARP_HDR_LEN + ARP_DATA_LEN) (deref b s)
      in (b, put_skb b (k\<lparr>b_protocol := htons ETH_P_ARP\<rparr>) s))"

subsection \<open>The translation table\<close>

definition arp_entry_alloc :: "arp_hdr \<Rightarrow> arp_ipv4 \<Rightarrow> arp_cache_entry" where
  "arp_entry_alloc hdr data =
     \<lparr>ae_hwtype = arp_hwtype hdr, ae_sip = ar_sip data, ae_smac = ar_smac data,
      ae_state = ARP_RESOLVED\<rparr>"

definition insert_arp_translation_table ::
  "arp_hdr \<Rightarrow> arp_ipv4 \<Rightarrow> arp_cache_entry list \<Rightarrow> arp_cache_entry list" where
  "insert_arp_translation_table hdr data cache = cache @ [arp_entry_alloc hdr data]"

fun update_arp_translation_table ::
  "arp_hdr \<Rightarrow> arp_ipv4 \<Rightarrow> arp_cache_entry list \<Rightarrow> bool \<times> arp_cache_entry list" where
  "update_arp_translation_table hdr data [] = (False, [])"
| "update_arp_translation_table hdr data (e # es) =
     (if ae_hwtype e = arp_hwtype hdr \<and> ae_sip e = ar_sip data
      then (True, e\<lparr>ae_smac := ar_smac data\<rparr> # es)
      else (let (found, es) = update_arp_translation_table hdr data es in (found, e # es)))"

fun arp_get_hwaddr :: "u32 \<Rightarrow> arp_cache_entry list \<Rightarrow> bytes option" where
  "arp_get_hwaddr sip [] = None"
| "arp_get_hwaddr sip (e # es) =
     (if ae_state e = ARP_RESOLVED \<and> ae_sip e = sip then Some (ae_smac e) else arp_get_hwaddr sip es)"

definition free_arp :: "'a stack_scheme \<Rightarrow> 'a stack_scheme" where
  "free_arp s = s\<lparr>s_arp_cache := []\<rparr>"

subsection \<open>Messages\<close>

definition arp_reply :: "nat \<Rightarrow> netdev \<Rightarrow> 'a stack_scheme \<Rightarrow> 'a stack_scheme" where
  "arp_reply b dev s =
     (let s = touch b s;
          k = skb_reserve (ETH_HDR_LEN + ARP_HDR_LEN + ARP_DATA_LEN) (deref b s);
          k = skb_push (ARP_HDR_LEN + ARP_DATA_LEN) k;
          hdr = arp_hdr k; data = arp_data k;
          data = data\<lparr>ar_dmac := ar_smac data, ar_dip := ar_sip data\<rparr>;
          data = data\<lparr>ar_smac := take 6 (nd_hwaddr dev), ar_sip := nd_addr dev\<rparr>;
          hdr = hdr\<lparr>arp_opcode := ARP_REPLY\<rparr>;
          hdr = hdr\<lparr>arp_opcode := htons (arp_opcode hdr), arp_hwtype := htons (arp_hwtype hdr),
                    arp_protype := htons (arp_protype hdr)\<rparr>;
          data = data\<lparr>ar_sip := htonl (ar_sip data), ar_dip := htonl (ar_dip data)\<rparr>;
          k = (put_arp_data data (put_arp_hdr hdr k))\<lparr>b_dev := Some dev\<rparr>;
          s = put_skb b k s;
          (rc, s) = netdev_transmit b (ar_dmac data) ETH_P_ARP s
      in free_skb b s)"

definition arp_rcv :: "nat \<Rightarrow> 'a stack_scheme \<Rightarrow> 'a stack_scheme" where
  "arp_rcv b s =
     (let s = touch b s;
          hdr = arp_hdr (deref b s);
          hdr = hdr\<lparr>arp_hwtype := ntohs (arp_hwtype hdr), arp_protype := ntohs (arp_protype hdr),
                    arp_opcode := ntohs (arp_opcode hdr)\<rparr>;
          s = put_skb b (put_arp_hdr hdr (deref b s)) s
      in if arp_hwtype hdr \<noteq> ARP_ETHERNET then free_skb b s
         else if arp_protype hdr \<noteq> ARP_IPV4 then free_skb b s
         else
           let data = arp_data (deref b s);
               data = data\<lparr>ar_sip := ntohl (ar_sip data), ar_dip := ntohl (ar_dip data)\<rparr>;
               s = put_skb b (put_arp_data data (deref b s)) s;
               (merge, cache) = update_arp_translation_table hdr data (s_arp_cache s);
               s = s\<lparr>s_arp_cache := cache\<rparr>
           in case netdev_get (ar_dip data) s of
                None \<Rightarrow> free_skb b s
              | Some dev \<Rightarrow>
                  let s = (if merge then s
                           else s\<lparr>s_arp_cache := insert_arp_translation_table hdr data (s_arp_cache s)\<rparr>)
                  in if arp_opcode hdr = ARP_REQUEST then arp_reply b dev s else free_skb b s)"

definition arp_request :: "u32 \<Rightarrow> u32 \<Rightarrow> netdev \<Rightarrow> 'a stack_scheme \<Rightarrow> int \<times> 'a stack_scheme" where
  "arp_request sip dip dev s =
     (let (b, s) = arp_alloc_skb s;
          k = (deref b s)\<lparr>b_dev := Some dev\<rparr>;
          n = unat (nd_addr_len dev);
          k = skb_push ARP_DATA_LEN k;
          pay = nat (b_data k);
          k = put_bytes pay (take n (nd_hwaddr dev)) k;
          k = put_bytes (pay + 6) (le32 sip) k;
          k = put_bytes (pay + 10) (take n broadcast_hw) k;
          k = put_bytes (pay + 16) (le32 dip) k;
          k = skb_push ARP_HDR_LEN k;
          arp = nat (b_data k);
          hdr = \<lparr>arp_hwtype = htons ARP_ETHERNET, arp_protype = htons ETH_P_IP,
                 arp_hwsize = nd_addr_len dev, arp_prosize = 4, arp_opcode = htons ARP_REQUEST\<rparr>;
          k = put_bytes arp (enc_arp_hdr hdr) k;
          k = put_bytes (pay + 6) (le32 (htonl sip)) k;
          k = put_bytes (pay + 16) (le32 (htonl dip)) k;
          s = put_skb b k s;
          (rc, s) = netdev_transmit b broadcast_hw ETH_P_ARP s
      in (rc, free_skb b s))"

subsection \<open>The table as a finite map from protocol addresses\<close>

text \<open>
  The key of an entry is the pair of hardware type and protocol address; the receiver only
  stores Ethernet entries, so there is one entry for an address.
\<close>

definition arp_key :: "arp_cache_entry \<Rightarrow> u16 \<times> u32" where
  "arp_key e = (ae_hwtype e, ae_sip e)"

definition arp_ok :: "arp_cache_entry list \<Rightarrow> bool" where
  "arp_ok cache \<longleftrightarrow> distinct (map arp_key cache)
     \<and> (\<forall>e \<in> set cache. ae_hwtype e = ARP_ETHERNET \<and> ae_state e = ARP_RESOLVED \<and> length (ae_smac e) = 6)"

lemma arp_ok_Nil [simp]: "arp_ok []"
  by (simp add: arp_ok_def)

lemma update_keys:
  "map arp_key (snd (update_arp_translation_table h d cache)) = map arp_key cache"
  by (induction h d cache rule: update_arp_translation_table.induct)
    (auto simp: arp_key_def split: prod.splits)

lemma update_found:
  "fst (update_arp_translation_table h d cache) \<longleftrightarrow> (arp_hwtype h, ar_sip d) \<in> arp_key ` set cache"
  by (induction h d cache rule: update_arp_translation_table.induct)
    (auto simp: arp_key_def split: prod.splits)

lemma update_entries:
  "e \<in> set (snd (update_arp_translation_table h d cache)) \<Longrightarrow>
     \<exists>e0 \<in> set cache. e = e0 \<or> e = e0\<lparr>ae_smac := ar_smac d\<rparr>"
  by (induction h d cache rule: update_arp_translation_table.induct)
    (auto split: prod.splits if_splits)

lemma arp_ok_update:
  assumes "arp_ok cache" and "length (ar_smac d) = 6"
  shows "arp_ok (snd (update_arp_translation_table h d cache))"
proof -
  have "ae_hwtype e = ARP_ETHERNET \<and> ae_state e = ARP_RESOLVED \<and> length (ae_smac e) = 6"
    if "e \<in> set (snd (update_arp_translation_table h d cache))" for e
    using update_entries [OF that] assms by (auto simp: arp_ok_def)
  then show ?thesis using assms by (simp add: arp_ok_def update_keys)
qed

lemma arp_ok_insert:
  assumes "arp_ok cache" and "length (ar_smac d) = 6" and "arp_hwtype h = ARP_ETHERNET"
    and "\<not> fst (update_arp_translation_table h d cache)"
  shows "arp_ok (insert_arp_translation_table h d cache)"
  using assms unfolding update_found
  by (auto simp: arp_ok_def insert_arp_translation_table_def arp_entry_alloc_def arp_key_def)

text \<open>
  What a lookup gives after the receiver has merged a sender: the sender's address maps to
  its hardware address, every other address to what it mapped to before.
\<close>

definition arp_merge :: "arp_hdr \<Rightarrow> arp_ipv4 \<Rightarrow> arp_cache_entry list \<Rightarrow> arp_cache_entry list" where
  "arp_merge h d cache =
     (case update_arp_translation_table h d cache of
        (True, cache') \<Rightarrow> cache' | (False, cache') \<Rightarrow> insert_arp_translation_table h d cache')"

lemma update_not_found:
  "\<not> fst (update_arp_translation_table h d cache) \<Longrightarrow>
     snd (update_arp_translation_table h d cache) = cache"
  by (induction h d cache rule: update_arp_translation_table.induct) (auto split: prod.splits)

lemma arp_get_update:
  assumes "\<forall>e \<in> set cache. ae_hwtype e = ARP_ETHERNET \<and> ae_state e = ARP_RESOLVED"
    and "arp_hwtype h = ARP_ETHERNET"
  shows "arp_get_hwaddr ip (snd (update_arp_translation_table h d cache)) =
    (if fst (update_arp_translation_table h d cache) \<and> ip = ar_sip d then Some (ar_smac d)
     else arp_get_hwaddr ip cache)"
  using assms
  by (induction h d cache rule: update_arp_translation_table.induct) (auto split: prod.splits)

lemma arp_get_append_other:
  "ae_sip e \<noteq> ip \<Longrightarrow> arp_get_hwaddr ip (cache @ [e]) = arp_get_hwaddr ip cache"
  by (induction cache) auto

lemma arp_get_append_new:
  "\<forall>e \<in> set cache. ae_sip e \<noteq> ip \<Longrightarrow> arp_get_hwaddr ip (cache @ [e]) = arp_get_hwaddr ip [e]"
  by (induction cache) auto

lemma arp_ok_merge:
  assumes "arp_ok cache" and "length (ar_smac d) = 6" and "arp_hwtype h = ARP_ETHERNET"
  shows "arp_ok (arp_merge h d cache)"
proof (cases "fst (update_arp_translation_table h d cache)")
  case True
  then show ?thesis
    using arp_ok_update [OF assms(1,2), of h] by (auto simp: arp_merge_def split: prod.split)
next
  case False
  then show ?thesis
    using arp_ok_insert [OF assms False] update_not_found [OF False]
    by (auto simp: arp_merge_def split: prod.split)
qed

lemma arp_get_merge:
  assumes "arp_ok cache" and "arp_hwtype h = ARP_ETHERNET"
  shows "arp_get_hwaddr ip (arp_merge h d cache) =
    (if ip = ar_sip d then Some (ar_smac d) else arp_get_hwaddr ip cache)"
proof (cases "fst (update_arp_translation_table h d cache)")
  case True
  then show ?thesis
    using arp_get_update [of cache h ip d] assms
    by (auto simp: arp_merge_def arp_ok_def split: prod.split)
next
  case False
  have "\<forall>e \<in> set cache. ae_sip e \<noteq> ar_sip d"
    using False assms unfolding update_found by (force simp: arp_ok_def arp_key_def)
  then show ?thesis
    using update_not_found [OF False] False
    by (auto simp: arp_merge_def insert_arp_translation_table_def arp_get_append_new
        arp_get_append_other arp_entry_alloc_def split: prod.split)
qed

text \<open>The contract of an address table, and the cache as one.\<close>

locale address_table =
  fixes lookup :: "'t \<Rightarrow> u32 \<Rightarrow> bytes option"
    and learn :: "arp_hdr \<Rightarrow> arp_ipv4 \<Rightarrow> 't \<Rightarrow> 't"
    and good :: "'t \<Rightarrow> bool"
    and valid :: "arp_hdr \<Rightarrow> arp_ipv4 \<Rightarrow> bool"
  assumes lookup_learn: "good t \<Longrightarrow> valid h d \<Longrightarrow>
      lookup (learn h d t) ip = (if ip = ar_sip d then Some (ar_smac d) else lookup t ip)"
    and good_learn: "good t \<Longrightarrow> valid h d \<Longrightarrow> good (learn h d t)"
begin

definition learn_all :: "(arp_hdr \<times> arp_ipv4) list \<Rightarrow> 't \<Rightarrow> 't" where
  "learn_all ms t = foldl (\<lambda>t (h, d). learn h d t) t ms"

lemma good_learn_all:
  "good t \<Longrightarrow> \<forall>(h, d) \<in> set ms. valid h d \<Longrightarrow> good (learn_all ms t)"
  by (induction ms arbitrary: t) (auto simp: learn_all_def good_learn)

text \<open>After any run of messages a lookup gives what the last message of that sender said.\<close>

lemma lookup_learn_all:
  "good t \<Longrightarrow> \<forall>(h, d) \<in> set ms. valid h d \<Longrightarrow>
     lookup (learn_all ms t) ip =
       (case find (\<lambda>(h, d). ar_sip d = ip) (rev ms) of Some (h, d) \<Rightarrow> Some (ar_smac d)
        | None \<Rightarrow> lookup t ip)"
proof (induction ms rule: rev_induct)
  case Nil
  then show ?case by (simp add: learn_all_def)
next
  case (snoc m ms)
  obtain h d where m: "m = (h, d)" by (cases m)
  have g: "good (learn_all ms t)" using snoc.prems by (intro good_learn_all) auto
  have "lookup (learn_all (ms @ [m]) t) ip =
      (if ip = ar_sip d then Some (ar_smac d) else lookup (learn_all ms t) ip)"
    using snoc.prems g m lookup_learn [of "learn_all ms t" h d ip]
    by (auto simp: learn_all_def)
  then show ?case using snoc m by auto
qed

end

interpretation arp_table: address_table "\<lambda>c ip. arp_get_hwaddr ip c" arp_merge arp_ok
  "\<lambda>h d. arp_hwtype h = ARP_ETHERNET \<and> length (ar_smac d) = 6"
  by unfold_locales (simp_all add: arp_get_merge arp_ok_merge)

subsection \<open>The messages on the wire\<close>

definition arp_packet :: "u16 \<Rightarrow> bytes \<Rightarrow> u32 \<Rightarrow> bytes \<Rightarrow> u32 \<Rightarrow> bytes" where
  "arp_packet op smac sip dmac dip =
     be16 ARP_ETHERNET @ be16 ARP_IPV4 @ [6, 4] @ be16 op @ smac @ be32 sip @ dmac @ be32 dip"

definition arp_request_mem :: "u32 \<Rightarrow> u32 \<Rightarrow> netdev \<Rightarrow> bytes" where
  "arp_request_mem sip dip dev =
     replicate 14 0 @ arp_packet ARP_REQUEST (nd_hwaddr dev) sip broadcast_hw dip"

lemma length_broadcast [simp]: "length broadcast_hw = 6"
  by (simp add: broadcast_hw_def)

lemma arp_request_writes:
  assumes "length hw = 6"
  shows "mwrite (mwrite (mwrite (mwrite (mwrite (mwrite (mwrite (replicate 42 0)
      22 hw) 28 (le32 sip)) 32 broadcast_hw) 38 (le32 dip))
      14 (enc_arp_hdr \<lparr>arp_hwtype = htons ARP_ETHERNET, arp_protype = htons ETH_P_IP,
                 arp_hwsize = 6, arp_prosize = 4, arp_opcode = htons ARP_REQUEST\<rparr>))
      28 (le32 (htonl sip))) 38 (le32 (htonl dip)) =
    replicate 14 0 @ arp_packet ARP_REQUEST hw sip broadcast_hw dip"
  using assms
  by (simp add: mwrite_def drop_append take_append enc_arp_hdr_def arp_packet_def be16_def be32_def
      ETH_P_IP_def ARP_IPV4_def)

lemma arp_request_eq:
  fixes sip dip :: u32
  assumes d: "netdev_ok dev"
  defines "F \<equiv> eth_frame broadcast_hw (nd_hwaddr dev) ETH_P_ARP
      (arp_packet ARP_REQUEST (nd_hwaddr dev) sip broadcast_hw dip)"
  shows "s_tap (snd (arp_request sip dip dev s)) = s_tap s @ [F]"
    and "s_fault (snd (arp_request sip dip dev s)) = s_fault s"
proof -
  have dev: "nd_addr_len dev = 6" "length (nd_hwaddr dev) = 6" using d by (auto simp: netdev_ok_def)
  let ?s1 = "snd (alloc_skb 42 s)"
  have l1: "live (s_bnext s) ?s1" "deref (s_bnext s) ?s1 = new_skb 42"
    by (simp_all add: alloc_skb_def live_def deref_def)
  define K where "K = \<lparr>b_mem = replicate 14 0 @ arp_packet ARP_REQUEST (nd_hwaddr dev) sip broadcast_hw dip,
      b_rt = None, b_dev = Some dev, b_refcnt = 0, b_protocol = htons ETH_P_ARP, b_len = 28,
      b_dlen = 0, b_seq = 0, b_end_seq = 0, b_data = 14, b_payload = 0\<rparr>"
  let ?s2 = "put_skb (s_bnext s) K ?s1"
  have req: "snd (arp_request sip dip dev s) =
      free_skb (s_bnext s) (snd (netdev_transmit (s_bnext s) broadcast_hw ETH_P_ARP ?s2))"
    using l1 dev arp_request_writes [of "nd_hwaddr dev" sip dip]
    by (simp add: arp_request_def arp_alloc_skb_def split_beta Let_def alloc_skb_def [of 42 s, THEN arg_cong [of _ _ fst]]
        new_skb_def skb_reserve_def skb_push_def put_bytes_def K_def)
  have len: "length (arp_packet ARP_REQUEST (nd_hwaddr dev) sip broadcast_hw dip) = 28"
    using dev by (simp add: arp_packet_def)
  have tx: "netdev_transmit (s_bnext s) broadcast_hw ETH_P_ARP ?s2 =
     (s_write ?s2 F, (put_skb (s_bnext s) ((skb_push 14 K)\<lparr>b_mem := F\<rparr>) ?s2)\<lparr>s_tap := s_tap ?s2 @ [F]\<rparr>)"
    using l1 d len by (subst netdev_transmit_eq [where n = 28 and dev = dev]) (simp_all add: K_def F_def)
  show "s_tap (snd (arp_request sip dip dev s)) = s_tap s @ [F]"
    unfolding req tx by (simp add: alloc_skb_def)
  show "s_fault (snd (arp_request sip dip dev s)) = s_fault s"
    using l1 unfolding req tx by (simp add: alloc_skb_def)
qed

subsection \<open>Received packets\<close>

text \<open>A receive buffer that holds an Ethernet/IPv4 ARP packet behind a link header.\<close>

definition holds_arp :: "nat \<Rightarrow> u16 \<Rightarrow> bytes \<Rightarrow> u32 \<Rightarrow> bytes \<Rightarrow> u32 \<Rightarrow> 'a stack_scheme \<Rightarrow> bool" where
  "holds_arp b op smac sip dmac dip s \<longleftrightarrow>
     live b s \<and> length smac = 6 \<and> length dmac = 6 \<and> 42 \<le> length (b_mem (deref b s))
     \<and> mread (b_mem (deref b s)) 14 28 = arp_packet op smac sip dmac dip"

definition arp_msg_hdr :: "u16 \<Rightarrow> arp_hdr" where
  "arp_msg_hdr op = \<lparr>arp_hwtype = ARP_ETHERNET, arp_protype = ARP_IPV4, arp_hwsize = 6,
     arp_prosize = 4, arp_opcode = op\<rparr>"

definition arp_msg_data :: "bytes \<Rightarrow> u32 \<Rightarrow> bytes \<Rightarrow> u32 \<Rightarrow> arp_ipv4" where
  "arp_msg_data smac sip dmac dip = \<lparr>ar_smac = smac, ar_sip = sip, ar_dmac = dmac, ar_dip = dip\<rparr>"

lemma mread_prefix: "mread m off n = bs \<Longrightarrow> k \<le> n \<Longrightarrow> mread m off k = take k bs"
  by (auto simp: mread_def)

lemma mread_suffix: "mread m off n = bs \<Longrightarrow> mread m (off + j) k = take k (drop j (mread m off (j + k)))"
  by (simp add: mread_def drop_take add.commute)

lemma mread_sub: "mread m off n = bs \<Longrightarrow> j + k \<le> n \<Longrightarrow> mread m (off + j) k = take k (drop j bs)"
  by (auto simp: mread_def drop_take min_def add.commute)

lemma holds_arp_hdr:
  assumes "holds_arp b op smac sip dmac dip s"
  shows "arp_hdr (deref b s) = \<lparr>arp_hwtype = htons ARP_ETHERNET, arp_protype = htons ARP_IPV4,
           arp_hwsize = 6, arp_prosize = 4, arp_opcode = htons op\<rparr>"
proof -
  have "mread (b_mem (deref b s)) 14 8 = take 8 (arp_packet op smac sip dmac dip)"
    using assms by (intro mread_prefix [where n = 28]) (auto simp: holds_arp_def)
  also have "\<dots> = enc_arp_hdr \<lparr>arp_hwtype = htons ARP_ETHERNET, arp_protype = htons ARP_IPV4,
           arp_hwsize = 6, arp_prosize = 4, arp_opcode = htons op\<rparr>"
    by (simp add: arp_packet_def be16_def be32_def enc_arp_hdr_def)
  finally show ?thesis by (simp add: arp_hdr_def enc_simps)
qed

lemma holds_arp_data:
  assumes "holds_arp b op smac sip dmac dip s"
  shows "arp_data (deref b s) = \<lparr>ar_smac = smac, ar_sip = htonl sip, ar_dmac = dmac, ar_dip = htonl dip\<rparr>"
proof -
  have l: "length smac = 6" "length dmac = 6" using assms by (auto simp: holds_arp_def)
  have "mread (b_mem (deref b s)) 22 20 = take 20 (drop 8 (arp_packet op smac sip dmac dip))"
    using assms mread_sub [of "b_mem (deref b s)" 14 28 _ 8 20] by (auto simp: holds_arp_def)
  also have "\<dots> = enc_arp_ipv4 \<lparr>ar_smac = smac, ar_sip = htonl sip, ar_dmac = dmac, ar_dip = htonl dip\<rparr>"
    using l by (simp add: arp_packet_def be16_def be32_def enc_arp_ipv4_def)
  finally show ?thesis using l by (simp add: arp_data_def enc_simps)
qed

lemma arp_hdr_put [simp]:
  "34 \<le> length (b_mem k) \<Longrightarrow> arp_hdr (put_arp_hdr h k) = h"
  by (simp add: arp_hdr_def b_mem_put_bytes mem_simps enc_simps)

lemma arp_data_put_hdr [simp]: "arp_data (put_arp_hdr h k) = arp_data k"
  by (simp add: arp_data_def b_mem_put_bytes mem_simps)

lemma arp_hdr_put_data [simp]: "arp_hdr (put_arp_data d k) = arp_hdr k"
  by (simp add: arp_hdr_def b_mem_put_bytes mem_simps)

lemma arp_data_put [simp]:
  "42 \<le> length (b_mem k) \<Longrightarrow> length (ar_smac d) = 6 \<Longrightarrow> length (ar_dmac d) = 6 \<Longrightarrow>
     arp_data (put_arp_data d k) = d"
  by (simp add: arp_data_def b_mem_put_bytes mem_simps enc_simps)

lemma arp_rcv_for_us:
  assumes h: "holds_arp b op smac sip dmac (nd_addr (s_netdev s)) s"
  defines "k \<equiv> put_arp_data (arp_msg_data smac sip dmac (nd_addr (s_netdev s)))
      (put_arp_hdr (arp_msg_hdr op) (deref b s))"
    and "cache \<equiv> arp_merge (arp_msg_hdr op) (arp_msg_data smac sip dmac (nd_addr (s_netdev s))) (s_arp_cache s)"
  shows "arp_rcv b s =
     (if op = ARP_REQUEST then arp_reply b (s_netdev s) ((put_skb b k s)\<lparr>s_arp_cache := cache\<rparr>)
      else free_skb b ((put_skb b k s)\<lparr>s_arp_cache := cache\<rparr>))"
proof -
  have l: "live b s" "42 \<le> length (b_mem (deref b s))" using h by (auto simp: holds_arp_def)
  show ?thesis
    using l unfolding arp_rcv_def k_def cache_def arp_merge_def arp_msg_hdr_def arp_msg_data_def
    by (simp add: Let_def holds_arp_hdr [OF h] holds_arp_data [OF h] netdev_get_def
        split: prod.split bool.split)
qed

lemma arp_rcv_not_for_us:
  assumes h: "holds_arp b op smac sip dmac dip s" and "dip \<noteq> nd_addr (s_netdev s)"
  shows "s_arp_cache (arp_rcv b s) =
      snd (update_arp_translation_table (arp_msg_hdr op) (arp_msg_data smac sip dmac dip) (s_arp_cache s))"
    and "s_tap (arp_rcv b s) = s_tap s"
proof -
  have l: "live b s" "42 \<le> length (b_mem (deref b s))" using h by (auto simp: holds_arp_def)
  show "s_arp_cache (arp_rcv b s) =
      snd (update_arp_translation_table (arp_msg_hdr op) (arp_msg_data smac sip dmac dip) (s_arp_cache s))"
    and "s_tap (arp_rcv b s) = s_tap s"
    using l assms(2) unfolding arp_rcv_def arp_msg_hdr_def arp_msg_data_def
    by (simp_all add: Let_def holds_arp_hdr [OF h] holds_arp_data [OF h] netdev_get_def split_beta)
qed

lemma s_arp_cache_netdev_transmit [simp]:
  "s_arp_cache (snd (netdev_transmit b dst et s)) = s_arp_cache s"
  by (simp add: netdev_transmit_def tun_write_def Let_def split: option.split)

lemma s_arp_cache_arp_reply [simp]: "s_arp_cache (arp_reply b dev s) = s_arp_cache s"
  by (simp add: arp_reply_def Let_def split_beta touch_def)

lemma mwrite_arp:
  assumes "length h = 8" and "length d = 20" and "42 \<le> length m"
  shows "mwrite (mwrite m 14 h) 22 d = take 14 m @ h @ d @ drop 42 m"
  using assms by (simp add: mwrite_def drop_append take_append)

lemma mwrite_arp_twice:
  assumes "length h = 8" "length d = 20" "length h' = 8" "length d' = 20" and "42 \<le> length m"
  shows "mwrite (mwrite (mwrite (mwrite m 14 h) 22 d) 14 h') 22 d' = take 14 m @ h' @ d' @ drop 42 m"
  using assms by (simp add: mwrite_def drop_append take_append)

lemma length_enc_arp [simp]:
  "length (enc_arp_hdr h) = 8" "length (ar_smac d) = 6 \<Longrightarrow> length (ar_dmac d) = 6 \<Longrightarrow> length (enc_arp_ipv4 d) = 20"
  by (simp_all add: enc_arp_hdr_def enc_arp_ipv4_def)

lemma arp_hdr_skb [simp]:
  "arp_hdr (skb_push n k) = arp_hdr k" "arp_data (skb_push n k) = arp_data k"
  "arp_hdr (skb_reserve n k) = arp_hdr k" "arp_data (skb_reserve n k) = arp_data k"
  by (simp_all add: arp_hdr_def arp_data_def skb_reserve_def)

lemma arp_reply_to_request:
  assumes l: "live b s" "42 \<le> length (b_mem k)" "b_data k = 0" "b_len k = 0" "b_refcnt k < 1"
    and k: "deref b s = put_arp_data (arp_msg_data smac sip dmac dip) (put_arp_hdr (arp_msg_hdr op) k)"
    and d: "netdev_ok dev" "length smac = 6" "length dmac = 6"
  defines "F \<equiv> eth_frame smac (nd_hwaddr dev) ETH_P_ARP
      (arp_packet ARP_REPLY (nd_hwaddr dev) (nd_addr dev) smac sip)"
  shows "s_tap (arp_reply b dev s) = s_tap s @ [F]"
    and "s_fault (arp_reply b dev s) = s_fault s"
    and "\<not> live b (arp_reply b dev s)"
proof -
  have dev: "length (nd_hwaddr dev) = 6" using d by (auto simp: netdev_ok_def)
  define h where "h = \<lparr>arp_hwtype = htons ARP_ETHERNET, arp_protype = htons ARP_IPV4, arp_hwsize = 6,
      arp_prosize = 4, arp_opcode = htons ARP_REPLY\<rparr>"
  define a where "a = \<lparr>ar_smac = nd_hwaddr dev, ar_sip = htonl (nd_addr dev), ar_dmac = smac,
      ar_dip = htonl sip\<rparr>"
  define M where "M = take 14 (b_mem k) @ enc_arp_hdr h @ enc_arp_ipv4 a @ drop 42 (b_mem k)"
  define K where "K = k\<lparr>b_mem := M, b_dev := Some dev, b_data := 14, b_len := 28\<rparr>"
  let ?k1 = "skb_push 28 (skb_reserve 42 (deref b s))"
  have "arp_hdr ?k1 = arp_msg_hdr op" "arp_data ?k1 = arp_msg_data smac sip dmac dip"
    using l d k by (simp_all add: arp_hdr_skb arp_msg_data_def)
  moreover have "(put_arp_data a (put_arp_hdr h ?k1))\<lparr>b_dev := Some dev\<rparr> = K"
    using l d dev k
    by (simp add: put_bytes_def skb_push_def skb_reserve_def K_def M_def mwrite_arp_twice
        length_enc_arp arp_msg_data_def a_def)
  ultimately have rep: "arp_reply b dev s =
      free_skb b (snd (netdev_transmit b smac ETH_P_ARP (put_skb b K s)))"
    using l d dev by (simp add: arp_reply_def Let_def split_beta arp_msg_hdr_def arp_msg_data_def
        h_def a_def)
  have F: "eth_frame smac (nd_hwaddr dev) ETH_P_ARP (take 28 (drop 14 M)) = F"
    using l d dev by (simp add: F_def M_def h_def a_def eth_frame_def arp_packet_def enc_arp_hdr_def
        enc_arp_ipv4_def be16_def be32_def)
  have tx: "netdev_transmit b smac ETH_P_ARP (put_skb b K s) =
     (s_write s F, (put_skb b ((skb_push 14 K)\<lparr>b_mem := F @ drop 42 M\<rparr>) (put_skb b K s))
         \<lparr>s_tap := s_tap s @ [F]\<rparr>)"
    using l d dev F
    by (subst netdev_transmit_long [where n = 28 and dev = dev])
      (simp_all add: K_def M_def length_enc_arp a_def)
  show "s_tap (arp_reply b dev s) = s_tap s @ [F]" "s_fault (arp_reply b dev s) = s_fault s"
    "\<not> live b (arp_reply b dev s)"
    unfolding rep tx using l by (simp_all add: live_free_skb K_def)
qed

lemma arp_ok_rcv:
  assumes "holds_arp b op smac sip dmac (nd_addr (s_netdev s)) s"
  shows "s_arp_cache (arp_rcv b s) =
    arp_merge (arp_msg_hdr op) (arp_msg_data smac sip dmac (nd_addr (s_netdev s))) (s_arp_cache s)"
  by (simp add: arp_rcv_for_us [OF assms])

text \<open>
  C28: An ARP packet addressed to this host, whatever its opcode, makes its sender resolvable:
  after arp_rcv the cache maps the sender's protocol address to its hardware address and every
  other address to what it was mapped to before, and it still has one resolved entry per address.
\<close>

theorem arp_rcv_learns:
  assumes "holds_arp b op smac sip dmac (nd_addr (s_netdev s)) s" and "arp_ok (s_arp_cache s)"
  shows "arp_get_hwaddr ip (s_arp_cache (arp_rcv b s)) =
      (if ip = sip then Some smac else arp_get_hwaddr ip (s_arp_cache s))
    \<and> arp_ok (s_arp_cache (arp_rcv b s))"
proof -
  have v: "arp_hwtype (arp_msg_hdr op) = ARP_ETHERNET" "length smac = 6"
    using assms by (simp_all add: arp_msg_hdr_def holds_arp_def)
  then show ?thesis
    using arp_table.lookup_learn [OF assms(2), of "arp_msg_hdr op" "arp_msg_data smac sip dmac (nd_addr (s_netdev s))" ip]
      arp_table.good_learn [OF assms(2), of "arp_msg_hdr op" "arp_msg_data smac sip dmac (nd_addr (s_netdev s))"]
    unfolding arp_ok_rcv [OF assms(1)] by (simp add: arp_msg_data_def)
qed

text \<open>A stack that has just received a request of 10.0.0.5 into a buffer as netdev_rx_loop allocates it.\<close>

definition arp_demo :: stack where
  "arp_demo = (booted (\<lambda>f. int (length f)))
     \<lparr>s_skbs := [0 \<mapsto> (new_skb 1600)
        \<lparr>b_mem := replicate 14 0 @ arp_packet ARP_REQUEST [2, 0, 0, 0, 0, 1] 0x0a000005
            (replicate 6 0) netdev_addr @ replicate 1558 0\<rparr>],
      s_bnext := 1\<rparr>"

lemma arp_demo_holds:
  "holds_arp 0 ARP_REQUEST [2, 0, 0, 0, 0, 1] 0x0a000005 (replicate 6 0) (nd_addr (s_netdev arp_demo)) arp_demo"
  by (simp add: holds_arp_def arp_demo_def live_def deref_def mread_def arp_packet_def tap_dev_def)

lemma arp_demo_sel [simp]:
  "s_arp_cache arp_demo = []" "s_tap arp_demo = []" "s_fault arp_demo = False"
  "s_netdev arp_demo = tap_dev"
  by (simp_all add: arp_demo_def)

theorem arp_rcv_learns_witness:
  "arp_get_hwaddr 0x0a000005 (s_arp_cache (arp_rcv 0 arp_demo)) = Some [2, 0, 0, 0, 0, 1]"
  using arp_rcv_learns [OF arp_demo_holds, of "0x0a000005"] by simp

text \<open>
  An ARP request for this host's address in a receive buffer is answered: arp_rcv writes one
  frame to the tap device, an ARP reply from this host's hardware and protocol address to the
  sender's, in network byte order, frees the buffer and touches no memory outside it.
\<close>

theorem arp_rcv_replies:
  assumes "holds_arp b ARP_REQUEST smac sip dmac (nd_addr (s_netdev s)) s"
    and "netdev_ok (s_netdev s)"
    and "b_data (deref b s) = 0" "b_len (deref b s) = 0" "b_refcnt (deref b s) < 1"
  shows "s_tap (arp_rcv b s) = s_tap s @
      [eth_frame smac (nd_hwaddr (s_netdev s)) ETH_P_ARP
        (arp_packet ARP_REPLY (nd_hwaddr (s_netdev s)) (nd_addr (s_netdev s)) smac sip)]
    \<and> \<not> live b (arp_rcv b s) \<and> s_fault (arp_rcv b s) = s_fault s"
proof -
  let ?k = "put_arp_data (arp_msg_data smac sip dmac (nd_addr (s_netdev s)))
      (put_arp_hdr (arp_msg_hdr ARP_REQUEST) (deref b s))"
  let ?s = "(put_skb b ?k s)\<lparr>s_arp_cache := arp_merge (arp_msg_hdr ARP_REQUEST)
      (arp_msg_data smac sip dmac (nd_addr (s_netdev s))) (s_arp_cache s)\<rparr>"
  have l: "live b s" "42 \<le> length (b_mem (deref b s))" "length smac = 6" "length dmac = 6"
    using assms(1) by (auto simp: holds_arp_def)
  then have "live b ?s" "deref b ?s = ?k" by simp_all
  from arp_reply_to_request [OF this(1) l(2) assms(3-5) this(2) assms(2) l(3,4)]
  show ?thesis using l by (simp add: arp_rcv_for_us [OF assms(1)])
qed

theorem arp_rcv_replies_witness:
  "s_tap (arp_rcv 0 arp_demo) =
     [[2, 0, 0, 0, 0, 1,  0x00, 0x0c, 0x29, 0x6d, 0x50, 0x25,  8, 6,
       0, 1,  8, 0,  6, 4,  0, 2,  0x00, 0x0c, 0x29, 0x6d, 0x50, 0x25,  10, 0, 0, 4,
       2, 0, 0, 0, 0, 1,  10, 0, 0, 5]]"
proof -
  have "b_data (deref 0 arp_demo) = 0" "b_len (deref 0 arp_demo) = 0" "b_refcnt (deref 0 arp_demo) < 1"
    by (simp_all add: arp_demo_def deref_def new_skb_def)
  moreover have "eth_frame [2, 0, 0, 0, 0, 1] (nd_hwaddr tap_dev) ETH_P_ARP
        (arp_packet ARP_REPLY (nd_hwaddr tap_dev) (nd_addr tap_dev) [2, 0, 0, 0, 0, 1] 0x0a000005) =
      [2, 0, 0, 0, 0, 1,  0x00, 0x0c, 0x29, 0x6d, 0x50, 0x25,  8, 6,
       0, 1,  8, 0,  6, 4,  0, 2,  0x00, 0x0c, 0x29, 0x6d, 0x50, 0x25,  10, 0, 0, 4,
       2, 0, 0, 0, 0, 1,  10, 0, 0, 5]"
    by code_simp
  ultimately show ?thesis using arp_rcv_replies [OF arp_demo_holds] by simp
qed

end
