(* ===== verification/Sock.thy ===== *)
theory Sock
  imports Stack
begin

unbundle bit_operations_syntax

text \<open>
  \<open>include/sock.h\<close>, \<open>include/socket.h\<close> and the \<open>poll(2)\<close> and \<open>errno\<close> constants the code uses
  (Linux values).  \<open>struct sock\<close> is the first member of \<open>struct tcp_sock\<close>, so \<open>tcp_sock\<close> is an
  extension of the record \<open>sock\<close>.  Of a wait lock only the flag \<open>sleeping\<close> is state; its mutex
  and condition variable order the threads and appear in how steps are cut.
\<close>

datatype tcp_states = TCP_LISTEN | TCP_SYN_SENT | TCP_SYN_RECEIVED | TCP_ESTABLISHED
  | TCP_FIN_WAIT_1 | TCP_FIN_WAIT_2 | TCP_CLOSE | TCP_CLOSE_WAIT | TCP_CLOSING | TCP_LAST_ACK
  | TCP_TIME_WAIT

datatype socket_state = SS_FREE | SS_UNCONNECTED | SS_CONNECTING | SS_CONNECTED | SS_DISCONNECTING

definition POLLIN :: u16 where "POLLIN = 0x001"
definition POLLPRI :: u16 where "POLLPRI = 0x002"
definition POLLOUT :: u16 where "POLLOUT = 0x004"
definition POLLERR :: u16 where "POLLERR = 0x008"
definition POLLHUP :: u16 where "POLLHUP = 0x010"
definition POLLNVAL :: u16 where "POLLNVAL = 0x020"
definition POLLRDNORM :: u16 where "POLLRDNORM = 0x040"
definition POLLRDBAND :: u16 where "POLLRDBAND = 0x080"
definition POLLWRNORM :: u16 where "POLLWRNORM = 0x100"
definition POLLWRBAND :: u16 where "POLLWRBAND = 0x200"

lemmas poll_defs = POLLIN_def POLLPRI_def POLLOUT_def POLLERR_def POLLHUP_def POLLNVAL_def
  POLLRDNORM_def POLLRDBAND_def POLLWRNORM_def POLLWRBAND_def

definition EBADF :: int where "EBADF = 9"
definition EAGAIN :: int where "EAGAIN = 11"
definition EINVAL :: int where "EINVAL = 22"
definition EPIPE :: int where "EPIPE = 32"
definition EDEADLK :: int where "EDEADLK = 35"
definition ENOPROTOOPT :: int where "ENOPROTOOPT = 92"
definition EAFNOSUPPORT :: int where "EAFNOSUPPORT = 97"
definition ECONNRESET :: int where "ECONNRESET = 104"
definition EISCONN :: int where "EISCONN = 106"
definition ETIMEDOUT :: int where "ETIMEDOUT = 110"
definition ECONNREFUSED :: int where "ECONNREFUSED = 111"
definition EALREADY :: int where "EALREADY = 114"
definition EINPROGRESS :: int where "EINPROGRESS = 115"

lemmas errno_defs = EBADF_def EAGAIN_def EINVAL_def EPIPE_def EDEADLK_def ENOPROTOOPT_def
  EAFNOSUPPORT_def ECONNRESET_def EISCONN_def ETIMEDOUT_def ECONNREFUSED_def EALREADY_def
  EINPROGRESS_def

record sock =
  sk_recv_sleeping :: bool
  sk_receive_queue :: "nat list"
  sk_write_queue :: "nat list"
  sk_protocol :: int
  sk_state :: tcp_states
  sk_err :: int
  sk_poll_events :: u16
  sk_sport :: u16
  sk_dport :: u16
  sk_saddr :: u32
  sk_daddr :: u32

definition zero_sock :: sock where
  "zero_sock =
     \<lparr>sk_recv_sleeping = False, sk_receive_queue = [], sk_write_queue = [], sk_protocol = 0,
      sk_state = TCP_LISTEN, sk_err = 0, sk_poll_events = 0, sk_sport = 0, sk_dport = 0,
      sk_saddr = 0, sk_daddr = 0\<rparr>"

text \<open>
  \<open>struct socket\<close>.  \<open>so_locked\<close> is the state of the rwlock \<open>lock\<close>, held for writing or not;
  \<open>so_ops\<close> says whether \<open>ops\<close> points to \<open>inet_stream_ops\<close> or is NULL.
\<close>

record socket =
  so_fd :: int
  so_pid :: int
  so_refcnt :: int
  so_state :: socket_state
  so_type :: int
  so_flags :: u32
  so_ops :: bool
  so_sleeping :: bool
  so_locked :: bool

end
