(* ===== verification/Ip_Output.thy ===== *)
theory Ip_Output
  imports Arp Route Sock
begin

unbundle bit_operations_syntax

text \<open>
  Sending an IP datagram: \<open>src/ip_output.c\<close> and \<open>src/dst.c\<close>.  The transmit path works on one
  buffer; \<open>tx_frame\<close> says what of the shared state it leaves alone, and is transitive.
\<close>

definition ip_send_check :: "nat \<Rightarrow> 'a stack_scheme \<Rightarrow> 'a stack_scheme" where
  "ip_send_check b s =
     (let k = deref b s;
          ihdr = ip_hdr k;
          n = unat (ip_ihl ihdr) * 4;
          s = check (in_region (b_mem k) (int ETH_HDR_LEN) n) s;
          csum = checksum (mread (b_mem k) ETH_HDR_LEN n) 0
      in put_skb b (put_ip_hdr (ihdr\<lparr>ip_csum := csum\<rparr>) k) s)"

definition dst_neigh_output :: "nat \<Rightarrow> 'a stack_scheme \<Rightarrow> int \<times> 'a stack_scheme" where
  "dst_neigh_output b s =
     (case (b_rt (deref b s), b_dev (deref b s)) of
        (Some rt, Some dev) \<Rightarrow>
          let iphdr = ip_hdr (deref b s);
              daddr = ntohl (ip_daddr iphdr);
              saddr = ntohl (ip_saddr iphdr);
              daddr = (if rt_flags rt AND RT_GATEWAY \<noteq> 0 then rt_gateway rt else daddr)
          in (case arp_get_hwaddr daddr (s_arp_cache s) of
                Some dmac \<Rightarrow> netdev_transmit b dmac ETH_P_IP s
              | None \<Rightarrow> (let (rc, s) = arp_request saddr daddr dev s in (- 1, s)))
      | _ \<Rightarrow> (- 1, check False s))"

definition ip_fields :: "'b sock_scheme \<Rightarrow> rtentry \<Rightarrow> sk_buff \<Rightarrow> iphdr \<Rightarrow> iphdr" where
  "ip_fields sk rt k ihdr =
     ihdr\<lparr>ip_version := IPV4, ip_ihl := 5, ip_tos := 0, ip_len := ucast (b_len k),
         ip_id := ip_id ihdr, ip_frag_offset := 0x4000, ip_ttl := 64,
         ip_proto := ucast (b_protocol k), ip_saddr := nd_addr (rt_dev rt),
         ip_daddr := sk_daddr sk, ip_csum := 0\<rparr>"

definition ip_hton :: "iphdr \<Rightarrow> iphdr" where
  "ip_hton ihdr =
     ihdr\<lparr>ip_len := htons (ip_len ihdr), ip_id := htons (ip_id ihdr),
         ip_daddr := htonl (ip_daddr ihdr), ip_saddr := htonl (ip_saddr ihdr),
         ip_csum := htons (ip_csum ihdr), ip_frag_offset := htons (ip_frag_offset ihdr)\<rparr>"

definition ip_output :: "'b sock_scheme \<Rightarrow> nat \<Rightarrow> 'a stack_scheme \<Rightarrow> int \<times> 'a stack_scheme" where
  "ip_output sk b s =
     (let s = touch b s in
      case route_lookup (sk_daddr sk) s of
        None \<Rightarrow> (- 1, s)
      | Some rt \<Rightarrow>
          let k = (deref b s)\<lparr>b_dev := Some (rt_dev rt), b_rt := Some rt\<rparr>;
              k = skb_push IP_HDR_LEN k;
              ihdr = ip_fields sk rt k (ip_hdr k);
              k = put_ip_hdr (ip_hton ihdr) k;
              s = put_skb b k s;
              s = ip_send_check b s
          in dst_neigh_output b s)"

subsection \<open>What transmitting leaves alone\<close>

definition tx_frame :: "nat set \<Rightarrow> 'a stack_scheme \<Rightarrow> 'a stack_scheme \<Rightarrow> bool" where
  "tx_frame B s s' \<longleftrightarrow>
     s_tick s' = s_tick s \<and> s_timers s' = s_timers s \<and> s_tnext s' = s_tnext s
     \<and> s_threads s' = s_threads s \<and> s_arp_cache s' = s_arp_cache s \<and> s_routes s' = s_routes s
     \<and> s_loop s' = s_loop s \<and> s_netdev s' = s_netdev s \<and> s_write s' = s_write s
     \<and> stack.more s' = stack.more s \<and> s_bnext s \<le> s_bnext s'
     \<and> (\<forall>b. b \<notin> B \<and> b < s_bnext s \<longrightarrow> s_skbs s' b = s_skbs s b)
     \<and> (heap_ok s \<longrightarrow> heap_ok s' \<and> (\<forall>b. b \<notin> B \<longrightarrow> s_skbs s' b = s_skbs s b))
     \<and> (\<exists>fs. s_tap s' = s_tap s @ fs)"

lemma tx_frame_refl [simp]: "tx_frame B s s"
  by (simp add: tx_frame_def)

lemma tx_frame_trans: "tx_frame B s s' \<Longrightarrow> tx_frame B s' s'' \<Longrightarrow> tx_frame B s s''"
  by (fastforce simp: tx_frame_def)

lemma tx_frame_mono: "tx_frame A s s' \<Longrightarrow> A \<subseteq> B \<Longrightarrow> tx_frame B s s'"
  by (auto simp: tx_frame_def)

lemma tx_frame_check [simp]: "tx_frame B s (check c s)"
  by (simp add: tx_frame_def)

lemma tx_frame_touch [simp]: "tx_frame B s (touch b s)"
  by (simp add: touch_def)

lemma s_skbs_put_skb_other: "b' \<noteq> b \<Longrightarrow> s_skbs (put_skb b k s) b' = s_skbs s b'"
  by (simp add: put_skb_def)

lemma tx_frame_put_skb [intro]: "b \<in> B \<Longrightarrow> tx_frame B s (put_skb b k s)"
  by (cases "live b s") (auto simp: tx_frame_def put_skb_def heap_ok_def live_def)

lemma tun_write_frame:
  "tx_frame B s (snd (tun_write b d n s))"
  by (auto simp: tx_frame_def tun_write_def Let_def heap_ok_def live_def)

lemma netdev_transmit_frame: "b \<in> B \<Longrightarrow> tx_frame B s (snd (netdev_transmit b dst et s))"
  unfolding netdev_transmit_def Let_def
  by (auto split: option.split intro!: tx_frame_trans [OF _ tun_write_frame]
      intro: tx_frame_trans [OF tx_frame_check])

text \<open>The bookkeeping fields of a buffer that transmitting it does not change.\<close>

definition same_skb :: "sk_buff \<Rightarrow> sk_buff \<Rightarrow> bool" where
  "same_skb k k' \<longleftrightarrow> b_refcnt k' = b_refcnt k \<and> b_dlen k' = b_dlen k \<and> b_seq k' = b_seq k
     \<and> b_end_seq k' = b_end_seq k \<and> b_payload k' = b_payload k
     \<and> length (b_mem k') = length (b_mem k)"

definition tx_keeps :: "nat \<Rightarrow> 'a stack_scheme \<Rightarrow> 'a stack_scheme \<Rightarrow> bool" where
  "tx_keeps b s s' \<longleftrightarrow> (live b s \<longrightarrow> live b s' \<and> same_skb (deref b s) (deref b s'))"

lemma same_skb_refl [simp]: "same_skb k k"
  by (simp add: same_skb_def)

lemma same_skb_trans: "same_skb k k' \<Longrightarrow> same_skb k' k'' \<Longrightarrow> same_skb k k''"
  by (simp add: same_skb_def)

lemma same_skb_put_bytes [simp]: "same_skb k (put_bytes off bs k') = same_skb k k'"
  by (simp add: same_skb_def)

lemma same_skb_push [simp]: "same_skb k (skb_push n k') = same_skb k k'"
  by (simp add: same_skb_def)

lemma same_skb_dev [simp]:
  "same_skb k (k'\<lparr>b_dev := d\<rparr>) = same_skb k k'" "same_skb k (k'\<lparr>b_rt := r\<rparr>) = same_skb k k'"
  by (simp_all add: same_skb_def)

lemma tx_keeps_refl [simp]: "tx_keeps b s s"
  by (simp add: tx_keeps_def)

lemma tx_keeps_trans: "tx_keeps b s s' \<Longrightarrow> tx_keeps b s' s'' \<Longrightarrow> tx_keeps b s s''"
  by (auto simp: tx_keeps_def intro: same_skb_trans)

lemma tx_keeps_check [simp]: "tx_keeps b s (check c s)"
  by (simp add: tx_keeps_def)

lemma tx_keeps_put:
  "tx_keeps b s s' \<Longrightarrow> same_skb (deref b s) k \<Longrightarrow> tx_keeps b s (put_skb b k s')"
  by (simp add: tx_keeps_def)

lemma tun_write_keeps [simp]: "tx_keeps b s (snd (tun_write b' d n s))"
  by (simp add: tx_keeps_def tun_write_def Let_def live_def deref_def)

lemma netdev_transmit_keeps: "tx_keeps b s (snd (netdev_transmit b dst et s))"
  unfolding netdev_transmit_def Let_def
  by (auto split: option.split intro!: tx_keeps_trans [OF _ tun_write_keeps]
      intro: tx_keeps_put)

text \<open>A step that allocates a buffer, transmits it and frees it again touches no other buffer.\<close>

lemma tx_frame_alloc:
  assumes f: "tx_frame {s_bnext s} (snd (alloc_skb n s)) s2" and k: "tx_keeps (s_bnext s) (snd (alloc_skb n s)) s2"
  shows "tx_frame {} s (free_skb (s_bnext s) s2)"
proof -
  let ?b = "s_bnext s" and ?s1 = "snd (alloc_skb n s)" and ?s3 = "free_skb (s_bnext s) s2"
  have s1: "?s1 = s\<lparr>s_skbs := (s_skbs s)(?b \<mapsto> new_skb n), s_bnext := Suc ?b\<rparr>"
    by (simp add: alloc_skb_def)
  have "live ?b ?s1" "b_refcnt (deref ?b ?s1) < 1"
    by (simp_all add: s1 live_def deref_def new_skb_def)
  then have l2: "live ?b s2" "b_refcnt (deref ?b s2) < 1"
    using k by (auto simp: tx_keeps_def same_skb_def)
  then have s3: "?s3 = s2\<lparr>s_skbs := (s_skbs s2)(?b := None)\<rparr>"
    by (simp add: free_skb_live)
  have other: "s_skbs ?s3 b' = s_skbs s b'" if "b' < ?b" for b'
    using that f unfolding s3 s1 by (auto simp: tx_frame_def)
  have hk: "heap_ok ?s3 \<and> (\<forall>b'. s_skbs ?s3 b' = s_skbs s b')" if h: "heap_ok s"
  proof -
    have "heap_ok ?s1" using h by (auto simp: s1 heap_ok_def live_def less_Suc_eq split: if_splits)
    then have h2: "heap_ok s2" and o2: "\<And>b'. b' \<noteq> ?b \<Longrightarrow> s_skbs s2 b' = s_skbs ?s1 b'"
      using f by (auto simp: tx_frame_def)
    have "s_skbs s ?b = None" using h unfolding heap_ok_def live_def by (meson less_irrefl)
    then have "s_skbs ?s3 b' = s_skbs s b'" for b'
      using o2 by (cases "b' = ?b") (simp_all add: s3 s1)
    moreover have "heap_ok ?s3"
      using h2 by (auto simp: s3 heap_ok_def live_def split: if_splits)
    ultimately show ?thesis by blast
  qed
  have "s_bnext s \<le> s_bnext ?s3" using f by (simp add: s3 s1 tx_frame_def)
  then show ?thesis
    using f other hk unfolding tx_frame_def s1 s3 by simp
qed

lemma tx_keeps_frame:
  assumes "tx_frame {} s s'" and "heap_ok s"
  shows "tx_keeps b s s'"
  using assms by (simp add: tx_frame_def tx_keeps_def live_def deref_def)

lemma same_skb_reserve [simp]: "same_skb k (skb_reserve n k') = same_skb k k'"
  by (simp add: same_skb_def skb_reserve_def)

lemma same_skb_protocol [simp]: "same_skb k (k'\<lparr>b_protocol := p\<rparr>) = same_skb k k'"
  by (simp add: same_skb_def)

lemma live_alloc_skb [simp]: "live (s_bnext s) (snd (alloc_skb n s))"
  by (simp add: alloc_skb_def live_def)

lemma fst_alloc_skb [simp]: "fst (alloc_skb n s) = s_bnext s"
  by (simp add: alloc_skb_def)

lemma arp_request_frame: "tx_frame {} s (snd (arp_request sip dip dev s))"
  unfolding arp_request_def arp_alloc_skb_def Let_def split_beta fst_conv snd_conv fst_alloc_skb
  by (rule tx_frame_alloc)
    (auto intro!: tx_frame_trans [OF _ netdev_transmit_frame] tx_keeps_trans [OF _ netdev_transmit_keeps]
      intro: tx_keeps_put)

lemma dst_neigh_output_frame: "b \<in> B \<Longrightarrow> tx_frame B s (snd (dst_neigh_output b s))"
  unfolding dst_neigh_output_def Let_def split_beta
  by (auto split: option.split intro: netdev_transmit_frame tx_frame_mono [OF arp_request_frame])

lemma dst_neigh_output_keeps: "heap_ok s \<Longrightarrow> tx_keeps b s (snd (dst_neigh_output b s))"
  unfolding dst_neigh_output_def Let_def split_beta
  by (auto split: option.split intro: netdev_transmit_keeps tx_keeps_frame [OF arp_request_frame])

lemma ip_send_check_frame: "b \<in> B \<Longrightarrow> tx_frame B s (ip_send_check b s)"
  unfolding ip_send_check_def Let_def
  by (auto intro: tx_frame_trans [OF tx_frame_check])

lemma ip_send_check_keeps: "tx_keeps b s (ip_send_check b s)"
  unfolding ip_send_check_def Let_def
  by (auto intro: tx_keeps_put)

lemma heap_ok_ip_send_check [simp]: "heap_ok (ip_send_check b s) = heap_ok s"
  by (simp add: ip_send_check_def Let_def)

lemma ip_output_frame: "b \<in> B \<Longrightarrow> tx_frame B s (snd (ip_output sk b s))"
  unfolding ip_output_def Let_def
  by (auto split: option.split intro!: tx_frame_trans [OF _ dst_neigh_output_frame]
      tx_frame_trans [OF _ ip_send_check_frame] intro: tx_frame_trans [OF tx_frame_touch])

lemma ip_output_keeps: "heap_ok s \<Longrightarrow> tx_keeps b s (snd (ip_output sk b s))"
  unfolding ip_output_def Let_def
  by (auto split: option.split intro!: tx_keeps_trans [OF _ dst_neigh_output_keeps]
      tx_keeps_trans [OF _ ip_send_check_keeps] intro: tx_keeps_put simp: touch_def)

subsection \<open>The datagram a transmission writes\<close>

definition ip_header :: "'b sock_scheme \<Rightarrow> rtentry \<Rightarrow> u8 \<Rightarrow> u16 \<Rightarrow> u16 \<Rightarrow> iphdr" where
  "ip_header sk rt proto len ident =
     \<lparr>ip_ihl = 5, ip_version = IPV4, ip_tos = 0, ip_len = htons len, ip_id = htons ident,
      ip_frag_offset = htons 0x4000, ip_ttl = 64, ip_proto = proto, ip_csum = 0,
      ip_saddr = htonl (nd_addr (rt_dev rt)), ip_daddr = htonl (sk_daddr sk)\<rparr>"

definition ip_fill :: "iphdr \<Rightarrow> iphdr" where
  "ip_fill h = h\<lparr>ip_csum := checksum (enc_iphdr (h\<lparr>ip_csum := 0\<rparr>)) 0\<rparr>"

lemma ip_fill_verifies: "checksum (enc_iphdr (ip_fill h)) 0 = 0"
proof -
  let ?pre = "[pack_nibbles (ip_ihl h) (ip_version h), ip_tos h] @ le16 (ip_len h)
     @ le16 (ip_id h) @ le16 (ip_frag_offset h) @ [ip_ttl h, ip_proto h]"
  let ?post = "le32 (ip_saddr h) @ le32 (ip_daddr h)"
  have e0: "enc_iphdr (h\<lparr>ip_csum := 0\<rparr>) = ?pre @ le16 0 @ ?post"
    by (simp add: enc_iphdr_def)
  have e1: "enc_iphdr (ip_fill h) = ?pre @ le16 (checksum (?pre @ le16 0 @ ?post) 0) @ ?post"
    unfolding ip_fill_def e0 by (simp add: enc_iphdr_def)
  have "wsum (?pre @ le16 0 @ ?post) \<le> 65535 * 10"
    using wsum_bound [of "?pre @ le16 0 @ ?post"] by simp
  then show ?thesis unfolding e1 by (intro checksum_fill) simp_all
qed

lemma mread_enc_ip [simp]:
  "34 \<le> length m \<Longrightarrow> mread (mwrite m 14 (enc_iphdr h)) 14 20 = enc_iphdr h"
  by (simp add: mem_simps)

lemma ip_send_check_eq:
  assumes l: "live b s" and k: "ip_hdr (deref b s) = h" "ip_ihl h = 5" "ip_csum h = 0"
    and m: "mread (b_mem (deref b s)) 14 20 = enc_iphdr h" "34 \<le> length (b_mem (deref b s))"
  shows "ip_send_check b s = put_skb b (put_ip_hdr (ip_fill h) (deref b s)) s"
proof -
  have "h\<lparr>ip_csum := 0\<rparr> = h" using k(3) by (cases h) simp
  then have "ip_fill h = h\<lparr>ip_csum := checksum (enc_iphdr h) 0\<rparr>"
    by (simp only: ip_fill_def)
  then show ?thesis
    using l k m by (simp add: ip_send_check_def Let_def in_region_def)
qed

lemma ucast_of_nat_16: "ucast (of_nat n :: u32) = (of_nat n :: u16)"
  by transfer simp

text \<open>
  The bytes an \<open>ip_output\<close> hands to the device layer, from the IP header on, and the buffer it
  leaves.
\<close>

definition ip_datagram :: "'b sock_scheme \<Rightarrow> rtentry \<Rightarrow> u8 \<Rightarrow> u16 \<Rightarrow> bytes \<Rightarrow> bytes" where
  "ip_datagram sk rt proto ident payload =
     enc_iphdr (ip_fill (ip_header sk rt proto (of_nat (20 + length payload)) ident)) @ payload"

definition next_hop :: "rtentry \<Rightarrow> u32 \<Rightarrow> u32" where
  "next_hop rt daddr = (if rt_flags rt AND RT_GATEWAY \<noteq> 0 then rt_gateway rt else daddr)"

definition ip_ready :: "nat \<Rightarrow> nat \<Rightarrow> 'a stack_scheme \<Rightarrow> bool" where
  "ip_ready b n s \<longleftrightarrow> live b s \<and> b_data (deref b s) = 34
     \<and> 34 + n \<le> length (b_mem (deref b s)) \<and> unat (b_len (deref b s)) = n \<and> n + 34 < 2 ^ 32"

lemma ip_output_to_neigh:
  assumes r: "ip_ready b n s" and rt: "route_lookup (sk_daddr sk) s = Some rt"
  defines "k \<equiv> deref b s"
  defines "D \<equiv> take 14 (b_mem k)
      @ ip_datagram sk rt (ucast (b_protocol k)) (ip_id (ip_hdr k)) (take n (drop 34 (b_mem k)))
      @ drop (34 + n) (b_mem k)"
  shows "ip_output sk b s =
    dst_neigh_output b
      (put_skb b (k\<lparr>b_mem := D, b_dev := Some (rt_dev rt), b_rt := Some rt, b_data := 14,
                   b_len := b_len k + 20\<rparr>) s)"
proof -
  have k: "live b s" "b_data k = 34" "34 + n \<le> length (b_mem k)" "unat (b_len k) = n"
    using r by (auto simp: ip_ready_def k_def)
  have split: "take n (drop 34 (b_mem k)) @ drop (34 + n) (b_mem k) = drop 34 (b_mem k)"
    using append_take_drop_id [of n "drop 34 (b_mem k)"] by (simp add: add.commute)
  let ?k1 = "skb_push 20 (k\<lparr>b_dev := Some (rt_dev rt), b_rt := Some rt\<rparr>)"
  let ?h = "ip_header sk rt (ucast (b_protocol k)) (of_nat (20 + n)) (ip_id (ip_hdr k))"
  have len: "ucast (b_len k + 20) = (of_nat (20 + n) :: u16)"
  proof -
    have "b_len k + 20 = of_nat (20 + n)"
      using k(4) by (simp flip: k(4) add: add.commute)
    then show ?thesis by (simp only: ucast_of_nat_16)
  qed
  have ihk: "ip_hdr ?k1 = ip_hdr k" by (simp add: ip_hdr_def)
  have h: "ip_hton (ip_fields sk rt ?k1 (ip_hdr ?k1)) = ?h"
    using len unfolding ihk
    by (simp add: ip_hton_def ip_fields_def ip_header_def)
  let ?k2 = "put_ip_hdr ?h ?k1"
  let ?s2 = "put_skb b ?k2 s"
  have s2: "live b ?s2" "deref b ?s2 = ?k2" using k by auto
  have "ip_send_check b ?s2 = put_skb b (put_ip_hdr (ip_fill ?h) ?k2) ?s2"
    using ip_send_check_eq [of b ?s2 ?h] k s2
    by (simp add: b_mem_put_bytes ip_header_def)
  moreover have "put_ip_hdr (ip_fill ?h) ?k2 =
      k\<lparr>b_mem := D, b_dev := Some (rt_dev rt), b_rt := Some rt, b_data := 14, b_len := b_len k + 20\<rparr>"
    using k split by (simp add: put_bytes_def skb_push_def D_def ip_datagram_def mwrite_def)
  ultimately show ?thesis
    using k rt h by (simp add: ip_output_def Let_def k_def [symmetric])
qed

lemma length_ip_datagram [simp]: "length (ip_datagram sk rt proto ident pl) = 20 + length pl"
  by (simp add: ip_datagram_def)

lemma ip_hdr_of_datagram:
  assumes "length e = 14" and "b_mem k = e @ ip_datagram sk rt proto ident pl @ rest"
  shows "ip_saddr (ip_hdr k) = htonl (nd_addr (rt_dev rt))" and "ip_daddr (ip_hdr k) = htonl (sk_daddr sk)"
  using assms
  by (simp_all add: ip_hdr_def mread_def ip_datagram_def enc_simps ip_fill_def ip_header_def)

lemma dst_neigh_output_at:
  assumes "deref b s = k" "b_rt k = Some rt" "b_dev k = Some dev"
    and "ip_daddr (ip_hdr k) = htonl d" "ip_saddr (ip_hdr k) = htonl a"
  shows "dst_neigh_output b s =
    (case arp_get_hwaddr (next_hop rt d) (s_arp_cache s) of
       Some dmac \<Rightarrow> netdev_transmit b dmac ETH_P_IP s
     | None \<Rightarrow> (- 1, snd (arp_request a (next_hop rt d) dev s)))"
  using assms by (simp add: dst_neigh_output_def Let_def next_hop_def split_beta split: option.split)

lemma ip_output_resolved:
  assumes r: "ip_ready b n s" and rt: "route_lookup (sk_daddr sk) s = Some rt" "netdev_ok (rt_dev rt)"
    and arp: "arp_get_hwaddr (next_hop rt (sk_daddr sk)) (s_arp_cache s) = Some dmac" "length dmac = 6"
  defines "k \<equiv> deref b s"
  defines "F \<equiv> eth_frame dmac (nd_hwaddr (rt_dev rt)) ETH_P_IP
      (ip_datagram sk rt (ucast (b_protocol k)) (ip_id (ip_hdr k)) (take n (drop 34 (b_mem k))))"
  shows "ip_output sk b s =
    (s_write s F,
     (put_skb b (k\<lparr>b_mem := F @ drop (34 + n) (b_mem k), b_dev := Some (rt_dev rt), b_rt := Some rt, b_data := 0,
                   b_len := b_len k + 34\<rparr>) s)\<lparr>s_tap := s_tap s @ [F]\<rparr>)"
proof -
  have k: "live b s" "b_data k = 34" "34 + n \<le> length (b_mem k)" "unat (b_len k) = n" "n + 34 < 2 ^ 32"
    using r by (auto simp: ip_ready_def k_def)
  define dg where "dg = ip_datagram sk rt (ucast (b_protocol k)) (ip_id (ip_hdr k)) (take n (drop 34 (b_mem k)))"
  define k2 where "k2 = k\<lparr>b_mem := take 14 (b_mem k) @ dg @ drop (34 + n) (b_mem k), b_dev := Some (rt_dev rt), b_rt := Some rt,
      b_data := 14, b_len := b_len k + 20\<rparr>"
  have out: "ip_output sk b s = dst_neigh_output b (put_skb b k2 s)"
    unfolding k2_def dg_def k_def by (rule ip_output_to_neigh [OF r rt(1)])
  have h: "ip_daddr (ip_hdr k2) = htonl (sk_daddr sk)" "ip_saddr (ip_hdr k2) = htonl (nd_addr (rt_dev rt))"
    using ip_hdr_of_datagram [of "take 14 (b_mem k)" k2 sk rt "ucast (b_protocol k)" "ip_id (ip_hdr k)" "take n (drop 34 (b_mem k))" "drop (34 + n) (b_mem k)"]
      k by (simp_all add: k2_def dg_def)
  have tx: "dst_neigh_output b (put_skb b k2 s) = netdev_transmit b dmac ETH_P_IP (put_skb b k2 s)"
    using k arp(1) dst_neigh_output_at [OF _ _ _ h, of b "put_skb b k2 s" rt "rt_dev rt"]
    by (simp add: k2_def)
  have ul: "unat (b_len k + 20) = n + 20" using k by (simp add: unat_word_ariths)
  have ld: "length dg = 20 + n" using k by (simp add: dg_def)
  have "netdev_transmit b dmac ETH_P_IP (put_skb b k2 s) =
      (s_write s F, (put_skb b ((skb_push 14 k2)\<lparr>b_mem := F @ drop (34 + n) (b_mem k)\<rparr>) (put_skb b k2 s))\<lparr>s_tap := s_tap s @ [F]\<rparr>)"
    using k rt arp ul ld
    by (subst netdev_transmit_long [where dev = "rt_dev rt" and n = "n + 20"])
      (simp_all add: k2_def F_def dg_def)
  moreover have "(skb_push 14 k2)\<lparr>b_mem := F @ drop (34 + n) (b_mem k)\<rparr> =
      k\<lparr>b_mem := F @ drop (34 + n) (b_mem k), b_dev := Some (rt_dev rt), b_rt := Some rt, b_data := 0, b_len := b_len k + 34\<rparr>"
    by (simp add: k2_def skb_push_def)
  ultimately show ?thesis by (simp add: out tx)
qed

lemma ip_output_unresolved:
  assumes r: "ip_ready b n s" and rt: "route_lookup (sk_daddr sk) s = Some rt" "netdev_ok (rt_dev rt)"
    and arp: "arp_get_hwaddr (next_hop rt (sk_daddr sk)) (s_arp_cache s) = None"
  shows "fst (ip_output sk b s) = - 1"
    and "s_tap (snd (ip_output sk b s)) = s_tap s @
      [eth_frame broadcast_hw (nd_hwaddr (rt_dev rt)) ETH_P_ARP
        (arp_packet ARP_REQUEST (nd_hwaddr (rt_dev rt)) (nd_addr (rt_dev rt)) broadcast_hw
          (next_hop rt (sk_daddr sk)))]"
    and "s_fault (snd (ip_output sk b s)) = s_fault s"
proof -
  define k where "k = deref b s"
  have k: "live b s" "34 + n \<le> length (b_mem k)"
    using r by (auto simp: ip_ready_def k_def)
  define dg where "dg = ip_datagram sk rt (ucast (b_protocol k)) (ip_id (ip_hdr k)) (take n (drop 34 (b_mem k)))"
  define k2 where "k2 = k\<lparr>b_mem := take 14 (b_mem k) @ dg @ drop (34 + n) (b_mem k), b_dev := Some (rt_dev rt), b_rt := Some rt,
      b_data := 14, b_len := b_len k + 20\<rparr>"
  have out: "ip_output sk b s = dst_neigh_output b (put_skb b k2 s)"
    unfolding k2_def dg_def k_def by (rule ip_output_to_neigh [OF r rt(1)])
  have h: "ip_daddr (ip_hdr k2) = htonl (sk_daddr sk)" "ip_saddr (ip_hdr k2) = htonl (nd_addr (rt_dev rt))"
    using ip_hdr_of_datagram [of "take 14 (b_mem k)" k2 sk rt "ucast (b_protocol k)" "ip_id (ip_hdr k)" "take n (drop 34 (b_mem k))" "drop (34 + n) (b_mem k)"]
      k by (simp_all add: k2_def dg_def)
  have tx: "dst_neigh_output b (put_skb b k2 s) =
      (- 1, snd (arp_request (nd_addr (rt_dev rt)) (next_hop rt (sk_daddr sk)) (rt_dev rt) (put_skb b k2 s)))"
    using k arp(1) dst_neigh_output_at [OF _ _ _ h, of b "put_skb b k2 s" rt "rt_dev rt"]
    by (simp add: k2_def)
  show "fst (ip_output sk b s) = - 1" by (simp add: out tx)
  show "s_fault (snd (ip_output sk b s)) = s_fault s"
    using k rt by (simp add: out tx arp_request_eq)
  show "s_tap (snd (ip_output sk b s)) = s_tap s @
      [eth_frame broadcast_hw (nd_hwaddr (rt_dev rt)) ETH_P_ARP
        (arp_packet ARP_REQUEST (nd_hwaddr (rt_dev rt)) (nd_addr (rt_dev rt)) broadcast_hw
          (next_hop rt (sk_daddr sk)))]"
    using k rt by (simp add: out tx arp_request_eq)
qed

text \<open>
  A datagram for a neighbour whose hardware address is known leaves ip_output as exactly one
  frame: link addresses from the ARP cache and the route's device, a 20 byte IPv4 header with the
  route device's address as source, the socket's peer as destination and the total length, whose
  ones' complement checksum verifies, then the payload untouched; no other buffer changes.
\<close>

theorem ip_output_sends:
  assumes "ip_ready b n s" and "route_lookup (sk_daddr sk) s = Some rt" "netdev_ok (rt_dev rt)"
    and "arp_get_hwaddr (next_hop rt (sk_daddr sk)) (s_arp_cache s) = Some dmac" "length dmac = 6"
  shows "\<exists>F. s_tap (snd (ip_output sk b s)) = s_tap s @ [F] \<and> fst (ip_output sk b s) = s_write s F
    \<and> length F = 34 + n
    \<and> mread F 0 14 = dmac @ nd_hwaddr (rt_dev rt) @ be16 ETH_P_IP
    \<and> checksum (mread F 14 20) 0 = 0
    \<and> ntohl (ip_saddr (dec_iphdr (mread F 14 20))) = nd_addr (rt_dev rt)
    \<and> ntohl (ip_daddr (dec_iphdr (mread F 14 20))) = sk_daddr sk
    \<and> ntohs (ip_len (dec_iphdr (mread F 14 20))) = of_nat (20 + n)
    \<and> drop 34 F = take n (drop 34 (b_mem (deref b s)))
    \<and> (\<forall>b'. b' \<noteq> b \<longrightarrow> deref b' (snd (ip_output sk b s)) = deref b' s)
    \<and> s_fault (snd (ip_output sk b s)) = s_fault s"
proof -
  define k where "k = deref b s"
  define h where "h = ip_fill (ip_header sk rt (ucast (b_protocol k)) (of_nat (20 + n)) (ip_id (ip_hdr k)))"
  define pl where "pl = take n (drop 34 (b_mem k))"
  define F where "F = eth_frame dmac (nd_hwaddr (rt_dev rt)) ETH_P_IP (enc_iphdr h @ pl)"
  have l: "live b s" "length pl = n" using assms(1) by (auto simp: ip_ready_def pl_def k_def)
  have F: "F = eth_frame dmac (nd_hwaddr (rt_dev rt)) ETH_P_IP
      (ip_datagram sk rt (ucast (b_protocol k)) (ip_id (ip_hdr k)) (take n (drop 34 (b_mem k))))"
    using l by (simp add: F_def ip_datagram_def h_def pl_def)
  note out = ip_output_resolved [OF assms, folded k_def, folded F]
  have hw: "length (nd_hwaddr (rt_dev rt)) = 6" using assms(3) by (simp add: netdev_ok_def)
  have e: "mread F 14 20 = enc_iphdr h" "drop 34 F = pl" "length F = 34 + n"
    "mread F 0 14 = dmac @ nd_hwaddr (rt_dev rt) @ be16 ETH_P_IP"
    using assms(5) hw l by (simp_all add: F_def eth_frame_def mread_def)
  have fields: "ip_saddr h = htonl (nd_addr (rt_dev rt))" "ip_daddr h = htonl (sk_daddr sk)"
    "ip_len h = htons (of_nat (20 + n))"
    by (simp_all add: h_def ip_fill_def ip_header_def)
  have cs: "checksum (enc_iphdr h) 0 = 0" by (simp add: h_def ip_fill_verifies)
  show ?thesis
    by (rule exI [of _ F]) (use l in \<open>simp add: out e fields cs enc_simps pl_def k_def\<close>)
qed

text \<open>A connected socket's peer, a route to it and a segment of four bytes ready to send.\<close>

definition out_demo :: stack where
  "out_demo = (booted (\<lambda>f. int (length f)))
     \<lparr>s_skbs := [0 \<mapsto> (new_skb 38)\<lparr>b_data := 34, b_len := 4, b_protocol := 6\<rparr>], s_bnext := 1,
      s_arp_cache := [\<lparr>ae_hwtype = 1, ae_sip = 0x0a000005, ae_smac = [2, 0, 0, 0, 0, 1],
                       ae_state = ARP_RESOLVED\<rparr>]\<rparr>"

definition far_sock :: sock where "far_sock = zero_sock\<lparr>sk_daddr := 0x08080808\<rparr>"

lemma out_demo_ready: "ip_ready 0 4 out_demo"
  by (simp add: ip_ready_def out_demo_def live_def deref_def new_skb_def)

lemma out_demo_route:
  "route_lookup 0x08080808 out_demo = Some (route_alloc 0 0x0a000005 0 RT_GATEWAY 0 tap_dev)"
  by (simp add: out_demo_def route_lookup_def booted_def route_matches_def route_alloc_def)

lemma out_demo_hop: "next_hop (route_alloc 0 0x0a000005 0 RT_GATEWAY 0 tap_dev) d = 0x0a000005"
  by (simp add: next_hop_def route_alloc_def RT_GATEWAY_def)

theorem ip_output_sends_witness:
  "\<exists>F. s_tap (snd (ip_output far_sock 0 out_demo)) = [F] \<and> length F = 38
    \<and> mread F 0 14 = [2, 0, 0, 0, 0, 1, 0x00, 0x0c, 0x29, 0x6d, 0x50, 0x25, 8, 0]
    \<and> checksum (mread F 14 20) 0 = 0"
proof -
  have "arp_get_hwaddr 0x0a000005 (s_arp_cache out_demo) = Some [2, 0, 0, 0, 0, 1]"
    by (simp add: out_demo_def)
  moreover have "[2, 0, 0, 0, 0, 1] @ nd_hwaddr tap_dev @ be16 ETH_P_IP =
      [2, 0, 0, 0, 0, 1, 0x00, 0x0c, 0x29, 0x6d, 0x50, 0x25, 8, 0]"
    by code_simp
  moreover have "s_tap out_demo = []" by (simp add: out_demo_def)
  moreover have "rt_dev (route_alloc 0 0x0a000005 0 RT_GATEWAY 0 tap_dev) = tap_dev"
    by (simp add: route_alloc_def)
  ultimately show ?thesis
    using ip_output_sends [OF out_demo_ready, of far_sock "route_alloc 0 0x0a000005 0 RT_GATEWAY 0 tap_dev"
        "[2, 0, 0, 0, 0, 1]"]
    by (auto simp: out_demo_route out_demo_hop far_sock_def)
qed

text \<open>
  While the next hop (the gateway of a gateway route, the destination otherwise) has no entry
  in the ARP cache, ip_output does not send the datagram: it returns -1 and writes one ARP request
  for the next hop to the tap device.
\<close>

theorem ip_output_arp_miss:
  assumes "ip_ready b n s" and "route_lookup (sk_daddr sk) s = Some rt" "netdev_ok (rt_dev rt)"
    and "arp_get_hwaddr (next_hop rt (sk_daddr sk)) (s_arp_cache s) = None"
  shows "fst (ip_output sk b s) = - 1
    \<and> s_tap (snd (ip_output sk b s)) = s_tap s @
      [eth_frame broadcast_hw (nd_hwaddr (rt_dev rt)) ETH_P_ARP
        (arp_packet ARP_REQUEST (nd_hwaddr (rt_dev rt)) (nd_addr (rt_dev rt)) broadcast_hw
          (next_hop rt (sk_daddr sk)))]
    \<and> s_fault (snd (ip_output sk b s)) = s_fault s"
  using ip_output_unresolved [OF assms] by simp

theorem ip_output_arp_miss_witness:
  "fst (ip_output far_sock 0 (out_demo\<lparr>s_arp_cache := []\<rparr>)) = - 1 \<and>
   s_tap (snd (ip_output far_sock 0 (out_demo\<lparr>s_arp_cache := []\<rparr>))) =
     [eth_frame broadcast_hw (nd_hwaddr tap_dev) ETH_P_ARP
        (arp_packet ARP_REQUEST (nd_hwaddr tap_dev) 0x0a000004 broadcast_hw 0x0a000005)]"
proof -
  let ?s = "out_demo\<lparr>s_arp_cache := []\<rparr>"
  have "ip_ready 0 4 ?s" using out_demo_ready by (simp add: ip_ready_def)
  moreover have "route_lookup (sk_daddr far_sock) ?s = Some (route_alloc 0 0x0a000005 0 RT_GATEWAY 0 tap_dev)"
    using out_demo_route by (simp add: route_lookup_def far_sock_def)
  ultimately show ?thesis
    using ip_output_arp_miss [of 0 4 ?s far_sock "route_alloc 0 0x0a000005 0 RT_GATEWAY 0 tap_dev"]
    by (simp add: next_hop_def RT_GATEWAY_def route_alloc_def out_demo_def tap_dev_def netdev_addr_def netdev_ok_def)
qed

end
