(* ===== verification/Timer.thy ===== *)
theory Timer
  imports Stack
begin

text \<open>
  The timers of \<open>src/timer.c\<close>.  The list holds the timers in the order they were added; a
  timer is named by its address.  \<open>timers_tick\<close> gets the set of timers whose mutex another
  thread holds at that moment: \<open>pthread_mutex_trylock\<close> fails for them and they are left for
  the next tick.  A thread started by \<open>pthread_create\<close> is queued in \<open>s_threads\<close> and runs later.
\<close>

definition timer_get_tick :: "'a stack_scheme \<Rightarrow> u32" where
  "timer_get_tick s = s_tick s"

definition timer_alloc :: "int \<Rightarrow> u32 \<Rightarrow> handler \<Rightarrow> nat \<Rightarrow> 'a stack_scheme \<Rightarrow> timer" where
  "timer_alloc refcnt expire h arg s =
     \<lparr>t_id = s_tnext s, t_refcnt = refcnt, t_expires = timer_get_tick s + expire,
      t_cancelled = False, t_handler = h, t_arg = arg\<rparr>"

definition timer_oneshot :: "u32 \<Rightarrow> handler \<Rightarrow> nat \<Rightarrow> 'a stack_scheme \<Rightarrow> 'a stack_scheme" where
  "timer_oneshot expire h arg s =
     s\<lparr>s_timers := s_timers s @ [timer_alloc 0 expire h arg s], s_tnext := Suc (s_tnext s)\<rparr>"

definition timer_add :: "u32 \<Rightarrow> handler \<Rightarrow> nat \<Rightarrow> 'a stack_scheme \<Rightarrow> nat \<times> 'a stack_scheme" where
  "timer_add expire h arg s =
     (s_tnext s,
      s\<lparr>s_timers := s_timers s @ [timer_alloc 1 expire h arg s], s_tnext := Suc (s_tnext s)\<rparr>)"

definition timer_live :: "nat \<Rightarrow> 'a stack_scheme \<Rightarrow> bool" where
  "timer_live i s \<longleftrightarrow> i \<in> t_id ` set (s_timers s)"

definition upd_timer :: "nat \<Rightarrow> (timer \<Rightarrow> timer) \<Rightarrow> timer list \<Rightarrow> timer list" where
  "upd_timer i f ts = map (\<lambda>t. if t_id t = i then f t else t) ts"

definition timer_release :: "nat option \<Rightarrow> 'a stack_scheme \<Rightarrow> 'a stack_scheme" where
  "timer_release t s =
     (case t of None \<Rightarrow> s
      | Some i \<Rightarrow> (check (timer_live i s) s)
          \<lparr>s_timers := upd_timer i (\<lambda>t. t\<lparr>t_refcnt := t_refcnt t - 1\<rparr>) (s_timers s)\<rparr>)"

definition timer_cancel :: "nat option \<Rightarrow> 'a stack_scheme \<Rightarrow> 'a stack_scheme" where
  "timer_cancel t s =
     (case t of None \<Rightarrow> s
      | Some i \<Rightarrow> (check (timer_live i s) s)
          \<lparr>s_timers :=
             upd_timer i (\<lambda>t. t\<lparr>t_refcnt := t_refcnt t - 1, t_cancelled := True\<rparr>) (s_timers s)\<rparr>)"

text \<open>The loop over the list: the timers that stay and the threads created, in order.\<close>

fun tick_list :: "nat set \<Rightarrow> u32 \<Rightarrow> timer list \<Rightarrow> timer list \<times> (handler \<times> nat) list" where
  "tick_list busy tick [] = ([], [])"
| "tick_list busy tick (t # ts) =
     (let (rest, run) = tick_list busy tick ts in
      if t_id t \<in> busy then (t # rest, run)
      else
        let fire = (\<not> t_cancelled t \<and> t_expires t < tick);
            t = (if fire then t\<lparr>t_cancelled := True\<rparr> else t);
            run = (if fire then (t_handler t, t_arg t) # run else run)
        in (if t_cancelled t \<and> t_refcnt t = 0 then (rest, run) else (t # rest, run)))"

definition timers_tick :: "nat set \<Rightarrow> 'a stack_scheme \<Rightarrow> 'a stack_scheme" where
  "timers_tick busy s =
     (let (ts, run) = tick_list busy (s_tick s) (s_timers s)
      in s\<lparr>s_timers := ts, s_threads := s_threads s @ run\<rparr>)"

text \<open>
  One round of \<open>timers_start\<close>: 10 ms later.  The tick is an \<open>int\<close>, whose overflow (after 24 days) is
  undefined and sets the fault flag.
\<close>

definition timers_round :: "nat set \<Rightarrow> 'a stack_scheme \<Rightarrow> 'a stack_scheme" where
  "timers_round busy s = timers_tick busy ((check (unat (s_tick s) + 10 < 2 ^ 31) s)\<lparr>s_tick := s_tick s + 10\<rparr>)"

end
