(* ===== verification/Tcp_Conn.thy ===== *)
theory Tcp_Conn
  imports Ip_Output Timer
begin

unbundle bit_operations_syntax

text \<open>
  The state of one connection and what every part of TCP uses of it: \<open>struct tcb\<close>,
  \<open>struct tcp_sock\<close> (\<open>include/tcp.h\<close>), the timers and the end of a connection
  (\<open>src/tcp.c\<close>), the wait locks (\<open>include/wait.h\<close>) and the reference counts of a socket
  (\<open>src/socket.c\<close>).  The C functions get pointers to the three structures of a connection; here
  they work on a \<open>tcpctx\<close>, the shared stack extended with them: \<open>c_sid\<close> is the name of the
  connection (the \<open>arg\<close> of its timers), \<open>c_port\<close> the static counter of \<open>generate_port\<close>.
  The queues are lists of buffer names, an abstraction of the rings justified in \<open>Skbuff\<close>.
  A result code is an \<open>int\<close>.
\<close>

record tcb =
  snd_una :: u32
  snd_nxt :: u32
  snd_wnd :: u32
  snd_up :: u32
  snd_wl1 :: u32
  snd_wl2 :: u32
  iss :: u32
  rcv_nxt :: u32
  rcv_wnd :: u32
  rcv_up :: u32
  irs :: u32

type_synonym tcp_sack_block = "u32 \<times> u32"

record tcp_sock = sock +
  tk_fd :: int
  tk_header_len :: u16
  tk_tcb :: tcb
  tk_flags :: u8
  tk_backoff :: u8
  tk_srtt :: int
  tk_rttvar :: int
  tk_rto :: u32
  tk_retransmit :: "nat option"
  tk_delack :: "nat option"
  tk_keepalive :: "nat option"
  tk_linger :: "nat option"
  tk_delacks :: u8
  tk_rmss :: u16
  tk_smss :: u16
  tk_cwnd :: u16
  tk_inflight :: u32
  tk_sackok :: u8
  tk_sacks_allowed :: u8
  tk_sacklen :: u8
  tk_sacks :: "tcp_sack_block list"
  tk_tsopt :: u8
  tk_ofo_queue :: "nat list"

record tcpctx = stack +
  c_sid :: nat
  c_port :: int
  c_sk :: tcp_sock
  c_sock :: socket

definition TCP_FIN :: u8 where "TCP_FIN = 0x01"
definition TCP_PSH :: u8 where "TCP_PSH = 0x08"
definition TCP_2MSL :: u32 where "TCP_2MSL = 60000"
definition TCP_USER_TIMEOUT :: u32 where "TCP_USER_TIMEOUT = 180000"
definition TCP_SYN_BACKOFF :: u32 where "TCP_SYN_BACKOFF = 500"
definition TCP_CONN_RETRIES :: u8 where "TCP_CONN_RETRIES = 3"

definition zero_tcb :: tcb where
  "zero_tcb = \<lparr>snd_una = 0, snd_nxt = 0, snd_wnd = 0, snd_up = 0, snd_wl1 = 0, snd_wl2 = 0,
     iss = 0, rcv_nxt = 0, rcv_wnd = 0, rcv_up = 0, irs = 0\<rparr>"

text \<open>\<open>memset\<close> to zero, then the fields the function sets; the state 0 is \<open>TCP_LISTEN\<close>.\<close>

definition tcp_alloc_sock :: tcp_sock where
  "tcp_alloc_sock =
     (sock.extend zero_sock
       (tcp_sock.fields 0 0 zero_tcb 0 0 0 0 0 None None None None 0 0 0 0 0 0 0 0
          (replicate 4 (0, 0)) 0 []))
     \<lparr>sk_state := TCP_CLOSE, tk_sackok := 1, tk_rmss := 1460, tk_smss := 536, tk_ofo_queue := []\<rparr>"

definition upd_sk :: "(tcp_sock \<Rightarrow> tcp_sock) \<Rightarrow> tcpctx \<Rightarrow> tcpctx" where
  "upd_sk f c = c\<lparr>c_sk := f (c_sk c)\<rparr>"

definition upd_tcb :: "(tcb \<Rightarrow> tcb) \<Rightarrow> tcpctx \<Rightarrow> tcpctx" where
  "upd_tcb f = upd_sk (\<lambda>k. k\<lparr>tk_tcb := f (tk_tcb k)\<rparr>)"

definition upd_sock :: "(socket \<Rightarrow> socket) \<Rightarrow> tcpctx \<Rightarrow> tcpctx" where
  "upd_sock f c = c\<lparr>c_sock := f (c_sock c)\<rparr>"

abbreviation tcb_of :: "tcpctx \<Rightarrow> tcb" where "tcb_of c \<equiv> tk_tcb (c_sk c)"
abbreviation state_of :: "tcpctx \<Rightarrow> tcp_states" where "state_of c \<equiv> sk_state (c_sk c)"

subsection \<open>Waiting and the socket's lock\<close>

text \<open>
  \<open>wait_wakeup\<close> of the two wait locks of a connection, and \<open>wait_sleep\<close> up to the point where
  the thread blocks.
\<close>

definition wakeup_recv :: "tcpctx \<Rightarrow> tcpctx" where
  "wakeup_recv = upd_sk (\<lambda>k. k\<lparr>sk_recv_sleeping := False\<rparr>)"

definition sleep_recv :: "tcpctx \<Rightarrow> tcpctx" where
  "sleep_recv = upd_sk (\<lambda>k. k\<lparr>sk_recv_sleeping := True\<rparr>)"

definition wakeup_sock :: "tcpctx \<Rightarrow> tcpctx" where
  "wakeup_sock = upd_sock (\<lambda>k. k\<lparr>so_sleeping := False\<rparr>)"

definition sleep_sock :: "tcpctx \<Rightarrow> tcpctx" where
  "sleep_sock = upd_sock (\<lambda>k. k\<lparr>so_sleeping := True\<rparr>)"

text \<open>
  A step runs when the lock is free, or takes it a second time in the same thread, where
  \<open>pthread_rwlock_wrlock\<close> gives \<open>EDEADLK\<close>; the reference count goes up in both cases.
  A socket whose count reached 0 is freed.
\<close>

definition socket_wr_acquire :: "tcpctx \<Rightarrow> int \<times> tcpctx" where
  "socket_wr_acquire c =
     (let c = check (so_refcnt (c_sock c) > 0) c;
          rc = (if so_locked (c_sock c) then EDEADLK else 0)
      in (rc, upd_sock (\<lambda>k. k\<lparr>so_locked := True, so_refcnt := so_refcnt k + 1\<rparr>) c))"

definition socket_rd_acquire :: "tcpctx \<Rightarrow> int \<times> tcpctx" where
  "socket_rd_acquire = socket_wr_acquire"

definition socket_release :: "tcpctx \<Rightarrow> tcpctx" where
  "socket_release c =
     (let c = check (so_refcnt (c_sock c) > 0) c
      in upd_sock (\<lambda>k. k\<lparr>so_refcnt := so_refcnt k - 1, so_locked := False\<rparr>) c)"

definition socket_delete :: "tcpctx \<Rightarrow> int \<times> tcpctx" where
  "socket_delete c =
     (if so_state (c_sock c) = SS_DISCONNECTING then (0, c)
      else let c = upd_sock (\<lambda>k. k\<lparr>so_state := SS_DISCONNECTING\<rparr>) c
           in (0, timer_oneshot 10000 H_garbage_collect (c_sid c) c))"

text \<open>\<open>sock_connected\<close> of \<open>src/sock.c\<close>.\<close>

definition sock_connected :: "tcpctx \<Rightarrow> tcpctx" where
  "sock_connected c =
     (let c = upd_sock (\<lambda>k. k\<lparr>so_state := SS_CONNECTED\<rparr>) c;
          c = upd_sk (\<lambda>k. k\<lparr>sk_err := 0, sk_poll_events := POLLOUT OR POLLWRNORM OR POLLWRBAND\<rparr>) c
      in wakeup_sock c)"

subsection \<open>The end of a connection\<close>

definition tcp_set_state :: "tcp_states \<Rightarrow> tcpctx \<Rightarrow> tcpctx" where
  "tcp_set_state st = upd_sk (\<lambda>k. k\<lparr>sk_state := st\<rparr>)"

definition tcp_clear_queues :: "tcpctx \<Rightarrow> tcpctx" where
  "tcp_clear_queues c =
     upd_sk (\<lambda>k. k\<lparr>tk_ofo_queue := []\<rparr>) (skb_queue_free (tk_ofo_queue (c_sk c)) c)"

definition tcp_stop_rto_timer :: "tcpctx \<Rightarrow> tcpctx" where
  "tcp_stop_rto_timer c =
     upd_sk (\<lambda>k. k\<lparr>tk_retransmit := None, tk_backoff := 0\<rparr>)
       (timer_cancel (tk_retransmit (c_sk c)) c)"

definition tcp_release_rto_timer :: "tcpctx \<Rightarrow> tcpctx" where
  "tcp_release_rto_timer c =
     upd_sk (\<lambda>k. k\<lparr>tk_retransmit := None\<rparr>) (timer_release (tk_retransmit (c_sk c)) c)"

definition tcp_stop_delack_timer :: "tcpctx \<Rightarrow> tcpctx" where
  "tcp_stop_delack_timer c =
     upd_sk (\<lambda>k. k\<lparr>tk_delack := None\<rparr>) (timer_cancel (tk_delack (c_sk c)) c)"

definition tcp_release_delack_timer :: "tcpctx \<Rightarrow> tcpctx" where
  "tcp_release_delack_timer c =
     upd_sk (\<lambda>k. k\<lparr>tk_delack := None\<rparr>) (timer_release (tk_delack (c_sk c)) c)"

definition tcp_clear_timers :: "tcpctx \<Rightarrow> tcpctx" where
  "tcp_clear_timers c =
     (let c = tcp_stop_rto_timer c;
          c = tcp_stop_delack_timer c;
          c = timer_cancel (tk_keepalive (c_sk c)) c;
          c = upd_sk (\<lambda>k. k\<lparr>tk_keepalive := None\<rparr>) c;
          c = timer_cancel (tk_linger (c_sk c)) c
      in upd_sk (\<lambda>k. k\<lparr>tk_linger := None\<rparr>) c)"

definition tcp_free :: "tcpctx \<Rightarrow> tcpctx" where
  "tcp_free c = wakeup_sock (tcp_clear_queues (tcp_clear_timers c))"

definition tcp_done :: "tcpctx \<Rightarrow> int \<times> tcpctx" where
  "tcp_done c = socket_delete (tcp_free (tcp_set_state TCP_CLOSING c))"

definition tcp_handle_fin_state :: "tcpctx \<Rightarrow> tcpctx" where
  "tcp_handle_fin_state c =
     (case state_of c of
        TCP_CLOSE_WAIT \<Rightarrow> tcp_set_state TCP_LAST_ACK c
      | TCP_ESTABLISHED \<Rightarrow> tcp_set_state TCP_FIN_WAIT_1 c
      | _ \<Rightarrow> c)"

definition tcp_enter_time_wait :: "tcpctx \<Rightarrow> tcpctx" where
  "tcp_enter_time_wait c =
     (let c = tcp_set_state TCP_TIME_WAIT c;
          c = tcp_clear_timers c;
          (t, c) = timer_add TCP_2MSL H_linger (c_sid c) c
      in upd_sk (\<lambda>k. k\<lparr>tk_linger := Some t\<rparr>) c)"

definition tcp_rearm_user_timeout :: "tcpctx \<Rightarrow> tcpctx" where
  "tcp_rearm_user_timeout c =
     (if state_of c = TCP_TIME_WAIT then c
      else let c = timer_cancel (tk_linger (c_sk c)) c;
               (t, c) = timer_add TCP_USER_TIMEOUT H_user_timeout (c_sid c) c
           in upd_sk (\<lambda>k. k\<lparr>tk_linger := Some t\<rparr>) c)"

subsection \<open>Round trip times\<close>

text \<open>
  The sums of \<open>tcp_rtt\<close> in \<open>double\<close> are exact for 32-bit operands (quarters and eighths of
  them), so converting back to \<open>int32_t\<close> drops the fraction.  \<open>4 * rttvar\<close> or
  \<open>srtt + k\<close> overflowing an \<open>int\<close> is undefined and sets the fault flag.
\<close>

definition trunc_div :: "int \<Rightarrow> int \<Rightarrow> int" where
  "trunc_div a b = (if a < 0 then - ((- a) div b) else a div b)"

definition timer_expires :: "nat \<Rightarrow> 'a stack_scheme \<Rightarrow> u32" where
  "timer_expires i s = (case find (\<lambda>t. t_id t = i) (s_timers s) of Some t \<Rightarrow> t_expires t | None \<Rightarrow> 0)"

definition rtt_update :: "int \<Rightarrow> tcp_sock \<Rightarrow> tcp_sock" where
  "rtt_update r k =
     (if tk_srtt k = 0 then k\<lparr>tk_srtt := r, tk_rttvar := r div 2\<rparr>
      else k\<lparr>tk_rttvar := trunc_div (3 * tk_rttvar k + \<bar>tk_srtt k - r\<bar>) 4,
             tk_srtt := trunc_div (7 * tk_srtt k + r) 8\<rparr>)"

definition tcp_rtt :: "tcpctx \<Rightarrow> tcpctx" where
  "tcp_rtt c =
     (case tk_retransmit (c_sk c) of None \<Rightarrow> c
      | Some t \<Rightarrow>
          if tk_backoff (c_sk c) > 0 then c
          else
            let c = check (timer_live t c) c;
                r = sint (timer_get_tick c - (timer_expires t c - tk_rto (c_sk c)))
            in if r < 0 then c
               else
                 let c = upd_sk (rtt_update r) c;
                     k = 4 * tk_rttvar (c_sk c);
                     c = check (k < 2 ^ 31) c;
                     k = (if k < 200 then 200 else k);
                     c = check (tk_srtt (c_sk c) + k < 2 ^ 31) c
                 in upd_sk (\<lambda>t. t\<lparr>tk_rto := of_int (tk_srtt t + k)\<rparr>) c)"

subsection \<open>Checksums and received segments\<close>

definition tcp_udp_checksum :: "u32 \<Rightarrow> u32 \<Rightarrow> u8 \<Rightarrow> bytes \<Rightarrow> u16" where
  "tcp_udp_checksum saddr daddr proto data =
     checksum data (saddr + daddr + ucast (htons (ucast proto)) + ucast (htons (of_nat (length data))))"

text \<open>\<open>tcp_v4_checksum\<close>: the region is the \<open>len\<close> bytes at \<open>data\<close>, \<open>len\<close> cut to 16 bits.\<close>

definition tcp_v4_checksum :: "sk_buff \<Rightarrow> u32 \<Rightarrow> u32 \<Rightarrow> u16" where
  "tcp_v4_checksum skb saddr daddr =
     tcp_udp_checksum saddr daddr IP_TCP
       (mread (b_mem skb) (nat (b_data skb)) (unat (ucast (b_len skb) :: u16)))"

definition tcp_ntoh :: "tcphdr \<Rightarrow> tcphdr" where
  "tcp_ntoh th =
     th\<lparr>th_sport := ntohs (th_sport th), th_dport := ntohs (th_dport th), th_seq := ntohl (th_seq th),
       th_ack_seq := ntohl (th_ack_seq th), th_win := ntohs (th_win th),
       th_csum := ntohs (th_csum th), th_urp := ntohs (th_urp th)\<rparr>"

text \<open>
  \<open>tcp_init_segment\<close>: the header is swapped in place and the buffer's sequence fields set;
  \<open>payload\<close> is \<open>th->data\<close>, 20 bytes after the start of the header.
\<close>

definition tcp_init_segment :: "iphdr \<Rightarrow> sk_buff \<Rightarrow> sk_buff" where
  "tcp_init_segment ih skb =
     (let th = tcp_ntoh (tcp_hdr skb);
          dlen = of_int (ip_payload_len ih - int (tcp_hlen th))
      in (put_tcp_hdr th skb)
           \<lparr>b_seq := th_seq th, b_dlen := dlen,
            b_len := dlen + of_bool (th_syn th) + of_bool (th_fin th),
            b_end_seq := th_seq th + dlen, b_payload := 54\<rparr>)"

end
