(* ===== verification/Tcp_Output.thy ===== *)
theory Tcp_Output
  imports Tcp_Conn
begin

unbundle bit_operations_syntax

text \<open>
  \<open>src/tcp_output.c\<close>: building and transmitting segments, options, the retransmission queue and
  the timer handlers that retransmit.  Pointers to a header are the bytes at offset 34 of the
  buffer (\<open>tcp_hdr\<close>), options start at offset 54 (\<open>th->data\<close>).
\<close>

abbreviation (input) TCP_OPT_NOOP :: u8 where "TCP_OPT_NOOP \<equiv> 1"
abbreviation (input) TCP_OPTLEN_MSS :: u8 where "TCP_OPTLEN_MSS \<equiv> 4"
abbreviation (input) TCP_OPT_MSS :: u8 where "TCP_OPT_MSS \<equiv> 2"
abbreviation (input) TCP_OPT_SACK_OK :: u8 where "TCP_OPT_SACK_OK \<equiv> 4"
abbreviation (input) TCP_OPT_SACK :: u8 where "TCP_OPT_SACK \<equiv> 5"
abbreviation (input) TCP_OPTLEN_SACK :: u8 where "TCP_OPTLEN_SACK \<equiv> 2"
abbreviation (input) TCP_OPT_TS :: u8 where "TCP_OPT_TS \<equiv> 8"

record tcp_options =
  to_options :: u16
  to_mss :: u16
  to_sack :: u8

definition upd_skb :: "nat \<Rightarrow> (sk_buff \<Rightarrow> sk_buff) \<Rightarrow> 'a stack_scheme \<Rightarrow> 'a stack_scheme" where
  "upd_skb b f s = put_skb b (f (deref b s)) s"

definition upd_th :: "(tcphdr \<Rightarrow> tcphdr) \<Rightarrow> sk_buff \<Rightarrow> sk_buff" where
  "upd_th f k = put_tcp_hdr (f (tcp_hdr k)) k"

definition tcp_alloc_skb :: "nat \<Rightarrow> nat \<Rightarrow> tcpctx \<Rightarrow> nat \<times> tcpctx" where
  "tcp_alloc_skb optlen sz c =
     (let reserved = ETH_HDR_LEN + IP_HDR_LEN + TCP_HDR_LEN + optlen + sz;
          (b, c) = alloc_skb reserved c
      in (b, upd_skb b (\<lambda>k. (skb_reserve reserved k)
               \<lparr>b_protocol := ucast IP_TCP, b_dlen := of_nat sz, b_seq := 0\<rparr>) c))"

definition tcp_write_syn_options :: "nat \<Rightarrow> tcp_options \<Rightarrow> nat \<Rightarrow> tcpctx \<Rightarrow> tcpctx" where
  "tcp_write_syn_options b opts optlen c =
     (let data = [TCP_OPT_MSS, TCP_OPTLEN_MSS] @ le16 (htons (to_mss opts))
            @ (if to_sack opts \<noteq> 0
               then [TCP_OPT_NOOP, TCP_OPT_NOOP, TCP_OPT_SACK_OK, TCP_OPTLEN_SACK] else []);
          c = check (in_region (b_mem (deref b c)) 54 (length data)) c;
          c = upd_skb b (put_bytes 54 data) c
      in upd_skb b (upd_th (\<lambda>th. th\<lparr>th_hl := TCP_DOFFSET + of_nat (optlen div 4)\<rparr>)) c)"

definition tcp_syn_options :: "tcp_sock \<Rightarrow> tcp_options \<times> nat" where
  "tcp_syn_options k =
     (if tk_sackok k \<noteq> 0
      then (\<lparr>to_options = 0, to_mss = tk_rmss k, to_sack = 1\<rparr>, 8)
      else (\<lparr>to_options = 0, to_mss = tk_rmss k, to_sack = 0\<rparr>, 4))"

definition enc_sack :: "tcp_sack_block \<Rightarrow> bytes" where
  "enc_sack sb = le32 (htonl (fst sb)) @ le32 (htonl (snd sb))"

text \<open>The blocks are written from the last to the first, and cleared.\<close>

definition sack_option :: "u8 \<Rightarrow> tcp_sack_block list \<Rightarrow> bytes" where
  "sack_option n sacks =
     [TCP_OPT_NOOP, TCP_OPT_NOOP, TCP_OPT_SACK, 2 + n * 8]
     @ concat (map enc_sack (rev (take (unat n) sacks)))"

definition tcp_write_options :: "nat \<Rightarrow> tcpctx \<Rightarrow> tcpctx" where
  "tcp_write_options b c =
     (let k = c_sk c; n = tk_sacklen k in
      if tk_sackok k = 0 \<or> fst (tk_sacks k ! 0) = 0 then c
      else
        let c = check (unat n \<le> length (tk_sacks k)) c;
            c = check (in_region (b_mem (deref b c)) 54 (4 + unat n * 8)) c;
            c = upd_skb b (put_bytes 54 (sack_option n (tk_sacks k))) c
        in upd_sk (\<lambda>k. k\<lparr>tk_sacks := replicate (unat n) (0, 0) @ drop (unat n) (tk_sacks k),
                       tk_sacklen := 0\<rparr>) c)"

definition tcp_set_hlen :: "tcphdr \<Rightarrow> tcphdr" where
  "tcp_set_hlen th = (if th_hl th = 0 then th\<lparr>th_hl := TCP_DOFFSET\<rparr> else th)"

definition tcp_fill_hdr :: "tcp_sock \<Rightarrow> u32 \<Rightarrow> tcphdr \<Rightarrow> tcphdr" where
  "tcp_fill_hdr k seq th =
     th\<lparr>th_sport := sk_sport k, th_dport := sk_dport k, th_seq := seq,
       th_ack_seq := rcv_nxt (tk_tcb k), th_rsvd := 0, th_win := ucast (rcv_wnd (tk_tcb k)),
       th_csum := 0, th_urp := 0\<rparr>"

definition tcp_hton :: "tcphdr \<Rightarrow> tcphdr" where
  "tcp_hton th =
     th\<lparr>th_sport := htons (th_sport th), th_dport := htons (th_dport th), th_seq := htonl (th_seq th),
       th_ack_seq := htonl (th_ack_seq th), th_win := htons (th_win th),
       th_csum := htons (th_csum th), th_urp := htons (th_urp th)\<rparr>"

definition tcp_transmit_skb :: "nat \<Rightarrow> u32 \<Rightarrow> tcpctx \<Rightarrow> int \<times> tcpctx" where
  "tcp_transmit_skb b seq c =
     (let c = check (in_region (b_mem (deref b c)) 34 20) (touch b c);
          c = upd_skb b (upd_th tcp_set_hlen) c;
          hl = th_hl (tcp_hdr (deref b c));
          c = upd_skb b (skb_push (unat hl * 4)) c;
          c = upd_skb b (upd_th (tcp_fill_hdr (c_sk c) seq)) c;
          c = (if hl > 5 then tcp_write_options b c else c);
          c = upd_skb b (upd_th tcp_hton) c;
          k = deref b c;
          c = check (in_region (b_mem k) (b_data k) (unat (ucast (b_len k) :: u16))) c;
          csum = tcp_v4_checksum k (htonl (sk_saddr (c_sk c))) (htonl (sk_daddr (c_sk c)));
          c = upd_skb b (upd_th (\<lambda>th. th\<lparr>th_csum := csum\<rparr>)) c
      in ip_output (c_sk c) b c)"

subsection \<open>Acknowledgements and resets\<close>

definition tcp_options_len :: "tcp_sock \<Rightarrow> nat" where
  "tcp_options_len k =
     (let optlen = (if tk_sackok k \<noteq> 0 \<and> tk_sacklen k > 0
                    then 8 * length (filter (\<lambda>sb. fst sb \<noteq> 0) (take (unat (tk_sacklen k)) (tk_sacks k))) + 2
                    else 0)
      in 4 * ((optlen + 3) div 4))"

definition tcp_send_ack :: "tcpctx \<Rightarrow> int \<times> tcpctx" where
  "tcp_send_ack c =
     (if state_of c = TCP_CLOSE then (0, c)
      else
        let optlen = tcp_options_len (c_sk c);
            (b, c) = tcp_alloc_skb optlen 0 c;
            c = upd_skb b (upd_th (\<lambda>th. th\<lparr>th_ack := True, th_hl := TCP_DOFFSET + of_nat (optlen div 4)\<rparr>)) c;
            (rc, c) = tcp_transmit_skb b (snd_nxt (tcb_of c)) c
        in (rc, free_skb b c))"

definition tcp_send_synack :: "tcpctx \<Rightarrow> int \<times> tcpctx" where
  "tcp_send_synack c =
     (if state_of c \<noteq> TCP_SYN_SENT then (1, c)
      else
        let (b, c) = tcp_alloc_skb 0 0 c;
            c = upd_skb b (upd_th (\<lambda>th. th\<lparr>th_syn := True, th_ack := True\<rparr>)) c;
            (rc, c) = tcp_transmit_skb b (snd_nxt (tcb_of c)) c
        in (rc, free_skb b c))"

definition tcp_send_reset :: "tcpctx \<Rightarrow> int \<times> tcpctx" where
  "tcp_send_reset c =
     (let (b, c) = tcp_alloc_skb 0 0 c;
          c = upd_skb b (upd_th (\<lambda>th. th\<lparr>th_rst := True\<rparr>)) c;
          c = upd_tcb (\<lambda>t. t\<lparr>snd_una := snd_nxt t\<rparr>) c;
          (rc, c) = tcp_transmit_skb b (snd_nxt (tcb_of c)) c
      in (rc, free_skb b c))"

definition tcp_send_challenge_ack :: "nat \<Rightarrow> tcpctx \<Rightarrow> int \<times> tcpctx" where
  "tcp_send_challenge_ack b c = (0, c)"

subsection \<open>The retransmission queue\<close>

definition tcp_rearm_rto_timer :: "tcpctx \<Rightarrow> tcpctx" where
  "tcp_rearm_rto_timer c =
     (let c = tcp_release_rto_timer c;
          (t, c) =
            (if state_of c = TCP_SYN_SENT
             then timer_add (push_bit (unat (tk_backoff (c_sk c))) TCP_SYN_BACKOFF) H_connect_rto (c_sid c) c
             else timer_add (tk_rto (c_sk c)) H_retransmission_timeout (c_sid c) c)
      in upd_sk (\<lambda>k. k\<lparr>tk_retransmit := Some t\<rparr>) c)"

text \<open>What \<open>tcp_queue_transmit_skb\<close> and \<open>tcp_send_next\<close> both do after a transmission.\<close>

definition tcp_store_seq :: "nat \<Rightarrow> tcpctx \<Rightarrow> tcpctx" where
  "tcp_store_seq b c =
     (let seq = snd_nxt (tcb_of c);
          c = upd_skb b (\<lambda>k. k\<lparr>b_seq := seq\<rparr>) c;
          c = upd_tcb (\<lambda>t. t\<lparr>snd_nxt := snd_nxt t + b_dlen (deref b c)\<rparr>) c;
          c = upd_skb b (\<lambda>k. k\<lparr>b_end_seq := snd_nxt (tcb_of c)\<rparr>) c
      in if th_fin (tcp_hdr (deref b c)) then upd_tcb (\<lambda>t. t\<lparr>snd_nxt := snd_nxt t + 1\<rparr>) c else c)"

definition tcp_queue_transmit_skb :: "nat \<Rightarrow> tcpctx \<Rightarrow> int \<times> tcpctx" where
  "tcp_queue_transmit_skb b c =
     (let c = (if sk_write_queue (c_sk c) = [] then tcp_rearm_rto_timer c else c);
          (rc, c) =
            (if tk_inflight (c_sk c) = 0
             then let (rc, c) = tcp_transmit_skb b (snd_nxt (tcb_of c)) c;
                      c = upd_sk (\<lambda>k. k\<lparr>tk_inflight := tk_inflight k + 1\<rparr>) c
                  in (rc, tcp_store_seq b c)
             else (0, c))
      in (rc, upd_sk (\<lambda>k. k\<lparr>sk_write_queue := q_tail b (sk_write_queue k)\<rparr>) c))"

text \<open>\<open>tcp_send_next\<close> over the first \<open>amount\<close> buffers of the write queue.\<close>

fun send_each :: "nat list \<Rightarrow> tcpctx \<Rightarrow> tcpctx" where
  "send_each [] c = c"
| "send_each (b # bs) c =
     (let c = upd_skb b skb_reset_header c;
          c = snd (tcp_transmit_skb b (snd_nxt (tcb_of c)) c)
      in send_each bs (tcp_store_seq b c))"

definition tcp_send_next :: "nat \<Rightarrow> tcpctx \<Rightarrow> int \<times> tcpctx" where
  "tcp_send_next amount c = (0, send_each (take amount (sk_write_queue (c_sk c))) c)"

definition tcp_send_syn :: "tcpctx \<Rightarrow> int \<times> tcpctx" where
  "tcp_send_syn c =
     (if state_of c \<noteq> TCP_SYN_SENT \<and> state_of c \<noteq> TCP_CLOSE \<and> state_of c \<noteq> TCP_LISTEN then (1, c)
      else
        let (opts, optlen) = tcp_syn_options (c_sk c);
            (b, c) = tcp_alloc_skb optlen 0 c;
            c = tcp_write_syn_options b opts optlen c;
            c = upd_sk (\<lambda>k. k\<lparr>sk_state := TCP_SYN_SENT\<rparr>) c;
            c = upd_skb b (upd_th (\<lambda>th. th\<lparr>th_syn := True\<rparr>)) c
        in tcp_queue_transmit_skb b c)"

definition tcp_queue_fin :: "tcpctx \<Rightarrow> int \<times> tcpctx" where
  "tcp_queue_fin c =
     (let (b, c) = tcp_alloc_skb 0 0 c;
          c = upd_skb b (upd_th (\<lambda>th. th\<lparr>th_fin := True, th_ack := True\<rparr>)) c
      in tcp_queue_transmit_skb b c)"

definition tcp_send_fin :: "tcpctx \<Rightarrow> int \<times> tcpctx" where
  "tcp_send_fin c = (if state_of c = TCP_CLOSE then (0, c) else tcp_queue_fin c)"

definition tcp_select_initial_window :: u32 where
  "tcp_select_initial_window = 44477"

text \<open>\<open>generate_iss\<close> is \<open>time(NULL) * rand()\<close>: its result is a parameter.\<close>

definition tcp_connect :: "u32 \<Rightarrow> tcpctx \<Rightarrow> int \<times> tcpctx" where
  "tcp_connect generate_iss c =
     (let c = upd_sk (\<lambda>k. k\<lparr>tk_header_len := 20\<rparr>) c;
          c = upd_tcb (\<lambda>t. t\<lparr>iss := generate_iss, snd_wnd := 0, snd_wl1 := 0\<rparr>) c;
          c = upd_tcb (\<lambda>t. t\<lparr>snd_una := iss t, snd_up := iss t, snd_nxt := iss t, rcv_nxt := 0\<rparr>) c;
          c = upd_tcb (\<lambda>t. t\<lparr>rcv_wnd := tcp_select_initial_window\<rparr>) c;
          (rc, c) = tcp_send_syn c
      in (rc, upd_tcb (\<lambda>t. t\<lparr>snd_nxt := snd_nxt t + 1\<rparr>) c))"

text \<open>
  The loop of \<open>tcp_send\<close> cuts the data into segments of at most \<open>smss\<close> bytes.  It does not end
  when \<open>smss\<close> is 0, so it takes fuel; \<open>length data\<close> rounds are enough otherwise.
\<close>

fun tcp_send_loop :: "nat \<Rightarrow> nat \<Rightarrow> bytes \<Rightarrow> tcpctx \<Rightarrow> tcpctx option" where
  "tcp_send_loop fuel mss [] c = Some c"
| "tcp_send_loop 0 mss data c = None"
| "tcp_send_loop (Suc fuel) mss data c =
     (let slen = length data;
          dlen = (if slen > mss then mss else slen);
          (b, c) = tcp_alloc_skb 0 dlen c;
          c = upd_skb b (skb_push dlen) c;
          c = upd_skb b (\<lambda>k. put_bytes (nat (b_data k)) (take dlen data) k) c;
          c = upd_skb b (upd_th (\<lambda>th. th\<lparr>th_ack := True\<rparr>)) c;
          c = (if slen - dlen = 0 then upd_skb b (upd_th (\<lambda>th. th\<lparr>th_psh := True\<rparr>)) c else c);
          c = snd (tcp_queue_transmit_skb b c)
      in tcp_send_loop fuel mss (drop dlen data) c)"

definition tcp_send :: "bytes \<Rightarrow> tcpctx \<Rightarrow> (int \<times> tcpctx) option" where
  "tcp_send data c =
     map_option (\<lambda>c. (int (length data), tcp_rearm_user_timeout c))
       (tcp_send_loop (length data) (unat (tk_smss (c_sk c))) data c)"

subsection \<open>Timer handlers\<close>

definition tcp_send_delack :: "tcpctx \<Rightarrow> tcpctx" where
  "tcp_send_delack c =
     (let c = snd (socket_wr_acquire c);
          c = upd_sk (\<lambda>k. k\<lparr>tk_delacks := 0\<rparr>) c;
          c = tcp_release_delack_timer c;
          c = snd (tcp_send_ack c)
      in socket_release c)"

definition tcp_notify_user :: "tcpctx \<Rightarrow> tcpctx" where
  "tcp_notify_user c = (case state_of c of TCP_CLOSE_WAIT \<Rightarrow> wakeup_sock c | _ \<Rightarrow> c)"

definition write_queue_head :: "tcpctx \<Rightarrow> nat option" where
  "write_queue_head c = q_peek (sk_write_queue (c_sk c))"

definition tcp_connect_rto :: "tcpctx \<Rightarrow> tcpctx" where
  "tcp_connect_rto c =
     (let c = snd (socket_wr_acquire c);
          c = tcp_release_rto_timer c;
          c = (if state_of c = TCP_SYN_SENT
               then if tk_backoff (c_sk c) > TCP_CONN_RETRIES
                    then let c = upd_sk (\<lambda>k. k\<lparr>sk_err := - ETIMEDOUT,
                               sk_poll_events := sk_poll_events k OR (POLLOUT OR POLLERR OR POLLHUP)\<rparr>) c
                         in snd (tcp_done c)
                    else (case write_queue_head c of
                            None \<Rightarrow> c
                          | Some b \<Rightarrow>
                              let c = upd_skb b skb_reset_header c;
                                  c = snd (tcp_transmit_skb b (snd_una (tcb_of c)) c);
                                  c = upd_sk (\<lambda>k. k\<lparr>tk_backoff := tk_backoff k + 1\<rparr>) c
                              in tcp_rearm_rto_timer c)
               else c)
      in socket_release c)"

definition tcp_retransmission_timeout :: "tcpctx \<Rightarrow> tcpctx" where
  "tcp_retransmission_timeout c =
     (let c = snd (socket_wr_acquire c);
          c = tcp_release_rto_timer c
      in case write_queue_head c of
           None \<Rightarrow>
             let c = upd_sk (\<lambda>k. k\<lparr>tk_backoff := 0\<rparr>) c;
                 c = tcp_notify_user c
             in socket_release c
         | Some b \<Rightarrow>
             let c = upd_skb b skb_reset_header c;
                 c = snd (tcp_transmit_skb b (snd_una (tcb_of c)) c)
             in if tk_rto (c_sk c) > 60000
                then let c = snd (tcp_done c);
                         c = upd_sk (\<lambda>k. k\<lparr>sk_err := - ETIMEDOUT,
                               sk_poll_events := sk_poll_events k OR (POLLOUT OR POLLERR OR POLLHUP)\<rparr>) c
                     in socket_release c
                else let c = upd_sk (\<lambda>k. k\<lparr>tk_rto := tk_rto k * 2, tk_backoff := tk_backoff k + 1\<rparr>) c;
                         (t, c) = timer_add (tk_rto (c_sk c)) H_retransmission_timeout (c_sid c) c;
                         c = upd_sk (\<lambda>k. k\<lparr>tk_retransmit := Some t\<rparr>) c;
                         c = (if th_fin (tcp_hdr (deref b c)) then tcp_handle_fin_state c else c)
                     in socket_release c)"

end
