(* ===== verification/Tcp_Data.thy ===== *)
theory Tcp_Data
  imports Tcp_Output
begin

unbundle bit_operations_syntax

text \<open>
  The receive side of \<open>src/tcp_data.c\<close>, with \<open>tcp_calculate_sacks\<close> of \<open>src/tcp.c\<close>: in-order
  data, the out-of-order queue, and what a reader takes.
\<close>

subsection \<open>The out-of-order queue\<close>

text \<open>
  \<open>insert_pos\<close> is the loop of \<open>tcp_data_insert_ordered\<close>: the buffer goes before the element
  named, or is there already, or goes to the tail.  It and \<open>tcp_calculate_sacks\<close> read members of
  the queue only, which are live (\<open>queue_ok\<close>), so they do not check for it.
\<close>

datatype insert_at = Before nat | Present | At_tail

fun insert_pos :: "sk_buff \<Rightarrow> nat list \<Rightarrow> tcpctx \<Rightarrow> insert_at" where
  "insert_pos skb [] c = At_tail"
| "insert_pos skb (n # q) c =
     (let next = deref n c in
      if b_seq skb < b_seq next then
        if b_end_seq skb > b_seq next then insert_pos skb q c else Before n
      else if b_seq skb = b_seq next then Present
      else insert_pos skb q c)"

definition tcp_data_insert_ordered :: "nat \<Rightarrow> tcpctx \<Rightarrow> tcpctx" where
  "tcp_data_insert_ordered b c =
     (let take_ref = upd_skb b (\<lambda>k. k\<lparr>b_refcnt := b_refcnt k + 1\<rparr>) in
      case insert_pos (deref b c) (tk_ofo_queue (c_sk c)) c of
        Before n \<Rightarrow> upd_sk (\<lambda>k. k\<lparr>tk_ofo_queue := q_add b n (tk_ofo_queue k)\<rparr>) (take_ref c)
      | Present \<Rightarrow> c
      | At_tail \<Rightarrow> upd_sk (\<lambda>k. k\<lparr>tk_ofo_queue := q_tail b (tk_ofo_queue k)\<rparr>) (take_ref c))"

fun consume_ofo :: "nat list \<Rightarrow> tcpctx \<Rightarrow> tcpctx" where
  "consume_ofo [] c = c"
| "consume_ofo (b # q) c =
     (let c = touch b c in
      if rcv_nxt (tcb_of c) = b_seq (deref b c)
      then let c = upd_tcb (\<lambda>t. t\<lparr>rcv_nxt := rcv_nxt t + b_dlen (deref b c)\<rparr>) c;
               c = upd_sk (\<lambda>k. k\<lparr>tk_ofo_queue := q,
                     sk_receive_queue := q_tail b (sk_receive_queue k)\<rparr>) c
           in consume_ofo q c
      else c)"

definition tcp_consume_ofo_queue :: "tcpctx \<Rightarrow> tcpctx" where
  "tcp_consume_ofo_queue c = consume_ofo (tk_ofo_queue (c_sk c)) c"

subsection \<open>Selective acknowledgements\<close>

text \<open>
  The loop of \<open>tcp_calculate_sacks\<close> on the pair of the block array and its length; \<open>i\<close> is the
  index of \<open>sb\<close>.  An index outside the array sets the flag that is the last component.
\<close>

type_synonym sack_state = "tcp_sack_block list \<times> u8 \<times> bool"

definition set_sack :: "nat \<Rightarrow> tcp_sack_block \<Rightarrow> sack_state \<Rightarrow> sack_state" where
  "set_sack i sb st =
     (case st of (sacks, n, ok) \<Rightarrow> (sacks[i := sb], n, ok \<and> i < length sacks))"

fun sack_loop :: "u8 \<Rightarrow> nat \<Rightarrow> (u32 \<times> u32) list \<Rightarrow> sack_state \<Rightarrow> sack_state" where
  "sack_loop allowed i [] st = st"
| "sack_loop allowed i ((seq, end_seq) # q) (sacks, n, ok) =
     (let (left, right) = sacks ! i;
          (left, n) = (if left = 0 then (seq, n + 1) else (left, n));
          st = set_sack i (left, right) (sacks, n, ok) in
      if right = 0 then sack_loop allowed i q (set_sack i (left, end_seq) st)
      else if right = seq then sack_loop allowed i q (set_sack i (left, end_seq) st)
      else if n \<ge> allowed then st
      else let (sacks, n, ok) = set_sack (unat n) (seq, end_seq) st
           in sack_loop allowed (unat n) q (sacks, n + 1, ok))"

definition tcp_calculate_sacks :: "tcpctx \<Rightarrow> int \<times> tcpctx" where
  "tcp_calculate_sacks c =
     (let k = c_sk c; i = unat (tk_sacklen k);
          st = set_sack i (0, 0) (tk_sacks k, tk_sacklen k, True);
          q = map (\<lambda>b. (b_seq (deref b c), b_end_seq (deref b c))) (tk_ofo_queue k);
          (sacks, n, ok) = sack_loop (tk_sacks_allowed k) i q st
      in (0, upd_sk (\<lambda>k. k\<lparr>tk_sacks := sacks, tk_sacklen := n\<rparr>) (check ok c)))"

subsection \<open>Queueing and reading data\<close>

definition tcp_recv_notify :: "tcpctx \<Rightarrow> int \<times> tcpctx" where
  "tcp_recv_notify c = (0, wakeup_recv c)"

definition tcp_data_queue :: "nat \<Rightarrow> tcpctx \<Rightarrow> int \<times> tcpctx" where
  "tcp_data_queue b c =
     (if rcv_wnd (tcb_of c) = 0 then (- 1, free_skb b c)
      else if b_seq (deref b c) = rcv_nxt (tcb_of c) then
        let c = upd_tcb (\<lambda>t. t\<lparr>rcv_nxt := rcv_nxt t + b_dlen (deref b c)\<rparr>) c;
            c = upd_skb b (\<lambda>k. k\<lparr>b_refcnt := b_refcnt k + 1\<rparr>) c;
            c = upd_sk (\<lambda>k. k\<lparr>sk_receive_queue := q_tail b (sk_receive_queue k)\<rparr>) c;
            c = tcp_consume_ofo_queue c;
            c = upd_sk (\<lambda>k. k\<lparr>sk_poll_events :=
                  sk_poll_events k OR (POLLIN OR POLLPRI OR POLLRDNORM OR POLLRDBAND)\<rparr>) c
        in (0, snd (tcp_recv_notify c))
      else
        let c = tcp_data_insert_ordered b c;
            c = (if tk_sackok (c_sk c) \<noteq> 0 then snd (tcp_calculate_sacks c) else c)
        in (0, snd (tcp_send_ack c)))"

text \<open>
  \<open>tcp_data_dequeue\<close>: a buffer that is not read to its end fills the reader's buffer, so the
  loop goes to the next buffer exactly when one was eaten.
\<close>

fun dequeue_loop :: "nat list \<Rightarrow> int \<Rightarrow> int \<Rightarrow> bytes \<Rightarrow> tcpctx \<Rightarrow> int \<times> bytes \<times> tcpctx" where
  "dequeue_loop [] rlen userlen buf c = (rlen, buf, c)"
| "dequeue_loop (b # q) rlen userlen buf c =
     (if rlen < userlen
      then
        let k = deref b c;
            dlen = (if (of_int rlen + b_dlen k :: u32) > of_int userlen then userlen - rlen
                    else sint (b_dlen k));
            c = check (dlen \<ge> 0 \<and> in_region (b_mem k) (b_payload k) (nat dlen)) (touch b c);
            buf = buf @ mread (b_mem k) (nat (b_payload k)) (nat dlen);
            c = upd_skb b (\<lambda>k. k\<lparr>b_dlen := b_dlen k - of_int dlen, b_payload := b_payload k + dlen\<rparr>) c
        in if b_dlen (deref b c) = 0
           then
             let c = (if th_psh (tcp_hdr k) then upd_sk (\<lambda>t. t\<lparr>tk_flags := tk_flags t OR TCP_PSH\<rparr>) c
                      else c);
                 c = upd_sk (\<lambda>t. t\<lparr>sk_receive_queue := q\<rparr>) c;
                 c = upd_skb b (\<lambda>k. k\<lparr>b_refcnt := b_refcnt k - 1\<rparr>) c
             in dequeue_loop q (rlen + dlen) userlen buf (free_skb b c)
           else (rlen + dlen, buf, c)
      else (rlen, buf, c))"

definition tcp_data_dequeue :: "int \<Rightarrow> tcpctx \<Rightarrow> int \<times> bytes \<times> tcpctx" where
  "tcp_data_dequeue userlen c =
     (let (rlen, buf, c) = dequeue_loop (sk_receive_queue (c_sk c)) 0 userlen [] c;
          c = (if sk_receive_queue (c_sk c) = [] \<and> tk_flags (c_sk c) AND TCP_FIN = 0
               then upd_sk (\<lambda>k. k\<lparr>sk_poll_events := sk_poll_events k AND NOT POLLIN\<rparr>) c else c)
      in (rlen, buf, c))"

end
