(* ===== verification/Tcp_Input.thy ===== *)
theory Tcp_Input
  imports Tcp_Data
begin

unbundle bit_operations_syntax

text \<open>
  \<open>src/tcp_input.c\<close>: the handling of a received segment.  The segment's header \<open>th\<close> is the one
  \<open>tcp_init_segment\<close> left in the buffer, in host order.  \<open>tcp_input_state\<close> is given in the
  phases its comments number; a phase that may return early gives \<open>Inl\<close> of the final state.
\<close>

subsection \<open>Options\<close>

lemma optlen_decreases:
  "0 < (n :: u8) \<Longrightarrow> unat (n - 1) < unat n" "\<not> n < 4 \<Longrightarrow> unat (n - 4) < unat (n :: u8)"
  by (simp_all add: unat_sub word_le_nat_alt word_less_nat_alt not_less)

text \<open>
  The loop of \<open>tcp_parse_opts\<close> on the bytes from \<open>ptr\<close> on.  Only the MSS and the no-operation
  case advance \<open>ptr\<close>, every case lowers \<open>optlen\<close>, an unsigned byte.  The result is the last
  accepted MSS, and whether SACK-permitted and a timestamp were seen.
\<close>

function parse_opts :: "bytes \<Rightarrow> u8 \<Rightarrow> u16 \<times> bool \<times> bool \<Rightarrow> u16 \<times> bool \<times> bool" where
  "parse_opts ptr optlen (smss, sack_seen, tsopt_seen) =
     (if 0 < optlen \<and> optlen < 20 then
        if rd8 ptr 0 = TCP_OPT_MSS then
          let mss = ntohs (of_le16 (rd8 ptr 2) (rd8 ptr 3))
          in if optlen < 4 then (if mss > 536 \<and> mss \<le> 1460 then mss else smss, sack_seen, tsopt_seen)
             else parse_opts (drop 4 ptr) (optlen - 4)
               (if mss > 536 \<and> mss \<le> 1460 then mss else smss, sack_seen, tsopt_seen)
        else if rd8 ptr 0 = TCP_OPT_NOOP then parse_opts (drop 1 ptr) (optlen - 1) (smss, sack_seen, tsopt_seen)
        else if rd8 ptr 0 = TCP_OPT_SACK_OK then parse_opts ptr (optlen - 1) (smss, True, tsopt_seen)
        else if rd8 ptr 0 = TCP_OPT_TS then parse_opts ptr (optlen - 1) (smss, sack_seen, True)
        else parse_opts ptr (optlen - 1) (smss, sack_seen, tsopt_seen)
      else (smss, sack_seen, tsopt_seen))"
  by pat_completeness auto

termination
  by (relation "measure (\<lambda>(ptr, n, r). unat n)") (auto simp: optlen_decreases)

declare parse_opts.simps [simp del]

definition tcp_parse_opts :: "tcphdr \<Rightarrow> bytes \<Rightarrow> tcp_sock \<Rightarrow> tcp_sock" where
  "tcp_parse_opts th data k =
     (let (smss, sack_seen, tsopt_seen) =
            parse_opts data (of_int (int (tcp_hlen th) - 20)) (tk_smss k, False, False);
          k = k\<lparr>tk_smss := smss\<rparr>;
          k = (if \<not> tsopt_seen then k\<lparr>tk_tsopt := 0\<rparr> else k)
      in if sack_seen \<and> tk_sackok k \<noteq> 0
         then k\<lparr>tk_sacks_allowed := (if tk_tsopt k \<noteq> 0 then 3 else 4)\<rparr>
         else k\<lparr>tk_sackok := 0\<rparr>)"

subsection \<open>Acknowledged segments\<close>

fun clean_rto :: "nat list \<Rightarrow> u32 \<Rightarrow> tcpctx \<Rightarrow> tcpctx" where
  "clean_rto [] una c = c"
| "clean_rto (b # q) una c =
     (let k = deref b c; c = touch b c in
      if b_seq k > 0 \<and> b_end_seq k \<le> una
      then let c = upd_sk (\<lambda>t. t\<lparr>sk_write_queue := q\<rparr>) c;
               c = upd_skb b (\<lambda>k. k\<lparr>b_refcnt := b_refcnt k - 1\<rparr>) c;
               c = free_skb b c;
               c = (if tk_inflight (c_sk c) > 0
                    then upd_sk (\<lambda>t. t\<lparr>tk_inflight := tk_inflight t - 1\<rparr>) c else c)
           in clean_rto q una c
      else c)"

definition tcp_clean_rto_queue :: "u32 \<Rightarrow> tcpctx \<Rightarrow> int \<times> tcpctx" where
  "tcp_clean_rto_queue una c =
     (let c = clean_rto (sk_write_queue (c_sk c)) una c
      in (0, if sk_write_queue (c_sk c) = [] \<or> tk_inflight (c_sk c) = 0 then tcp_stop_rto_timer c else c))"

definition tcp_drop :: "nat \<Rightarrow> tcpctx \<Rightarrow> int \<times> tcpctx" where
  "tcp_drop b c = (0, free_skb b c)"

definition tcp_verify_segment :: "tcphdr \<Rightarrow> sk_buff \<Rightarrow> tcp_sock \<Rightarrow> bool" where
  "tcp_verify_segment th skb k =
     (if b_dlen skb > 0 \<and> rcv_wnd (tk_tcb k) = 0 then False
      else if th_seq th < rcv_nxt (tk_tcb k) \<or> th_seq th > rcv_nxt (tk_tcb k) + rcv_wnd (tk_tcb k)
      then False else True)"

definition tcp_reset :: "tcpctx \<Rightarrow> tcpctx" where
  "tcp_reset c =
     (let c = upd_sk (\<lambda>k. k\<lparr>sk_poll_events := POLLOUT OR POLLWRNORM OR POLLERR OR POLLHUP\<rparr>) c;
          fail = (\<lambda>e c. snd (tcp_done (upd_sk (\<lambda>k. k\<lparr>sk_err := - e\<rparr>) c)))
      in case state_of c of
           TCP_SYN_SENT \<Rightarrow> fail ECONNREFUSED c
         | TCP_CLOSE_WAIT \<Rightarrow> fail EPIPE c
         | TCP_CLOSE \<Rightarrow> c
         | _ \<Rightarrow> fail ECONNRESET c)"

definition tcp_discard :: "nat \<Rightarrow> tcpctx \<Rightarrow> int \<times> tcpctx" where
  "tcp_discard b c = (0, free_skb b c)"

definition tcp_listen :: "nat \<Rightarrow> tcpctx \<Rightarrow> int \<times> tcpctx" where
  "tcp_listen b c = (0, free_skb b c)"

subsection \<open>\<open>SYN_SENT\<close> and \<open>CLOSE\<close>\<close>

text \<open>Both labels at the end of \<open>tcp_synsent\<close> drop the buffer.\<close>

definition synsent_unacceptable :: "tcphdr \<Rightarrow> tcb \<Rightarrow> bool" where
  "synsent_unacceptable th t \<longleftrightarrow>
     th_ack th \<and> (th_ack_seq th \<le> iss t \<or> th_ack_seq th > snd_nxt t
       \<or> th_ack_seq th < snd_una t \<or> th_ack_seq th > snd_nxt t)"

definition tcp_synsent :: "nat \<Rightarrow> tcphdr \<Rightarrow> tcpctx \<Rightarrow> int \<times> tcpctx" where
  "tcp_synsent b th c =
     (if synsent_unacceptable th (tcb_of c) then tcp_drop b c
      else if th_rst th then tcp_drop b (tcp_reset c)
      else if \<not> th_syn th then tcp_drop b c
      else
        let c = upd_tcb (\<lambda>t. t\<lparr>rcv_nxt := th_seq th + 1, irs := th_seq th\<rparr>) c;
            c = (if th_ack th
                 then let c = upd_tcb (\<lambda>t. t\<lparr>snd_una := th_ack_seq th\<rparr>) c
                      in snd (tcp_clean_rto_queue (snd_una (tcb_of c)) c)
                 else c);
            c = (if snd_una (tcb_of c) > iss (tcb_of c)
                 then
                   let c = tcp_set_state TCP_ESTABLISHED c;
                       c = upd_tcb (\<lambda>t. t\<lparr>snd_una := snd_nxt t\<rparr>) c;
                       c = upd_sk (\<lambda>k. k\<lparr>tk_backoff := 0, tk_rto := 1000\<rparr>) c;
                       c = snd (tcp_send_ack c);
                       c = tcp_rearm_user_timeout c;
                       c = upd_sk (tcp_parse_opts th (drop 54 (b_mem (deref b c)))) c
                   in sock_connected c
                 else
                   let c = tcp_set_state TCP_SYN_RECEIVED c;
                       c = upd_tcb (\<lambda>t. t\<lparr>snd_una := iss t\<rparr>) c
                   in snd (tcp_send_synack c))
        in tcp_drop b c)"

definition tcp_closed :: "nat \<Rightarrow> tcphdr \<Rightarrow> tcpctx \<Rightarrow> int \<times> tcpctx" where
  "tcp_closed b th c =
     (if th_rst th then (0, snd (tcp_discard b c))
      else let (rc, c) = tcp_send_reset c in (rc, free_skb b c))"

subsection \<open>The other states\<close>

type_synonym phase = "int \<times> tcpctx + tcpctx"

text \<open>First to fourth check: sequence number, RST, SYN; and the ACK bit.\<close>

definition input_check :: "nat \<Rightarrow> tcphdr \<Rightarrow> tcpctx \<Rightarrow> phase" where
  "input_check b th c =
     (if \<not> tcp_verify_segment th (deref b c) (c_sk c)
      then Inl (tcp_drop b (if \<not> th_rst th then snd (tcp_send_ack c) else c))
      else if th_rst th
      then let c = free_skb b c; c = tcp_enter_time_wait c in Inl (0, snd (tcp_recv_notify c))
      else if th_syn th then Inl (tcp_drop b (snd (tcp_send_challenge_ack b c)))
      else if \<not> th_ack th then Inl (tcp_drop b c)
      else Inr c)"

text \<open>Fifth: the ACK field.\<close>

definition input_ack_field :: "nat \<Rightarrow> tcphdr \<Rightarrow> tcpctx \<Rightarrow> phase" where
  "input_ack_field b th c =
     (let c = (if snd_una (tcb_of c) < th_ack_seq th \<and> th_ack_seq th \<le> snd_nxt (tcb_of c)
               then let c = upd_tcb (\<lambda>t. t\<lparr>snd_una := th_ack_seq th\<rparr>) c;
                        c = tcp_rtt c
                    in snd (tcp_clean_rto_queue (snd_una (tcb_of c)) c)
               else c)
      in if th_ack_seq th < snd_una (tcb_of c) then Inl (tcp_drop b c)
         else if th_ack_seq th > snd_nxt (tcb_of c) then Inl (tcp_drop b c)
         else Inr c)"

definition input_ack :: "nat \<Rightarrow> tcphdr \<Rightarrow> tcpctx \<Rightarrow> phase" where
  "input_ack b th c =
     (case state_of c of
        TCP_SYN_RECEIVED \<Rightarrow>
          if snd_una (tcb_of c) \<le> th_ack_seq th \<and> th_ack_seq th < snd_nxt (tcb_of c)
          then input_ack_field b th (tcp_set_state TCP_ESTABLISHED c)
          else Inl (tcp_drop b c)
      | TCP_ESTABLISHED \<Rightarrow> input_ack_field b th c
      | TCP_FIN_WAIT_1 \<Rightarrow> input_ack_field b th c
      | TCP_FIN_WAIT_2 \<Rightarrow> input_ack_field b th c
      | TCP_CLOSE_WAIT \<Rightarrow> input_ack_field b th c
      | TCP_CLOSING \<Rightarrow> input_ack_field b th c
      | TCP_LAST_ACK \<Rightarrow> input_ack_field b th c
      | _ \<Rightarrow> Inr c)"

text \<open>The write queue is empty: the FIN was acknowledged.\<close>

definition input_fin_acked :: "nat \<Rightarrow> tcphdr \<Rightarrow> tcpctx \<Rightarrow> phase" where
  "input_fin_acked b th c =
     (if sk_write_queue (c_sk c) = []
      then (case state_of c of
              TCP_FIN_WAIT_1 \<Rightarrow> Inr (tcp_set_state TCP_FIN_WAIT_2 c)
            | TCP_CLOSING \<Rightarrow> Inr (tcp_set_state TCP_TIME_WAIT c)
            | TCP_LAST_ACK \<Rightarrow> Inl (tcp_done (free_skb b c))
            | TCP_TIME_WAIT \<Rightarrow>
                Inr (if rcv_nxt (tcb_of c) = th_seq th
                     then let c = upd_sk (\<lambda>k. k\<lparr>tk_flags := tk_flags k OR TCP_FIN\<rparr>) c
                          in snd (tcp_send_ack c)
                     else c)
            | _ \<Rightarrow> Inr c)
      else Inr c)"

text \<open>Seventh: the segment text.\<close>

definition input_data :: "nat \<Rightarrow> tcphdr \<Rightarrow> tcpctx \<Rightarrow> tcpctx" where
  "input_data b th c =
     (if (state_of c = TCP_ESTABLISHED \<or> state_of c = TCP_FIN_WAIT_1 \<or> state_of c = TCP_FIN_WAIT_2)
         \<and> (th_psh th \<or> b_dlen (deref b c) > 0)
      then snd (tcp_data_queue b c) else c)"

text \<open>Eighth: the FIN bit.\<close>

definition input_fin :: "nat \<Rightarrow> tcphdr \<Rightarrow> bool \<Rightarrow> tcpctx \<Rightarrow> phase" where
  "input_fin b th expected c =
     (if th_fin th \<and> expected
      then if state_of c = TCP_CLOSE \<or> state_of c = TCP_LISTEN \<or> state_of c = TCP_SYN_SENT
      then Inl (tcp_drop b c)
      else
        let c = upd_tcb (\<lambda>t. t\<lparr>rcv_nxt := rcv_nxt t + 1\<rparr>) c;
            c = upd_sk (\<lambda>k. k\<lparr>tk_flags := tk_flags k OR TCP_FIN,
                  sk_poll_events := sk_poll_events k OR (POLLIN OR POLLPRI OR POLLRDNORM OR POLLRDBAND)\<rparr>) c;
            c = snd (tcp_send_ack c);
            c = snd (tcp_recv_notify c)
        in Inr (case state_of c of
                  TCP_SYN_RECEIVED \<Rightarrow> tcp_set_state TCP_CLOSE_WAIT c
                | TCP_ESTABLISHED \<Rightarrow> tcp_set_state TCP_CLOSE_WAIT c
                | TCP_FIN_WAIT_1 \<Rightarrow>
                    if sk_write_queue (c_sk c) = [] then tcp_enter_time_wait c
                    else tcp_set_state TCP_CLOSING c
                | TCP_FIN_WAIT_2 \<Rightarrow> tcp_enter_time_wait c
                | _ \<Rightarrow> c)
      else Inr c)"

text \<open>Congestion control and delayed acknowledgements.\<close>

definition input_delack :: "nat \<Rightarrow> tcphdr \<Rightarrow> bool \<Rightarrow> tcpctx \<Rightarrow> tcpctx" where
  "input_delack b th expected c =
     (if (state_of c = TCP_ESTABLISHED \<or> state_of c = TCP_FIN_WAIT_1 \<or> state_of c = TCP_FIN_WAIT_2)
         \<and> expected
      then
        let c = tcp_stop_delack_timer c;
            pending = min (length (sk_write_queue (c_sk c))) 3
        in if tk_inflight (c_sk c) = 0 \<and> pending > 0 then
             let c = snd (tcp_send_next pending c);
                 c = upd_sk (\<lambda>k. k\<lparr>tk_inflight := tk_inflight k + of_nat pending\<rparr>) c
             in tcp_rearm_rto_timer c
           else
             let big = (\<not> th_psh th \<and> b_dlen (deref b c) > 1000);
                 c = (if big then upd_sk (\<lambda>k. k\<lparr>tk_delacks := tk_delacks k + 1\<rparr>) c else c)
             in if th_psh th \<or> (big \<and> tk_delacks (c_sk c) > 1)
                then snd (tcp_send_ack (upd_sk (\<lambda>k. k\<lparr>tk_delacks := 0\<rparr>) c))
                else if b_dlen (deref b c) > 0
                then let (t, c) = timer_add 200 H_send_delack (c_sid c) c
                     in upd_sk (\<lambda>k. k\<lparr>tk_delack := Some t\<rparr>) c
                else c
      else c)"

text \<open>From the processed ACK on; \<open>expected\<close> is computed before the text is queued.\<close>

definition input_text :: "nat \<Rightarrow> tcphdr \<Rightarrow> tcpctx \<Rightarrow> int \<times> tcpctx" where
  "input_text b th c =
     (let expected = (b_seq (deref b c) = rcv_nxt (tcb_of c));
          c = input_data b th (touch b c)
      in case input_fin b th expected c of
           Inl r \<Rightarrow> r
         | Inr c \<Rightarrow> (0, free_skb b (input_delack b th expected c)))"

definition tcp_input_state :: "nat \<Rightarrow> tcphdr \<Rightarrow> tcpctx \<Rightarrow> int \<times> tcpctx" where
  "tcp_input_state b th c =
     (case state_of c of
        TCP_CLOSE \<Rightarrow> tcp_closed b th c
      | TCP_LISTEN \<Rightarrow> tcp_listen b c
      | TCP_SYN_SENT \<Rightarrow> tcp_synsent b th c
      | _ \<Rightarrow>
          (case input_check b th c of Inl r \<Rightarrow> r | Inr c \<Rightarrow>
          (case input_ack b th c of Inl r \<Rightarrow> r | Inr c \<Rightarrow>
          (case input_fin_acked b th c of Inl r \<Rightarrow> r | Inr c \<Rightarrow>
            input_text b th c))))"

subsection \<open>Reading\<close>

text \<open>
  One round of the loop of \<open>tcp_receive\<close>, from the test of the loop to its end or to the call of
  \<open>wait_sleep\<close>, where the thread has released the socket: \<open>Sleep\<close> carries the local variables
  and \<open>tcp_receive_resume\<close> goes on when it is woken.  \<open>buf\<close> holds the bytes copied so far; the
  caller's buffer is those bytes and zeroes up to \<open>len\<close>.
\<close>

datatype receive_result = Received int bytes tcpctx | Sleep int bytes tcpctx

definition O_NONBLOCK :: u32 where "O_NONBLOCK = 0x800"

definition receive_done :: "int \<Rightarrow> bytes \<Rightarrow> tcpctx \<Rightarrow> receive_result" where
  "receive_done rlen buf c = Received rlen buf (if rlen \<ge> 0 then tcp_rearm_user_timeout c else c)"

definition tcp_receive_round :: "int \<Rightarrow> int \<Rightarrow> bytes \<Rightarrow> tcpctx \<Rightarrow> receive_result" where
  "tcp_receive_round len rlen buf c =
     (if rlen < len then
        let (curlen, new, c) = tcp_data_dequeue (len - rlen) c;
            rlen = rlen + curlen;
            buf = buf @ new
        in if tk_flags (c_sk c) AND TCP_PSH \<noteq> 0
           then receive_done rlen buf (upd_sk (\<lambda>k. k\<lparr>tk_flags := tk_flags k AND NOT TCP_PSH\<rparr>) c)
           else if tk_flags (c_sk c) AND TCP_FIN \<noteq> 0 \<or> rlen = len
           then receive_done rlen buf c
           else if so_flags (c_sock c) AND O_NONBLOCK \<noteq> 0
           then receive_done (if rlen = 0 then - EAGAIN else rlen) buf c
           else Sleep rlen buf (sleep_recv (socket_release c))
      else receive_done rlen buf c)"

definition tcp_receive :: "int \<Rightarrow> tcpctx \<Rightarrow> receive_result" where
  "tcp_receive len c = tcp_receive_round len 0 [] c"

definition tcp_receive_resume :: "int \<Rightarrow> int \<Rightarrow> bytes \<Rightarrow> tcpctx \<Rightarrow> receive_result" where
  "tcp_receive_resume len rlen buf c = tcp_receive_round len rlen buf (snd (socket_wr_acquire c))"

end
