(* ===== verification/Tcp.thy ===== *)
theory Tcp
  imports Tcp_Input
begin

unbundle bit_operations_syntax

text \<open>
  The operations \<open>tcp_ops\<close> of \<open>src/tcp.c\<close> that sockets call, the 2MSL and user timeouts, and
  which handler a timer of a connection runs.
\<close>

definition trunc_mod :: "int \<Rightarrow> int \<Rightarrow> int" where
  "trunc_mod a b = a - b * trunc_div a b"

definition generate_port :: "tcpctx \<Rightarrow> u16 \<times> tcpctx" where
  "generate_port c =
     (let c = c\<lparr>c_port := c_port c + 1\<rparr>
      in (of_int (c_port c + trunc_mod (sint (timer_get_tick c)) 10000), c))"

text \<open>\<open>sin_port\<close> and \<open>s_addr\<close> are in network byte order; \<open>iss\<close> is the value of \<open>generate_iss\<close>.\<close>

definition tcp_v4_connect :: "u32 \<Rightarrow> u16 \<Rightarrow> u32 \<Rightarrow> tcpctx \<Rightarrow> int \<times> tcpctx" where
  "tcp_v4_connect generate_iss sin_port s_addr c =
     (let c = upd_sk (\<lambda>k. k\<lparr>sk_dport := ntohs sin_port\<rparr>) c;
          (port, c) = generate_port c;
          c = upd_sk (\<lambda>k. k\<lparr>sk_sport := port, sk_daddr := ntohl s_addr,
                sk_saddr := the (parse_ipv4_string ''10.0.0.4'')\<rparr>) c
      in tcp_connect generate_iss c)"

definition tcp_disconnect :: "tcpctx \<Rightarrow> int \<times> tcpctx" where
  "tcp_disconnect c = (0, c)"

definition tcp_v4_init_sock :: "tcp_sock \<Rightarrow> int \<times> tcp_sock" where
  "tcp_v4_init_sock k = (0, k)"

definition tcp_write :: "bytes \<Rightarrow> tcpctx \<Rightarrow> (int \<times> tcpctx) option" where
  "tcp_write data c =
     (if sk_err (c_sk c) \<noteq> 0 then Some (sk_err (c_sk c), c)
      else if state_of c = TCP_ESTABLISHED \<or> state_of c = TCP_CLOSE_WAIT then tcp_send data c
      else Some (- EBADF, c))"

definition tcp_read :: "int \<Rightarrow> tcpctx \<Rightarrow> receive_result" where
  "tcp_read len c =
     (case state_of c of
        TCP_CLOSE \<Rightarrow> Received (- EBADF) [] c
      | TCP_CLOSE_WAIT \<Rightarrow>
          if sk_receive_queue (c_sk c) = [] \<and> tk_flags (c_sk c) AND TCP_FIN \<noteq> 0
          then Received 0 [] (upd_sk (\<lambda>k. k\<lparr>tk_flags := tk_flags k AND NOT TCP_FIN\<rparr>) c)
          else tcp_receive len c
      | TCP_CLOSING \<Rightarrow> Received (sk_err (c_sk c)) [] c
      | TCP_LAST_ACK \<Rightarrow> Received (sk_err (c_sk c)) [] c
      | TCP_TIME_WAIT \<Rightarrow> Received (sk_err (c_sk c)) [] c
      | _ \<Rightarrow> tcp_receive len c)"

definition tcp_close :: "tcpctx \<Rightarrow> int \<times> tcpctx" where
  "tcp_close c =
     (if state_of c \<in> {TCP_LISTEN, TCP_SYN_SENT, TCP_SYN_RECEIVED} then tcp_done c
      else if state_of c = TCP_ESTABLISHED
      then (0, snd (tcp_queue_fin (tcp_set_state TCP_FIN_WAIT_1 c)))
      else if state_of c = TCP_CLOSE_WAIT then (0, snd (tcp_queue_fin c))
      else (- 1, upd_sk (\<lambda>k. k\<lparr>sk_err := - EBADF\<rparr>) c))"

definition tcp_abort :: "tcpctx \<Rightarrow> int \<times> tcpctx" where
  "tcp_abort c = tcp_done (snd (tcp_send_reset c))"

definition tcp_linger :: "tcpctx \<Rightarrow> tcpctx" where
  "tcp_linger c =
     (let c = snd (socket_wr_acquire c);
          c = timer_cancel (tk_linger (c_sk c)) c;
          c = upd_sk (\<lambda>k. k\<lparr>tk_linger := None\<rparr>) c;
          c = snd (tcp_done c)
      in socket_release c)"

definition tcp_user_timeout :: "tcpctx \<Rightarrow> tcpctx" where
  "tcp_user_timeout c =
     (let c = snd (socket_wr_acquire c);
          c = timer_cancel (tk_linger (c_sk c)) c;
          c = upd_sk (\<lambda>k. k\<lparr>tk_linger := None\<rparr>) c;
          c = snd (tcp_abort c)
      in socket_release c)"

end
