(* ===== verification/Tcp_Frame.thy ===== *)
theory Tcp_Frame
  imports Tcp
begin

text \<open>
  What the operations of a connection leave alone.  \<open>tcp_tx\<close> is what sending segments may do:
  the stack changes as \<open>tx_frame\<close> says, of the connection only the SACK blocks.
\<close>

lemma c_more:
  assumes "stack.more c' = stack.more (c :: tcpctx)"
  shows "c_sk c' = c_sk c" "c_sock c' = c_sock c" "c_sid c' = c_sid c" "c_port c' = c_port c"
  using assms by (cases c; cases c'; simp)+

lemma c_check [simp]:
  "c_sk (check b c) = c_sk c" "c_sock (check b c) = c_sock c" "c_sid (check b c) = c_sid c"
  "c_port (check b c) = c_port c"
  by (simp_all add: check_def)

lemma c_touch [simp]:
  "c_sk (touch b c) = c_sk c" "c_sock (touch b c) = c_sock c" "c_sid (touch b c) = c_sid c"
  "c_port (touch b c) = c_port c"
  by (simp_all add: touch_def)

lemma c_put_skb [simp]:
  "c_sk (put_skb b k c) = c_sk c" "c_sock (put_skb b k c) = c_sock c" "c_sid (put_skb b k c) = c_sid c"
  "c_port (put_skb b k c) = c_port c"
  by (simp_all add: put_skb_def)

lemma c_upd_skb [simp]:
  "c_sk (upd_skb b f c) = c_sk c" "c_sock (upd_skb b f c) = c_sock c" "c_sid (upd_skb b f c) = c_sid c"
  "c_port (upd_skb b f c) = c_port c"
  by (simp_all add: upd_skb_def)

lemma c_free_skb [simp]:
  "c_sk (free_skb b c) = c_sk c" "c_sock (free_skb b c) = c_sock c" "c_sid (free_skb b c) = c_sid c"
  "c_port (free_skb b c) = c_port c"
  by (simp_all add: free_skb_def Let_def)

lemma c_alloc_skb [simp]:
  "c_sk (snd (alloc_skb n c)) = c_sk c" "c_sock (snd (alloc_skb n c)) = c_sock c"
  "c_sid (snd (alloc_skb n c)) = c_sid c" "c_port (snd (alloc_skb n c)) = c_port c"
  by (simp_all add: alloc_skb_def)

lemma c_timer [simp]:
  "c_sk (timer_cancel t c) = c_sk c" "c_sock (timer_cancel t c) = c_sock c"
  "c_sid (timer_cancel t c) = c_sid c" "c_sk (timer_release t c) = c_sk c"
  "c_sock (timer_release t c) = c_sock c" "c_sid (timer_release t c) = c_sid c"
  "c_sk (snd (timer_add e h a c)) = c_sk c" "c_sock (snd (timer_add e h a c)) = c_sock c"
  "c_sid (snd (timer_add e h a c)) = c_sid c"
  "c_sk (timer_oneshot e h a c) = c_sk c" "c_sock (timer_oneshot e h a c) = c_sock c"
  "c_sid (timer_oneshot e h a c) = c_sid c"
  by (simp_all add: timer_cancel_def timer_release_def timer_add_def timer_oneshot_def split: option.split)

lemma upd_sk_sel [simp]:
  "c_sk (upd_sk f c) = f (c_sk c)" "c_sock (upd_sk f c) = c_sock c" "c_sid (upd_sk f c) = c_sid c"
  "c_sk (upd_sock g c) = c_sk c" "c_sock (upd_sock g c) = g (c_sock c)" "c_sid (upd_sock g c) = c_sid c"
  "c_sk (upd_tcb h c) = (c_sk c)\<lparr>tk_tcb := h (tk_tcb (c_sk c))\<rparr>" "c_sock (upd_tcb h c) = c_sock c"
  "c_sid (upd_tcb h c) = c_sid c"
  by (simp_all add: upd_sk_def upd_sock_def upd_tcb_def)

lemma upd_sk_stack [simp]:
  "s_tick (upd_sk f c) = s_tick c" "s_timers (upd_sk f c) = s_timers c" "s_tnext (upd_sk f c) = s_tnext c"
  "s_threads (upd_sk f c) = s_threads c" "s_skbs (upd_sk f c) = s_skbs c" "s_bnext (upd_sk f c) = s_bnext c"
  "s_arp_cache (upd_sk f c) = s_arp_cache c" "s_routes (upd_sk f c) = s_routes c"
  "s_loop (upd_sk f c) = s_loop c" "s_netdev (upd_sk f c) = s_netdev c" "s_tap (upd_sk f c) = s_tap c"
  "s_write (upd_sk f c) = s_write c" "s_fault (upd_sk f c) = s_fault c"
  by (simp_all add: upd_sk_def)

lemma upd_sock_stack [simp]:
  "s_tick (upd_sock f c) = s_tick c" "s_timers (upd_sock f c) = s_timers c" "s_tnext (upd_sock f c) = s_tnext c"
  "s_threads (upd_sock f c) = s_threads c" "s_skbs (upd_sock f c) = s_skbs c" "s_bnext (upd_sock f c) = s_bnext c"
  "s_arp_cache (upd_sock f c) = s_arp_cache c" "s_routes (upd_sock f c) = s_routes c"
  "s_loop (upd_sock f c) = s_loop c" "s_netdev (upd_sock f c) = s_netdev c" "s_tap (upd_sock f c) = s_tap c"
  "s_write (upd_sock f c) = s_write c" "s_fault (upd_sock f c) = s_fault c"
  by (simp_all add: upd_sock_def)

lemma upd_tcb_stack [simp]:
  "s_tick (upd_tcb f c) = s_tick c" "s_timers (upd_tcb f c) = s_timers c" "s_tnext (upd_tcb f c) = s_tnext c"
  "s_threads (upd_tcb f c) = s_threads c" "s_skbs (upd_tcb f c) = s_skbs c" "s_bnext (upd_tcb f c) = s_bnext c"
  "s_arp_cache (upd_tcb f c) = s_arp_cache c" "s_routes (upd_tcb f c) = s_routes c"
  "s_loop (upd_tcb f c) = s_loop c" "s_netdev (upd_tcb f c) = s_netdev c" "s_tap (upd_tcb f c) = s_tap c"
  "s_write (upd_tcb f c) = s_write c" "s_fault (upd_tcb f c) = s_fault c"
  by (simp_all add: upd_tcb_def)

lemma live_upd [simp]:
  "live b (upd_sk f c) = live b c" "live b (upd_sock g c) = live b c" "live b (upd_tcb h c) = live b c"
  by (simp_all add: live_def)

lemma deref_upd [simp]:
  "deref b (upd_sk f c) = deref b c" "deref b (upd_sock g c) = deref b c" "deref b (upd_tcb h c) = deref b c"
  by (simp_all add: deref_def)

lemma heap_ok_upd [simp]:
  "heap_ok (upd_sk f c) = heap_ok c" "heap_ok (upd_sock g c) = heap_ok c" "heap_ok (upd_tcb h c) = heap_ok c"
  by (simp_all add: heap_ok_def)

lemma live_upd_skb [simp]: "live b' (upd_skb b f s) = live b' s"
  by (simp add: upd_skb_def)

lemma deref_upd_skb [simp]:
  "live b s \<Longrightarrow> deref b (upd_skb b f s) = f (deref b s)"
  "b' \<noteq> b \<Longrightarrow> deref b' (upd_skb b f s) = deref b' s"
  by (simp_all add: upd_skb_def)

lemma heap_ok_upd_skb [simp]: "heap_ok (upd_skb b f s) = heap_ok s"
  by (simp add: upd_skb_def)

lemma upd_skb_sel [simp]:
  "s_tick (upd_skb b f s) = s_tick s" "s_timers (upd_skb b f s) = s_timers s"
  "s_tnext (upd_skb b f s) = s_tnext s" "s_threads (upd_skb b f s) = s_threads s"
  "s_bnext (upd_skb b f s) = s_bnext s" "s_arp_cache (upd_skb b f s) = s_arp_cache s"
  "s_routes (upd_skb b f s) = s_routes s" "s_loop (upd_skb b f s) = s_loop s"
  "s_netdev (upd_skb b f s) = s_netdev s" "s_tap (upd_skb b f s) = s_tap s"
  "s_write (upd_skb b f s) = s_write s" "s_fault (upd_skb b f s) = (s_fault s \<or> \<not> live b s)"
  "stack.more (upd_skb b f s) = stack.more s"
  by (simp_all add: upd_skb_def)

subsection \<open>Sending\<close>

definition tcp_tx :: "nat set \<Rightarrow> tcpctx \<Rightarrow> tcpctx \<Rightarrow> bool" where
  "tcp_tx B c c' \<longleftrightarrow> tx_frame B c (c'\<lparr>c_sk := c_sk c\<rparr>)
     \<and> (\<exists>sacks n. c_sk c' = (c_sk c)\<lparr>tk_sacks := sacks, tk_sacklen := n\<rparr>)"

lemma tx_frame_upd_sk:
  "tx_frame B c c' \<Longrightarrow> tx_frame B (c\<lparr>c_sk := k\<rparr>) (c'\<lparr>c_sk := k\<rparr>)"
  by (cases c; cases c') (auto simp: tx_frame_def heap_ok_def live_def)

lemma sk_sacks_triv: "\<exists>sacks n. (k :: tcp_sock) = k\<lparr>tk_sacks := sacks, tk_sacklen := n\<rparr>"
  by (rule exI [of _ "tk_sacks k"], rule exI [of _ "tk_sacklen k"]) simp

lemma tcp_tx_frame: "tx_frame B c c' \<Longrightarrow> tcp_tx B c c'"
proof -
  assume f: "tx_frame B c c'"
  then have "c_sk c' = c_sk c" by (intro c_more) (simp add: tx_frame_def)
  then show "tcp_tx B c c'" using f sk_sacks_triv [of "c_sk c"]
    by (metis tcp_tx_def tcpctx.surjective tcpctx.update_convs(3))
qed

lemma tcp_tx_refl [simp]: "tcp_tx B c c"
  by (rule tcp_tx_frame) simp

lemma tcp_tx_trans: "tcp_tx B c c' \<Longrightarrow> tcp_tx B c' c'' \<Longrightarrow> tcp_tx B c c''"
proof -
  assume a: "tcp_tx B c c'" and b: "tcp_tx B c' c''"
  have "tx_frame B (c'\<lparr>c_sk := c_sk c\<rparr>) (c''\<lparr>c_sk := c_sk c\<rparr>)"
    using tx_frame_upd_sk [of B c' "c''\<lparr>c_sk := c_sk c'\<rparr>" "c_sk c"] b by (simp add: tcp_tx_def)
  then have "tx_frame B c (c''\<lparr>c_sk := c_sk c\<rparr>)"
    using a tx_frame_trans by (auto simp: tcp_tx_def)
  moreover obtain x y where "c_sk c'' = (c_sk c')\<lparr>tk_sacks := x, tk_sacklen := y\<rparr>"
    using b by (auto simp: tcp_tx_def)
  then have "c_sk c'' = (c_sk c)\<lparr>tk_sacks := x, tk_sacklen := y\<rparr>"
    using a by (auto simp: tcp_tx_def)
  ultimately show ?thesis unfolding tcp_tx_def by blast
qed

lemma tcp_tx_mono: "tcp_tx A c c' \<Longrightarrow> A \<subseteq> B \<Longrightarrow> tcp_tx B c c'"
  using tx_frame_mono by (auto simp: tcp_tx_def)

lemma tx_frame_upd_skb [intro]: "b \<in> B \<Longrightarrow> tx_frame B s (upd_skb b f s)"
  by (auto simp: upd_skb_def)

lemma tcp_tx_upd_skb: "b \<in> B \<Longrightarrow> tcp_tx B c (upd_skb b f c)"
  by (intro tcp_tx_frame) auto

lemma tcp_tx_check: "tcp_tx B c (check e c)"
  by (intro tcp_tx_frame) simp

lemma tcp_tx_touch: "tcp_tx B c (touch b c)"
  by (intro tcp_tx_frame) simp

lemma tcp_tx_sacks: "tcp_tx B c (upd_sk (\<lambda>k. k\<lparr>tk_sacks := f k, tk_sacklen := g k\<rparr>) c)"
proof -
  have "(upd_sk (\<lambda>k. k\<lparr>tk_sacks := f k, tk_sacklen := g k\<rparr>) c)\<lparr>c_sk := c_sk c\<rparr> = c"
    by (cases c) (simp add: upd_sk_def)
  then show ?thesis by (auto simp: tcp_tx_def)
qed

lemma tcp_write_options_tx: "b \<in> B \<Longrightarrow> tcp_tx B c (tcp_write_options b c)"
  unfolding tcp_write_options_def Let_def
  by (auto intro!: tcp_tx_trans [OF _ tcp_tx_sacks] tcp_tx_trans [OF _ tcp_tx_upd_skb] tcp_tx_trans [OF _ tcp_tx_check]
      tcp_tx_check)

lemma tcp_transmit_tx: "b \<in> B \<Longrightarrow> tcp_tx B c (snd (tcp_transmit_skb b seq c))"
  unfolding tcp_transmit_skb_def Let_def
  by (rule tcp_tx_trans [OF _ tcp_tx_frame [OF ip_output_frame]])
    (auto intro!: tcp_tx_trans [OF _ tcp_tx_upd_skb] tcp_tx_trans [OF _ tcp_write_options_tx]
      tcp_tx_trans [OF _ tcp_tx_check] intro: tcp_tx_touch)

subsection \<open>Buffers through a transmission\<close>

lemma same_skb_upd_th [simp]: "same_skb k (upd_th f k') = same_skb k k'"
  by (simp add: upd_th_def)

lemma tx_keeps_upd_skb: "(\<And>k. same_skb k (f k)) \<Longrightarrow> tx_keeps b s (upd_skb b f s)"
  unfolding upd_skb_def by (rule tx_keeps_put) simp

lemma tx_keeps_upd_sk [simp]: "tx_keeps b c (upd_sk f c)"
  by (simp add: tx_keeps_def)

lemma heap_ok_touch [simp]: "heap_ok (touch b s) = heap_ok s"
  by (simp add: touch_def)

lemma tx_keeps_touch [simp]: "tx_keeps b s (touch b' s)"
  by (simp add: touch_def)

lemma tcp_write_options_keeps: "tx_keeps b c (tcp_write_options b c)"
  unfolding tcp_write_options_def Let_def
  by (auto intro!: tx_keeps_trans [OF _ tx_keeps_upd_sk] tx_keeps_trans [OF _ tx_keeps_upd_skb]
      tx_keeps_trans [OF _ tx_keeps_check])

lemma heap_ok_write_options [simp]: "heap_ok (tcp_write_options b c) = heap_ok c"
  by (simp add: tcp_write_options_def Let_def)

lemma tcp_transmit_keeps: "heap_ok c \<Longrightarrow> tx_keeps b c (snd (tcp_transmit_skb b seq c))"
  unfolding tcp_transmit_skb_def Let_def
  by (rule tx_keeps_trans [OF _ ip_output_keeps])
    (auto intro!: tx_keeps_trans [OF _ tx_keeps_upd_skb] tx_keeps_trans [OF _ tcp_write_options_keeps]
      tx_keeps_trans [OF _ tx_keeps_check])

text \<open>An operation that allocates a segment, sends it and frees it.\<close>

lemma tcp_tx_alloc:
  assumes f: "tcp_tx {s_bnext c} (snd (alloc_skb n c)) c2" and k: "tx_keeps (s_bnext c) (snd (alloc_skb n c)) c2"
  shows "tcp_tx {} c (free_skb (s_bnext c) c2)"
proof -
  let ?c2 = "c2\<lparr>c_sk := c_sk c\<rparr>"
  have "tx_frame {s_bnext c} (snd (alloc_skb n c)) ?c2"
    using f by (simp add: tcp_tx_def)
  moreover have "tx_keeps (s_bnext c) (snd (alloc_skb n c)) ?c2"
    using k by (simp add: tx_keeps_def live_def deref_def)
  ultimately have "tx_frame {} c (free_skb (s_bnext c) ?c2)" by (rule tx_frame_alloc)
  moreover have "free_skb (s_bnext c) ?c2 = (free_skb (s_bnext c) c2)\<lparr>c_sk := c_sk c\<rparr>"
    by (simp add: free_skb_def touch_def Let_def check_def live_def deref_def)
  ultimately show ?thesis using f by (simp add: tcp_tx_def)
qed

lemma tcp_alloc_skb_eq:
  "tcp_alloc_skb o0 n c =
     (s_bnext c, upd_skb (s_bnext c) (\<lambda>k. (skb_reserve (54 + o0 + n) k)
        \<lparr>b_protocol := ucast IP_TCP, b_dlen := of_nat n, b_seq := 0\<rparr>) (snd (alloc_skb (54 + o0 + n) c)))"
  by (simp add: tcp_alloc_skb_def Let_def split_beta)

lemma heap_ok_alloc [simp]: "heap_ok c \<Longrightarrow> heap_ok (snd (alloc_skb n c))"
  by (rule heap_ok_alloc_skb)

lemma same_skb_upd [simp]:
  "same_skb k (k'\<lparr>b_mem := m\<rparr>) \<longleftrightarrow> same_skb k (k'\<lparr>b_mem := m\<rparr>)"
  by simp

text \<open>Sizes of a new segment do not matter for the count of its references.\<close>

lemma tx_keeps_live: "tx_keeps b s s' \<Longrightarrow> live b s \<Longrightarrow> live b s' \<and> b_refcnt (deref b s') = b_refcnt (deref b s)"
  by (simp add: tx_keeps_def same_skb_def)

lemma tcp_tx_free_new:
  assumes f: "tcp_tx {s_bnext c} (snd (alloc_skb n c)) c2"
    and k: "live (s_bnext c) c2" "b_refcnt (deref (s_bnext c) c2) < 1"
  shows "tcp_tx {} c (free_skb (s_bnext c) c2)"
proof -
  let ?b = "s_bnext c"
  let ?c2 = "(upd_skb ?b (\<lambda>_. new_skb n) c2)"
  have "tcp_tx {?b} (snd (alloc_skb n c)) ?c2"
    by (rule tcp_tx_trans [OF f tcp_tx_upd_skb]) simp
  moreover have "tx_keeps ?b (snd (alloc_skb n c)) ?c2"
    using k by (simp add: tx_keeps_def alloc_skb_def deref_def live_def upd_skb_def put_skb_def)
  ultimately have "tcp_tx {} c (free_skb ?b ?c2)" by (rule tcp_tx_alloc)
  moreover have "free_skb ?b ?c2 = free_skb ?b c2"
    using k by (simp add: free_skb_def Let_def upd_skb_def new_skb_def put_skb_def)
      (simp add: live_def deref_def fun_upd_def cong: if_cong)
  ultimately show ?thesis by simp
qed

lemma tcp_send_new:
  assumes "heap_ok c" and "\<And>k. b_refcnt (g k) = b_refcnt k"
  shows "tcp_tx {} c (free_skb (s_bnext c) (snd (tcp_transmit_skb (s_bnext c) seq
           (upd_skb (s_bnext c) g (snd (alloc_skb n c))))))"
proof (rule tcp_tx_free_new)
  let ?b = "s_bnext c" and ?c1 = "upd_skb (s_bnext c) g (snd (alloc_skb n c))"
  show "tcp_tx {?b} (snd (alloc_skb n c)) (snd (tcp_transmit_skb ?b seq ?c1))"
    by (rule tcp_tx_trans [OF tcp_tx_upd_skb tcp_transmit_tx]) simp_all
  have l: "live ?b ?c1" "b_refcnt (deref ?b ?c1) = 0"
    using assms(2) by (simp_all add: alloc_skb_def live_def deref_def upd_skb_def put_skb_def new_skb_def)
  have "tx_keeps ?b ?c1 (snd (tcp_transmit_skb ?b seq ?c1))"
    using assms(1) by (intro tcp_transmit_keeps) simp
  then show "live ?b (snd (tcp_transmit_skb ?b seq ?c1))"
    "b_refcnt (deref ?b (snd (tcp_transmit_skb ?b seq ?c1))) < 1"
    using l by (simp_all add: tx_keeps_def same_skb_def)
qed

lemma upd_skb_upd_skb: "upd_skb b f (upd_skb b g s) = upd_skb b (\<lambda>k. f (g k)) s"
  by (auto simp: upd_skb_def put_skb_def check_def live_def deref_def)

lemma b_refcnt_simps [simp]:
  "b_refcnt (skb_reserve n k) = b_refcnt k" "b_refcnt (upd_th f k) = b_refcnt k"
  "b_refcnt (skb_reset_header k) = b_refcnt k"
  by (simp_all add: skb_reserve_def upd_th_def skb_reset_header_def)

lemma tcp_send_ack_tx: "heap_ok c \<Longrightarrow> tcp_tx {} c (snd (tcp_send_ack c))"
  unfolding tcp_send_ack_def tcp_alloc_skb_eq
  by (simp add: Let_def split_beta upd_skb_upd_skb tcp_send_new)

lemma tcp_send_synack_tx: "heap_ok c \<Longrightarrow> tcp_tx {} c (snd (tcp_send_synack c))"
  unfolding tcp_send_synack_def tcp_alloc_skb_eq
  by (simp add: Let_def split_beta upd_skb_upd_skb tcp_send_new)

subsection \<open>The connection through a transmission\<close>

definition same_sk :: "tcpctx \<Rightarrow> tcpctx \<Rightarrow> bool" where
  "same_sk c c' \<longleftrightarrow> c_sock c' = c_sock c \<and> c_sid c' = c_sid c \<and> c_port c' = c_port c
     \<and> s_timers c' = s_timers c \<and> s_tick c' = s_tick c \<and> s_tnext c' = s_tnext c \<and> s_threads c' = s_threads c
     \<and> (\<exists>sacks n. c_sk c' = (c_sk c)\<lparr>tk_sacks := sacks, tk_sacklen := n\<rparr>)"

lemma same_sk_tx: "tcp_tx B c c' \<Longrightarrow> same_sk c c'"
proof -
  assume t: "tcp_tx B c c'"
  then have "stack.more (c'\<lparr>c_sk := c_sk c\<rparr>) = stack.more c"
    by (simp add: tcp_tx_def tx_frame_def)
  from c_more [OF this] t show ?thesis
    by (simp add: same_sk_def tcp_tx_def tx_frame_def)
qed

lemma sk_sacks_trans:
  assumes "\<exists>x y. k' = (k :: tcp_sock)\<lparr>tk_sacks := x, tk_sacklen := y\<rparr>"
    and "\<exists>x y. k'' = k'\<lparr>tk_sacks := x, tk_sacklen := y\<rparr>"
  shows "\<exists>x y. k'' = k\<lparr>tk_sacks := x, tk_sacklen := y\<rparr>"
proof -
  from assms obtain x y u v where "k' = k\<lparr>tk_sacks := u, tk_sacklen := v\<rparr>"
    and k'': "k'' = k'\<lparr>tk_sacks := x, tk_sacklen := y\<rparr>" by blast
  then have "k'' = k\<lparr>tk_sacks := x, tk_sacklen := y\<rparr>" by simp
  then show ?thesis by blast
qed

lemma same_sk_trans: "same_sk c c' \<Longrightarrow> same_sk c' c'' \<Longrightarrow> same_sk c c''"
  unfolding same_sk_def by (intro conjI; (elim conjE)?; (rule sk_sacks_trans | simp); simp?)

lemma same_sk_free: "same_sk c (free_skb b c') = same_sk c c'"
  by (simp add: same_sk_def)

lemma same_sk_transmit: "same_sk c (snd (tcp_transmit_skb b seq c))"
  by (rule same_sk_tx [OF tcp_transmit_tx [of b "{b}"]]) simp

lemma same_sk_upd_skb_alloc: "same_sk (upd_skb b f (snd (alloc_skb n c))) c' = same_sk c c'"
  by (simp add: same_sk_def alloc_skb_def upd_skb_def)

lemma same_sk_send_ack: "same_sk c (snd (tcp_send_ack c))"
proof -
  have "same_sk c c" using sk_sacks_triv by (auto simp: same_sk_def)
  then show ?thesis
    unfolding tcp_send_ack_def tcp_alloc_skb_eq
    using same_sk_transmit [of "upd_skb b f (snd (alloc_skb n c))" b' seq for b f n b' seq]
    by (simp add: Let_def split_beta upd_skb_upd_skb same_sk_free same_sk_upd_skb_alloc)
qed

lemma same_sk_send_synack: "same_sk c (snd (tcp_send_synack c))"
proof -
  have "same_sk c c" using sk_sacks_triv by (auto simp: same_sk_def)
  then show ?thesis
    unfolding tcp_send_synack_def tcp_alloc_skb_eq
    using same_sk_transmit [of "upd_skb b f (snd (alloc_skb n c))" b' seq for b f n b' seq]
    by (simp add: Let_def split_beta upd_skb_upd_skb same_sk_free same_sk_upd_skb_alloc)
qed

lemma same_sk_fields:
  assumes "same_sk c c'"
  shows
  "sk_recv_sleeping (c_sk (c')) = sk_recv_sleeping (c_sk c)"
  "sk_receive_queue (c_sk (c')) = sk_receive_queue (c_sk c)"
  "sk_write_queue (c_sk (c')) = sk_write_queue (c_sk c)"
  "sk_protocol (c_sk (c')) = sk_protocol (c_sk c)" "sk_state (c_sk (c')) = sk_state (c_sk c)"
  "sk_err (c_sk (c')) = sk_err (c_sk c)" "sk_poll_events (c_sk (c')) = sk_poll_events (c_sk c)"
  "sk_sport (c_sk (c')) = sk_sport (c_sk c)" "sk_dport (c_sk (c')) = sk_dport (c_sk c)"
  "sk_saddr (c_sk (c')) = sk_saddr (c_sk c)" "sk_daddr (c_sk (c')) = sk_daddr (c_sk c)"
  "tk_tcb (c_sk (c')) = tk_tcb (c_sk c)" "tk_flags (c_sk (c')) = tk_flags (c_sk c)"
  "tk_backoff (c_sk (c')) = tk_backoff (c_sk c)" "tk_srtt (c_sk (c')) = tk_srtt (c_sk c)"
  "tk_rttvar (c_sk (c')) = tk_rttvar (c_sk c)" "tk_rto (c_sk (c')) = tk_rto (c_sk c)"
  "tk_retransmit (c_sk (c')) = tk_retransmit (c_sk c)" "tk_delack (c_sk (c')) = tk_delack (c_sk c)"
  "tk_keepalive (c_sk (c')) = tk_keepalive (c_sk c)" "tk_linger (c_sk (c')) = tk_linger (c_sk c)"
  "tk_delacks (c_sk (c')) = tk_delacks (c_sk c)" "tk_rmss (c_sk (c')) = tk_rmss (c_sk c)"
  "tk_smss (c_sk (c')) = tk_smss (c_sk c)" "tk_inflight (c_sk (c')) = tk_inflight (c_sk c)"
  "tk_sackok (c_sk (c')) = tk_sackok (c_sk c)"
  "tk_sacks_allowed (c_sk (c')) = tk_sacks_allowed (c_sk c)"
  "tk_tsopt (c_sk (c')) = tk_tsopt (c_sk c)" "tk_ofo_queue (c_sk (c')) = tk_ofo_queue (c_sk c)"
    "c_sock c' = c_sock c" "c_sid c' = c_sid c" "s_timers c' = s_timers c" "s_tick c' = s_tick c"
    "s_tnext c' = s_tnext c" "s_threads c' = s_threads c"
  using assms by (auto simp: same_sk_def)

lemmas sk_send_ack [simp] = same_sk_fields [OF same_sk_send_ack]
lemmas sk_send_synack [simp] = same_sk_fields [OF same_sk_send_synack]
lemmas sk_transmit [simp] = same_sk_fields [OF same_sk_transmit]

end
