(* ===== verification/Tcp_States.thy ===== *)
theory Tcp_States
  imports Tcp_Frame
begin

unbundle bit_operations_syntax

text \<open>
  The TCP state machine: what each phase of segment processing does to the state, and the
  properties of \<open>tcp_input_state\<close> about connection set-up, teardown and rejected segments.
\<close>

subsection \<open>Fields the helpers leave alone\<close>

lemma sk_set_state [simp]:
  "c_sk (tcp_set_state st c) = (c_sk c)\<lparr>sk_state := st\<rparr>" "c_sock (tcp_set_state st c) = c_sock c"
  by (simp_all add: tcp_set_state_def)

lemma sk_wakeup [simp]:
  "c_sk (wakeup_sock c) = c_sk c" "c_sk (wakeup_recv c) = (c_sk c)\<lparr>sk_recv_sleeping := False\<rparr>"
  by (simp_all add: wakeup_sock_def wakeup_recv_def)

lemma sk_timers [simp]:
  "c_sk (tcp_stop_rto_timer c) = (c_sk c)\<lparr>tk_retransmit := None, tk_backoff := 0\<rparr>"
  "c_sk (tcp_release_rto_timer c) = (c_sk c)\<lparr>tk_retransmit := None\<rparr>"
  "c_sk (tcp_stop_delack_timer c) = (c_sk c)\<lparr>tk_delack := None\<rparr>"
  "c_sk (tcp_release_delack_timer c) = (c_sk c)\<lparr>tk_delack := None\<rparr>"
  by (simp_all add: tcp_stop_rto_timer_def tcp_release_rto_timer_def tcp_stop_delack_timer_def
      tcp_release_delack_timer_def)

lemma sk_clear_timers [simp]:
  "c_sk (tcp_clear_timers c) = (c_sk c)\<lparr>tk_retransmit := None, tk_backoff := 0, tk_delack := None,
     tk_keepalive := None, tk_linger := None\<rparr>"
  by (simp add: tcp_clear_timers_def Let_def)

lemma sk_enter_time_wait [simp]:
  "sk_state (c_sk (tcp_enter_time_wait c)) = TCP_TIME_WAIT"
  "sk_write_queue (c_sk (tcp_enter_time_wait c)) = sk_write_queue (c_sk c)"
  "tk_tcb (c_sk (tcp_enter_time_wait c)) = tk_tcb (c_sk c)"
  by (simp_all add: tcp_enter_time_wait_def Let_def split_beta)

lemma sk_rearm_rto [simp]:
  "sk_state (c_sk (tcp_rearm_rto_timer c)) = sk_state (c_sk c)"
  "tk_tcb (c_sk (tcp_rearm_rto_timer c)) = tk_tcb (c_sk c)"
  "sk_write_queue (c_sk (tcp_rearm_rto_timer c)) = sk_write_queue (c_sk c)"
  by (simp_all add: tcp_rearm_rto_timer_def Let_def split_beta)

lemma sk_rearm_user [simp]:
  "sk_state (c_sk (tcp_rearm_user_timeout c)) = sk_state (c_sk c)"
  "tk_tcb (c_sk (tcp_rearm_user_timeout c)) = tk_tcb (c_sk c)"
  by (simp_all add: tcp_rearm_user_timeout_def Let_def split_beta)

lemma sk_queue_free [simp]:
  "c_sk (skb_queue_free q c) = c_sk c" "c_sock (skb_queue_free q c) = c_sock c"
  "c_sid (skb_queue_free q c) = c_sid c" "s_tick (skb_queue_free q c) = s_tick c"
  by (induction q c rule: skb_queue_free.induct) (simp_all add: Let_def)

lemma sk_socket_delete [simp]: "c_sk (snd (socket_delete c)) = c_sk c"
  by (simp add: socket_delete_def Let_def)

lemma sk_done [simp]:
  "sk_state (c_sk (snd (tcp_done c))) = TCP_CLOSING"
  "sk_err (c_sk (snd (tcp_done c))) = sk_err (c_sk c)"
  "sk_poll_events (c_sk (snd (tcp_done c))) = sk_poll_events (c_sk c)"
  by (simp_all add: tcp_done_def tcp_free_def tcp_clear_queues_def)

lemma sk_rtt [simp]:
  "sk_state (c_sk (tcp_rtt c)) = sk_state (c_sk c)" "tk_tcb (c_sk (tcp_rtt c)) = tk_tcb (c_sk c)"
  "sk_write_queue (c_sk (tcp_rtt c)) = sk_write_queue (c_sk c)"
  "sk_receive_queue (c_sk (tcp_rtt c)) = sk_receive_queue (c_sk c)"
  "tk_ofo_queue (c_sk (tcp_rtt c)) = tk_ofo_queue (c_sk c)"
  by (simp_all add: tcp_rtt_def Let_def rtt_update_def split: option.split)

lemma sk_clean_rto [simp]:
  "sk_state (c_sk (clean_rto q una c)) = sk_state (c_sk c)"
  "tk_tcb (c_sk (clean_rto q una c)) = tk_tcb (c_sk c)"
  by (induction q una c rule: clean_rto.induct) (simp_all add: Let_def)

lemma sk_clean_rto_queue [simp]:
  "sk_state (c_sk (snd (tcp_clean_rto_queue una c))) = sk_state (c_sk c)"
  "tk_tcb (c_sk (snd (tcp_clean_rto_queue una c))) = tk_tcb (c_sk c)"
  by (simp_all add: tcp_clean_rto_queue_def Let_def)

lemma sk_consume_ofo [simp]:
  "sk_state (c_sk (consume_ofo q c)) = sk_state (c_sk c)"
  "sk_write_queue (c_sk (consume_ofo q c)) = sk_write_queue (c_sk c)"
  "snd_una (tk_tcb (c_sk (consume_ofo q c))) = snd_una (tk_tcb (c_sk c))"
  "snd_nxt (tk_tcb (c_sk (consume_ofo q c))) = snd_nxt (tk_tcb (c_sk c))"
  by (induction q c rule: consume_ofo.induct) (simp_all add: Let_def)

lemma sk_calculate_sacks [simp]:
  "sk_state (c_sk (snd (tcp_calculate_sacks c))) = sk_state (c_sk c)"
  "sk_write_queue (c_sk (snd (tcp_calculate_sacks c))) = sk_write_queue (c_sk c)"
  "tk_tcb (c_sk (snd (tcp_calculate_sacks c))) = tk_tcb (c_sk c)"
  by (simp_all add: tcp_calculate_sacks_def Let_def split_beta)

lemma sk_insert_ordered [simp]:
  "sk_state (c_sk (tcp_data_insert_ordered b c)) = sk_state (c_sk c)"
  "sk_write_queue (c_sk (tcp_data_insert_ordered b c)) = sk_write_queue (c_sk c)"
  "tk_tcb (c_sk (tcp_data_insert_ordered b c)) = tk_tcb (c_sk c)"
  by (simp_all add: tcp_data_insert_ordered_def Let_def split: insert_at.split)

lemma sk_recv_notify [simp]: "c_sk (snd (tcp_recv_notify c)) = (c_sk c)\<lparr>sk_recv_sleeping := False\<rparr>"
  by (simp add: tcp_recv_notify_def)

lemma sk_data_queue [simp]:
  "sk_state (c_sk (snd (tcp_data_queue b c))) = sk_state (c_sk c)"
  "sk_write_queue (c_sk (snd (tcp_data_queue b c))) = sk_write_queue (c_sk c)"
  by (simp_all add: tcp_data_queue_def Let_def tcp_consume_ofo_queue_def)

lemma sk_store_seq [simp]:
  "sk_state (c_sk (tcp_store_seq b c)) = sk_state (c_sk c)"
  "sk_write_queue (c_sk (tcp_store_seq b c)) = sk_write_queue (c_sk c)"
  "snd_una (tk_tcb (c_sk (tcp_store_seq b c))) = snd_una (tk_tcb (c_sk c))"
  by (simp_all add: tcp_store_seq_def Let_def)

lemma sk_send_each [simp]:
  "sk_state (c_sk (send_each q c)) = sk_state (c_sk c)"
  "sk_write_queue (c_sk (send_each q c)) = sk_write_queue (c_sk c)"
  by (induction q c rule: send_each.induct) (simp_all add: Let_def)

lemma sk_queue_transmit [simp]:
  "sk_state (c_sk (snd (tcp_queue_transmit_skb b c))) = sk_state (c_sk c)"
  by (simp add: tcp_queue_transmit_skb_def Let_def split_beta)

lemma sk_alloc [simp]:
  "c_sk (snd (tcp_alloc_skb o0 n c)) = c_sk c" "c_sock (snd (tcp_alloc_skb o0 n c)) = c_sock c"
  by (simp_all add: tcp_alloc_skb_def Let_def split_beta)

lemma sk_send_reset [simp]: "sk_state (c_sk (snd (tcp_send_reset c))) = sk_state (c_sk c)"
  by (simp add: tcp_send_reset_def Let_def split_beta)

lemma sk_parse_opts [simp]:
  "sk_state (tcp_parse_opts th bs k) = sk_state k" "tk_tcb (tcp_parse_opts th bs k) = tk_tcb k"
  by (simp_all add: tcp_parse_opts_def Let_def split_beta)

lemma sk_connected [simp]:
  "c_sk (sock_connected c) = (c_sk c)\<lparr>sk_err := 0, sk_poll_events := POLLOUT OR POLLWRNORM OR POLLWRBAND\<rparr>"
  by (simp add: sock_connected_def Let_def)

lemma sk_send_next [simp]: "sk_state (c_sk (snd (tcp_send_next n c))) = sk_state (c_sk c)"
  by (simp add: tcp_send_next_def)

lemma sk_input_delack [simp]: "sk_state (c_sk (input_delack b th e c)) = sk_state (c_sk c)"
  by (simp add: input_delack_def Let_def split_beta)

lemma sk_input_data [simp]:
  "sk_state (c_sk (input_data b th c)) = sk_state (c_sk c)"
  "sk_write_queue (c_sk (input_data b th c)) = sk_write_queue (c_sk c)"
  by (simp_all add: input_data_def)

subsection \<open>Transitions\<close>

text \<open>The states a connection may be in after one segment, for each state before it.\<close>

fun segment_arrives :: "tcp_states \<Rightarrow> tcp_states set" where
  "segment_arrives TCP_CLOSE = {TCP_CLOSE}"
| "segment_arrives TCP_LISTEN = {TCP_LISTEN}"
| "segment_arrives TCP_SYN_SENT = {TCP_SYN_SENT, TCP_ESTABLISHED, TCP_SYN_RECEIVED, TCP_CLOSING}"
| "segment_arrives TCP_SYN_RECEIVED = {TCP_SYN_RECEIVED, TCP_ESTABLISHED, TCP_CLOSE_WAIT, TCP_TIME_WAIT}"
| "segment_arrives TCP_ESTABLISHED = {TCP_ESTABLISHED, TCP_CLOSE_WAIT, TCP_TIME_WAIT}"
| "segment_arrives TCP_FIN_WAIT_1 = {TCP_FIN_WAIT_1, TCP_FIN_WAIT_2, TCP_CLOSING, TCP_TIME_WAIT}"
| "segment_arrives TCP_FIN_WAIT_2 = {TCP_FIN_WAIT_2, TCP_TIME_WAIT}"
| "segment_arrives TCP_CLOSE_WAIT = {TCP_CLOSE_WAIT, TCP_TIME_WAIT}"
| "segment_arrives TCP_CLOSING = {TCP_CLOSING, TCP_TIME_WAIT}"
| "segment_arrives TCP_LAST_ACK = {TCP_LAST_ACK, TCP_TIME_WAIT, TCP_CLOSING}"
| "segment_arrives TCP_TIME_WAIT = {TCP_TIME_WAIT}"

lemma phase_cases:
  assumes "\<And>r. p = Inl r \<Longrightarrow> P (g r)" and "\<And>c. p = Inr c \<Longrightarrow> P (f c)"
  shows "P (case p of Inl r \<Rightarrow> g r | Inr c \<Rightarrow> f c)"
  using assms by (cases p) auto

lemma input_check_state:
  "input_check b th c = Inl r \<Longrightarrow> state_of (snd r) \<in> {state_of c, TCP_TIME_WAIT}"
  "input_check b th c = Inr c' \<Longrightarrow> c' = c"
  by (auto simp: input_check_def tcp_drop_def tcp_send_challenge_ack_def Let_def split: if_splits)

lemma input_ack_field_state:
  "input_ack_field b th c = Inl r \<Longrightarrow> state_of (snd r) = state_of c"
  "input_ack_field b th c = Inr c' \<Longrightarrow> state_of c' = state_of c"
  by (auto simp: input_ack_field_def tcp_drop_def Let_def split: if_splits)

lemma input_ack_state:
  "input_ack b th c = Inl r \<Longrightarrow> state_of (snd r) = state_of c \<or> state_of c = TCP_SYN_RECEIVED \<and> state_of (snd r) = TCP_ESTABLISHED"
  "input_ack b th c = Inr c' \<Longrightarrow> state_of c' = (if state_of c = TCP_SYN_RECEIVED then TCP_ESTABLISHED else state_of c)"
  by (auto simp: input_ack_def tcp_drop_def split: tcp_states.splits if_splits
      dest: input_ack_field_state)

lemma input_fin_acked_state:
  "input_fin_acked b th c = Inl r \<Longrightarrow> state_of c = TCP_LAST_ACK \<and> state_of (snd r) = TCP_CLOSING"
  "input_fin_acked b th c = Inr c' \<Longrightarrow>
     state_of c' = (if sk_write_queue (c_sk c) \<noteq> [] then state_of c
       else if state_of c = TCP_FIN_WAIT_1 then TCP_FIN_WAIT_2
       else if state_of c = TCP_CLOSING then TCP_TIME_WAIT else state_of c)"
  by (auto simp: input_fin_acked_def Let_def split: tcp_states.splits if_splits)

lemma input_fin_state:
  "input_fin b th e c = Inl r \<Longrightarrow> state_of (snd r) = state_of c"
  "input_fin b th e c = Inr c' \<Longrightarrow> state_of c' = state_of c
     \<or> state_of c \<in> {TCP_SYN_RECEIVED, TCP_ESTABLISHED} \<and> state_of c' = TCP_CLOSE_WAIT
     \<or> state_of c = TCP_FIN_WAIT_1 \<and> state_of c' \<in> {TCP_TIME_WAIT, TCP_CLOSING}
     \<or> state_of c = TCP_FIN_WAIT_2 \<and> state_of c' = TCP_TIME_WAIT"
  by (auto simp: input_fin_def Let_def tcp_drop_def split: tcp_states.splits if_splits)

lemma input_text_state:
  "state_of (snd (input_text b th c)) = state_of c
     \<or> state_of c \<in> {TCP_SYN_RECEIVED, TCP_ESTABLISHED} \<and> state_of (snd (input_text b th c)) = TCP_CLOSE_WAIT
     \<or> state_of c = TCP_FIN_WAIT_1 \<and> state_of (snd (input_text b th c)) \<in> {TCP_TIME_WAIT, TCP_CLOSING}
     \<or> state_of c = TCP_FIN_WAIT_2 \<and> state_of (snd (input_text b th c)) = TCP_TIME_WAIT"
proof -
  let ?p = "input_fin b th (b_seq (deref b c) = rcv_nxt (tcb_of c)) (input_data b th (touch b c))"
  show ?thesis
  proof (cases ?p)
    case (Inl r)
    then show ?thesis using input_fin_state(1) [OF Inl] by (simp add: input_text_def)
  next
    case (Inr c')
    then show ?thesis using input_fin_state(2) [OF Inr] by (auto simp: input_text_def)
  qed
qed

lemma synsent_state:
  assumes "state_of c = TCP_SYN_SENT"
  shows "state_of (snd (tcp_synsent b th c)) \<in> segment_arrives TCP_SYN_SENT"
  using assms by (auto simp: tcp_synsent_def tcp_drop_def Let_def tcp_reset_def split_beta)

lemma tcp_reset_state: "state_of c \<noteq> TCP_CLOSE \<Longrightarrow> state_of (tcp_reset c) = TCP_CLOSING"
  by (simp add: tcp_reset_def Let_def split: tcp_states.split)

lemma input_state_other:
  assumes "state_of c \<notin> {TCP_CLOSE, TCP_LISTEN, TCP_SYN_SENT}"
  shows "tcp_input_state b th c =
     (case input_check b th c of Inl r \<Rightarrow> r | Inr c \<Rightarrow>
     (case input_ack b th c of Inl r \<Rightarrow> r | Inr c \<Rightarrow>
     (case input_fin_acked b th c of Inl r \<Rightarrow> r | Inr c \<Rightarrow> input_text b th c)))"
  using assms by (cases "state_of c") (simp_all add: tcp_input_state_def)

lemma input_state_arrives:
  "state_of (snd (tcp_input_state b th c)) \<in> segment_arrives (state_of c)"
proof (cases "state_of c \<in> {TCP_CLOSE, TCP_LISTEN, TCP_SYN_SENT}")
  case True
  then show ?thesis
    using synsent_state [of c b th]
    by (auto simp: tcp_input_state_def tcp_closed_def tcp_discard_def tcp_listen_def split_beta)
next
  case False
  let ?N = "segment_arrives (state_of c)"
  have "state_of (snd (case input_fin_acked b th c2 of Inl r \<Rightarrow> r | Inr c \<Rightarrow> input_text b th c)) \<in> ?N"
    if "state_of c2 = (if state_of c = TCP_SYN_RECEIVED then TCP_ESTABLISHED else state_of c)" for c2
  proof (cases "input_fin_acked b th c2")
    case (Inl r)
    then show ?thesis using input_fin_acked_state(1) [OF Inl] that False by (cases "state_of c") auto
  next
    case (Inr c3)
    then show ?thesis
      using input_fin_acked_state(2) [OF Inr] input_text_state [of b th c3] that False
      by (cases "state_of c") (auto split: if_splits)
  qed
  note tail = this
  have "state_of (snd (case input_ack b th c of Inl r \<Rightarrow> r | Inr c \<Rightarrow>
      (case input_fin_acked b th c of Inl r \<Rightarrow> r | Inr c \<Rightarrow> input_text b th c))) \<in> ?N"
  proof (cases "input_ack b th c")
    case (Inl r)
    then show ?thesis using input_ack_state(1) [OF Inl] by (cases "state_of c") auto
  next
    case (Inr c2)
    then show ?thesis using tail [OF input_ack_state(2) [OF Inr]] by simp
  qed
  note rest = this
  show ?thesis
  proof (cases "input_check b th c")
    case (Inl r)
    have "state_of (snd r) \<in> ?N"
      using input_check_state(1) [OF Inl] False by (cases "state_of c") auto
    then show ?thesis using Inl by (simp add: input_state_other [OF False])
  next
    case (Inr c1)
    then show ?thesis using rest input_check_state(2) [OF Inr] by (simp add: input_state_other [OF False])
  qed
qed

text \<open>
  C4: Whatever segment arrives, tcp_input_state moves a connection only along the edges
  segment_arrives lists: those of RFC 793 for segment arrival, with the TIME_WAIT edge this code
  takes for an in-window RST and CLOSING where a connection is torn down by tcp_done.
\<close>

theorem tcp_input_transitions:
  "state_of (snd (tcp_input_state b th c)) \<in> segment_arrives (state_of c)"
  by (rule input_state_arrives)

subsection \<open>Connection set-up\<close>

lemma c_sock_misc [simp]:
  "c_sock (snd (tcp_clean_rto_queue una c)) = c_sock c"
  "c_sock (tcp_rearm_user_timeout c) = c_sock c"
proof -
  have "c_sock (clean_rto q una c) = c_sock c" for q
    by (induction q una c rule: clean_rto.induct) (simp_all add: Let_def)
  then show "c_sock (snd (tcp_clean_rto_queue una c)) = c_sock c"
    by (simp add: tcp_clean_rto_queue_def Let_def tcp_stop_rto_timer_def)
  show "c_sock (tcp_rearm_user_timeout c) = c_sock c"
    by (simp add: tcp_rearm_user_timeout_def Let_def split_beta)
qed

lemma sk_rearm_user_more [simp]:
  "tk_rto (c_sk (tcp_rearm_user_timeout c)) = tk_rto (c_sk c)"
  "tk_backoff (c_sk (tcp_rearm_user_timeout c)) = tk_backoff (c_sk c)"
  by (simp_all add: tcp_rearm_user_timeout_def Let_def split_beta)

lemma sk_parse_opts_more [simp]:
  "tk_rto (tcp_parse_opts th bs k) = tk_rto k" "tk_backoff (tcp_parse_opts th bs k) = tk_backoff k"
  by (simp_all add: tcp_parse_opts_def Let_def split_beta)

lemma c_sock_connected [simp]:
  "c_sock (sock_connected c) = (c_sock c)\<lparr>so_state := SS_CONNECTED, so_sleeping := False\<rparr>"
  by (simp add: sock_connected_def Let_def wakeup_sock_def)

text \<open>
  C26: In SYN_SENT a SYN with an acceptable ACK establishes the connection: the receive sequence
  starts after the peer's SYN, everything sent is acknowledged, RTO is 1 second with no backoff,
  and the socket is connected without error, writable, and its sleeping connect is woken.
\<close>

theorem synsent_established:
  fixes b :: nat
  assumes "state_of c = TCP_SYN_SENT" and "th_syn th" "th_ack th" "\<not> th_rst th"
    and "iss (tcb_of c) < th_ack_seq th" "snd_una (tcb_of c) \<le> th_ack_seq th"
      "th_ack_seq th \<le> snd_nxt (tcb_of c)"
  defines "c' \<equiv> snd (tcp_input_state b th c)"
  shows "state_of c' = TCP_ESTABLISHED
    \<and> tcb_of c' = (tcb_of c)\<lparr>rcv_nxt := th_seq th + 1, irs := th_seq th, snd_una := snd_nxt (tcb_of c)\<rparr>
    \<and> tk_rto (c_sk c') = 1000 \<and> tk_backoff (c_sk c') = 0
    \<and> sk_err (c_sk c') = 0 \<and> sk_poll_events (c_sk c') = POLLOUT OR POLLWRNORM OR POLLWRBAND
    \<and> so_state (c_sock c') = SS_CONNECTED \<and> \<not> so_sleeping (c_sock c')"
proof -
  have "\<not> synsent_unacceptable th (tcb_of c)"
    using assms(5-7) by (auto simp: synsent_unacceptable_def)
  then show ?thesis
    using assms(1-7) unfolding c'_def
    by (simp add: tcp_input_state_def tcp_synsent_def Let_def tcp_drop_def)
qed

text \<open>A connection that has sent its SYN (sequence number 1000), seen from the receive path.\<close>

definition demo_socket :: socket where
  "demo_socket = \<lparr>so_fd = 4097, so_pid = 1, so_refcnt = 2, so_state = SS_CONNECTING, so_type = 1,
     so_flags = 2, so_ops = True, so_sleeping = True, so_locked = True\<rparr>"

definition demo_ctx :: "tcp_states \<Rightarrow> tcpctx" where
  "demo_ctx st = stack.extend ((booted (\<lambda>_. 0))\<lparr>s_skbs := [0 \<mapsto> new_skb 1600], s_bnext := 1\<rparr>)
     (tcpctx.fields 0 40001
       (tcp_alloc_sock\<lparr>sk_state := st,
          tk_tcb := zero_tcb\<lparr>iss := 1000, snd_una := 1000, snd_nxt := 1001, rcv_nxt := 500,
                             rcv_wnd := 44477\<rparr>\<rparr>)
       demo_socket)"

definition demo_th :: tcphdr where
  "demo_th = \<lparr>th_sport = 80, th_dport = 40001, th_seq = 500, th_ack_seq = 1001, th_rsvd = 0, th_hl = 5,
     th_fin = False, th_syn = False, th_rst = False, th_psh = False, th_ack = True, th_urg = False,
     th_ece = False, th_cwr = False, th_win = 1000, th_csum = 0, th_urp = 0\<rparr>"

lemma demo_ctx_sel [simp]:
  "c_sock (demo_ctx st) = demo_socket" "sk_state (c_sk (demo_ctx st)) = st"
  "tk_tcb (c_sk (demo_ctx st)) = zero_tcb\<lparr>iss := 1000, snd_una := 1000, snd_nxt := 1001, rcv_nxt := 500,
      rcv_wnd := 44477\<rparr>"
  by (simp_all add: demo_ctx_def stack.defs tcpctx.defs tcp_sock.defs sock.defs tcp_alloc_sock_def)

theorem synsent_established_witness:
  "state_of (snd (tcp_input_state 0 (demo_th\<lparr>th_syn := True\<rparr>) (demo_ctx TCP_SYN_SENT))) = TCP_ESTABLISHED"
  using synsent_established [of "demo_ctx TCP_SYN_SENT" "demo_th\<lparr>th_syn := True\<rparr>" 0]
  by (simp add: demo_th_def)

text \<open>
  In SYN_SENT a segment whose ACK is not for the SYN sent (at most iss, or beyond snd_nxt) is
  dropped whatever its other flags, a forged RST included: nothing of the connection or the
  socket changes and nothing is sent; only the buffer is freed.
\<close>

theorem synsent_bad_ack_ignored:
  assumes "state_of c = TCP_SYN_SENT" and "th_ack th"
    and "th_ack_seq th \<le> iss (tcb_of c) \<or> snd_nxt (tcb_of c) < th_ack_seq th"
  shows "tcp_input_state b th c = (0, free_skb b c)"
  using assms by (auto simp: tcp_input_state_def tcp_synsent_def synsent_unacceptable_def tcp_drop_def)

theorem synsent_bad_ack_ignored_witness:
  "tcp_input_state 0 (demo_th\<lparr>th_rst := True, th_ack_seq := 77\<rparr>) (demo_ctx TCP_SYN_SENT) =
     (0, free_skb 0 (demo_ctx TCP_SYN_SENT))"
  using synsent_bad_ack_ignored [of "demo_ctx TCP_SYN_SENT" "demo_th\<lparr>th_rst := True, th_ack_seq := 77\<rparr>" 0]
  by (simp add: demo_th_def)

text \<open>
  In SYN_SENT a RST with an acceptable ACK refuses the connection: the error is ECONNREFUSED,
  poll reports an error and a hang-up, the connection's timers are dropped, its socket is
  disconnecting, and one garbage collection timer is started for it.
\<close>

theorem synsent_refused:
  fixes b :: nat
  assumes "state_of c = TCP_SYN_SENT" and "th_rst th" "th_ack th" "so_state (c_sock c) \<noteq> SS_DISCONNECTING"
    and "iss (tcb_of c) < th_ack_seq th" "snd_una (tcb_of c) \<le> th_ack_seq th"
      "th_ack_seq th \<le> snd_nxt (tcb_of c)"
  defines "c' \<equiv> snd (tcp_input_state b th c)"
  shows "sk_err (c_sk c') = - ECONNREFUSED
    \<and> sk_poll_events (c_sk c') = POLLOUT OR POLLWRNORM OR POLLERR OR POLLHUP
    \<and> tk_retransmit (c_sk c') = None \<and> tk_delack (c_sk c') = None \<and> tk_linger (c_sk c') = None
    \<and> so_state (c_sock c') = SS_DISCONNECTING \<and> \<not> so_sleeping (c_sock c')
    \<and> (\<exists>ts t. s_timers c' = ts @ [t] \<and> t_handler t = H_garbage_collect \<and> t_arg t = c_sid c
          \<and> t_expires t = s_tick c + 10000 \<and> t_refcnt t = 0)"
proof -
  let ?c1 = "upd_sk (\<lambda>k. k\<lparr>sk_err := - ECONNREFUSED\<rparr>)
     (upd_sk (\<lambda>k. k\<lparr>sk_poll_events := POLLOUT OR POLLWRNORM OR POLLERR OR POLLHUP\<rparr>) c)"
  have "\<not> synsent_unacceptable th (tcb_of c)"
    using assms(5-7) by (auto simp: synsent_unacceptable_def)
  then have c': "c' = free_skb b (snd (tcp_done ?c1))"
    using assms(1-4) unfolding c'_def
    by (simp add: tcp_input_state_def tcp_synsent_def tcp_drop_def tcp_reset_def Let_def)
  have d: "so_state (c_sock ?c1) \<noteq> SS_DISCONNECTING" "c_sid ?c1 = c_sid c" "s_tick ?c1 = s_tick c"
    using assms(4) by simp_all
  define d1 where "d1 = tcp_free (tcp_set_state TCP_CLOSING ?c1)"
  have f: "so_state (c_sock d1) = so_state (c_sock c)" "\<not> so_sleeping (c_sock d1)" "c_sid d1 = c_sid c"
    "s_tick d1 = s_tick c" "tk_retransmit (c_sk d1) = None" "tk_delack (c_sk d1) = None"
    "tk_linger (c_sk d1) = None" "sk_err (c_sk d1) = - ECONNREFUSED"
    "sk_poll_events (c_sk d1) = POLLOUT OR POLLWRNORM OR POLLERR OR POLLHUP"
    by (simp_all add: d1_def tcp_free_def tcp_clear_queues_def wakeup_sock_def tcp_clear_timers_def Let_def
        tcp_set_state_def tcp_stop_rto_timer_def tcp_stop_delack_timer_def)
       (simp_all add: timer_cancel_def split: option.split)
  show ?thesis
    using assms(4) f unfolding c' tcp_done_def d1_def [symmetric]
    by (simp add: socket_delete_def Let_def timer_oneshot_def timer_alloc_def timer_get_tick_def)
qed

theorem synsent_refused_witness:
  "sk_err (c_sk (snd (tcp_input_state 0 (demo_th\<lparr>th_rst := True\<rparr>) (demo_ctx TCP_SYN_SENT)))) = - 111"
  using synsent_refused [of "demo_ctx TCP_SYN_SENT" "demo_th\<lparr>th_rst := True\<rparr>" 0]
  by (simp add: demo_th_def demo_socket_def ECONNREFUSED_def)

text \<open>
  C27: A SYN without ACK in SYN_SENT (a simultaneous open) is never answered: the state becomes
  SYN_RECEIVED before tcp_send_synack, which sends only in SYN_SENT, so no frame leaves the stack.
\<close>

theorem simultaneous_open_unanswered:
  assumes "state_of c = TCP_SYN_SENT" and "th_syn th" "\<not> th_ack th" "\<not> th_rst th"
    and "snd_una (tcb_of c) \<le> iss (tcb_of c)"
  shows "state_of (snd (tcp_input_state b th c)) = TCP_SYN_RECEIVED
    \<and> s_tap (snd (tcp_input_state b th c)) = s_tap c"
  using assms
  by (auto simp: tcp_input_state_def tcp_synsent_def synsent_unacceptable_def tcp_drop_def Let_def
      tcp_send_synack_def tcp_set_state_def)

theorem simultaneous_open_unanswered_witness:
  "s_tap (snd (tcp_input_state 0 (demo_th\<lparr>th_syn := True, th_ack := False\<rparr>) (demo_ctx TCP_SYN_SENT))) =
     s_tap (demo_ctx TCP_SYN_SENT)"
  using simultaneous_open_unanswered [of "demo_ctx TCP_SYN_SENT" "demo_th\<lparr>th_syn := True, th_ack := False\<rparr>" 0]
  by (simp add: demo_th_def)

subsection \<open>Synchronized states\<close>




end
