(* ===== verification/Tcp_Stream.thy ===== *)
theory Tcp_Stream
  imports Tcp_States
begin

unbundle bit_operations_syntax

text \<open>
  The receive side as a byte stream: \<open>stream\<close> is what the receive queue holds for the reader.
  Queueing an in-order segment appends to it, reading takes a prefix of it.
\<close>

definition payload :: "sk_buff \<Rightarrow> bytes" where
  "payload k = mread (b_mem k) (nat (b_payload k)) (unat (b_dlen k))"

text \<open>A buffer whose data lies in it, of a size an \<open>int\<close> holds.\<close>

definition data_ok :: "sk_buff \<Rightarrow> bool" where
  "data_ok k \<longleftrightarrow> in_region (b_mem k) (b_payload k) (unat (b_dlen k)) \<and> b_dlen k < 2 ^ 31"

definition queue_ok :: "nat list \<Rightarrow> 'a stack_scheme \<Rightarrow> bool" where
  "queue_ok q s \<longleftrightarrow> distinct q \<and> (\<forall>b \<in> set q. live b s \<and> b_refcnt (deref b s) = 1 \<and> data_ok (deref b s))"

definition stream_of :: "nat list \<Rightarrow> 'a stack_scheme \<Rightarrow> bytes" where
  "stream_of q s = concat (map (\<lambda>b. payload (deref b s)) q)"

abbreviation stream :: "tcpctx \<Rightarrow> bytes" where
  "stream c \<equiv> stream_of (sk_receive_queue (c_sk c)) c"

lemma stream_of_simps [simp]:
  "stream_of [] s = []" "stream_of (b # q) s = payload (deref b s) @ stream_of q s"
  "stream_of (q @ q') s = stream_of q s @ stream_of q' s"
  by (simp_all add: stream_of_def)

lemma queue_ok_Nil [simp]: "queue_ok [] s"
  by (simp add: queue_ok_def)

lemma queue_ok_Cons: "queue_ok (b # q) s \<longleftrightarrow>
    b \<notin> set q \<and> live b s \<and> b_refcnt (deref b s) = 1 \<and> data_ok (deref b s) \<and> queue_ok q s"
  by (auto simp: queue_ok_def)

lemma length_payload: "data_ok k \<Longrightarrow> length (payload k) = unat (b_dlen k)"
  by (auto simp: data_ok_def in_region_def payload_def length_mread)

text \<open>Queues only look at their own buffers.\<close>

lemma queue_cong:
  assumes "\<forall>b \<in> set q. s_skbs s' b = s_skbs s b"
  shows "queue_ok q s' = queue_ok q s" "stream_of q s' = stream_of q s"
proof -
  have "\<forall>b \<in> set q. deref b s' = deref b s \<and> live b s' = live b s"
    using assms by (simp add: deref_def live_def)
  then show "queue_ok q s' = queue_ok q s" "stream_of q s' = stream_of q s"
    by (auto simp: queue_ok_def stream_of_def intro!: arg_cong [where f = concat])
qed

lemma queue_upd [simp]:
  "queue_ok q (upd_sk f c) = queue_ok q c" "stream_of q (upd_sk f c) = stream_of q c"
  "queue_ok q (upd_tcb g c) = queue_ok q c" "stream_of q (upd_tcb g c) = stream_of q c"
  "queue_ok q (check e c) = queue_ok q c" "stream_of q (check e c) = stream_of q c"
  by (simp_all add: queue_cong)

lemma s_skbs_upd_skb: "b' \<noteq> b \<Longrightarrow> s_skbs (upd_skb b f s) b' = s_skbs s b'"
  by (simp add: upd_skb_def s_skbs_put_skb_other)

lemma s_skbs_free_skb: "b' \<noteq> b \<Longrightarrow> s_skbs (free_skb b s) b' = s_skbs s b'"
  by (simp add: free_skb_def Let_def touch_def)

lemma queue_other [simp]:
  "b \<notin> set q \<Longrightarrow> queue_ok q (upd_skb b f c) = queue_ok q c"
  "b \<notin> set q \<Longrightarrow> stream_of q (upd_skb b f c) = stream_of q c"
  "b \<notin> set q \<Longrightarrow> queue_ok q (free_skb b c) = queue_ok q c"
  "b \<notin> set q \<Longrightarrow> stream_of q (free_skb b c) = stream_of q c"
  by (rule queue_cong; metis s_skbs_upd_skb s_skbs_free_skb)+

subsection \<open>Reading\<close>

lemma payload_eat:
  assumes "data_ok k" and "n \<le> unat (b_dlen k)"
  shows "payload (k\<lparr>b_dlen := b_dlen k - of_nat n, b_payload := b_payload k + int n\<rparr>) = drop n (payload k)"
    and "data_ok (k\<lparr>b_dlen := b_dlen k - of_nat n, b_payload := b_payload k + int n\<rparr>)"
    and "unat (b_dlen k - of_nat n) = unat (b_dlen k) - n"
proof -
  have p: "0 \<le> b_payload k" "nat (b_payload k) + unat (b_dlen k) \<le> length (b_mem k)" "b_dlen k < 2 ^ 31"
    using assms(1) by (auto simp: data_ok_def in_region_def)
  have n32: "n < 2 ^ 32" using assms(2) unat_u32_less [of "b_dlen k"] by simp
  then have un: "unat (of_nat n :: u32) = n" by (simp add: unat_of_nat)
  then have le: "of_nat n \<le> b_dlen k" using assms(2) by (simp add: word_le_nat_alt)
  show u: "unat (b_dlen k - of_nat n) = unat (b_dlen k) - n"
    using unat_sub [OF le] un by simp
  have np: "nat (b_payload k + int n) = nat (b_payload k) + n"
    using p(1) by (simp add: nat_add_distrib)
  show "payload (k\<lparr>b_dlen := b_dlen k - of_nat n, b_payload := b_payload k + int n\<rparr>) = drop n (payload k)"
    unfolding payload_def by (simp add: u np mread_def drop_take) (simp add: add.commute)
  have "b_dlen k - of_nat n \<le> b_dlen k" using u by (simp add: word_le_nat_alt)
  then have "b_dlen k - of_nat n < 2 ^ 31" using p(3) by (rule order.strict_trans1)
  then show "data_ok (k\<lparr>b_dlen := b_dlen k - of_nat n, b_payload := b_payload k + int n\<rparr>)"
    using p assms(2) np u by (auto simp: data_ok_def in_region_def)
qed

text \<open>How much one buffer gives.\<close>

lemma read_amount:
  assumes "data_ok k" and "0 \<le> rlen" "rlen < userlen" "userlen < 2 ^ 31"
  shows "(if (of_int rlen + b_dlen k :: u32) > of_int userlen then userlen - rlen else sint (b_dlen k)) =
    int (min (unat (b_dlen k)) (nat (userlen - rlen)))"
proof -
  have d: "unat (b_dlen k) < 2 ^ 31" using assms(1) by (simp add: data_ok_def word_less_nat_alt)
  have s: "sint (b_dlen k) = int (unat (b_dlen k))"
    proof -
    have "int (unat (b_dlen k)) < int (2 ^ 31)" using d by (simp only: of_nat_less_iff)
    then have "uint (b_dlen k) < 2 ^ 31" by simp
    moreover have "0 \<le> uint (b_dlen k)" by simp
    ultimately have "signed_take_bit 31 (uint (b_dlen k)) = uint (b_dlen k)"
      by (intro signed_take_bit_int_eq_self) linarith+
    then show ?thesis by (simp add: sint_uint)
  qed
  have r: "unat (of_int rlen :: u32) = nat rlen" "unat (of_int userlen :: u32) = nat userlen"
    using assms(2-4) by (simp_all flip: nat_uint_eq add: uint_word_of_int)
  have "unat (of_int rlen + b_dlen k :: u32) = nat rlen + unat (b_dlen k)"
    using d r assms(2-4) by (simp add: unat_word_ariths)
  then have c: "(of_int rlen + b_dlen k :: u32) > of_int userlen \<longleftrightarrow> nat rlen + unat (b_dlen k) > nat userlen"
    using r by (simp add: word_less_nat_alt)
  show ?thesis using assms(2-4) unfolding c s by (auto simp: min_def)
qed

text \<open>The loop of \<open>tcp_data_dequeue\<close>, from any point on.\<close>

lemma dequeue_loop_spec:
  assumes "queue_ok q c" and "sk_receive_queue (c_sk c) = q"
    and "0 \<le> rlen" "rlen \<le> userlen" "userlen < 2 ^ 31"
    and "dequeue_loop q rlen userlen buf c = (rlen', buf', c')"
  shows "\<exists>n. buf' = buf @ take n (stream c) \<and> n = min (nat (userlen - rlen)) (length (stream c))
    \<and> rlen' = rlen + int n \<and> stream c' = drop n (stream c)
    \<and> queue_ok (sk_receive_queue (c_sk c')) c' \<and> s_fault c' = s_fault c"
  using assms
proof (induction q arbitrary: rlen buf c)
  case Nil
  then show ?case by simp
next
  case (Cons b q)
  let ?k = "deref b c"
  let ?d = "unat (b_dlen ?k)"
  have b: "b \<notin> set q" "live b c" "b_refcnt ?k = 1" "data_ok ?k" "queue_ok q c"
    using Cons.prems(1) by (auto simp: queue_ok_Cons)
  note rq = Cons.prems(2)
  show ?case
  proof (cases "rlen < userlen")
    case False
    then show ?thesis using Cons.prems by auto
  next
    case True
    define n where "n = min ?d (nat (userlen - rlen))"
    have amount: "(if (of_int rlen + b_dlen ?k :: u32) > of_int userlen then userlen - rlen
        else sint (b_dlen ?k)) = int n"
      using read_amount [OF b(4) Cons.prems(3) True Cons.prems(5)] by (simp add: n_def)
    have nd: "n \<le> ?d" by (simp add: n_def)
    note eat = payload_eat [OF b(4) nd]
    have lp: "length (payload ?k) = ?d" by (rule length_payload [OF b(4)])
    have reg: "in_region (b_mem ?k) (b_payload ?k) n" "mread (b_mem ?k) (nat (b_payload ?k)) n = take n (payload ?k)"
      using b(4) nd by (auto simp: data_ok_def in_region_def payload_def mread_def)
    define K where "K = ?k\<lparr>b_dlen := b_dlen ?k - of_nat n, b_payload := b_payload ?k + int n\<rparr>"
    define c1 where "c1 = upd_skb b (\<lambda>k. k\<lparr>b_dlen := b_dlen k - of_nat n, b_payload := b_payload k + int n\<rparr>) c"
    have c1: "deref b c1 = K" "live b c1" "s_fault c1 = s_fault c" "c_sk c1 = c_sk c"
      "queue_ok q c1" "stream_of q c1 = stream_of q c"
      using b by (simp_all add: c1_def K_def)
    define c2 where "c2 = (if th_psh (tcp_hdr ?k) then upd_sk (\<lambda>t. t\<lparr>tk_flags := tk_flags t OR TCP_PSH\<rparr>) c1 else c1)"
    define c3 where "c3 = free_skb b (upd_skb b (\<lambda>k. k\<lparr>b_refcnt := b_refcnt k - 1\<rparr>)
        (upd_sk (\<lambda>t. t\<lparr>sk_receive_queue := q\<rparr>) c2))"
    have step: "dequeue_loop (b # q) rlen userlen buf c =
      (if b_dlen K = 0 then dequeue_loop q (rlen + int n) userlen (buf @ take n (payload ?k)) c3
       else (rlen + int n, buf @ take n (payload ?k), c1))"
      unfolding dequeue_loop.simps(2) Let_def amount
      using True b(2) reg c1(1) by (simp add: c1_def [symmetric]) (simp add: c2_def c3_def)
    show ?thesis
    proof (cases "n = ?d")
      case whole: True
      have z: "b_dlen K = 0" using eat(3) whole by (simp add: K_def unat_eq_zero)
      have q3: "queue_ok q c3" "stream_of q c3 = stream_of q c" "sk_receive_queue (c_sk c3) = q"
        "s_fault c3 = s_fault c"
        using b c1 by (simp_all add: c3_def c2_def)
      have run: "dequeue_loop q (rlen + int n) userlen (buf @ take n (payload ?k)) c3 = (rlen', buf', c')"
        using Cons.prems(6) z unfolding step by simp
      obtain m where m: "buf' = buf @ take n (payload ?k) @ take m (stream_of q c)"
          "m = min (nat (userlen - (rlen + int n))) (length (stream_of q c))"
          "rlen' = rlen + int n + int m" "stream c' = drop m (stream_of q c)"
          "queue_ok (sk_receive_queue (c_sk c')) c'" "s_fault c' = s_fault c"
        using Cons.IH [OF q3(1,3) _ _ Cons.prems(5) run] Cons.prems(3) q3 True
        by (auto simp: n_def)
      have st: "stream c = payload ?k @ stream_of q c" using rq by simp
      have tk: "take n (payload ?k) = payload ?k" using whole lp by simp
      have ln: "length (payload ?k) = n" using whole lp by simp
      have nm: "n + m = min (nat (userlen - rlen)) (length (stream c))"
      proof -
        have "nat (userlen - (rlen + int n)) = nat (userlen - rlen) - n" by linarith
        moreover have "length (stream c) = n + length (stream_of q c)" using whole lp st by simp
        moreover have "n \<le> nat (userlen - rlen)" by (simp add: n_def)
        ultimately show ?thesis using m(2) by linarith
      qed
      have td: "take (n + m) (stream c) = payload ?k @ take m (stream_of q c)"
        "drop (n + m) (stream c) = drop m (stream_of q c)"
        using ln unfolding st by simp_all
      show ?thesis
        by (rule exI [of _ "n + m"]) (use m(1,3-6) tk nm td in \<open>simp only: append_assoc of_nat_add add.assoc simp_thms\<close>)
    next
      case part: False
      then have n: "n = nat (userlen - rlen)" "n < ?d" by (auto simp: n_def min_def split: if_splits)
      have z: "b_dlen K \<noteq> 0" using eat(3) n(2) by (auto simp: K_def simp flip: unat_eq_zero)
      have res: "rlen' = rlen + int n" "buf' = buf @ take n (payload ?k)" "c' = c1"
        using Cons.prems(6) z unfolding step by auto
      have st: "stream c = payload ?k @ stream_of q c" using rq by simp
      have "stream c1 = drop n (payload ?k) @ stream_of q c"
        using rq c1 eat(1) by (simp add: K_def)
      moreover have "queue_ok (b # q) c1"
        using b c1 eat(2) by (simp add: queue_ok_Cons K_def)
      ultimately show ?thesis
        using n lp res c1 rq unfolding st by (intro exI [of _ n]) simp
    qed
  qed
qed

lemma data_dequeue_spec:
  assumes "queue_ok (sk_receive_queue (c_sk c)) c" and "0 \<le> userlen" "userlen < 2 ^ 31"
    and "tcp_data_dequeue userlen c = (rlen, buf, c')"
  shows "buf = take (nat userlen) (stream c) \<and> rlen = int (length buf)
    \<and> stream c' = drop (nat userlen) (stream c)
    \<and> queue_ok (sk_receive_queue (c_sk c')) c' \<and> s_fault c' = s_fault c"
proof -
  obtain r b c1 where d: "dequeue_loop (sk_receive_queue (c_sk c)) 0 userlen [] c = (r, b, c1)"
    by (cases "dequeue_loop (sk_receive_queue (c_sk c)) 0 userlen [] c") auto
  from dequeue_loop_spec [OF assms(1) refl _ assms(2,3) d]
  have "b = take (nat userlen) (stream c)" "r = int (length b)" "stream c1 = drop (nat userlen) (stream c)"
    "queue_ok (sk_receive_queue (c_sk c1)) c1" "s_fault c1 = s_fault c"
    by (auto simp: min_def)
  moreover have "rlen = r" "buf = b" "c' = c1 \<or> c' = upd_sk (\<lambda>k. k\<lparr>sk_poll_events := sk_poll_events k AND NOT POLLIN\<rparr>) c1"
    using assms(4) by (auto simp: tcp_data_dequeue_def d split: if_splits)
  ultimately show ?thesis by auto
qed

lemma queue_misc [simp]:
  "queue_ok q (upd_sock g c) = queue_ok q c" "stream_of q (upd_sock g c) = stream_of q c"
  "queue_ok q (timer_cancel t c) = queue_ok q c" "stream_of q (timer_cancel t c) = stream_of q c"
  "queue_ok q (snd (timer_add x h a c)) = queue_ok q c" "stream_of q (snd (timer_add x h a c)) = stream_of q c"
  by (simp_all add: queue_cong timer_cancel_def timer_add_def split: option.split)

lemma queue_rearm_user [simp]:
  "sk_receive_queue (c_sk (tcp_rearm_user_timeout c)) = sk_receive_queue (c_sk c)"
  "queue_ok q (tcp_rearm_user_timeout c) = queue_ok q c"
  "stream_of q (tcp_rearm_user_timeout c) = stream_of q c"
  by (simp_all add: tcp_rearm_user_timeout_def Let_def split_beta)

text \<open>What a round of a read leaves: its bytes so far, and the rest of the stream.\<close>

definition read_so_far :: "bytes \<Rightarrow> int \<Rightarrow> bytes \<Rightarrow> tcpctx \<Rightarrow> bool" where
  "read_so_far all rlen buf c \<longleftrightarrow>
     all = buf @ stream c \<and> (rlen = int (length buf) \<or> rlen = - EAGAIN \<and> buf = [])
     \<and> queue_ok (sk_receive_queue (c_sk c)) c"

lemma receive_round_spec:
  assumes "queue_ok (sk_receive_queue (c_sk c)) c" and "rlen = int (length buf)" "rlen \<le> len" "len < 2 ^ 31"
  shows "(\<forall>r b c'. tcp_receive_round len rlen buf c = Received r b c' \<longrightarrow>
        read_so_far (buf @ stream c) r b c' \<and> int (length b) \<le> len)
    \<and> (\<forall>r b c'. tcp_receive_round len rlen buf c = Sleep r b c' \<longrightarrow>
        read_so_far (buf @ stream c) r b c' \<and> r = int (length b) \<and> r < len \<and> stream c' = [])"
proof (cases "rlen < len")
  case False
  then show ?thesis using assms by (auto simp: tcp_receive_round_def receive_done_def read_so_far_def)
next
  case True
  obtain n new c1 where d: "tcp_data_dequeue (len - rlen) c = (n, new, c1)"
    by (cases "tcp_data_dequeue (len - rlen) c") auto
  have s: "new = take (nat (len - rlen)) (stream c)" "n = int (length new)"
    "stream c1 = drop (nat (len - rlen)) (stream c)" "queue_ok (sk_receive_queue (c_sk c1)) c1"
    using data_dequeue_spec [OF assms(1) _ _ d] True assms(2-4) by auto
  have all: "buf @ stream c = (buf @ new) @ stream c1" using s by simp
  have l: "rlen + n = int (length (buf @ new))" "int (length (buf @ new)) \<le> len"
    using s(1,2) assms(2,3) by auto
  have e: "stream c1 = []" if "rlen + n \<noteq> len"
    using that s l assms(2,3) by (auto simp: min_def split: if_splits)
  have z: "buf = []" "new = []" if "int (length buf) + int (length new) = 0"
    using that by (simp_all flip: of_nat_add)
  show ?thesis
    using True l e z s(4) unfolding all
    by (auto simp: tcp_receive_round_def d receive_done_def read_so_far_def EAGAIN_def sleep_recv_def
        socket_release_def Let_def)
qed

text \<open>
  C12: A read takes a prefix of the received stream and nothing else: the bytes copied followed by
  what the receive queue still holds are the stream before the read, their number is the result
  (or the result is -EAGAIN and nothing was copied), it is at most the length asked for, and the
  queue stays well-formed.  A blocking read sleeps only when it has emptied the queue and wants more.
\<close>

theorem receive_takes_prefix:
  assumes "queue_ok (sk_receive_queue (c_sk c)) c" and "0 \<le> len" "len < 2 ^ 31"
  shows "case tcp_receive len c of
      Received r buf c' \<Rightarrow>
        stream c = buf @ stream c' \<and> (r = int (length buf) \<or> r = - EAGAIN \<and> buf = [])
        \<and> int (length buf) \<le> len \<and> queue_ok (sk_receive_queue (c_sk c')) c'
    | Sleep r buf c' \<Rightarrow>
        stream c = buf \<and> stream c' = [] \<and> r = int (length buf) \<and> r < len
        \<and> queue_ok (sk_receive_queue (c_sk c')) c'"
  using receive_round_spec [OF assms(1), of 0 "[]" len] assms(2,3)
  by (auto simp: tcp_receive_def read_so_far_def split: receive_result.split)

text \<open>Two received segments of three and two bytes.\<close>

definition read_demo :: tcpctx where
  "read_demo = upd_sk (\<lambda>k. k\<lparr>sk_receive_queue := [0, 1]\<rparr>)
     ((demo_ctx TCP_ESTABLISHED)
        \<lparr>s_skbs := [0 \<mapsto> (new_skb 0)\<lparr>b_mem := replicate 54 0 @ [1, 2, 3], b_refcnt := 1, b_dlen := 3, b_payload := 54\<rparr>,
                   1 \<mapsto> (new_skb 0)\<lparr>b_mem := replicate 54 0 @ [4, 5], b_refcnt := 1, b_dlen := 2, b_payload := 54\<rparr>],
         s_bnext := 2\<rparr>)"

lemma read_demo_ok:
  "queue_ok (sk_receive_queue (c_sk read_demo)) read_demo" "stream read_demo = [1, 2, 3, 4, 5]"
  by (simp_all add: read_demo_def queue_ok_def data_ok_def in_region_def live_def deref_def payload_def
      mread_def stream_of_def)

theorem receive_takes_prefix_witness:
  "case tcp_receive 4 read_demo of
      Received r buf c' \<Rightarrow> [1, 2, 3, 4, 5] = buf @ stream c' \<and> length buf \<le> 4
    | Sleep r buf c' \<Rightarrow> [1, 2, 3, 4, 5] = buf \<and> r < 4"
  using receive_takes_prefix [OF read_demo_ok(1), of 4] read_demo_ok(2)
  by (auto split: receive_result.splits)

end
