(* ===== verification/Tcp_Ofo.thy ===== *)
theory Tcp_Ofo
  imports Tcp_Stream
begin

unbundle bit_operations_syntax

text \<open>
  Segments in and out of order: \<open>tcp_data_queue\<close>, the out-of-order queue kept sorted, and the
  SACK blocks as the maximal runs of contiguous segments in it.
\<close>

subsection \<open>In-order data\<close>

text \<open>Segments that follow each other from sequence number \<open>n\<close> on.\<close>

fun contiguous :: "u32 \<Rightarrow> nat list \<Rightarrow> 'a stack_scheme \<Rightarrow> bool" where
  "contiguous n [] s = True"
| "contiguous n (b # q) s \<longleftrightarrow> b_seq (deref b s) = n \<and> contiguous (n + b_dlen (deref b s)) q s"

lemma contiguous_upd [simp]:
  "contiguous n q (upd_sk f c) = contiguous n q c" "contiguous n q (upd_tcb g c) = contiguous n q c"
  by (induction n q c rule: contiguous.induct) simp_all

lemma contiguous_cong:
  "\<forall>b \<in> set q. b_seq (deref b s') = b_seq (deref b s) \<and> b_dlen (deref b s') = b_dlen (deref b s) \<Longrightarrow>
     contiguous n q s' = contiguous n q s"
  by (induction q arbitrary: n) auto

lemma of_nat_stream_Cons:
  "data_ok (deref b s) \<Longrightarrow> b_dlen (deref b s) + of_nat (length (stream_of q s)) =
     of_nat (length (stream_of (b # q) s))"
  by (simp add: length_payload)

lemma consume_ofo_spec:
  assumes "tk_ofo_queue (c_sk c) = q" and "\<forall>b \<in> set q. live b c \<and> data_ok (deref b c)"
  shows "\<exists>xs ys. q = xs @ ys \<and> contiguous (rcv_nxt (tcb_of c)) xs c
    \<and> rcv_nxt (tcb_of (consume_ofo q c)) = rcv_nxt (tcb_of c) + of_nat (length (stream_of xs c))
    \<and> (ys = [] \<or> b_seq (deref (hd ys) c) \<noteq> rcv_nxt (tcb_of (consume_ofo q c)))
    \<and> sk_receive_queue (c_sk (consume_ofo q c)) = sk_receive_queue (c_sk c) @ xs
    \<and> tk_ofo_queue (c_sk (consume_ofo q c)) = ys
    \<and> s_skbs (consume_ofo q c) = s_skbs c \<and> s_fault (consume_ofo q c) = s_fault c
    \<and> tk_flags (c_sk (consume_ofo q c)) = tk_flags (c_sk c)"
  using assms
proof (induction q arbitrary: c)
  case Nil
  then show ?case by simp
next
  case (Cons b q)
  show ?case
  proof (cases "rcv_nxt (tcb_of c) = b_seq (deref b c)")
    case False
    then show ?thesis using Cons.prems by (intro exI [of _ "[]"] exI [of _ "b # q"]) auto
  next
    case True
    define c1 where "c1 = upd_sk (\<lambda>k. k\<lparr>tk_ofo_queue := q, sk_receive_queue := sk_receive_queue k @ [b]\<rparr>)
        (upd_tcb (\<lambda>t. t\<lparr>rcv_nxt := rcv_nxt t + b_dlen (deref b c)\<rparr>) c)"
    have run: "consume_ofo (b # q) c = consume_ofo q c1"
      using True Cons.prems(2) by (simp add: c1_def q_tail_def Let_def upd_sk_def upd_tcb_def)
    have c1: "tk_ofo_queue (c_sk c1) = q" "deref b' c1 = deref b' c" "s_skbs c1 = s_skbs c"
      "rcv_nxt (tcb_of c1) = rcv_nxt (tcb_of c) + b_dlen (deref b c)"
      "sk_receive_queue (c_sk c1) = sk_receive_queue (c_sk c) @ [b]" "s_fault c1 = s_fault c"
      "tk_flags (c_sk c1) = tk_flags (c_sk c)" "live b' c1 = live b' c" for b'
      by (simp_all add: c1_def)
    have eq: "contiguous n xs c1 = contiguous n xs c" "stream_of xs c1 = stream_of xs c" for n xs
      by (simp_all add: c1_def)
    obtain xs ys where ih: "q = xs @ ys" "contiguous (rcv_nxt (tcb_of c1)) xs c1"
      "rcv_nxt (tcb_of (consume_ofo q c1)) = rcv_nxt (tcb_of c1) + of_nat (length (stream_of xs c1))"
      "ys = [] \<or> b_seq (deref (hd ys) c1) \<noteq> rcv_nxt (tcb_of (consume_ofo q c1))"
      "sk_receive_queue (c_sk (consume_ofo q c1)) = sk_receive_queue (c_sk c1) @ xs"
      "tk_ofo_queue (c_sk (consume_ofo q c1)) = ys"
      "s_skbs (consume_ofo q c1) = s_skbs c1" "s_fault (consume_ofo q c1) = s_fault c1"
      "tk_flags (c_sk (consume_ofo q c1)) = tk_flags (c_sk c1)"
    proof -
      have "\<forall>b \<in> set q. live b c1 \<and> data_ok (deref b c1)" using Cons.prems(2) c1(2,8) by simp
      from Cons.IH [OF c1(1) this] show thesis using that by blast
    qed
    have "data_ok (deref b c)" using Cons.prems(2) by simp
    from of_nat_stream_Cons [OF this, of xs]
    have "rcv_nxt (tcb_of (consume_ofo q c1)) = rcv_nxt (tcb_of c) + of_nat (length (stream_of (b # xs) c))"
      using ih(3) c1(4) by (simp add: eq add.assoc)
    then show ?thesis
      using ih c1 True unfolding run
      by (intro exI [of _ "b # xs"] exI [of _ ys]) (simp add: eq)
  qed
qed

lemma payload_refcnt [simp]:
  "payload (k\<lparr>b_refcnt := n\<rparr>) = payload k" "data_ok (k\<lparr>b_refcnt := n\<rparr>) = data_ok k"
  by (simp_all add: payload_def data_ok_def)

lemma poll_in: "(p OR (POLLIN OR POLLPRI OR POLLRDNORM OR POLLRDBAND)) AND POLLIN \<noteq> 0"
proof -
  have "bit ((p OR (POLLIN OR POLLPRI OR POLLRDNORM OR POLLRDBAND)) AND POLLIN) 0"
    by (simp add: POLLIN_def bit_simps)
  then show ?thesis by (metis bit_0_eq bot_apply bot_bool_def)
qed

text \<open>
  What \<open>tcp_data_queue\<close> does with a segment at \<open>rcv_nxt\<close>: it goes to the receive queue with the
  queued segments that join it; of the buffers only its own changes, by a reference.
\<close>

lemma data_queue_in_order:
  assumes "rcv_wnd (tcb_of c) \<noteq> 0" "b_seq (deref b c) = rcv_nxt (tcb_of c)"
    and "live b c" "b_refcnt (deref b c) = 0" "data_ok (deref b c)"
    and "b \<notin> set (tk_ofo_queue (c_sk c))" "\<forall>b' \<in> set (tk_ofo_queue (c_sk c)). live b' c \<and> data_ok (deref b' c)"
  shows "\<exists>xs ys. tk_ofo_queue (c_sk c) = xs @ ys
    \<and> contiguous (rcv_nxt (tcb_of c)) (b # xs) c
    \<and> sk_receive_queue (c_sk (snd (tcp_data_queue b c))) = sk_receive_queue (c_sk c) @ b # xs
    \<and> tk_ofo_queue (c_sk (snd (tcp_data_queue b c))) = ys
    \<and> rcv_nxt (tcb_of (snd (tcp_data_queue b c))) =
        rcv_nxt (tcb_of c) + of_nat (length (stream_of (b # xs) c))
    \<and> (ys = [] \<or> b_seq (deref (hd ys) c) \<noteq> rcv_nxt (tcb_of (snd (tcp_data_queue b c))))
    \<and> s_skbs (snd (tcp_data_queue b c)) = s_skbs (upd_skb b (\<lambda>k. k\<lparr>b_refcnt := 1\<rparr>) c)
    \<and> s_bnext (snd (tcp_data_queue b c)) = s_bnext c
    \<and> sk_poll_events (c_sk (snd (tcp_data_queue b c))) AND POLLIN \<noteq> 0
    \<and> \<not> sk_recv_sleeping (c_sk (snd (tcp_data_queue b c)))
    \<and> s_fault (snd (tcp_data_queue b c)) = s_fault c"
proof -
  define k where "k = deref b c"
  define c1 where "c1 = upd_sk (\<lambda>k. k\<lparr>sk_receive_queue := sk_receive_queue k @ [b]\<rparr>)
     (upd_skb b (\<lambda>k. k\<lparr>b_refcnt := b_refcnt k + 1\<rparr>) (upd_tcb (\<lambda>t. t\<lparr>rcv_nxt := rcv_nxt t + b_dlen k\<rparr>) c))"
  let ?q = "tk_ofo_queue (c_sk c)"
  define E where "E = consume_ofo ?q c1"
  have res: "snd (tcp_data_queue b c) = wakeup_recv (upd_sk (\<lambda>k. k\<lparr>sk_poll_events :=
        sk_poll_events k OR (POLLIN OR POLLPRI OR POLLRDNORM OR POLLRDBAND)\<rparr>) E)"
    using assms(1,2)
    by (simp add: tcp_data_queue_def Let_def q_tail_def tcp_consume_ofo_queue_def tcp_recv_notify_def
        c1_def k_def E_def)
  have c1: "tk_ofo_queue (c_sk c1) = ?q" "rcv_nxt (tcb_of c1) = rcv_nxt (tcb_of c) + b_dlen k"
    "s_fault c1 = s_fault c" "sk_receive_queue (c_sk c1) = sk_receive_queue (c_sk c) @ [b]"
    "s_bnext c1 = s_bnext c" "s_skbs c1 = s_skbs (upd_skb b (\<lambda>k. k\<lparr>b_refcnt := 1\<rparr>) c)"
    using assms(3,4) by (simp_all add: c1_def k_def upd_skb_def put_skb_def)
  have o: "deref b' c1 = deref b' c" if "b' \<noteq> b" for b' using that by (simp add: c1_def)
  have st: "stream_of q c1 = stream_of q c" if "b \<notin> set q" for q using that by (simp add: c1_def)
  have "live b' c1 = live b' c" for b' by (simp add: c1_def)
  then have "\<forall>b' \<in> set ?q. live b' c1 \<and> data_ok (deref b' c1)" using assms(6,7) o by metis
  from consume_ofo_spec [OF c1(1) this, folded E_def] obtain xs ys where e: "?q = xs @ ys"
    "contiguous (rcv_nxt (tcb_of c1)) xs c1"
    "rcv_nxt (tcb_of E) = rcv_nxt (tcb_of c1) + of_nat (length (stream_of xs c1))"
    "ys = [] \<or> b_seq (deref (hd ys) c1) \<noteq> rcv_nxt (tcb_of E)"
    "sk_receive_queue (c_sk E) = sk_receive_queue (c_sk c1) @ xs" "tk_ofo_queue (c_sk E) = ys"
    "s_skbs E = s_skbs c1" "s_fault E = s_fault c1" by blast
  have bx: "b \<notin> set xs" "b \<notin> set ys" using assms(6) e(1) by auto
  have bn: "s_bnext (consume_ofo q c) = s_bnext c" for q c
    by (induction q c rule: consume_ofo.induct) (simp_all add: Let_def touch_def)
  have "contiguous (rcv_nxt (tcb_of c)) (b # xs) c"
    using e(2) assms(2) bx o contiguous_cong [of xs c1 c] by (simp add: c1(2) k_def) (metis o)
  moreover have "ys = [] \<or> b_seq (deref (hd ys) c) \<noteq> rcv_nxt (tcb_of E)"
    using e(4) bx(2) o by (cases ys) auto
  moreover have "rcv_nxt (tcb_of E) = rcv_nxt (tcb_of c) + of_nat (length (stream_of (b # xs) c))"
    using e(3) st [OF bx(1)] of_nat_stream_Cons [OF assms(5), of xs]
    by (simp add: c1(2) k_def add.assoc del: stream_of_simps)
  ultimately show ?thesis
    unfolding res using e(1,5-8) c1(3-6) poll_in bn [of ?q c1, folded E_def]
    by - (rule exI [of _ xs], rule exI [of _ ys],
        simp add: wakeup_recv_def del: contiguous.simps stream_of_simps)
qed

text \<open>
  C8: A segment at rcv_nxt extends the received stream by its data and by the data of the
  out-of-order segments that follow without a gap, and by nothing else; rcv_nxt moves over exactly
  those bytes, the segments with a gap before them stay queued, and the reader is woken and sees
  POLLIN.
\<close>

theorem in_order_data_delivered:
  assumes "rcv_wnd (tcb_of c) \<noteq> 0" and "b_seq (deref b c) = rcv_nxt (tcb_of c)"
    and "live b c" "b_refcnt (deref b c) = 0" "data_ok (deref b c)"
    and "queue_ok (b # sk_receive_queue (c_sk c) @ tk_ofo_queue (c_sk c))
           (upd_skb b (\<lambda>k. k\<lparr>b_refcnt := 1\<rparr>) c)"
  shows "\<exists>xs ys. tk_ofo_queue (c_sk c) = xs @ ys
    \<and> stream (snd (tcp_data_queue b c)) = stream c @ payload (deref b c) @ stream_of xs c
    \<and> tk_ofo_queue (c_sk (snd (tcp_data_queue b c))) = ys
    \<and> contiguous (rcv_nxt (tcb_of c)) (b # xs) c
    \<and> rcv_nxt (tcb_of (snd (tcp_data_queue b c))) =
        rcv_nxt (tcb_of c) + of_nat (length (payload (deref b c) @ stream_of xs c))
    \<and> (ys = [] \<or> b_seq (deref (hd ys) c) \<noteq> rcv_nxt (tcb_of (snd (tcp_data_queue b c))))
    \<and> queue_ok (sk_receive_queue (c_sk (snd (tcp_data_queue b c)))) (snd (tcp_data_queue b c))
    \<and> sk_poll_events (c_sk (snd (tcp_data_queue b c))) AND POLLIN \<noteq> 0
    \<and> \<not> sk_recv_sleeping (c_sk (snd (tcp_data_queue b c)))
    \<and> s_fault (snd (tcp_data_queue b c)) = s_fault c"
proof -
  have nb: "b \<notin> set (sk_receive_queue (c_sk c))" "b \<notin> set (tk_ofo_queue (c_sk c))"
    using assms(6) by (auto simp: queue_ok_Cons)
  then have qs: "queue_ok (sk_receive_queue (c_sk c) @ tk_ofo_queue (c_sk c)) c"
    using assms(6) by (simp add: queue_ok_Cons)
  then have "\<forall>b' \<in> set (tk_ofo_queue (c_sk c)). live b' c \<and> data_ok (deref b' c)" by (simp add: queue_ok_def)
  from data_queue_in_order [OF assms(1-5) nb(2) this] obtain xs ys where r:
    "tk_ofo_queue (c_sk c) = xs @ ys" "contiguous (rcv_nxt (tcb_of c)) (b # xs) c"
    "sk_receive_queue (c_sk (snd (tcp_data_queue b c))) = sk_receive_queue (c_sk c) @ b # xs"
    "tk_ofo_queue (c_sk (snd (tcp_data_queue b c))) = ys"
    "rcv_nxt (tcb_of (snd (tcp_data_queue b c))) = rcv_nxt (tcb_of c) + of_nat (length (stream_of (b # xs) c))"
    "ys = [] \<or> b_seq (deref (hd ys) c) \<noteq> rcv_nxt (tcb_of (snd (tcp_data_queue b c)))"
    "s_skbs (snd (tcp_data_queue b c)) = s_skbs (upd_skb b (\<lambda>k. k\<lparr>b_refcnt := 1\<rparr>) c)"
    "sk_poll_events (c_sk (snd (tcp_data_queue b c))) AND POLLIN \<noteq> 0"
    "\<not> sk_recv_sleeping (c_sk (snd (tcp_data_queue b c)))"
    "s_fault (snd (tcp_data_queue b c)) = s_fault c" by blast
  note same = queue_cong [of _ "snd (tcp_data_queue b c)" "upd_skb b (\<lambda>k. k\<lparr>b_refcnt := 1\<rparr>) c", unfolded r(7), simplified]
  have "stream (snd (tcp_data_queue b c)) = stream c @ payload (deref b c) @ stream_of xs c"
    using same nb r(1,3) assms(3) by simp
  moreover have "queue_ok (sk_receive_queue (c_sk c) @ b # xs) (snd (tcp_data_queue b c))"
    unfolding same using assms(6) r(1) by (auto simp: queue_ok_def)
  ultimately show ?thesis
    using r by - (rule exI [of _ xs], rule exI [of _ ys], simp)
qed

text \<open>An empty receive queue, one segment two bytes ahead, and the two bytes missing.\<close>

definition gap_demo :: tcpctx where
  "gap_demo = upd_sk (\<lambda>k. k\<lparr>tk_ofo_queue := [1]\<rparr>)
     ((demo_ctx TCP_ESTABLISHED)
        \<lparr>s_skbs := [0 \<mapsto> (new_skb 0)\<lparr>b_mem := replicate 54 0 @ [1, 2], b_dlen := 2, b_payload := 54,
                          b_seq := 500, b_end_seq := 502\<rparr>,
                   1 \<mapsto> (new_skb 0)\<lparr>b_mem := replicate 54 0 @ [3], b_refcnt := 1, b_dlen := 1,
                          b_payload := 54, b_seq := 502, b_end_seq := 503\<rparr>],
         s_bnext := 2\<rparr>)"

theorem in_order_data_delivered_witness:
  "stream (snd (tcp_data_queue 0 gap_demo)) = [1, 2, 3] \<and> rcv_nxt (tcb_of (snd (tcp_data_queue 0 gap_demo))) = 503
    \<and> s_fault (snd (tcp_data_queue 0 gap_demo)) = s_fault gap_demo"
proof -
  have d: "tk_tcb (c_sk gap_demo) = tk_tcb (c_sk (demo_ctx TCP_ESTABLISHED))" "tk_ofo_queue (c_sk gap_demo) = [1]"
    by (simp_all add: gap_demo_def)
  have q: "sk_receive_queue (c_sk gap_demo) = []"
    by (simp add: gap_demo_def demo_ctx_def stack.defs tcpctx.defs tcp_alloc_sock_def tcp_sock.defs
        sock.defs zero_sock_def)
  have p: "payload (deref 0 gap_demo) = [1, 2]" "payload (deref 1 gap_demo) = [3]"
    by (simp_all add: gap_demo_def deref_def payload_def mread_def)
  have k: "live 0 gap_demo" "b_seq (deref 0 gap_demo) = 500" "b_refcnt (deref 0 gap_demo) = 0"
    "data_ok (deref 0 gap_demo)" "b_seq (deref 1 gap_demo) = 502" "live 1 gap_demo"
    "b_refcnt (deref 1 gap_demo) = 1" "data_ok (deref 1 gap_demo)"
    by (simp_all add: gap_demo_def deref_def live_def data_ok_def in_region_def new_skb_def)
  have ok: "queue_ok (0 # sk_receive_queue (c_sk gap_demo) @ tk_ofo_queue (c_sk gap_demo))
      (upd_skb 0 (\<lambda>k. k\<lparr>b_refcnt := 1\<rparr>) gap_demo)"
    using k by (simp add: queue_ok_Cons q d)
  have w: "rcv_wnd (tcb_of gap_demo) \<noteq> 0" "rcv_nxt (tcb_of gap_demo) = 500" by (simp_all add: d zero_tcb_def)
  obtain xs ys where r: "[1] = xs @ ys"
    "stream (snd (tcp_data_queue 0 gap_demo)) = [1, 2] @ stream_of xs gap_demo"
    "rcv_nxt (tcb_of (snd (tcp_data_queue 0 gap_demo))) = 500 + of_nat (length ([1, 2] @ stream_of xs gap_demo))"
    "ys = [] \<or> b_seq (deref (hd ys) gap_demo) \<noteq> rcv_nxt (tcb_of (snd (tcp_data_queue 0 gap_demo)))"
    "s_fault (snd (tcp_data_queue 0 gap_demo)) = s_fault gap_demo"
    using in_order_data_delivered [OF w(1) _ k(1,3,4) ok] k(2) w(2)
    unfolding d(2) p(1) q by auto
  have "xs = [1] \<and> ys = [] \<or> xs = [] \<and> ys = [1]" using r(1) by (cases xs) auto
  then have "xs = [1]" using r(3,4) k(5) by auto
  then show ?thesis using r(2,3,5) p by simp
qed

subsection \<open>The out-of-order queue\<close>

text \<open>Sorted by sequence number, and no segment reaches into the next.\<close>

definition before :: "sk_buff \<Rightarrow> sk_buff \<Rightarrow> bool" where
  "before k k' \<longleftrightarrow> b_seq k < b_seq k' \<and> b_end_seq k \<le> b_seq k'"

definition ofo_sorted :: "nat list \<Rightarrow> 'a stack_scheme \<Rightarrow> bool" where
  "ofo_sorted q s \<longleftrightarrow> sorted_wrt before (map (\<lambda>b. deref b s) q)"

text \<open>A segment that repeats one of the queue or overlaps none.\<close>

definition fits :: "sk_buff \<Rightarrow> nat list \<Rightarrow> 'a stack_scheme \<Rightarrow> bool" where
  "fits k q s \<longleftrightarrow> (\<forall>n \<in> set q. b_seq (deref n s) = b_seq k \<or> before k (deref n s) \<or> before (deref n s) k)"

lemma before_neq: "before k k' \<Longrightarrow> b_seq k \<noteq> b_seq k' \<and> b_seq k' \<noteq> b_seq k"
  by (auto simp: before_def)

lemma before_asym: "before k k' \<Longrightarrow> \<not> b_seq k' < b_seq k"
  by (auto simp: before_def)

lemma insert_pos_spec:
  assumes "ofo_sorted q c" and "fits k q c"
  shows "case insert_pos k q c of
      Present \<Rightarrow> \<exists>n \<in> set q. b_seq (deref n c) = b_seq k
    | Before n \<Rightarrow> \<exists>xs ys. q = xs @ n # ys \<and> (\<forall>x \<in> set xs. before (deref x c) k)
        \<and> (\<forall>y \<in> set (n # ys). before k (deref y c))
    | At_tail \<Rightarrow> \<forall>x \<in> set q. before (deref x c) k"
  using assms
proof (induction q)
  case Nil
  then show ?case by simp
next
  case (Cons n q)
  let ?n = "deref n c"
  have s: "ofo_sorted q c" "\<forall>y \<in> set q. before ?n (deref y c)" and f: "fits k q c"
    using Cons.prems by (auto simp: ofo_sorted_def fits_def)
  have n: "b_seq ?n = b_seq k \<or> before k ?n \<or> before ?n k" using Cons.prems(2) by (simp add: fits_def)
  consider (less) "b_seq k < b_seq ?n" | (eq) "b_seq k = b_seq ?n" | (more) "b_seq ?n < b_seq k"
    by fastforce
  then show ?case
  proof cases
    case less
    then have bk: "before k ?n" using n by (auto simp: before_def)
    then have "\<not> b_end_seq k > b_seq ?n" by (auto simp: before_def)
    moreover have "before k (deref y c)" if "y \<in> set q" for y
    proof -
      have "b_seq ?n < b_seq (deref y c)" using s(2) that by (auto simp: before_def)
      then show ?thesis using bk by (auto simp: before_def)
    qed
    ultimately show ?thesis using less bk
      by (auto simp: Let_def intro: exI [of _ "[]"] exI [of _ q])
  next
    case eq
    then show ?thesis by simp
  next
    case more
    then have nk: "before ?n k" using n by (auto simp: before_def)
    have "insert_pos k (n # q) c = insert_pos k q c" using more by (auto simp: Let_def)
    then show ?thesis
      using Cons.IH [OF s(1) f] nk
      by (auto split: insert_at.splits) (metis Cons_eq_appendI set_ConsD)
  qed
qed

lemma insert_ordered_spec:
  assumes "ofo_sorted (tk_ofo_queue (c_sk c)) c" and "fits (deref b c) (tk_ofo_queue (c_sk c)) c"
    and "distinct (tk_ofo_queue (c_sk c))"
  shows "(\<exists>n \<in> set (tk_ofo_queue (c_sk c)). b_seq (deref n c) = b_seq (deref b c)) \<and> tcp_data_insert_ordered b c = c
    \<or> (\<exists>xs ys. tk_ofo_queue (c_sk c) = xs @ ys
        \<and> (\<forall>x \<in> set xs. before (deref x c) (deref b c)) \<and> (\<forall>y \<in> set ys. before (deref b c) (deref y c))
        \<and> tcp_data_insert_ordered b c =
            upd_sk (\<lambda>k. k\<lparr>tk_ofo_queue := xs @ b # ys\<rparr>) (upd_skb b (\<lambda>k. k\<lparr>b_refcnt := b_refcnt k + 1\<rparr>) c))"
proof (cases "insert_pos (deref b c) (tk_ofo_queue (c_sk c)) c")
  case (Before n)
  then obtain xs ys where q: "tk_ofo_queue (c_sk c) = xs @ n # ys"
    "\<forall>x \<in> set xs. before (deref x c) (deref b c)" "\<forall>y \<in> set (n # ys). before (deref b c) (deref y c)"
    using insert_pos_spec [OF assms(1,2)] by auto
  have "q_add b n (xs @ n # ys) = xs @ b # n # ys"
    using assms(3) q(1) by (intro q_add_split) auto
  then show ?thesis using q Before
    by (intro disjI2 exI [of _ xs] exI [of _ "n # ys"]) (simp add: tcp_data_insert_ordered_def upd_sk_def)
next
  case Present
  then show ?thesis using insert_pos_spec [OF assms(1,2)] by (simp add: tcp_data_insert_ordered_def)
next
  case At_tail
  then show ?thesis
    using insert_pos_spec [OF assms(1,2)]
    by (intro disjI2 exI [of _ "tk_ofo_queue (c_sk c)"] exI [of _ "[]"])
      (simp add: tcp_data_insert_ordered_def q_tail_def upd_sk_def)
qed

lemma ofo_sorted_cong:
  assumes "\<forall>b \<in> set q. b_seq (deref b s') = b_seq (deref b s) \<and> b_end_seq (deref b s') = b_end_seq (deref b s)"
  shows "ofo_sorted q s' = ofo_sorted q s"
  using assms by (induction q) (auto simp: ofo_sorted_def before_def)

lemma calculate_sacks_heap [simp]:
  "s_skbs (snd (tcp_calculate_sacks c)) = s_skbs c" "heap_ok (snd (tcp_calculate_sacks c)) = heap_ok c"
  "sk_receive_queue (c_sk (snd (tcp_calculate_sacks c))) = sk_receive_queue (c_sk c)"
  "tk_ofo_queue (c_sk (snd (tcp_calculate_sacks c))) = tk_ofo_queue (c_sk c)"
  by (simp_all add: tcp_calculate_sacks_def Let_def split_beta)

lemma send_ack_heap:
  assumes "heap_ok c"
  shows "s_skbs (snd (tcp_send_ack c)) = s_skbs c"
  using tcp_send_ack_tx [OF assms] assms by (auto simp: tcp_tx_def tx_frame_def)

text \<open>
  What \<open>tcp_data_queue\<close> does with any other segment: a repeated one changes no buffer and no queue,
  a new one is linked in at its place.
\<close>

lemma data_queue_out_of_order:
  assumes "rcv_wnd (tcb_of c) \<noteq> 0" and "b_seq (deref b c) \<noteq> rcv_nxt (tcb_of c)" and "heap_ok c"
    and "distinct (tk_ofo_queue (c_sk c))" "ofo_sorted (tk_ofo_queue (c_sk c)) c"
    and "fits (deref b c) (tk_ofo_queue (c_sk c)) c"
  shows "heap_ok (snd (tcp_data_queue b c)) \<and> s_bnext c \<le> s_bnext (snd (tcp_data_queue b c))
    \<and> tcb_of (snd (tcp_data_queue b c)) = tcb_of c
    \<and> sk_receive_queue (c_sk (snd (tcp_data_queue b c))) = sk_receive_queue (c_sk c)
    \<and> ((\<exists>n \<in> set (tk_ofo_queue (c_sk c)). b_seq (deref n c) = b_seq (deref b c))
         \<and> tk_ofo_queue (c_sk (snd (tcp_data_queue b c))) = tk_ofo_queue (c_sk c)
         \<and> s_skbs (snd (tcp_data_queue b c)) = s_skbs c
       \<or> (\<exists>xs ys. tk_ofo_queue (c_sk c) = xs @ ys
         \<and> tk_ofo_queue (c_sk (snd (tcp_data_queue b c))) = xs @ b # ys
         \<and> (\<forall>x \<in> set xs. before (deref x c) (deref b c)) \<and> (\<forall>y \<in> set ys. before (deref b c) (deref y c))
         \<and> s_skbs (snd (tcp_data_queue b c)) = s_skbs (upd_skb b (\<lambda>k. k\<lparr>b_refcnt := b_refcnt k + 1\<rparr>) c)))"
proof -
  define c1 where "c1 = tcp_data_insert_ordered b c"
  define c2 where "c2 = (if tk_sackok (c_sk c1) \<noteq> 0 then snd (tcp_calculate_sacks c1) else c1)"
  have R: "snd (tcp_data_queue b c) = snd (tcp_send_ack c2)"
    using assms(1,2) by (simp add: tcp_data_queue_def Let_def c1_def c2_def)
  have c1: "heap_ok c1" "sk_receive_queue (c_sk c1) = sk_receive_queue (c_sk c)"
    using assms(3) by (simp_all add: c1_def tcp_data_insert_ordered_def Let_def split: insert_at.split)
  have c2: "heap_ok c2" "s_skbs c2 = s_skbs c1" "sk_receive_queue (c_sk c2) = sk_receive_queue (c_sk c)"
    "tk_ofo_queue (c_sk c2) = tk_ofo_queue (c_sk c1)" "tcb_of c2 = tcb_of c"
    using c1 by (simp_all add: c2_def) (simp_all add: c1_def)
  have "s_bnext c2 = s_bnext c"
    by (simp add: c2_def c1_def tcp_calculate_sacks_def tcp_data_insert_ordered_def Let_def case_prod_beta
        split: insert_at.split)
  then have heap: "heap_ok (snd (tcp_send_ack c2)) \<and> s_bnext c \<le> s_bnext (snd (tcp_send_ack c2))"
    using tcp_send_ack_tx [OF c2(1)] c2(1) heap_ok_upd(1) [of "\<lambda>_. c_sk c2" "snd (tcp_send_ack c2)"]
    by (simp add: tcp_tx_def tx_frame_def upd_sk_def)
  have common: "heap_ok (snd (tcp_data_queue b c)) \<and> s_bnext c \<le> s_bnext (snd (tcp_data_queue b c))"
    "tcb_of (snd (tcp_data_queue b c)) = tcb_of c"
    "sk_receive_queue (c_sk (snd (tcp_data_queue b c))) = sk_receive_queue (c_sk c)"
    "tk_ofo_queue (c_sk (snd (tcp_data_queue b c))) = tk_ofo_queue (c_sk c1)"
    "s_skbs (snd (tcp_data_queue b c)) = s_skbs c1"
    using heap c2 by (simp_all add: R send_ack_heap)
  from insert_ordered_spec [OF assms(5,6,4), folded c1_def] show ?thesis
  proof
    assume "\<exists>xs ys. tk_ofo_queue (c_sk c) = xs @ ys
        \<and> (\<forall>x \<in> set xs. before (deref x c) (deref b c)) \<and> (\<forall>y \<in> set ys. before (deref b c) (deref y c))
        \<and> c1 = upd_sk (\<lambda>k. k\<lparr>tk_ofo_queue := xs @ b # ys\<rparr>) (upd_skb b (\<lambda>k. k\<lparr>b_refcnt := b_refcnt k + 1\<rparr>) c)"
    then obtain xs ys where n: "tk_ofo_queue (c_sk c) = xs @ ys"
      "\<forall>x \<in> set xs. before (deref x c) (deref b c)" "\<forall>y \<in> set ys. before (deref b c) (deref y c)"
      "tk_ofo_queue (c_sk c1) = xs @ b # ys"
      "s_skbs c1 = s_skbs (upd_skb b (\<lambda>k. k\<lparr>b_refcnt := b_refcnt k + 1\<rparr>) c)" by auto
    then show ?thesis unfolding common(4,5) using common(1-3) by blast
  qed (use common in auto)
qed

text \<open>
  C11: A segment that is not at rcv_nxt, and either repeats a queued segment or overlaps none, is
  kept for later: the out-of-order queue stays sorted without overlap and gains the segment (with
  one reference) unless it holds its sequence number already, while the stream, rcv_nxt and the
  data of every buffer stay as they were.
\<close>

theorem out_of_order_data_kept:
  assumes "rcv_wnd (tcb_of c) \<noteq> 0" and "b_seq (deref b c) \<noteq> rcv_nxt (tcb_of c)"
    and "heap_ok c" "live b c" "b \<notin> set (sk_receive_queue (c_sk c))"
    and "distinct (b # tk_ofo_queue (c_sk c))" and "ofo_sorted (tk_ofo_queue (c_sk c)) c"
    and "fits (deref b c) (tk_ofo_queue (c_sk c)) c"
  shows "stream (snd (tcp_data_queue b c)) = stream c
    \<and> tcb_of (snd (tcp_data_queue b c)) = tcb_of c
    \<and> ofo_sorted (tk_ofo_queue (c_sk (snd (tcp_data_queue b c)))) (snd (tcp_data_queue b c))
    \<and> (if \<exists>n \<in> set (tk_ofo_queue (c_sk c)). b_seq (deref n c) = b_seq (deref b c)
       then tk_ofo_queue (c_sk (snd (tcp_data_queue b c))) = tk_ofo_queue (c_sk c)
       else set (tk_ofo_queue (c_sk (snd (tcp_data_queue b c)))) = insert b (set (tk_ofo_queue (c_sk c)))
         \<and> b_refcnt (deref b (snd (tcp_data_queue b c))) = b_refcnt (deref b c) + 1)
    \<and> (\<forall>b'. payload (deref b' (snd (tcp_data_queue b c))) = payload (deref b' c))"
proof -
  let ?q = "tk_ofo_queue (c_sk c)" and ?R = "snd (tcp_data_queue b c)"
  have q: "distinct ?q" "b \<notin> set ?q" using assms(6) by auto
  note spec = data_queue_out_of_order [OF assms(1-3) q(1) assms(7,8)]
  then consider (dup) "\<exists>n \<in> set ?q. b_seq (deref n c) = b_seq (deref b c)"
      "tk_ofo_queue (c_sk ?R) = ?q" "s_skbs ?R = s_skbs c"
    | (new) xs ys where "?q = xs @ ys" "tk_ofo_queue (c_sk ?R) = xs @ b # ys"
      "\<forall>x \<in> set xs. before (deref x c) (deref b c)" "\<forall>y \<in> set ys. before (deref b c) (deref y c)"
      "s_skbs ?R = s_skbs (upd_skb b (\<lambda>k. k\<lparr>b_refcnt := b_refcnt k + 1\<rparr>) c)" by blast
  then show ?thesis
  proof cases
    case dup
    then have d: "deref b' ?R = deref b' c" for b' by (simp add: deref_def)
    then have "ofo_sorted ?q ?R" using assms(7) by (simp add: ofo_sorted_def)
    with dup d spec show ?thesis by (simp add: stream_of_def)
  next
    case new
    then have d: "deref b' ?R = deref b' (upd_skb b (\<lambda>k. k\<lparr>b_refcnt := b_refcnt k + 1\<rparr>) c)" for b'
      by (simp add: deref_def)
    then have e: "b_seq (deref b' ?R) = b_seq (deref b' c)" "b_end_seq (deref b' ?R) = b_end_seq (deref b' c)"
      "payload (deref b' ?R) = payload (deref b' c)" for b'
      using assms(4) by (cases "b' = b"; simp)+
    have "ofo_sorted (xs @ b # ys) c"
      using assms(7) new(1,3,4) by (auto simp: ofo_sorted_def sorted_wrt_append)
    then have "ofo_sorted (xs @ b # ys) ?R" using e ofo_sorted_cong [of "xs @ b # ys" ?R c] by simp
    moreover have "\<not> (\<exists>n \<in> set ?q. b_seq (deref n c) = b_seq (deref b c))"
      using new(1,3,4) by (auto dest: before_neq)
    ultimately show ?thesis
      using new(1,2) d [of b] e spec assms(4) by (auto simp: stream_of_def)
  qed
qed

text \<open>The segment at 502 arrives first: \<open>gap_demo\<close> without it in the queue.\<close>

definition ahead_demo :: tcpctx where
  "ahead_demo = upd_skb 1 (\<lambda>k. k\<lparr>b_refcnt := 0\<rparr>) (upd_sk (\<lambda>k. k\<lparr>tk_ofo_queue := []\<rparr>) gap_demo)"

theorem out_of_order_data_kept_witness:
  "set (tk_ofo_queue (c_sk (snd (tcp_data_queue 1 ahead_demo)))) = {1}
    \<and> b_refcnt (deref 1 (snd (tcp_data_queue 1 ahead_demo))) = 1
    \<and> rcv_nxt (tcb_of (snd (tcp_data_queue 1 ahead_demo))) = 500"
proof -
  have d: "tk_tcb (c_sk ahead_demo) = tk_tcb (c_sk (demo_ctx TCP_ESTABLISHED))" "tk_ofo_queue (c_sk ahead_demo) = []"
    "sk_receive_queue (c_sk ahead_demo) = []"
    by (simp_all add: ahead_demo_def gap_demo_def demo_ctx_def stack.defs tcpctx.defs tcp_alloc_sock_def
        tcp_sock.defs sock.defs zero_sock_def)
  have g: "live 1 gap_demo" "b_seq (deref 1 gap_demo) = 502"
    by (simp_all add: gap_demo_def deref_def live_def)
  have k: "live 1 ahead_demo" "b_seq (deref 1 ahead_demo) = 502" "b_refcnt (deref 1 ahead_demo) = 0"
    using g by (simp_all add: ahead_demo_def)
  have "heap_ok gap_demo" by (simp add: gap_demo_def) (simp add: heap_ok_def live_def)
  then have hk: "heap_ok ahead_demo" by (simp add: ahead_demo_def)
  have w: "rcv_wnd (tcb_of ahead_demo) \<noteq> 0" "rcv_nxt (tcb_of ahead_demo) = 500" by (simp_all add: d zero_tcb_def)
  have o: "ofo_sorted (tk_ofo_queue (c_sk ahead_demo)) ahead_demo"
    "fits (deref 1 ahead_demo) (tk_ofo_queue (c_sk ahead_demo)) ahead_demo"
    "distinct (1 # tk_ofo_queue (c_sk ahead_demo))" "1 \<notin> set (sk_receive_queue (c_sk ahead_demo))"
    by (simp_all add: d ofo_sorted_def fits_def)
  show ?thesis
    using out_of_order_data_kept [OF w(1) _ hk k(1) o(4,3,1,2)] k w(2) d(2) by auto
qed

end
