(* ===== verification/Tcp_Segment.thy ===== *)
theory Tcp_Segment
  imports Tcp_States
begin

unbundle bit_operations_syntax

text \<open>
  The bytes \<open>tcp_transmit_skb\<close> puts on the wire: the segment as a function of the connection,
  the checksum a receiver computes over it with the pseudo header, and where the 32-bit
  accumulator of \<open>tcp_udp_checksum\<close> loses a carry.
\<close>

subsection \<open>The checksum with its pseudo header\<close>

definition pseudo_hdr :: "u32 \<Rightarrow> u32 \<Rightarrow> nat \<Rightarrow> bytes" where
  "pseudo_hdr saddr daddr len = be32 saddr @ be32 daddr @ be16 6 @ be16 (of_nat len)"

text \<open>What a receiver checks of a segment: RFC 793, section 3.1.\<close>

definition tcp_verifies :: "u32 \<Rightarrow> u32 \<Rightarrow> bytes \<Rightarrow> bool" where
  "tcp_verifies saddr daddr seg \<longleftrightarrow> checksum (pseudo_hdr saddr daddr (length seg) @ seg) 0 = 0"

lemma le32_halves: "le32 v = le16 (ucast v) @ le16 (ucast (drop_bit 16 v))"
  by (auto simp: le32_def le16_def bit_simps intro!: bit_word_eqI)

lemma wsum_le32: "wsum (le32 v @ ys) mod 65535 = (unat v + wsum ys) mod 65535"
proof -
  have "unat (ucast v :: u16) = unat v mod 65536"
    by (simp add: unsigned_ucast_eq take_bit_eq_mod)
  moreover have "unat (ucast (drop_bit 16 v) :: u16) = unat v div 65536"
  proof -
    have "unat v div 65536 < 65536" using unat_u32_less [of v] by linarith
    then show ?thesis by (simp only: unsigned_ucast_eq take_bit_eq_mod unat_high16) simp
  qed
  ultimately have "wsum (le32 v @ ys) = unat v mod 65536 + unat v div 65536 + wsum ys"
    by (simp add: le32_halves)
  moreover have "unat v + wsum ys = unat v mod 65536 + unat v div 65536 + wsum ys + 65535 * (unat v div 65536)"
    using mod_div_mult_eq [of "unat v" 65536] by linarith
  ultimately show ?thesis by (metis mod_mult_self2)
qed

definition pseudo_sum :: "u32 \<Rightarrow> u32 \<Rightarrow> nat \<Rightarrow> nat" where
  "pseudo_sum saddr daddr len =
     unat (htonl saddr) + unat (htonl daddr) + unat (htons 6) + unat (htons (of_nat len))"

lemma wsum_pseudo:
  "wsum (pseudo_hdr s d n @ seg) mod 65535 = (pseudo_sum s d n + wsum seg) mod 65535"
proof -
  have "wsum (pseudo_hdr s d n @ seg) mod 65535 =
      (unat (htonl s) + wsum (le32 (htonl d) @ le16 (htons 6) @ le16 (htons (of_nat n)) @ seg)) mod 65535"
    by (simp add: pseudo_hdr_def be16_def be32_def wsum_le32)
  also have "\<dots> = (unat (htonl s) + (unat (htonl d) + wsum (le16 (htons 6) @ le16 (htons (of_nat n)) @ seg))) mod 65535"
    by (rule mod_add_cong) (simp_all add: wsum_le32 del: wsum_le16)
  finally show ?thesis by (simp add: pseudo_sum_def ac_simps)
qed

definition csum_start :: "u32 \<Rightarrow> u32 \<Rightarrow> nat \<Rightarrow> u32" where
  "csum_start saddr daddr len =
     htonl saddr + htonl daddr + ucast (htons (ucast IP_TCP)) + ucast (htons (of_nat len))"

lemma tcp_udp_checksum_start:
  "tcp_udp_checksum (htonl s) (htonl d) IP_TCP seg = checksum seg (csum_start s d (length seg))"
  by (simp add: tcp_udp_checksum_def csum_start_def)

lemma unat_csum_start: "unat (csum_start s d n) = pseudo_sum s d n mod 2 ^ 32"
proof -
  have "ucast IP_TCP = (6 :: u16)" by (simp add: IP_TCP_def)
  then show ?thesis
    by (simp add: csum_start_def pseudo_sum_def unat_word_ariths unsigned_ucast_eq take_bit_eq_mod mod_simps)
qed

lemma checksum_sum:
  assumes "unat st + wsum bs < 2 ^ 32"
  shows "(unat st + wsum bs + unat (checksum bs st)) mod 65535 = 0"
proof -
  let ?f = "fold_sum (st + sum_every_16bits bs)"
  have s: "unat (st + sum_every_16bits bs) = unat st + wsum bs"
    using assms by (simp add: unat_word_ariths unat_sum_every_16bits)
  have c: "unat (checksum bs st) = 65535 - unat ?f" "unat ?f \<le> 65535"
    by (rule unat_checksum, rule fold_sum_le)
  have "(unat st + wsum bs + unat (checksum bs st)) mod 65535 = (unat ?f + unat (checksum bs st)) mod 65535"
    using fold_sum_mod [of "st + sum_every_16bits bs"] by (intro mod_add_cong) (simp_all add: s)
  then show ?thesis using c by simp
qed

text \<open>A segment verifies when its sum with the pseudo header is 0 modulo 65535.\<close>

lemma tcp_verifies_iff:
  assumes "length seg < 65536"
  shows "tcp_verifies s d seg \<longleftrightarrow> (pseudo_sum s d (length seg) + wsum seg) mod 65535 = 0"
proof -
  let ?p = "pseudo_hdr s d (length seg) @ seg"
  have l: "length (pseudo_hdr s d (length seg)) = 12" by (simp add: pseudo_hdr_def)
  then have "(length ?p + 1) div 2 \<le> 32774" using assms by simp
  then have "65535 * ((length ?p + 1) div 2) \<le> 65535 * 32774" by (rule mult_le_mono2)
  then have b: "wsum ?p < 2 ^ 32" using order_trans [OF wsum_bound [of ?p]] by fastforce
  have "wsum ?p = wsum (be32 s @ be32 d) + wsum (be16 6 @ be16 (of_nat (length seg)) @ seg)"
    by (simp add: pseudo_hdr_def be32_def flip: wsum_append)
  moreover have "wsum (be16 6 @ be16 (of_nat (length seg)) @ seg) \<ge> unat (htons 6)"
    by (simp add: be16_def)
  moreover have "unat (htons 6) = 1536" by code_simp
  ultimately have "wsum ?p \<noteq> 0" by linarith
  then have "checksum ?p 0 = 0 \<longleftrightarrow> wsum ?p mod 65535 = 0"
    using unat_sum_every_16bits [OF b] unat_eq_zero [of "sum_every_16bits ?p"] by (simp add: checksum_0_iff)
  then show ?thesis by (simp add: tcp_verifies_def wsum_pseudo)
qed

subsection \<open>The segment\<close>

text \<open>The header before its checksum is filled in, and the bytes from there on.\<close>

definition seg_header :: "tcp_sock \<Rightarrow> u32 \<Rightarrow> tcphdr \<Rightarrow> tcphdr" where
  "seg_header k seq th = tcp_hton (tcp_fill_hdr k seq (tcp_set_hlen th))"

definition tcp_segment :: "tcp_sock \<Rightarrow> u32 \<Rightarrow> tcphdr \<Rightarrow> bytes \<Rightarrow> bytes" where
  "tcp_segment k seq th body =
     (let h = seg_header k seq th
      in enc_tcphdr (h\<lparr>th_csum := tcp_udp_checksum (htonl (sk_saddr k)) (htonl (sk_daddr k)) IP_TCP
                                   (enc_tcphdr h @ body)\<rparr>) @ body)"

lemma length_tcp_segment [simp]: "length (tcp_segment k seq th body) = 20 + length body"
  by (simp add: tcp_segment_def Let_def)

lemma segment_sum:
  assumes "length body < 65516"
    and "unat (csum_start (sk_saddr k) (sk_daddr k) (20 + length body))
           + 65535 * ((21 + length body) div 2) < 2 ^ 32"
  shows "(unat (csum_start (sk_saddr k) (sk_daddr k) (20 + length body))
           + wsum (tcp_segment k seq th body)) mod 65535 = 0"
proof -
  let ?h = "seg_header k seq th" and ?n = "20 + length body"
  let ?st = "csum_start (sk_saddr k) (sk_daddr k) ?n"
  let ?pre = "le16 (th_sport ?h) @ le16 (th_dport ?h) @ le32 (th_seq ?h) @ le32 (th_ack_seq ?h)
     @ [pack_nibbles (th_rsvd ?h) (th_hl ?h), pack_flags (th_flags ?h)] @ le16 (th_win ?h)"
  let ?post = "le16 (th_urp ?h) @ body"
  let ?S = "?pre @ le16 0 @ ?post"
  have "th_csum ?h = 0" by (simp add: seg_header_def tcp_hton_def tcp_fill_hdr_def)
  then have S: "enc_tcphdr ?h @ body = ?S" by (simp add: enc_tcphdr_def)
  have fl: "th_flags (?h\<lparr>th_csum := x\<rparr>) = th_flags ?h" for x by (simp add: th_flags_def)
  have T: "tcp_segment k seq th body = ?pre @ le16 (checksum ?S ?st) @ ?post"
    unfolding tcp_segment_def Let_def tcp_udp_checksum_start S
    by (simp add: enc_tcphdr_def fl)
  have even: "even (length ?pre)" by simp
  have w: "wsum (tcp_segment k seq th body) = wsum ?S + unat (checksum ?S ?st)"
    unfolding T using even by (simp only: wsum_append) simp
  have "length ?S = ?n" by simp
  then have "wsum ?S \<le> 65535 * ((21 + length body) div 2)" using wsum_bound [of ?S] by simp
  then have "(unat ?st + wsum ?S + unat (checksum ?S ?st)) mod 65535 = 0"
    using assms(2) by (intro checksum_sum) linarith
  then show ?thesis unfolding w by (simp add: add.assoc)
qed

text \<open>
  A buffer handed to \<open>tcp_transmit_skb\<close>: \<open>data\<close> points behind the header and its options, \<open>n\<close>
  bytes of data follow, and there is no SACK block to write.
\<close>

definition hdr_words :: "sk_buff \<Rightarrow> nat" where
  "hdr_words k = unat (th_hl (tcp_set_hlen (tcp_hdr k)))"

definition tcp_ready :: "nat \<Rightarrow> nat \<Rightarrow> tcpctx \<Rightarrow> bool" where
  "tcp_ready b n c \<longleftrightarrow> live b c
     \<and> (let k = deref b c; h = 4 * hdr_words k in
         20 \<le> h \<and> b_data k = int (34 + h) \<and> unat (b_len k) = n \<and> 34 + h + n \<le> length (b_mem k)
         \<and> h + n < 65500 \<and> (20 < h \<longrightarrow> tk_sackok (c_sk c) = 0 \<or> fst (tk_sacks (c_sk c) ! 0) = 0))"

definition seg_body :: "nat \<Rightarrow> sk_buff \<Rightarrow> bytes" where
  "seg_body n k = mread (b_mem k) 54 (4 * hdr_words k - 20 + n)"

lemma upd_skb_live: "live b s \<Longrightarrow> upd_skb b f s = put_skb b (f (deref b s)) s"
  by (simp add: upd_skb_def)

lemma b_mem_upd_th: "b_mem (upd_th f k) = mwrite (b_mem k) 34 (enc_tcphdr (f (tcp_hdr k)))"
  by (simp add: upd_th_def b_mem_put_bytes)

lemma upd_th_sel [simp]:
  "b_data (upd_th f k) = b_data k" "b_len (upd_th f k) = b_len k" "length (b_mem (upd_th f k)) = length (b_mem k)"
  "b_protocol (upd_th f k) = b_protocol k"
  by (simp_all add: upd_th_def)

lemma upd_th_push: "upd_th f (skb_push n k) = skb_push n (upd_th f k)"
  by (simp add: upd_th_def put_bytes_def skb_push_def tcp_hdr_def)

lemma upd_th_upd_th: "54 \<le> length (b_mem k) \<Longrightarrow> upd_th f (upd_th g k) = upd_th (\<lambda>th. f (g th)) k"
  by (simp add: upd_th_def put_bytes_def mwrite_def tcp_hdr_def mread_def enc_simps)

lemma tcp_hdr_upd_th [simp]: "54 \<le> length (b_mem k) \<Longrightarrow> tcp_hdr (upd_th f k) = f (tcp_hdr k)"
  by (simp add: upd_th_def)

lemma mread_upd_th:
  assumes "54 \<le> length (b_mem k)" and "20 \<le> n"
  shows "mread (b_mem (upd_th f k)) 34 n = enc_tcphdr (f (tcp_hdr k)) @ mread (b_mem k) 54 (n - 20)"
  using assms by (simp add: b_mem_upd_th mread_def mwrite_def)

text \<open>\<open>tcp_transmit_skb\<close> leaves the header in the buffer as sent and hands the segment to IP.\<close>

lemma tcp_transmit_eq:
  fixes seq :: u32
  assumes r: "tcp_ready b n c"
  defines "k \<equiv> deref b c"
  defines "h \<equiv> (seg_header (c_sk c) seq (tcp_hdr k))\<lparr>th_csum :=
      tcp_udp_checksum (htonl (sk_saddr (c_sk c))) (htonl (sk_daddr (c_sk c))) IP_TCP
        (enc_tcphdr (seg_header (c_sk c) seq (tcp_hdr k)) @ seg_body n k)\<rparr>"
  shows "tcp_transmit_skb b seq c =
    ip_output (c_sk c) b (put_skb b (skb_push (4 * hdr_words k) (put_tcp_hdr h k)) c)"
proof -
  have k: "live b c" "54 \<le> length (b_mem k)" "5 \<le> hdr_words k" "b_data k = int (34 + 4 * hdr_words k)"
    "unat (b_len k) = n" "34 + 4 * hdr_words k + n \<le> length (b_mem k)" "4 * hdr_words k + n < 65500"
    "5 < hdr_words k \<Longrightarrow> tk_sackok (c_sk c) = 0 \<or> fst (tk_sacks (c_sk c) ! 0) = 0"
    using r unfolding tcp_ready_def k_def Let_def by auto
  let ?H = "4 * hdr_words k"
  let ?hd = "seg_header (c_sk c) seq (tcp_hdr k)"
  let ?k3 = "skb_push ?H (upd_th (\<lambda>th. seg_header (c_sk c) seq th) k)"
  have hl: "unat (th_hl (tcp_set_hlen (tcp_hdr k))) * 4 = ?H" by (simp add: hdr_words_def)
  have nowr: "(if 5 < th_hl (tcp_set_hlen (tcp_hdr k)) then tcp_write_options b s else s) = s"
    if "c_sk s = c_sk c" for s
    using k(8) that
    by (auto simp: tcp_write_options_def Let_def hdr_words_def word_less_nat_alt)
  have len: "unat (b_len k + of_nat ?H) = n + ?H"
    using k(5,7) by (simp add: unat_word_ariths unat_of_nat)
  have ul: "unat (ucast (b_len k + of_nat ?H) :: u16) = n + ?H"
    using k(7) len by (simp add: unsigned_ucast_eq take_bit_eq_mod del: of_nat_mult)
  have reg: "in_region (b_mem k) (b_data k - int ?H) (n + ?H)" "nat (b_data k - int ?H) = 34"
    using k by (auto simp: in_region_def)
  have rd: "mread (b_mem ?k3) 34 (n + ?H) = enc_tcphdr ?hd @ seg_body n k"
  proof -
    have "n + ?H - 20 = ?H - 20 + n" using k(3) by simp
    moreover have "20 \<le> n + ?H" using k(3) by simp
    ultimately show ?thesis
      using mread_upd_th [OF k(2), of "n + ?H"] by (simp only: skb_push_sel seg_body_def)
  qed
  have cs: "tcp_v4_checksum ?k3 (htonl (sk_saddr (c_sk c))) (htonl (sk_daddr (c_sk c))) = th_csum h"
    using rd by (simp add: tcp_v4_checksum_def ul reg(2) h_def del: of_nat_mult)
  have fin: "upd_th (\<lambda>th. th\<lparr>th_csum := th_csum h\<rparr>) ?k3 = skb_push ?H (put_tcp_hdr h k)"
  proof -
    have "upd_th (\<lambda>th. th\<lparr>th_csum := th_csum h\<rparr>) ?k3 =
        skb_push ?H (upd_th (\<lambda>th. (seg_header (c_sk c) seq th)\<lparr>th_csum := th_csum h\<rparr>) k)"
      using k(2) by (simp only: upd_th_push upd_th_upd_th)
    moreover have "?hd\<lparr>th_csum := th_csum h\<rparr> = h" by (simp add: h_def)
    ultimately show ?thesis by (simp add: upd_th_def)
  qed
  have reg1: "in_region (b_mem k) 34 20" using k(2) by (simp add: in_region_def)
  have step: "upd_th tcp_hton (upd_th (tcp_fill_hdr (c_sk c) seq) (skb_push ?H (upd_th tcp_set_hlen k))) = ?k3"
    using k(2) by (simp add: upd_th_push upd_th_upd_th seg_header_def)
  have hk: "tcp_hdr (upd_th tcp_set_hlen k) = tcp_set_hlen (tcp_hdr k)" using k(2) by simp
  show ?thesis
    using k(1) unfolding tcp_transmit_skb_def Let_def
    by (simp add: upd_skb_live reg1 hk hl nowr step cs fin k_def [symmetric] del: of_nat_mult)
      (use reg ul len cs fin in \<open>simp add: in_region_def b_mem_upd_th del: of_nat_mult\<close>)
qed

subsection \<open>The frame\<close>

lemma tcp_transmit_ready:
  assumes r: "tcp_ready b n c"
  defines "k \<equiv> deref b c"
  shows "\<exists>c'. tcp_transmit_skb b seq c = ip_output (c_sk c) b c' \<and> ip_ready b (4 * hdr_words k + n) c'
    \<and> take (4 * hdr_words k + n) (drop 34 (b_mem (deref b c'))) = tcp_segment (c_sk c) seq (tcp_hdr k) (seg_body n k)
    \<and> (\<exists>h. deref b c' = skb_push (4 * hdr_words k) (put_tcp_hdr h k) \<and> th_flags h = th_flags (tcp_hdr k))
    \<and> (\<exists>k'. c' = put_skb b k' c)"
proof -
  have k: "live b c" "54 \<le> length (b_mem k)" "5 \<le> hdr_words k" "b_data k = int (34 + 4 * hdr_words k)"
    "unat (b_len k) = n" "34 + 4 * hdr_words k + n \<le> length (b_mem k)" "4 * hdr_words k + n < 65500"
    using r unfolding tcp_ready_def k_def Let_def by auto
  let ?h = "(seg_header (c_sk c) seq (tcp_hdr k))\<lparr>th_csum :=
      tcp_udp_checksum (htonl (sk_saddr (c_sk c))) (htonl (sk_daddr (c_sk c))) IP_TCP
        (enc_tcphdr (seg_header (c_sk c) seq (tcp_hdr k)) @ seg_body n k)\<rparr>"
  let ?k' = "skb_push (4 * hdr_words k) (put_tcp_hdr ?h k)"
  have len: "unat (b_len k + of_nat (4 * hdr_words k)) = 4 * hdr_words k + n"
    using k(5,7) by (simp add: unat_word_ariths unat_of_nat)
  have fl: "th_flags ?h = th_flags (tcp_hdr k)"
    by (simp add: th_flags_def seg_header_def tcp_hton_def tcp_fill_hdr_def tcp_set_hlen_def)
  have "take (4 * hdr_words k + n) (drop 34 (b_mem ?k')) = enc_tcphdr ?h @ seg_body n k"
    using k(2,3) by (simp add: b_mem_put_bytes mwrite_def seg_body_def mread_def)
  moreover have "\<dots> = tcp_segment (c_sk c) seq (tcp_hdr k) (seg_body n k)"
    by (simp add: tcp_segment_def Let_def)
  moreover have "ip_ready b (4 * hdr_words k + n) (put_skb b ?k' c)"
    using k len by (simp add: ip_ready_def del: of_nat_mult)
  ultimately show ?thesis
    using tcp_transmit_eq [OF r, of seq] k(1) fl unfolding k_def [symmetric]
    by (intro exI [of _ "put_skb b ?k' c"]) auto
qed

lemma seg_fields:
  fixes seq :: u32 and k :: tcp_sock and th0 :: tcphdr and body :: bytes
  defines "th \<equiv> tcp_ntoh (dec_tcphdr (take 20 (tcp_segment k seq th0 body)))"
  shows "th_sport th = sk_sport k" "th_dport th = sk_dport k" "th_seq th = seq"
    "th_ack_seq th = rcv_nxt (tk_tcb k)" "th_win th = ucast (rcv_wnd (tk_tcb k))"
    "th_flags th = th_flags th0" "th_hl th = th_hl (tcp_set_hlen th0)" "th_urp th = 0"
proof -
  have "take 20 (tcp_segment k seq th0 body) =
      enc_tcphdr ((seg_header k seq th0)\<lparr>th_csum := tcp_udp_checksum (htonl (sk_saddr k)) (htonl (sk_daddr k)) IP_TCP
                                   (enc_tcphdr (seg_header k seq th0) @ body)\<rparr>)"
    by (simp add: tcp_segment_def Let_def)
  then have th: "th = tcp_ntoh ((seg_header k seq th0)\<lparr>th_csum := tcp_udp_checksum (htonl (sk_saddr k))
      (htonl (sk_daddr k)) IP_TCP (enc_tcphdr (seg_header k seq th0) @ body)\<rparr>)"
    by (simp add: th_def enc_simps)
  show "th_sport th = sk_sport k" "th_dport th = sk_dport k" "th_seq th = seq"
    "th_ack_seq th = rcv_nxt (tk_tcb k)" "th_win th = ucast (rcv_wnd (tk_tcb k))"
    "th_flags th = th_flags th0" "th_hl th = th_hl (tcp_set_hlen th0)" "th_urp th = 0"
    unfolding th
    by (simp_all add: tcp_ntoh_def seg_header_def tcp_hton_def tcp_fill_hdr_def th_flags_def tcp_set_hlen_def)
qed

lemma seg_verifies:
  assumes "length body < 65480"
    and "pseudo_sum (sk_saddr k) (sk_daddr k) (20 + length body) + 65535 * ((21 + length body) div 2) < 2 ^ 32"
  shows "tcp_verifies (sk_saddr k) (sk_daddr k) (tcp_segment k seq th body)"
proof -
  have "unat (csum_start (sk_saddr k) (sk_daddr k) (20 + length body)) =
      pseudo_sum (sk_saddr k) (sk_daddr k) (20 + length body)"
    using assms(2) unat_csum_start by simp
  then show ?thesis
    using assms segment_sum [of body k seq th] by (simp add: tcp_verifies_iff)
qed

lemma seg_carry:
  assumes "length body < 65480" and "2 ^ 32 \<le> pseudo_sum (sk_saddr k) (sk_daddr k) (20 + length body)"
    and "pseudo_sum (sk_saddr k) (sk_daddr k) (20 + length body) + 65535 * ((21 + length body) div 2) < 2 ^ 33"
  shows "\<not> tcp_verifies (sk_saddr k) (sk_daddr k) (tcp_segment k seq th body)"
proof -
  let ?p = "pseudo_sum (sk_saddr k) (sk_daddr k) (20 + length body)"
  let ?w = "wsum (tcp_segment k seq th body)"
  have st: "unat (csum_start (sk_saddr k) (sk_daddr k) (20 + length body)) = ?p - 2 ^ 32"
    using assms(2,3) unat_csum_start by (simp add: le_mod_geq)
  have "(?p - 2 ^ 32 + ?w) mod 65535 = 0"
    using segment_sum [of body k seq th] assms by (simp add: st)
  then obtain q where "?p - 2 ^ 32 + ?w = 65535 * q" by (auto elim: dvdE simp: mod_eq_0_iff_dvd)
  then have "?p + ?w = 1 + 65535 * (q + 65537)" using assms(2) by simp
  then have "(?p + ?w) mod 65535 = 1" by (simp only: mod_mult_self2) simp
  then show ?thesis using assms(1) by (simp add: tcp_verifies_iff)
qed

text \<open>The segment on the wire, for a peer that is reachable.\<close>

lemma tcp_transmit_frame:
  assumes "tcp_ready b n c" and "route_lookup (sk_daddr (c_sk c)) c = Some rt" "netdev_ok (rt_dev rt)"
    and "arp_get_hwaddr (next_hop rt (sk_daddr (c_sk c))) (s_arp_cache c) = Some dmac" "length dmac = 6"
  defines "k \<equiv> deref b c"
  defines "len \<equiv> 4 * hdr_words k + n"
  shows "\<exists>F. s_tap (snd (tcp_transmit_skb b seq c)) = s_tap c @ [F] \<and> fst (tcp_transmit_skb b seq c) = s_write c F
    \<and> length F = 34 + len \<and> ntohl (ip_daddr (dec_iphdr (mread F 14 20))) = sk_daddr (c_sk c)
    \<and> drop 34 F = tcp_segment (c_sk c) seq (tcp_hdr k) (seg_body n k)
    \<and> (\<forall>b'. b' \<noteq> b \<longrightarrow> deref b' (snd (tcp_transmit_skb b seq c)) = deref b' c)
    \<and> s_fault (snd (tcp_transmit_skb b seq c)) = s_fault c
    \<and> stack.more (snd (tcp_transmit_skb b seq c)) = stack.more c"
proof -
  define seg where "seg = tcp_segment (c_sk c) seq (tcp_hdr k) (seg_body n k)"
  have r: "live b c" using assms(1) by (simp add: tcp_ready_def)
  obtain c2 k' where t: "tcp_transmit_skb b seq c = ip_output (c_sk c) b c2" "ip_ready b len c2"
    "take len (drop 34 (b_mem (deref b c2))) = seg" "c2 = put_skb b k' c"
    using tcp_transmit_ready [OF assms(1), of seq] unfolding len_def seg_def k_def by blast
  have c2: "s_arp_cache c2 = s_arp_cache c" "s_routes c2 = s_routes c" "s_tap c2 = s_tap c" "s_write c2 = s_write c"
    "s_fault c2 = s_fault c" "stack.more c2 = stack.more c"
    using t(4) r by simp_all
  have rl: "route_lookup (sk_daddr (c_sk c)) c2 = Some rt"
    using assms(2) c2 by (simp add: route_lookup_def)
  obtain F where F: "s_tap (snd (ip_output (c_sk c) b c2)) = s_tap c @ [F]"
    "fst (ip_output (c_sk c) b c2) = s_write c F" "length F = 34 + len"
    "ntohl (ip_daddr (dec_iphdr (mread F 14 20))) = sk_daddr (c_sk c)" "drop 34 F = seg"
    "\<forall>b'. b' \<noteq> b \<longrightarrow> deref b' (snd (ip_output (c_sk c) b c2)) = deref b' c2"
    "s_fault (snd (ip_output (c_sk c) b c2)) = s_fault c"
    using ip_output_sends [OF t(2) rl assms(3) _ assms(5)] assms(4) unfolding t(3) c2 by blast
  have "stack.more (snd (ip_output (c_sk c) b c2)) = stack.more c"
    using ip_output_frame [of b "{b}" c2 "c_sk c"] c2(6) by (simp add: tx_frame_def)
  moreover have "\<forall>b'. b' \<noteq> b \<longrightarrow> deref b' (snd (ip_output (c_sk c) b c2)) = deref b' c"
    using F(6) t(4) by simp
  ultimately show ?thesis using F unfolding t(1) seg_def by blast
qed

lemma seg_body_eq:
  assumes "tcp_ready b n c" and "len = 4 * hdr_words (deref b c) + n"
  shows "seg_body n (deref b c) = mread (b_mem (deref b c)) 54 (len - 20)"
    and "length (seg_body n (deref b c)) = len - 20" "20 \<le> len" "len < 65500"
proof -
  have r: "20 \<le> 4 * hdr_words (deref b c)" "34 + len \<le> length (b_mem (deref b c))" "len < 65500"
    using assms unfolding tcp_ready_def Let_def by auto
  then show "20 \<le> len" "len < 65500" using assms(2) by simp_all
  have "4 * hdr_words (deref b c) - 20 + n = len - 20" using r(1) assms(2) by simp
  then show "seg_body n (deref b c) = mread (b_mem (deref b c)) 54 (len - 20)"
    by (simp add: seg_body_def)
  then show "length (seg_body n (deref b c)) = len - 20" using r by (simp add: length_mread)
qed

text \<open>
  C13: When the peer is reachable, tcp_transmit_skb puts exactly one frame on the wire: addressed
  by IP, then the TCP header with the connection's ports, the given sequence number, rcv_nxt and
  rcv_wnd, the flags and length set in the buffer, then its options and data untouched; and the
  segment verifies at the receiver, as long as its checksum sum does not leave 32 bits.  The
  connection and all other buffers stay as they were.
\<close>

theorem tcp_transmit_sends:
  assumes "tcp_ready b n c" and "route_lookup (sk_daddr (c_sk c)) c = Some rt" "netdev_ok (rt_dev rt)"
    and "arp_get_hwaddr (next_hop rt (sk_daddr (c_sk c))) (s_arp_cache c) = Some dmac" "length dmac = 6"
    and "len = 4 * hdr_words (deref b c) + n"
    and "pseudo_sum (sk_saddr (c_sk c)) (sk_daddr (c_sk c)) len + 65535 * ((len + 1) div 2) < 2 ^ 32"
  shows "\<exists>F. let th = tcp_ntoh (dec_tcphdr (mread F 34 20)); (rc, c') = tcp_transmit_skb b seq c in
      s_tap c' = s_tap c @ [F] \<and> rc = s_write c F \<and> length F = 34 + len
    \<and> ntohl (ip_daddr (dec_iphdr (mread F 14 20))) = sk_daddr (c_sk c)
    \<and> th_sport th = sk_sport (c_sk c) \<and> th_dport th = sk_dport (c_sk c) \<and> th_seq th = seq
    \<and> th_ack_seq th = rcv_nxt (tcb_of c) \<and> th_win th = ucast (rcv_wnd (tcb_of c))
    \<and> th_flags th = th_flags (tcp_hdr (deref b c)) \<and> unat (th_hl th) = hdr_words (deref b c)
    \<and> drop 54 F = mread (b_mem (deref b c)) 54 (len - 20)
    \<and> tcp_verifies (sk_saddr (c_sk c)) (sk_daddr (c_sk c)) (drop 34 F)
    \<and> c_sk c' = c_sk c \<and> c_sock c' = c_sock c \<and> (\<forall>b'. b' \<noteq> b \<longrightarrow> deref b' c' = deref b' c)
    \<and> s_fault c' = s_fault c"
proof -
  define k where "k = deref b c"
  define seg where "seg = tcp_segment (c_sk c) seq (tcp_hdr k) (seg_body n k)"
  note sb = seg_body_eq [OF assms(1,6), folded k_def]
  obtain F where F: "s_tap (snd (tcp_transmit_skb b seq c)) = s_tap c @ [F]"
    "fst (tcp_transmit_skb b seq c) = s_write c F" "length F = 34 + len"
    "ntohl (ip_daddr (dec_iphdr (mread F 14 20))) = sk_daddr (c_sk c)" "drop 34 F = seg"
    "\<forall>b'. b' \<noteq> b \<longrightarrow> deref b' (snd (tcp_transmit_skb b seq c)) = deref b' c"
    "s_fault (snd (tcp_transmit_skb b seq c)) = s_fault c"
    "stack.more (snd (tcp_transmit_skb b seq c)) = stack.more c"
    using tcp_transmit_frame [OF assms(1-5), of seq] unfolding assms(6) seg_def k_def by blast
  have hd: "mread F 34 20 = take 20 seg" "drop 54 F = seg_body n k"
  proof -
    have "drop 54 F = drop 20 (drop 34 F)" by simp
    then show "drop 54 F = seg_body n k" by (simp only: F(5) seg_def tcp_segment_def Let_def) simp
  qed (simp add: mread_def F(5))
  have "20 + length (seg_body n k) = len" "21 + length (seg_body n k) = len + 1"
    using sb by simp_all
  then have "pseudo_sum (sk_saddr (c_sk c)) (sk_daddr (c_sk c)) (20 + length (seg_body n k))
      + 65535 * ((21 + length (seg_body n k)) div 2) < 2 ^ 32"
    using assms(7) by (simp only:)
  then have v: "tcp_verifies (sk_saddr (c_sk c)) (sk_daddr (c_sk c)) seg"
    unfolding seg_def using sb(2,4) by (intro seg_verifies) simp_all
  note s = seg_fields [of "c_sk c" seq "tcp_hdr k" "seg_body n k", folded seg_def]
  have hw: "unat (th_hl (tcp_set_hlen (tcp_hdr k))) = hdr_words k"
    by (simp add: hdr_words_def)
  show ?thesis
    unfolding k_def [symmetric] Let_def case_prod_beta
    using F(1-4,6,7) s hw v c_more(1,2) [OF F(8)]
    by (intro exI [of _ F] conjI) (simp_all only: hd F(5) sb(1) simp_thms)
qed

text \<open>
  A connection from 10.0.0.4 to a host beyond the gateway, whose hardware address is known, and a
  buffer with four bytes of data.
\<close>

definition seg_skb :: sk_buff where
  "seg_skb = (new_skb 58)\<lparr>b_mem := replicate 54 0 @ [1, 2, 3, 4], b_data := 54, b_len := 4, b_dlen := 4,
     b_protocol := 6\<rparr>"

definition seg_demo :: "u32 \<Rightarrow> tcpctx" where
  "seg_demo daddr = stack.extend
     ((booted (\<lambda>f. int (length f)))
        \<lparr>s_skbs := [0 \<mapsto> seg_skb], s_bnext := 1,
         s_arp_cache := [\<lparr>ae_hwtype = 1, ae_sip = 0x0a000005, ae_smac = [2, 0, 0, 0, 0, 1],
                          ae_state = ARP_RESOLVED\<rparr>]\<rparr>)
     (tcpctx.fields 0 40001
       (tcp_alloc_sock\<lparr>sk_state := TCP_ESTABLISHED, sk_saddr := 0x0a000004, sk_daddr := daddr\<rparr>)
       demo_socket)"

definition demo_rt :: rtentry where
  "demo_rt = route_alloc 0 0x0a000005 0 RT_GATEWAY 0 tap_dev"

lemma seg_demo_sel:
  "c_sk (seg_demo d) = tcp_alloc_sock\<lparr>sk_state := TCP_ESTABLISHED, sk_saddr := 0x0a000004, sk_daddr := d\<rparr>"
  "s_tap (seg_demo d) = []" "c_sock (seg_demo d) = demo_socket"
  "sk_saddr (c_sk (seg_demo d)) = 0x0a000004" "sk_daddr (c_sk (seg_demo d)) = d"
  by (simp_all add: seg_demo_def stack.defs tcpctx.defs)

lemma seg_demo_skb: "live 0 (seg_demo d)" "deref 0 (seg_demo d) = seg_skb"
  by (simp_all add: seg_demo_def live_def deref_def stack.defs tcpctx.defs)

lemma hdr_words_seg_skb: "hdr_words seg_skb = 5"
  by code_simp

lemma seg_demo_ready: "tcp_ready 0 4 (seg_demo d)"
  by (simp add: tcp_ready_def seg_demo_skb hdr_words_seg_skb Let_def) (simp add: seg_skb_def new_skb_def)

lemma seg_demo_arp:
  "arp_get_hwaddr (next_hop demo_rt d) (s_arp_cache (seg_demo e)) = Some [2, 0, 0, 0, 0, 1]"
  by (simp add: demo_rt_def out_demo_hop seg_demo_def stack.defs tcpctx.defs)

lemma seg_demo_route:
  "route_lookup 0x08080808 (seg_demo 0x08080808) = Some demo_rt"
  "route_lookup 0x080808fe (seg_demo 0x080808fe) = Some demo_rt"
  by (simp_all add: seg_demo_def route_lookup_def booted_def route_matches_def route_alloc_def demo_rt_def
      stack.defs tcpctx.defs)

lemma demo_swapped:
  "htonl 0x0a000004 = 0x0400000a" "htonl 0x08080808 = 0x08080808" "htonl 0x080808fe = 0xfe080808"
  "htons 6 = 0x600" "htons 24 = 0x1800"
  by code_simp+

lemma demo_sums:
  "pseudo_sum 0x0a000004 0x08080808 24 = 0xc082612" "pseudo_sum 0x0a000004 0x080808fe 24 = 0x102082612"
  by (simp_all add: pseudo_sum_def demo_swapped)

theorem tcp_transmit_sends_witness:
  "\<exists>F. s_tap (snd (tcp_transmit_skb 0 1001 (seg_demo 0x08080808))) = [F] \<and> length F = 58
    \<and> th_seq (tcp_ntoh (dec_tcphdr (mread F 34 20))) = 1001 \<and> drop 54 F = [1, 2, 3, 4]
    \<and> tcp_verifies 0x0a000004 0x08080808 (drop 34 F)"
proof -
  have hw: "hdr_words (deref 0 (seg_demo 0x08080808)) = 5"
    "mread (b_mem (deref 0 (seg_demo 0x08080808))) 54 4 = [1, 2, 3, 4]"
    by (simp_all add: seg_demo_skb hdr_words_seg_skb) (simp add: seg_skb_def mread_def)
  have p: "pseudo_sum 0x0a000004 0x08080808 24 + 65535 * ((24 + 1) div 2) < 2 ^ 32" by (simp add: demo_sums)
  have ok: "netdev_ok (rt_dev demo_rt)" by (simp add: demo_rt_def route_alloc_def)
  have len: "24 = 4 * hdr_words (deref 0 (seg_demo 0x08080808)) + 4" by (simp add: hw(1))
  have rt: "route_lookup (sk_daddr (c_sk (seg_demo 0x08080808))) (seg_demo 0x08080808) = Some demo_rt"
    "arp_get_hwaddr (next_hop demo_rt (sk_daddr (c_sk (seg_demo 0x08080808)))) (s_arp_cache (seg_demo 0x08080808)) =
       Some [2, 0, 0, 0, 0, 1]"
    using seg_demo_route seg_demo_arp by (simp_all only: seg_demo_sel(5))
  have p': "pseudo_sum (sk_saddr (c_sk (seg_demo 0x08080808))) (sk_daddr (c_sk (seg_demo 0x08080808))) 24
      + 65535 * ((24 + 1) div 2) < 2 ^ 32"
    using p by (simp only: seg_demo_sel(4,5))
  obtain F where F: "s_tap (snd (tcp_transmit_skb 0 1001 (seg_demo 0x08080808))) = s_tap (seg_demo 0x08080808) @ [F]"
    "length F = 34 + 24" "th_seq (tcp_ntoh (dec_tcphdr (mread F 34 20))) = 1001"
    "drop 54 F = mread (b_mem (deref 0 (seg_demo 0x08080808))) 54 (24 - 20)"
    "tcp_verifies (sk_saddr (c_sk (seg_demo 0x08080808))) (sk_daddr (c_sk (seg_demo 0x08080808))) (drop 34 F)"
    using tcp_transmit_sends [OF seg_demo_ready rt(1) ok rt(2) _ len p', of 1001]
    unfolding Let_def case_prod_beta by force
  then show ?thesis
    using hw(2) by (intro exI [of _ F]) (simp only: seg_demo_sel append_Nil simp_thms, simp)
qed

text \<open>
  C23: Where the two addresses, read in network order as the code stores them, sum to 2^32 or
  more, the carry out of the 32-bit accumulator is lost: the segment that leaves never verifies.
\<close>

theorem tcp_checksum_carry_lost:
  assumes "tcp_ready b n c" and "route_lookup (sk_daddr (c_sk c)) c = Some rt" "netdev_ok (rt_dev rt)"
    and "arp_get_hwaddr (next_hop rt (sk_daddr (c_sk c))) (s_arp_cache c) = Some dmac" "length dmac = 6"
    and "len = 4 * hdr_words (deref b c) + n"
    and "2 ^ 32 \<le> unat (htonl (sk_saddr (c_sk c))) + unat (htonl (sk_daddr (c_sk c)))"
    and "pseudo_sum (sk_saddr (c_sk c)) (sk_daddr (c_sk c)) len + 65535 * ((len + 1) div 2) < 2 ^ 33"
  shows "\<exists>F. s_tap (snd (tcp_transmit_skb b seq c)) = s_tap c @ [F]
    \<and> \<not> tcp_verifies (sk_saddr (c_sk c)) (sk_daddr (c_sk c)) (drop 34 F)"
proof -
  define k where "k = deref b c"
  note sb = seg_body_eq [OF assms(1,6), folded k_def]
  have l: "20 + length (seg_body n k) = len" "21 + length (seg_body n k) = len + 1"
    using sb by simp_all
  have "2 ^ 32 \<le> pseudo_sum (sk_saddr (c_sk c)) (sk_daddr (c_sk c)) (20 + length (seg_body n k))"
    using assms(7) by (simp add: pseudo_sum_def)
  moreover have "pseudo_sum (sk_saddr (c_sk c)) (sk_daddr (c_sk c)) (20 + length (seg_body n k))
      + 65535 * ((21 + length (seg_body n k)) div 2) < 2 ^ 33"
    using assms(8) unfolding l .
  ultimately have "\<not> tcp_verifies (sk_saddr (c_sk c)) (sk_daddr (c_sk c))
      (tcp_segment (c_sk c) seq (tcp_hdr k) (seg_body n k))"
    using sb(2,4) by (intro seg_carry) simp_all
  then show ?thesis
    using tcp_transmit_frame [OF assms(1-5), of seq] unfolding k_def [symmetric] by metis
qed

theorem tcp_checksum_carry_lost_witness:
  "\<exists>F. s_tap (snd (tcp_transmit_skb 0 1001 (seg_demo 0x080808fe))) = [F]
    \<and> \<not> tcp_verifies 0x0a000004 0x080808fe (drop 34 F)"
proof -
  have ok: "netdev_ok (rt_dev demo_rt)" by (simp add: demo_rt_def route_alloc_def)
  have len: "24 = 4 * hdr_words (deref 0 (seg_demo 0x080808fe)) + 4"
    by (simp add: seg_demo_skb hdr_words_seg_skb)
  have "2 ^ 32 \<le> unat (htonl 0x0a000004) + unat (htonl 0x080808fe)"
    and "pseudo_sum 0x0a000004 0x080808fe 24 + 65535 * ((24 + 1) div 2) < 2 ^ 33"
    by (simp_all add: demo_sums demo_swapped)
  then show ?thesis
    using tcp_checksum_carry_lost [OF seg_demo_ready _ ok _ _ len, where seq = 1001] seg_demo_route(2) seg_demo_arp
    unfolding seg_demo_sel append_Nil by force
qed

end
