(* ===== verification/Tcp_Send.thy ===== *)
theory Tcp_Send
  imports Tcp_Segment
begin

unbundle bit_operations_syntax

text \<open>
  Sending data: how \<open>tcp_send\<close> cuts it into segments and what stays in the retransmission queue,
  whether or not the segment could be put on the wire.
\<close>

subsection \<open>Transmission keeps the segment in the buffer\<close>

definition devs_ok :: "'a stack_scheme \<Rightarrow> bool" where
  "devs_ok s \<longleftrightarrow> (\<forall>rt \<in> set (s_routes s). netdev_ok (rt_dev rt))"

lemma route_lookup_dev:
  assumes "devs_ok s" and "route_lookup d s = Some rt"
  shows "netdev_ok (rt_dev rt)"
proof -
  have "route_loop d d0 rts = Some rt \<Longrightarrow> rt \<in> set rts \<or> d0 = Some rt" for d0 rts
    by (induction d d0 rts rule: route_loop.induct) (auto split: if_splits)
  then show ?thesis using assms by (auto simp: devs_ok_def route_lookup_def)
qed

text \<open>What follows the IP header.\<close>

definition seg_bytes :: "nat \<Rightarrow> 'a stack_scheme \<Rightarrow> bytes" where
  "seg_bytes b s = drop 34 (b_mem (deref b s))"

lemma drop_mwrite_low: "off + length bs \<le> n \<Longrightarrow> drop n (mwrite m off bs) = drop n m"
  by (simp add: mwrite_def)

lemma seg_bytes_netdev:
  assumes "live b s" and "b_data (deref b s) = 14" and "b_dev (deref b s) = Some dev" and "netdev_ok dev"
  shows "seg_bytes b (snd (netdev_transmit b dst et s)) = seg_bytes b s"
proof -
  have "unat (nd_addr_len dev) = 6" "length (nd_hwaddr dev) = 6"
    using assms(4) by (simp_all add: netdev_ok_def)
  then show ?thesis
    using assms
    by (simp add: netdev_transmit_def tun_write_def Let_def seg_bytes_def b_mem_put_bytes drop_mwrite_low)
qed

lemma seg_bytes_output:
  assumes r: "ip_ready b n s" and h: "heap_ok s" "devs_ok s"
  shows "seg_bytes b (snd (ip_output sk b s)) = seg_bytes b s"
proof (cases "route_lookup (sk_daddr sk) s")
  case None
  then show ?thesis using r by (simp add: ip_output_def ip_ready_def)
next
  case (Some rt)
  define k where "k = deref b s"
  have k: "live b s" "34 + n \<le> length (b_mem k)" using r by (auto simp: ip_ready_def k_def)
  let ?dg = "ip_datagram sk rt (ucast (b_protocol k)) (ip_id (ip_hdr k)) (take n (drop 34 (b_mem k)))"
  define k2 where "k2 = k\<lparr>b_mem := take 14 (b_mem k) @ ?dg @ drop (34 + n) (b_mem k),
      b_dev := Some (rt_dev rt), b_rt := Some rt, b_data := 14, b_len := b_len k + 20\<rparr>"
  let ?s2 = "put_skb b k2 s"
  have out: "ip_output sk b s = dst_neigh_output b ?s2"
    unfolding k2_def k_def by (rule ip_output_to_neigh [OF r Some])
  have "take n (drop 34 (b_mem k)) @ drop (34 + n) (b_mem k) = drop 34 (b_mem k)"
    using append_take_drop_id [of n "drop 34 (b_mem k)"] by (simp add: add.commute)
  then have s2: "seg_bytes b ?s2 = seg_bytes b s"
    using k by (simp add: seg_bytes_def k2_def ip_datagram_def k_def)
  have dev: "netdev_ok (rt_dev rt)" using h(2) Some by (rule route_lookup_dev)
  have nd: "seg_bytes b (snd (netdev_transmit b dst et ?s2)) = seg_bytes b ?s2" for dst et
    using k dev by (intro seg_bytes_netdev) (simp_all add: k2_def)
  have chk: "seg_bytes b (check False ?s2) = seg_bytes b ?s2" by (simp add: seg_bytes_def)
  have arp: "seg_bytes b (snd (arp_request a d dev ?s2)) = seg_bytes b ?s2" for a d dev
    using arp_request_frame [of ?s2 a d dev] h(1)
    by (simp add: tx_frame_def seg_bytes_def deref_def)
  show ?thesis
    unfolding out s2 [symmetric] dst_neigh_output_def Let_def case_prod_beta
    by (simp add: nd arp chk split: option.split)
qed

lemma output_protocol:
  assumes l: "live b s" and h: "heap_ok s"
  shows "b_protocol (deref b (snd (ip_output sk b s))) = b_protocol (deref b s)"
proof -
  have nd: "b_protocol (deref b (snd (netdev_transmit b dst et s))) = b_protocol (deref b s)" if "live b s" for dst et and s :: "'a stack_scheme"
    using that by (simp add: netdev_transmit_def tun_write_def Let_def split: option.split)
  have arp: "deref b (snd (arp_request a d dev s)) = deref b s" if "live b s" "heap_ok s" for a d dev and s :: "'a stack_scheme"
    using arp_request_frame [of s a d dev] that(2) by (simp add: tx_frame_def deref_def)
  have chk: "live b (ip_send_check b s) \<and> heap_ok (ip_send_check b s) \<and> b_protocol (deref b (ip_send_check b s)) = b_protocol (deref b s)"
    if "live b s" "heap_ok s" for s :: "'a stack_scheme"
    using that by (simp add: ip_send_check_def Let_def)
  have neigh: "b_protocol (deref b (snd (dst_neigh_output b s))) = b_protocol (deref b s)"
    if "live b s" "heap_ok s" for s :: "'a stack_scheme"
    using that by (simp add: dst_neigh_output_def Let_def split_beta nd arp split: option.split)
  show ?thesis
    using l h by (simp add: ip_output_def Let_def touch_def chk neigh split: option.split)
qed

definition seg_flags :: "nat \<Rightarrow> 'a stack_scheme \<Rightarrow> bool list" where
  "seg_flags b s = th_flags (tcp_hdr (deref b s))"

definition seg_data :: "nat \<Rightarrow> 'a stack_scheme \<Rightarrow> bytes" where
  "seg_data b s = drop 54 (b_mem (deref b s))"

lemma seg_bytes_eqD:
  assumes "seg_bytes b s' = seg_bytes b s"
  shows "seg_data b s' = seg_data b s" and "seg_flags b s' = seg_flags b s"
    and "hdr_words (deref b s') = hdr_words (deref b s)"
proof -
  have "drop 20 (seg_bytes b s') = drop 20 (seg_bytes b s)"
    "take 20 (seg_bytes b s') = take 20 (seg_bytes b s)" using assms by simp_all
  then show "seg_data b s' = seg_data b s" "seg_flags b s' = seg_flags b s"
    "hdr_words (deref b s') = hdr_words (deref b s)"
    by (simp_all add: seg_bytes_def seg_data_def seg_flags_def hdr_words_def tcp_hdr_def mread_def)
qed

lemma transmit_keeps_segment:
  assumes r: "tcp_ready b n c" and h: "heap_ok c" "devs_ok c"
  shows "seg_data b (snd (tcp_transmit_skb b seq c)) = seg_data b c"
    and "seg_flags b (snd (tcp_transmit_skb b seq c)) = seg_flags b c"
    and "hdr_words (deref b (snd (tcp_transmit_skb b seq c))) = hdr_words (deref b c)"
    and "b_protocol (deref b (snd (tcp_transmit_skb b seq c))) = b_protocol (deref b c)"
proof -
  let ?h = "4 * hdr_words (deref b c)"
  obtain c2 h' k' where t: "tcp_transmit_skb b seq c = ip_output (c_sk c) b c2" "ip_ready b (?h + n) c2"
    "deref b c2 = skb_push ?h (put_tcp_hdr h' (deref b c))"
    "th_flags h' = th_flags (tcp_hdr (deref b c))" "c2 = put_skb b k' c"
    "take (?h + n) (drop 34 (b_mem (deref b c2))) =
       tcp_segment (c_sk c) seq (tcp_hdr (deref b c)) (seg_body n (deref b c))"
    using tcp_transmit_ready [OF r, of seq] by blast
  have l: "54 \<le> length (b_mem (deref b c))" using r by (auto simp: tcp_ready_def Let_def)
  have c2: "heap_ok c2" "devs_ok c2" using h t(5) by (simp_all add: devs_ok_def)
  have "seg_data b c2 = seg_data b c" "seg_flags b c2 = seg_flags b c"
    using l by (simp_all add: seg_data_def seg_flags_def t(3,4) b_mem_put_bytes drop_mwrite_low)
  moreover have "hdr_words (deref b c2) = hdr_words (deref b c)"
  proof -
    have "20 \<le> ?h" using r by (simp add: tcp_ready_def Let_def)
    then have "take 20 (drop 34 (b_mem (deref b c2))) = take 20 (take (?h + n) (drop 34 (b_mem (deref b c2))))"
      by (simp add: min_def)
    then have "th_hl (tcp_hdr (deref b c2)) = th_hl (tcp_set_hlen (tcp_hdr (deref b c)))"
      using seg_fields(7) [of "c_sk c" seq "tcp_hdr (deref b c)" "seg_body n (deref b c)"]
      by (simp add: t(6) tcp_hdr_def mread_def tcp_ntoh_def)
    then show ?thesis by (simp add: hdr_words_def tcp_set_hlen_def)
  qed
  moreover have "live b c2" using t(2) by (simp add: ip_ready_def)
  then show "b_protocol (deref b (snd (tcp_transmit_skb b seq c))) = b_protocol (deref b c)"
    using output_protocol [OF _ c2(1), of b "c_sk c"] by (simp add: t(1,3))
  ultimately show "seg_data b (snd (tcp_transmit_skb b seq c)) = seg_data b c"
    "seg_flags b (snd (tcp_transmit_skb b seq c)) = seg_flags b c"
    "hdr_words (deref b (snd (tcp_transmit_skb b seq c))) = hdr_words (deref b c)"
    using seg_bytes_eqD [OF seg_bytes_output [OF t(2) c2, of "c_sk c"]] by (simp_all add: t(1))
qed

subsection \<open>One segment\<close>

text \<open>The body of the loop of \<open>tcp_send\<close>: a chunk of data becomes a queued segment.\<close>

definition send_chunk :: "bool \<Rightarrow> bytes \<Rightarrow> tcpctx \<Rightarrow> tcpctx" where
  "send_chunk psh chunk c =
     (let b = s_bnext c;
          k = (skb_push (length chunk) (skb_reserve (54 + length chunk) (new_skb (54 + length chunk))))
                \<lparr>b_protocol := ucast IP_TCP, b_dlen := of_nat (length chunk)\<rparr>;
          k = upd_th (\<lambda>th. th\<lparr>th_ack := True, th_psh := psh\<rparr>) (put_bytes 54 chunk k)
      in snd (tcp_queue_transmit_skb b (put_skb b k (snd (alloc_skb (54 + length chunk) c)))))"

lemma tcp_hdr_zero: "b_mem k = replicate 54 0 @ xs \<Longrightarrow>
   tcp_hdr k = dec_tcphdr (replicate 20 0)"
  by (simp add: tcp_hdr_def mread_def)

lemma dec_zero: "dec_tcphdr (replicate 20 0) = \<lparr>th_sport = 0, th_dport = 0, th_seq = 0, th_ack_seq = 0,
    th_rsvd = 0, th_hl = 0, th_fin = False, th_syn = False, th_rst = False, th_psh = False, th_ack = False,
    th_urg = False, th_ece = False, th_cwr = False, th_win = 0, th_csum = 0, th_urp = 0\<rparr>"
  by code_simp

lemma set_flags:
  assumes "54 \<le> length (b_mem k)" and "\<not> th_psh (tcp_hdr k)"
  shows "(if p then upd_th (\<lambda>th. th\<lparr>th_psh := True\<rparr>) (upd_th (\<lambda>th. th\<lparr>th_ack := True\<rparr>) k)
      else upd_th (\<lambda>th. th\<lparr>th_ack := True\<rparr>) k) = upd_th (\<lambda>th. th\<lparr>th_ack := True, th_psh := p\<rparr>) k"
proof (cases p)
  case True
  then show ?thesis using upd_th_upd_th [OF assms(1)] by simp
next
  case False
  have "(tcp_hdr k)\<lparr>th_ack := True, th_psh := False\<rparr> = (tcp_hdr k)\<lparr>th_ack := True\<rparr>"
    using assms(2) by (cases "tcp_hdr k") simp
  then show ?thesis using False by (simp add: upd_th_def)
qed

lemma upd_skb_if:
  "(if p then upd_skb b f (upd_skb b g s) else upd_skb b g s) = upd_skb b (\<lambda>k. if p then f (g k) else g k) s"
  by (simp add: upd_skb_upd_skb)

lemma tcp_send_loop_step:
  assumes "data \<noteq> []"
  shows "tcp_send_loop (Suc fuel) mss data c =
    tcp_send_loop fuel mss (drop mss data) (send_chunk (length data \<le> mss) (take mss data) c)"
proof -
  define N where "N = (if length data > mss then mss else length data)"
  have n: "take N data = take mss data" "drop N data = drop mss data" "length (take mss data) = N"
    "(length data - N = 0) = (length data \<le> mss)"
    by (auto simp: N_def)
  let ?p = "length data - N = 0" and ?b = "s_bnext c" and ?c1 = "snd (alloc_skb (54 + N) c)"
  define k0 where "k0 = (skb_reserve (54 + N) (new_skb (54 + N)))\<lparr>b_protocol := ucast IP_TCP, b_dlen := of_nat N, b_seq := 0\<rparr>"
  define k1 where "k1 = put_bytes (nat (b_data (skb_push N k0))) (take N data) (skb_push N k0)"
  have l: "length (take N data) = N" using n(1,3) by simp
  have at: "nat (b_data (skb_push N k0)) = 54"
    by (simp add: k0_def skb_push_def skb_reserve_def new_skb_def)
  have m: "b_mem k1 = replicate 54 0 @ take N data"
    using l unfolding k1_def at k0_def
    by (simp add: b_mem_put_bytes mwrite_def new_skb_def skb_reserve_def replicate_add)
  have k1: "k1 = put_bytes 54 (take mss data)
     ((skb_push N (skb_reserve (54 + N) (new_skb (54 + N))))\<lparr>b_protocol := ucast IP_TCP, b_dlen := of_nat N\<rparr>)"
    unfolding k1_def at by (simp add: k0_def put_bytes_def skb_push_def skb_reserve_def new_skb_def n)
  have flags: "(if ?p then upd_th (\<lambda>th. th\<lparr>th_psh := True\<rparr>) (upd_th (\<lambda>th. th\<lparr>th_ack := True\<rparr>) k1)
      else upd_th (\<lambda>th. th\<lparr>th_ack := True\<rparr>) k1) = upd_th (\<lambda>th. th\<lparr>th_ack := True, th_psh := ?p\<rparr>) k1"
    by (rule set_flags) (simp_all add: m tcp_hdr_zero [OF m] dec_zero)
  have new: "live ?b ?c1" "deref ?b ?c1 = new_skb (54 + N)"
    by (simp_all add: alloc_skb_def live_def deref_def)
  obtain d ds where data: "data = d # ds" using assms by (cases data) auto
  have "tcp_send_loop (Suc fuel) mss data c = tcp_send_loop fuel mss (drop N data)
      (snd (tcp_queue_transmit_skb ?b (put_skb ?b (upd_th (\<lambda>th. th\<lparr>th_ack := True, th_psh := ?p\<rparr>) k1) ?c1)))"
    unfolding data tcp_send_loop.simps Let_def
    unfolding data [symmetric] N_def [symmetric] tcp_alloc_skb_eq prod.case upd_skb_if upd_skb_upd_skb
    unfolding add_0_right upd_skb_live [OF new(1)] new(2) k0_def [symmetric] k1_def [symmetric]
    unfolding flags [symmetric] by (rule arg_cong [of _ _ "\<lambda>x. tcp_send_loop _ _ _ (snd (tcp_queue_transmit_skb _ x))"]) simp
  then show ?thesis
    unfolding send_chunk_def Let_def n k1 by simp
qed

lemma timer_stack [simp]:
  "s_skbs (timer_release t c) = s_skbs c" "s_skbs (timer_cancel t c) = s_skbs c"
  "s_skbs (snd (timer_add e h a c)) = s_skbs c" "s_bnext (timer_release t c) = s_bnext c"
  "s_bnext (timer_cancel t c) = s_bnext c" "s_bnext (snd (timer_add e h a c)) = s_bnext c"
  "s_routes (timer_release t c) = s_routes c" "s_routes (timer_cancel t c) = s_routes c"
  "s_routes (snd (timer_add e h a c)) = s_routes c"
  by (simp_all add: timer_release_def timer_cancel_def timer_add_def split: option.split)

lemma rearm_rto [simp]:
  "s_skbs (tcp_rearm_rto_timer c) = s_skbs c" "s_bnext (tcp_rearm_rto_timer c) = s_bnext c"
  "s_routes (tcp_rearm_rto_timer c) = s_routes c" "tk_inflight (c_sk (tcp_rearm_rto_timer c)) = tk_inflight (c_sk c)"
  "tk_smss (c_sk (tcp_rearm_rto_timer c)) = tk_smss (c_sk c)" "tk_sackok (c_sk (tcp_rearm_rto_timer c)) = tk_sackok (c_sk c)"
  "tk_sacks (c_sk (tcp_rearm_rto_timer c)) = tk_sacks (c_sk c)"
  by (simp_all add: tcp_rearm_rto_timer_def tcp_release_rto_timer_def Let_def split_beta)

lemma rearm_user [simp]:
  "s_skbs (tcp_rearm_user_timeout c) = s_skbs c" "sk_write_queue (c_sk (tcp_rearm_user_timeout c)) = sk_write_queue (c_sk c)"
  "tk_inflight (c_sk (tcp_rearm_user_timeout c)) = tk_inflight (c_sk c)"
  by (simp_all add: tcp_rearm_user_timeout_def Let_def split_beta)

lemma heap_of_skbs:
  assumes "s_skbs s' = s_skbs s"
  shows "live b s' = live b s" "deref b s' = deref b s" "seg_data b s' = seg_data b s" "seg_flags b s' = seg_flags b s"
  using assms by (simp_all add: live_def deref_def seg_data_def seg_flags_def)

lemma store_seq_sel:
  assumes "live b c" and "\<not> th_fin (tcp_hdr (deref b c))"
  shows "tcp_store_seq b c = upd_tcb (\<lambda>t. t\<lparr>snd_nxt := snd_nxt (tcb_of c) + b_dlen (deref b c)\<rparr>)
     (upd_skb b (\<lambda>k. k\<lparr>b_seq := snd_nxt (tcb_of c), b_end_seq := snd_nxt (tcb_of c) + b_dlen (deref b c)\<rparr>) c)"
proof -
  have "tcp_hdr (k\<lparr>b_seq := x, b_end_seq := y\<rparr>) = tcp_hdr k" "tcp_hdr (k\<lparr>b_seq := x\<rparr>) = tcp_hdr k" for k x y
    by (simp_all add: tcp_hdr_def)
  then show ?thesis
    using assms
    by (simp add: tcp_store_seq_def Let_def upd_skb_live upd_tcb_def upd_sk_def put_skb_def live_def deref_def)
qed

text \<open>A buffer prepared by \<open>send_chunk\<close> through \<open>tcp_queue_transmit_skb\<close>.\<close>

lemma queue_transmit_spec:
  assumes r: "tcp_ready b n c" and h: "heap_ok c" "devs_ok c"
    and f: "\<not> th_fin (tcp_hdr (deref b c))" and bq: "b \<notin> set (sk_write_queue (c_sk c))"
  defines "c' \<equiv> snd (tcp_queue_transmit_skb b c)" and "idle \<equiv> tk_inflight (c_sk c) = 0"
  shows "heap_ok c'" "devs_ok c'" "live b c'" "seg_data b c' = seg_data b c" "seg_flags b c' = seg_flags b c"
    "b_dlen (deref b c') = b_dlen (deref b c)"
    "b_seq (deref b c') = (if idle then snd_nxt (tcb_of c) else b_seq (deref b c))"
    "b_end_seq (deref b c') = (if idle then snd_nxt (tcb_of c) + b_dlen (deref b c) else b_end_seq (deref b c))"
    "hdr_words (deref b c') = hdr_words (deref b c)" "b_refcnt (deref b c') = b_refcnt (deref b c)"
    "b_protocol (deref b c') = b_protocol (deref b c)" "sk_write_queue (c_sk c') = sk_write_queue (c_sk c) @ [b]"
    "\<forall>b'. b' \<noteq> b \<longrightarrow> live b' c' = live b' c \<and> deref b' c' = deref b' c"
    "tk_smss (c_sk c') = tk_smss (c_sk c)" "s_bnext c \<le> s_bnext c'"
    "tk_inflight (c_sk c') = (if idle then 1 else tk_inflight (c_sk c))"
    "snd_nxt (tcb_of c') = (if idle then snd_nxt (tcb_of c) + b_dlen (deref b c) else snd_nxt (tcb_of c))"
proof -
  define c1 where "c1 = (if sk_write_queue (c_sk c) = [] then tcp_rearm_rto_timer c else c)"
  have s1: "s_skbs c1 = s_skbs c" "s_bnext c1 = s_bnext c" "s_routes c1 = s_routes c"
    "sk_write_queue (c_sk c1) = sk_write_queue (c_sk c)" "tk_inflight (c_sk c1) = tk_inflight (c_sk c)"
    "tk_smss (c_sk c1) = tk_smss (c_sk c)" "tcb_of c1 = tcb_of c" "tk_sackok (c_sk c1) = tk_sackok (c_sk c)"
    "tk_sacks (c_sk c1) = tk_sacks (c_sk c)"
    by (simp_all add: c1_def)
  note d1 = heap_of_skbs [OF s1(1)]
  have h1: "heap_ok c1" "devs_ok c1" using h s1 d1 by (simp_all add: heap_ok_def devs_ok_def)
  have r1: "tcp_ready b n c1" using r by (simp add: tcp_ready_def d1 s1 Let_def)
  have l: "live b c" using r by (simp add: tcp_ready_def)
  define c2 where "c2 = snd (tcp_transmit_skb b (snd_nxt (tcb_of c1)) c1)"
  have tx: "tcp_tx {b} c1 c2" unfolding c2_def by (rule tcp_transmit_tx) simp
  have keep: "tx_keeps b c1 c2" unfolding c2_def by (rule tcp_transmit_keeps [OF h1(1)])
  have d2: "live b c2" "b_dlen (deref b c2) = b_dlen (deref b c)" "seg_data b c2 = seg_data b c" "seg_flags b c2 = seg_flags b c"
    "b_refcnt (deref b c2) = b_refcnt (deref b c)" "b_protocol (deref b c2) = b_protocol (deref b c)" "hdr_words (deref b c2) = hdr_words (deref b c)"
    "heap_ok c2" "devs_ok c2" "s_bnext c1 \<le> s_bnext c2" "\<forall>b'. b' \<noteq> b \<longrightarrow> live b' c2 = live b' c \<and> deref b' c2 = deref b' c"
    using keep l d1 transmit_keeps_segment [OF r1 h1, of "snd_nxt (tcb_of c1)"] tx h1
    by (auto simp: c2_def tx_keeps_def same_skb_def tcp_tx_def tx_frame_def devs_ok_def heap_ok_def live_def deref_def)
  have fin: "\<not> th_fin (tcp_hdr (deref b c2))"
    using d2(4) f by (simp add: seg_flags_def th_flags_def)
  have sk2: "sk_write_queue (c_sk c2) = sk_write_queue (c_sk c)" "tk_smss (c_sk c2) = tk_smss (c_sk c)"
    "tk_inflight (c_sk c2) = tk_inflight (c_sk c)" "tcb_of c2 = tcb_of c"
    by (simp_all add: c2_def s1)
  define c3 where "c3 = (if idle then tcp_store_seq b (upd_sk (\<lambda>k. k\<lparr>tk_inflight := tk_inflight k + 1\<rparr>) c2) else c1)"
  have c': "c' = upd_sk (\<lambda>k. k\<lparr>sk_write_queue := q_tail b (sk_write_queue k)\<rparr>) c3"
    by (simp add: c'_def tcp_queue_transmit_skb_def Let_def case_prod_beta c3_def c2_def c1_def idle_def)
  have skb: "seg_data b (upd_sk g s) = seg_data b s" "seg_flags b (upd_sk g s) = seg_flags b s"
    "devs_ok (upd_sk g s) = devs_ok s" for g s
    by (simp_all add: seg_data_def seg_flags_def devs_ok_def)
  let ?N = "snd_nxt (tcb_of c)" and ?D = "b_dlen (deref b c)"
  have c3: "c3 = (if idle then upd_tcb (\<lambda>t. t\<lparr>snd_nxt := ?N + ?D\<rparr>)
      (upd_skb b (\<lambda>k. k\<lparr>b_seq := ?N, b_end_seq := ?N + ?D\<rparr>) (upd_sk (\<lambda>k. k\<lparr>tk_inflight := tk_inflight k + 1\<rparr>) c2)) else c1)"
    using store_seq_sel [of b "upd_sk (\<lambda>k. k\<lparr>tk_inflight := tk_inflight k + 1\<rparr>) c2"] d2(1,2) fin sk2
    by (simp add: c3_def)
  have seq: "seg_data b (upd_skb b (\<lambda>k. k\<lparr>b_seq := x, b_end_seq := y\<rparr>) s) = seg_data b s"
    "seg_flags b (upd_skb b (\<lambda>k. k\<lparr>b_seq := x, b_end_seq := y\<rparr>) s) = seg_flags b s"
    "hdr_words (k\<lparr>b_seq := x, b_end_seq := y\<rparr>) = hdr_words k" "devs_ok (upd_skb b' g s) = devs_ok s" "devs_ok (upd_tcb u s') = devs_ok s'" if "live b s"
    for x y b' g u k and s s' :: tcpctx
    using that by (simp_all add: seg_data_def seg_flags_def devs_ok_def tcp_hdr_def hdr_words_def)
  have tcb: "seg_data b (upd_tcb u s) = seg_data b s" "seg_flags b (upd_tcb u s) = seg_flags b s" for u s
    by (simp_all add: seg_data_def seg_flags_def)
  show "heap_ok c'" "devs_ok c'" "live b c'" "seg_data b c' = seg_data b c" "seg_flags b c' = seg_flags b c"
    "b_dlen (deref b c') = b_dlen (deref b c)"
    "b_seq (deref b c') = (if idle then snd_nxt (tcb_of c) else b_seq (deref b c))"
    "b_end_seq (deref b c') = (if idle then snd_nxt (tcb_of c) + b_dlen (deref b c) else b_end_seq (deref b c))"
    "hdr_words (deref b c') = hdr_words (deref b c)" "b_refcnt (deref b c') = b_refcnt (deref b c)"
    "b_protocol (deref b c') = b_protocol (deref b c)" "sk_write_queue (c_sk c') = sk_write_queue (c_sk c) @ [b]"
    "\<forall>b'. b' \<noteq> b \<longrightarrow> live b' c' = live b' c \<and> deref b' c' = deref b' c"
    "tk_smss (c_sk c') = tk_smss (c_sk c)" "s_bnext c \<le> s_bnext c'"
    "tk_inflight (c_sk c') = (if idle then 1 else tk_inflight (c_sk c))"
    "snd_nxt (tcb_of c') = (if idle then snd_nxt (tcb_of c) + b_dlen (deref b c) else snd_nxt (tcb_of c))"
    unfolding c' c3
    using d2 d1 sk2 s1 h1 l by (cases idle; simp add: skb seq tcb q_tail_def idle_def)+
qed

definition segment_of :: "bool \<Rightarrow> bytes \<Rightarrow> nat \<Rightarrow> tcpctx \<Rightarrow> bool" where
  "segment_of psh chunk b c \<longleftrightarrow> live b c \<and> seg_data b c = chunk \<and> unat (b_dlen (deref b c)) = length chunk
     \<and> hdr_words (deref b c) = 5 \<and> b_refcnt (deref b c) \<le> 1 \<and> b_protocol (deref b c) = ucast IP_TCP
     \<and> seg_flags b c = [False, False, False, psh, True, False, False, False]"

lemma segment_of_cong:
  "live b c' = live b c \<Longrightarrow> deref b c' = deref b c \<Longrightarrow> segment_of p d b c' = segment_of p d b c"
  by (simp add: segment_of_def seg_data_def seg_flags_def)

lemma send_chunk_buffer:
  fixes psh :: bool and chunk :: bytes
  assumes n: "length chunk \<le> 1460"
  obtains k where "send_chunk psh chunk c =
      snd (tcp_queue_transmit_skb (s_bnext c) (put_skb (s_bnext c) k (snd (alloc_skb (54 + length chunk) c))))"
    "tcp_ready (s_bnext c) (length chunk) (put_skb (s_bnext c) k (snd (alloc_skb (54 + length chunk) c)))"
    "hdr_words k = 5" "tcp_hdr k = (dec_tcphdr (replicate 20 0))\<lparr>th_ack := True, th_psh := psh\<rparr>"
    "drop 54 (b_mem k) = chunk" "b_dlen k = of_nat (length chunk)" "b_seq k = 0" "b_refcnt k = 0"
    "b_protocol k = ucast IP_TCP"
proof -
  let ?b = "s_bnext c" and ?n = "length chunk"
  let ?c1 = "snd (alloc_skb (54 + ?n) c)"
  define k1 where "k1 = put_bytes 54 chunk ((skb_push ?n (skb_reserve (54 + ?n) (new_skb (54 + ?n))))
      \<lparr>b_protocol := ucast IP_TCP, b_dlen := of_nat ?n\<rparr>)"
  define k where "k = upd_th (\<lambda>th. th\<lparr>th_ack := True, th_psh := psh\<rparr>) k1"
  have m1: "b_mem k1 = replicate 54 0 @ chunk"
    by (simp add: k1_def b_mem_put_bytes mwrite_def new_skb_def skb_reserve_def replicate_add)
  have th: "tcp_hdr k = (dec_tcphdr (replicate 20 0))\<lparr>th_ack := True, th_psh := psh\<rparr>"
    using m1 by (simp add: k_def tcp_hdr_zero [OF m1])
  have k: "drop 54 (b_mem k) = chunk" "b_data k = 54" "b_len k = of_nat ?n" "b_dlen k = of_nat ?n" "b_seq k = 0"
    "b_refcnt k = 0" "length (b_mem k) = 54 + ?n" "b_protocol k = ucast IP_TCP"
    unfolding k_def b_mem_upd_th upd_th_sel by (simp_all add: m1 drop_mwrite_low)
      (simp_all add: k1_def skb_push_def skb_reserve_def new_skb_def upd_th_def)
  have un: "unat (of_nat ?n :: u32) = ?n" using n by (simp add: unat_of_nat)
  have w: "hdr_words k = 5" by (simp add: hdr_words_def th dec_zero tcp_set_hlen_def)
  have "tcp_ready ?b ?n (put_skb ?b k ?c1)" using w k n un by (simp add: tcp_ready_def Let_def)
  moreover have "send_chunk psh chunk c = snd (tcp_queue_transmit_skb ?b (put_skb ?b k ?c1))"
    by (simp add: send_chunk_def Let_def k_def k1_def)
  ultimately show thesis using that w th k by blast
qed

lemma send_chunk_spec:
  fixes psh :: bool and chunk :: bytes
  assumes h: "heap_ok c" "devs_ok c" and n: "length chunk \<le> 1460"
    and q: "\<forall>b \<in> set (sk_write_queue (c_sk c)). live b c"
  defines "c' \<equiv> send_chunk psh chunk c"
  shows "heap_ok c'" "devs_ok c'" "segment_of psh chunk (s_bnext c) c'"
    "b_seq (deref (s_bnext c) c') = (if tk_inflight (c_sk c) = 0 then snd_nxt (tcb_of c) else 0)"
    "tk_inflight (c_sk c) = 0 \<Longrightarrow> b_end_seq (deref (s_bnext c) c') = snd_nxt (tcb_of c) + of_nat (length chunk)"
    "sk_write_queue (c_sk c') = sk_write_queue (c_sk c) @ [s_bnext c]"
    "\<forall>b. live b c \<longrightarrow> live b c' \<and> deref b c' = deref b c"
    "tk_smss (c_sk c') = tk_smss (c_sk c)"
    "tk_inflight (c_sk c') = (if tk_inflight (c_sk c) = 0 then 1 else tk_inflight (c_sk c))"
    "snd_nxt (tcb_of c') = (if tk_inflight (c_sk c) = 0 then snd_nxt (tcb_of c) + of_nat (length chunk) else snd_nxt (tcb_of c))"
proof -
  let ?b = "s_bnext c" and ?n = "length chunk"
  let ?c1 = "snd (alloc_skb (54 + ?n) c)"
  obtain k where k: "c' = snd (tcp_queue_transmit_skb ?b (put_skb ?b k ?c1))" "tcp_ready ?b ?n (put_skb ?b k ?c1)"
    "hdr_words k = 5" "tcp_hdr k = (dec_tcphdr (replicate 20 0))\<lparr>th_ack := True, th_psh := psh\<rparr>"
    "drop 54 (b_mem k) = chunk" "b_dlen k = of_nat ?n" "b_seq k = 0" "b_refcnt k = 0" "b_protocol k = ucast IP_TCP"
    unfolding c'_def using send_chunk_buffer [OF n] by metis
  have un: "unat (of_nat ?n :: u32) = ?n" using n by (simp add: unat_of_nat)
  let ?c2 = "put_skb ?b k ?c1"
  have l: "live ?b ?c1" by simp
  have c2: "deref ?b ?c2 = k" "c_sk ?c2 = c_sk c" "heap_ok ?c2" "devs_ok ?c2" "\<not> live ?b c"
    "\<And>b. live b c \<Longrightarrow> live b ?c2 \<and> deref b ?c2 = deref b c"
    using l h heap_ok_fresh [OF h(1)]
    by (auto simp: devs_ok_def alloc_skb_def live_def deref_def put_skb_def heap_ok_def less_Suc_eq
        split: if_splits)
  have fin: "\<not> th_fin (tcp_hdr (deref ?b ?c2))" by (simp add: c2 k(4) dec_zero)
  have bq: "?b \<notin> set (sk_write_queue (c_sk ?c2))" using q c2(2,5) by auto
  note spec = queue_transmit_spec [OF k(2) c2(3,4) fin bq, folded k(1)]
  have sd: "seg_data ?b ?c2 = chunk" "seg_flags ?b ?c2 = [False, False, False, psh, True, False, False, False]"
    by (simp_all add: seg_data_def seg_flags_def c2(1) k(4,5) dec_zero th_flags_def)
  have old: "\<forall>b. live b c \<longrightarrow> live b c' \<and> deref b c' = deref b c"
  proof (intro allI impI)
    fix b assume b: "live b c"
    then have "b \<noteq> ?b" using c2(5) by auto
    then show "live b c' \<and> deref b c' = deref b c" using spec(13) c2(6) [OF b] by simp
  qed
  show "heap_ok c'" "devs_ok c'" "segment_of psh chunk ?b c'"
    "b_seq (deref ?b c') = (if tk_inflight (c_sk c) = 0 then snd_nxt (tcb_of c) else 0)"
    "tk_inflight (c_sk c) = 0 \<Longrightarrow> b_end_seq (deref ?b c') = snd_nxt (tcb_of c) + of_nat ?n"
    "sk_write_queue (c_sk c') = sk_write_queue (c_sk c) @ [?b]"
    "\<forall>b. live b c \<longrightarrow> live b c' \<and> deref b c' = deref b c"
    "tk_smss (c_sk c') = tk_smss (c_sk c)"
    "tk_inflight (c_sk c') = (if tk_inflight (c_sk c) = 0 then 1 else tk_inflight (c_sk c))"
    "snd_nxt (tcb_of c') = (if tk_inflight (c_sk c) = 0 then snd_nxt (tcb_of c) + of_nat ?n else snd_nxt (tcb_of c))"
    using spec(1-3,7-12,14,16,17) old sd un by (simp_all add: segment_of_def spec(4-6) c2(1,2) k(3,6-9))
qed

text \<open>How many segments, and which one is pushed.\<close>

fun chunks :: "nat \<Rightarrow> bytes \<Rightarrow> bytes list" where
  "chunks 0 data = []"
| "chunks (Suc m) [] = []"
| "chunks (Suc m) (x # xs) = (x # take m xs) # chunks (Suc m) (drop m xs)"

lemma chunks_step: "data \<noteq> [] \<Longrightarrow> 0 < m \<Longrightarrow> chunks m data = take m data # chunks m (drop m data)"
  by (cases data; cases m) auto

lemma chunks_concat: "0 < m \<Longrightarrow> concat (chunks m data) = data"
  by (induction m data rule: chunks.induct) auto

lemma chunks_length: "c \<in> set (chunks m data) \<Longrightarrow> 0 < length c \<and> length c \<le> m"
  by (induction m data rule: chunks.induct) auto

lemma chunks_Nil: "0 < m \<Longrightarrow> chunks m data = [] \<longleftrightarrow> data = []"
  by (cases data; cases m) auto

lemma send_loop_spec:
  assumes "heap_ok c" "devs_ok c" and "0 < mss" "mss \<le> 1460" and "length data \<le> fuel"
    and "\<forall>b \<in> set (sk_write_queue (c_sk c)). live b c"
  shows "\<exists>c' bs. tcp_send_loop fuel mss data c = Some c'
    \<and> sk_write_queue (c_sk c') = sk_write_queue (c_sk c) @ bs
    \<and> map (\<lambda>b. seg_data b c') bs = chunks mss data
    \<and> (\<forall>i < length bs. segment_of (i = length bs - 1) (chunks mss data ! i) (bs ! i) c')
    \<and> (\<forall>b. live b c \<longrightarrow> live b c' \<and> deref b c' = deref b c)
    \<and> (tk_inflight (c_sk c) = 0 \<and> data \<noteq> [] \<longrightarrow>
         b_seq (deref (hd bs) c') = snd_nxt (tcb_of c) \<and> tk_inflight (c_sk c') = 1
         \<and> snd_nxt (tcb_of c') = snd_nxt (tcb_of c) + of_nat (length (hd (chunks mss data))))
    \<and> (tk_inflight (c_sk c) \<noteq> 0 \<or> data = [] \<longrightarrow>
         tk_inflight (c_sk c') = tk_inflight (c_sk c) \<and> snd_nxt (tcb_of c') = snd_nxt (tcb_of c))"
  using assms
proof (induction fuel arbitrary: data c)
  case 0
  then show ?case using chunks_Nil [of mss "[]"] by (intro exI [of _ c] exI [of _ "[]"]) simp
next
  case (Suc fuel)
  show ?case
  proof (cases "data = []")
    case True
    then show ?thesis using chunks_Nil [of mss "[]"] Suc.prems(3) by (intro exI [of _ c] exI [of _ "[]"]) simp
  next
    case False
    define psh where "psh = (length data \<le> mss)"
    define c1 where "c1 = send_chunk psh (take mss data) c"
    have n: "length (take mss data) \<le> 1460" using Suc.prems(4) by simp
    note spec = send_chunk_spec [OF Suc.prems(1,2) n Suc.prems(6), of psh, folded c1_def]
    have len: "length (drop mss data) \<le> fuel" using Suc.prems(3,5) False by (cases data) auto
    have lq: "\<forall>b \<in> set (sk_write_queue (c_sk c1)). live b c1"
      using spec(3,6,7) Suc.prems(6) by (auto simp: segment_of_def)
    obtain c' bs where IH: "tcp_send_loop fuel mss (drop mss data) c1 = Some c'"
      "sk_write_queue (c_sk c') = sk_write_queue (c_sk c1) @ bs"
      "map (\<lambda>b. seg_data b c') bs = chunks mss (drop mss data)"
      "\<forall>i < length bs. segment_of (i = length bs - 1) (chunks mss (drop mss data) ! i) (bs ! i) c'"
      "\<forall>b. live b c1 \<longrightarrow> live b c' \<and> deref b c' = deref b c1"
      "tk_inflight (c_sk c1) \<noteq> 0 \<or> drop mss data = [] \<longrightarrow>
         tk_inflight (c_sk c') = tk_inflight (c_sk c1) \<and> snd_nxt (tcb_of c') = snd_nxt (tcb_of c1)"
      using Suc.IH [OF spec(1,2) Suc.prems(3,4) len lq] by blast
    let ?b = "s_bnext c"
    have l: "live ?b c1" using spec(3) by (simp add: segment_of_def)
    then have b': "live ?b c' = live ?b c1" "deref ?b c' = deref ?b c1" using IH(5) by auto
    have one: "segment_of psh (take mss data) ?b c'"
      using spec(3) segment_of_cong [OF b'] by simp
    have last: "psh \<longleftrightarrow> bs = []"
    proof -
      have "bs = [] \<longleftrightarrow> chunks mss (drop mss data) = []" unfolding IH(3) [symmetric] by simp
      then show ?thesis using chunks_Nil [OF Suc.prems(3), of "drop mss data"] by (simp add: psh_def)
    qed
    have segs: "segment_of (i = length (?b # bs) - 1) (chunks mss data ! i) ((?b # bs) ! i) c'"
      if "i < length (?b # bs)" for i
    proof (cases i)
      case 0
      then show ?thesis using one last chunks_step [OF False Suc.prems(3)] by simp
    next
      case (Suc j)
      then have "(j = length bs - 1) = (i = length (?b # bs) - 1)" using that by auto
      then show ?thesis using IH(4) that Suc chunks_step [OF False Suc.prems(3)] by auto
    qed
    have inf: "tk_inflight (c_sk c1) \<noteq> 0" using spec(9) by simp
    show ?thesis
    proof (intro exI [of _ c'] exI [of _ "?b # bs"] conjI)
      show "tcp_send_loop (Suc fuel) mss data c = Some c'"
        using IH(1) by (simp only: tcp_send_loop_step [OF False] c1_def psh_def)
      show "sk_write_queue (c_sk c') = sk_write_queue (c_sk c) @ ?b # bs" using IH(2) spec(6) by simp
      show "map (\<lambda>b. seg_data b c') (?b # bs) = chunks mss data"
        using IH(3) one chunks_step [OF False Suc.prems(3)] by (simp add: segment_of_def)
      show "\<forall>b. live b c \<longrightarrow> live b c' \<and> deref b c' = deref b c" using IH(5) spec(7) by auto
    qed (use segs IH(6) inf spec(4,9,10) b' False chunks_step [OF False Suc.prems(3)] in auto)
  qed
qed

text \<open>
  C14: tcp_send returns for every data and cuts it, in order, into segments of at most smss bytes
  that are appended to the retransmission queue: each carries its piece and the ACK flag, the
  last one alone PSH.  The buffers queued before are untouched.  With nothing in flight the first
  segment is transmitted with sequence number snd_nxt, which advances over its data, and the rest
  wait for acknowledgements; otherwise nothing is transmitted.
\<close>

theorem tcp_send_segments:
  assumes "heap_ok c" "devs_ok c" and "0 < tk_smss (c_sk c)" "tk_smss (c_sk c) \<le> 1460"
    and "\<forall>b \<in> set (sk_write_queue (c_sk c)). live b c"
  shows "\<exists>c' bs. tcp_send data c = Some (int (length data), c')
    \<and> sk_write_queue (c_sk c') = sk_write_queue (c_sk c) @ bs
    \<and> concat (map (\<lambda>b. seg_data b c') bs) = data
    \<and> (\<forall>i < length bs. live (bs ! i) c' \<and> seg_data (bs ! i) c' \<noteq> []
         \<and> length (seg_data (bs ! i) c') \<le> unat (tk_smss (c_sk c))
         \<and> unat (b_dlen (deref (bs ! i) c')) = length (seg_data (bs ! i) c')
         \<and> seg_flags (bs ! i) c' = [False, False, False, i = length bs - 1, True, False, False, False])
    \<and> (\<forall>b. live b c \<longrightarrow> live b c' \<and> deref b c' = deref b c)
    \<and> (tk_inflight (c_sk c) = 0 \<and> data \<noteq> [] \<longrightarrow>
         b_seq (deref (hd bs) c') = snd_nxt (tcb_of c) \<and> tk_inflight (c_sk c') = 1
         \<and> snd_nxt (tcb_of c') = snd_nxt (tcb_of c) + of_nat (length (seg_data (hd bs) c')))
    \<and> (tk_inflight (c_sk c) \<noteq> 0 \<or> data = [] \<longrightarrow>
         tk_inflight (c_sk c') = tk_inflight (c_sk c) \<and> snd_nxt (tcb_of c') = snd_nxt (tcb_of c))"
proof -
  let ?m = "unat (tk_smss (c_sk c))"
  have m: "0 < ?m" "?m \<le> 1460" using assms(3,4) by (simp_all add: word_less_nat_alt word_le_nat_alt)
  obtain c1 bs where s: "tcp_send_loop (length data) ?m data c = Some c1"
    "sk_write_queue (c_sk c1) = sk_write_queue (c_sk c) @ bs"
    "map (\<lambda>b. seg_data b c1) bs = chunks ?m data"
    "\<forall>i < length bs. segment_of (i = length bs - 1) (chunks ?m data ! i) (bs ! i) c1"
    "\<forall>b. live b c \<longrightarrow> live b c1 \<and> deref b c1 = deref b c"
    "tk_inflight (c_sk c) = 0 \<and> data \<noteq> [] \<longrightarrow>
         b_seq (deref (hd bs) c1) = snd_nxt (tcb_of c) \<and> tk_inflight (c_sk c1) = 1
         \<and> snd_nxt (tcb_of c1) = snd_nxt (tcb_of c) + of_nat (length (hd (chunks ?m data)))"
    "tk_inflight (c_sk c) \<noteq> 0 \<or> data = [] \<longrightarrow>
         tk_inflight (c_sk c1) = tk_inflight (c_sk c) \<and> snd_nxt (tcb_of c1) = snd_nxt (tcb_of c)"
    using send_loop_spec [OF assms(1,2) m order_refl assms(5)] by blast
  let ?c' = "tcp_rearm_user_timeout c1"
  note h = heap_of_skbs [OF rearm_user(1), of _ c1]
  have cc: "concat (map (\<lambda>b. seg_data b c1) bs) = data" unfolding s(3) using m(1) by (rule chunks_concat)
  have ci: "length (chunks ?m data) = length bs" using s(3) by (metis length_map)
  have piece: "0 < length (chunks ?m data ! i) \<and> length (chunks ?m data ! i) \<le> ?m" if "i < length bs" for i
    using that ci by (intro chunks_length [of _ ?m data]) simp
  have hd: "hd (chunks ?m data) = seg_data (hd bs) c1" if "data \<noteq> []"
  proof -
    have "bs \<noteq> []" using that ci chunks_Nil [OF m(1), of data] by auto
    then show ?thesis unfolding s(3) [symmetric] by (simp add: hd_map)
  qed
  have seg: "live (bs ! i) c1 \<and> seg_data (bs ! i) c1 \<noteq> [] \<and> length (seg_data (bs ! i) c1) \<le> ?m
       \<and> unat (b_dlen (deref (bs ! i) c1)) = length (seg_data (bs ! i) c1)
       \<and> seg_flags (bs ! i) c1 = [False, False, False, i = length bs - 1, True, False, False, False]"
    if "i < length bs" for i
    using s(4) piece [OF that] that by (auto simp: segment_of_def)
  have ret: "tcp_send data c = Some (int (length data), ?c')" by (simp add: tcp_send_def s(1))
  show ?thesis
    by (rule exI [of _ ?c'], rule exI [of _ bs]) (use ret s(2,5-7) cc seg hd h in simp)
qed

definition send_demo :: tcpctx where
  "send_demo = upd_sk (\<lambda>k. k\<lparr>tk_smss := 2\<rparr>) (seg_demo 0x08080808)"

theorem tcp_send_segments_witness:
  "\<exists>c' bs. tcp_send [1, 2, 3] send_demo = Some (3, c') \<and> sk_write_queue (c_sk c') = bs
    \<and> concat (map (\<lambda>b. seg_data b c') bs) = [1, 2, 3] \<and> tk_inflight (c_sk c') = 1"
proof -
  have "heap_ok (seg_demo 0x08080808)"
    by (simp add: heap_ok_def live_def seg_demo_def stack.defs tcpctx.defs)
  moreover have "devs_ok (seg_demo 0x08080808)"
    by (simp add: devs_ok_def seg_demo_def stack.defs tcpctx.defs booted_def route_alloc_def netdev_ok_def
        tap_dev_def loop_dev_def)
  moreover have "devs_ok (upd_sk f c) = devs_ok c" for f c by (simp add: devs_ok_def)
  ultimately have h: "heap_ok send_demo" "devs_ok send_demo" by (simp_all add: send_demo_def)
  have k: "tk_smss (c_sk send_demo) = 2" "sk_write_queue (c_sk send_demo) = []" "tk_inflight (c_sk send_demo) = 0"
    by (simp_all add: send_demo_def seg_demo_sel tcp_alloc_sock_def tcp_sock.defs sock.defs zero_sock_def)
  show ?thesis
    using tcp_send_segments [OF h, of "[1, 2, 3]"] unfolding k by force
qed

end
