(* ===== verification/Tcp_Retx.thy ===== *)
theory Tcp_Retx
  imports Tcp_Send
begin

unbundle bit_operations_syntax

text \<open>
  The retransmission queue and its timer: what an acknowledgement releases, how the timeout
  follows the round trip times, and that a peer that never answers is given up after a bounded
  number of timeouts.
\<close>

subsection \<open>Acknowledged segments\<close>

definition acked :: "u32 \<Rightarrow> 'a stack_scheme \<Rightarrow> nat \<Rightarrow> bool" where
  "acked una s b \<longleftrightarrow> b_seq (deref b s) > 0 \<and> b_end_seq (deref b s) \<le> una"

lemma clean_rto_spec:
  assumes "sk_write_queue (c_sk c) = q" and "distinct q"
    and "\<forall>b \<in> set q. live b c \<and> b_refcnt (deref b c) \<le> 1"
  shows "sk_write_queue (c_sk (clean_rto q una c)) = dropWhile (acked una c) q
    \<and> (\<forall>b \<in> set (takeWhile (acked una c) q). \<not> live b (clean_rto q una c))
    \<and> (\<forall>b. b \<notin> set (takeWhile (acked una c) q) \<longrightarrow> s_skbs (clean_rto q una c) b = s_skbs c b)
    \<and> unat (tk_inflight (c_sk (clean_rto q una c))) =
        unat (tk_inflight (c_sk c)) - length (takeWhile (acked una c) q)
    \<and> tk_retransmit (c_sk (clean_rto q una c)) = tk_retransmit (c_sk c)
    \<and> tk_backoff (c_sk (clean_rto q una c)) = tk_backoff (c_sk c)
    \<and> s_timers (clean_rto q una c) = s_timers c \<and> s_fault (clean_rto q una c) = s_fault c"
  using assms
proof (induction q arbitrary: c)
  case Nil
  then show ?case by simp
next
  case (Cons b q)
  have l: "live b c" "b_refcnt (deref b c) \<le> 1" using Cons.prems by auto
  show ?case
  proof (cases "acked una c b")
    case False
    then have "clean_rto (b # q) una c = c" using l unfolding acked_def by (simp only: clean_rto.simps Let_def touch_live if_False)
    then show ?thesis using False Cons.prems(1) by simp
  next
    case True
    define c1 where "c1 = free_skb b (upd_skb b (\<lambda>k. k\<lparr>b_refcnt := b_refcnt k - 1\<rparr>)
        (upd_sk (\<lambda>t. t\<lparr>sk_write_queue := q\<rparr>) c))"
    define c2 where "c2 = (if tk_inflight (c_sk c1) > 0
        then upd_sk (\<lambda>t. t\<lparr>tk_inflight := tk_inflight t - 1\<rparr>) c1 else c1)"
    have step: "clean_rto (b # q) una c = clean_rto q una c2"
      using True l by (simp add: acked_def Let_def c2_def c1_def)
    have s1: "s_skbs c1 = (s_skbs c)(b := None)" "s_fault c1 = s_fault c" "s_timers c1 = s_timers c"
      "c_sk c1 = (c_sk c)\<lparr>sk_write_queue := q\<rparr>"
      using l by (simp_all add: c1_def free_skb_live upd_skb_live s_skbs_put_skb)
    then have s2: "s_skbs c2 = (s_skbs c)(b := None)" "s_fault c2 = s_fault c" "s_timers c2 = s_timers c"
      "sk_write_queue (c_sk c2) = q" "unat (tk_inflight (c_sk c2)) = unat (tk_inflight (c_sk c)) - 1"
      "tk_retransmit (c_sk c2) = tk_retransmit (c_sk c)" "tk_backoff (c_sk c2) = tk_backoff (c_sk c)"
      by (auto simp: c2_def unat_minus_one word_gt_0)
    have b: "b \<notin> set q" using Cons.prems by simp
    have d: "live b' c2 = live b' c" "deref b' c2 = deref b' c" if "b' \<noteq> b" for b'
      using that s2(1) by (simp_all add: live_def deref_def)
    have ack: "acked una c2 b' = acked una c b'" if "b' \<in> set q" for b'
    proof -
      have "b' \<noteq> b" using that b by auto
      then show ?thesis using d(2) [of b'] by (simp add: acked_def)
    qed
    have tw: "takeWhile (acked una c2) q = takeWhile (acked una c) q" "dropWhile (acked una c2) q = dropWhile (acked una c) q"
      using ack by (auto intro: takeWhile_cong dropWhile_cong)
    have q2: "\<forall>b' \<in> set q. live b' c2 \<and> b_refcnt (deref b' c2) \<le> 1"
      using Cons.prems(3) b d by (metis list.set_intros(2))
    have dq: "distinct q" using Cons.prems by simp
    note IH = Cons.IH [OF s2(4) dq q2, unfolded tw]
    have sub: "set (takeWhile (acked una c) q) \<subseteq> set q" by (auto dest: set_takeWhileD)
    have gone: "\<not> live b (clean_rto q una c2)"
      using IH sub b s2(1) by (simp add: live_def) (metis fun_upd_same subsetD)
    show ?thesis
      unfolding step using IH True s2 gone sub b by (auto simp: fun_upd_def)
  qed
qed

text \<open>
  C17: An acknowledgement up to una releases exactly the longest prefix of the retransmission
  queue whose segments were sent and end at or before una: their buffers are freed, every other
  buffer is untouched, the in-flight count drops by their number (not below 0), and the timer
  stops exactly when nothing is left in the queue or in flight.
\<close>

theorem acked_segments_released:
  fixes una :: u32
  assumes "distinct (sk_write_queue (c_sk c))"
    and "\<forall>b \<in> set (sk_write_queue (c_sk c)). live b c \<and> b_refcnt (deref b c) \<le> 1"
    and "\<forall>t. tk_retransmit (c_sk c) = Some t \<longrightarrow> timer_live t c"
  defines "c' \<equiv> snd (tcp_clean_rto_queue una c)"
    and "released \<equiv> takeWhile (acked una c) (sk_write_queue (c_sk c))"
  shows "sk_write_queue (c_sk c) = released @ sk_write_queue (c_sk c')
    \<and> (sk_write_queue (c_sk c') \<noteq> [] \<longrightarrow> \<not> acked una c (hd (sk_write_queue (c_sk c'))))
    \<and> (\<forall>b \<in> set released. \<not> live b c') \<and> (\<forall>b. b \<notin> set released \<longrightarrow> s_skbs c' b = s_skbs c b)
    \<and> unat (tk_inflight (c_sk c')) = unat (tk_inflight (c_sk c)) - length released
    \<and> (if sk_write_queue (c_sk c') = [] \<or> tk_inflight (c_sk c') = 0
       then tk_retransmit (c_sk c') = None \<and> tk_backoff (c_sk c') = 0
       else tk_retransmit (c_sk c') = tk_retransmit (c_sk c) \<and> tk_backoff (c_sk c') = tk_backoff (c_sk c)
         \<and> s_timers c' = s_timers c)
    \<and> s_fault c' = s_fault c"
proof -
  let ?q = "sk_write_queue (c_sk c)"
  define c1 where "c1 = clean_rto ?q una c"
  note spec = clean_rto_spec [OF refl assms(1,2), of una, folded c1_def released_def]
  define stop where "stop \<longleftrightarrow> sk_write_queue (c_sk c1) = [] \<or> tk_inflight (c_sk c1) = 0"
  have c': "c' = (if stop then tcp_stop_rto_timer c1 else c1)"
    by (simp add: c'_def tcp_clean_rto_queue_def Let_def c1_def stop_def)
  have live: "timer_live t c1 = timer_live t c" for t using spec by (simp add: timer_live_def)
  have fault: "s_fault (timer_cancel (tk_retransmit (c_sk c1)) c1) = s_fault c1"
    using spec assms(3) live by (auto simp: timer_cancel_def split: option.split)
  have sk: "s_skbs c' = s_skbs c1" "sk_write_queue (c_sk c') = sk_write_queue (c_sk c1)"
    "tk_inflight (c_sk c') = tk_inflight (c_sk c1)" "s_fault c' = s_fault c"
    using fault spec by (simp_all add: c' tcp_stop_rto_timer_def)
  have tm: "tk_retransmit (c_sk c') = (if stop then None else tk_retransmit (c_sk c))"
    "tk_backoff (c_sk c') = (if stop then 0 else tk_backoff (c_sk c))" "\<not> stop \<longrightarrow> s_timers c' = s_timers c"
    using spec by (simp_all add: c')
  have lv: "live b c' = live b c1" for b using sk(1) by (simp add: live_def)
  have "?q = released @ dropWhile (acked una c) ?q" by (simp add: released_def)
  moreover have "dropWhile (acked una c) ?q \<noteq> [] \<longrightarrow> \<not> acked una c (hd (dropWhile (acked una c) ?q))"
    using hd_dropWhile by blast
  ultimately show ?thesis
    using spec tm by (simp add: sk lv stop_def)
qed

text \<open>One segment sent (1001 to 1003), one not yet, and an acknowledgement of the first.\<close>

definition ack_demo :: tcpctx where
  "ack_demo = (upd_sk (\<lambda>k. k\<lparr>sk_write_queue := [0, 1], tk_inflight := 1, tk_retransmit := Some 0\<rparr>)
      (demo_ctx TCP_ESTABLISHED))
     \<lparr>s_skbs := [0 \<mapsto> (new_skb 56)\<lparr>b_seq := 1001, b_end_seq := 1003\<rparr>, 1 \<mapsto> new_skb 56], s_bnext := 2,
      s_timers := [\<lparr>t_id = 0, t_refcnt = 1, t_expires = 300, t_cancelled = False,
                    t_handler = H_retransmission_timeout, t_arg = 0\<rparr>], s_tnext := 1\<rparr>"

theorem acked_segments_released_witness:
  "sk_write_queue (c_sk (snd (tcp_clean_rto_queue 1003 ack_demo))) = [1]
    \<and> \<not> live 0 (snd (tcp_clean_rto_queue 1003 ack_demo))
    \<and> tk_retransmit (c_sk (snd (tcp_clean_rto_queue 1003 ack_demo))) = None"
proof -
  have k: "sk_write_queue (c_sk ack_demo) = [0, 1]" "tk_retransmit (c_sk ack_demo) = Some 0"
    "tk_inflight (c_sk ack_demo) = 1"
    by (simp_all add: ack_demo_def upd_sk_def)
  have l: "live 0 ack_demo" "live 1 ack_demo" "b_refcnt (deref 0 ack_demo) = 0" "b_refcnt (deref 1 ack_demo) = 0"
    "timer_live 0 ack_demo" "acked 1003 ack_demo 0" "\<not> acked 1003 ack_demo 1"
    by (simp_all add: ack_demo_def live_def deref_def timer_live_def acked_def new_skb_def)
  have "distinct (sk_write_queue (c_sk ack_demo))"
    "\<forall>b \<in> set (sk_write_queue (c_sk ack_demo)). live b ack_demo \<and> b_refcnt (deref b ack_demo) \<le> 1"
    "\<forall>t. tk_retransmit (c_sk ack_demo) = Some t \<longrightarrow> timer_live t ack_demo"
    using l by (simp_all add: k)
  from acked_segments_released [OF this, of 1003] show ?thesis
    using l by (auto simp: k unat_eq_zero split: if_splits)
qed

subsection \<open>Round trip times\<close>

lemma trunc_div_nonneg: "0 \<le> a \<Longrightarrow> trunc_div a b = a div b"
  by (simp add: trunc_div_def)

text \<open>
  C22: On an acknowledgement of segments sent once (no backoff) with an armed timer, the smoothed
  round trip time moves to a value between the old one and the sample (it is the sample the first
  time) and the timeout becomes it plus four deviations, never less than 200 ms above it; a
  retransmitted segment's sample is not used at all (Karn's rule).
\<close>

theorem rtt_estimates:
  fixes c :: tcpctx and t :: nat
  defines "k \<equiv> c_sk c" and "r \<equiv> sint (s_tick c - (timer_expires t c - tk_rto (c_sk c)))"
    and "c' \<equiv> tcp_rtt c"
  assumes "tk_retransmit k = Some t" "timer_live t c" and "0 \<le> r" "0 \<le> tk_srtt k" "0 \<le> tk_rttvar k"
    and "r < 2 ^ 28" "tk_srtt k < 2 ^ 28" "tk_rttvar k < 2 ^ 28"
  shows "(tk_backoff k > 0 \<longrightarrow> c' = c)
    \<and> (tk_backoff k = 0 \<longrightarrow>
         min (tk_srtt k) r \<le> tk_srtt (c_sk c') \<and> tk_srtt (c_sk c') \<le> max (tk_srtt k) r
       \<and> (tk_srtt k = 0 \<longrightarrow> tk_srtt (c_sk c') = r)
       \<and> 0 \<le> tk_rttvar (c_sk c') \<and> tk_rttvar (c_sk c') \<le> max (tk_rttvar k) \<bar>tk_srtt k - r\<bar>
       \<and> int (unat (tk_rto (c_sk c'))) = tk_srtt (c_sk c') + max 200 (4 * tk_rttvar (c_sk c'))
       \<and> s_fault c' = s_fault c)"
proof (cases "tk_backoff k > 0")
  case True
  then have "c' = c" using assms(4) by (simp add: c'_def k_def tcp_rtt_def)
  moreover have "tk_backoff k \<noteq> 0" using True by auto
  ultimately show ?thesis by simp
next
  case False
  define k1 where "k1 = rtt_update r k"
  have k1: "0 \<le> tk_rttvar k1" "tk_rttvar k1 \<le> max (tk_rttvar k) \<bar>tk_srtt k - r\<bar>"
    "min (tk_srtt k) r \<le> tk_srtt k1" "tk_srtt k1 \<le> max (tk_srtt k) r" "tk_srtt k = 0 \<longrightarrow> tk_srtt k1 = r"
    using assms(6-8) by (auto simp: k1_def rtt_update_def trunc_div_nonneg)
  have v: "4 * tk_rttvar k1 < 2 ^ 30" "tk_srtt k1 < 2 ^ 28" "0 \<le> tk_srtt k1"
    using k1 assms(6-11) by auto
  let ?v = "max 200 (4 * tk_rttvar k1)"
  have c': "c' = upd_sk (\<lambda>t. t\<lparr>tk_rto := of_int (tk_srtt t + ?v)\<rparr>) (upd_sk (rtt_update r) c)"
    using False assms(4-6) v unfolding c'_def tcp_rtt_def k_def
    by (simp add: Let_def timer_get_tick_def r_def k1_def k_def max_def not_less)
  have u: "int (unat (of_int z :: u32)) = z" if "0 \<le> z" "z < 2 ^ 32" for z
    using that by (simp add: uint_word_of_int)
  have "int (unat (of_int (tk_srtt k1 + ?v) :: u32)) = tk_srtt k1 + ?v"
    using v k1 by (intro u) auto
  moreover have "tk_backoff k = 0" using False by (simp add: word_gt_0)
  moreover have sel: "tk_srtt (x\<lparr>tk_rto := y\<rparr>) = tk_srtt x" "tk_rttvar (x\<lparr>tk_rto := y\<rparr>) = tk_rttvar x"
    "tk_rto (x\<lparr>tk_rto := y\<rparr>) = y" for x :: tcp_sock and y by simp_all
  moreover have "tk_srtt (c_sk c') = tk_srtt k1" "tk_rttvar (c_sk c') = tk_rttvar k1"
    "tk_rto (c_sk c') = of_int (tk_srtt k1 + ?v)" "s_fault c' = s_fault c"
    by (simp_all only: c' k1_def k_def upd_sk_sel upd_sk_stack sel)
  ultimately show ?thesis
    using k1 False by (simp only: simp_thms)
qed

theorem rtt_estimates_witness:
  "tk_srtt (c_sk (tcp_rtt (upd_sk (\<lambda>k. k\<lparr>tk_rto := 200\<rparr>) (ack_demo\<lparr>s_tick := 150\<rparr>)))) = 50"
proof -
  let ?c = "upd_sk (\<lambda>k. k\<lparr>tk_rto := 200\<rparr>) (ack_demo\<lparr>s_tick := 150\<rparr>)"
  have r: "sint (s_tick ?c - (timer_expires 0 ?c - tk_rto (c_sk ?c))) = 50"
    by (simp add: ack_demo_def timer_expires_def upd_sk_def)
  have z: "tk_srtt tcp_alloc_sock = 0 \<and> tk_rttvar tcp_alloc_sock = 0 \<and> tk_backoff tcp_alloc_sock = 0"
    by (simp add: tcp_alloc_sock_def tcp_sock.defs sock.defs)
  then have k: "tk_srtt (c_sk ?c) = 0" "tk_rttvar (c_sk ?c) = 0" "tk_backoff (c_sk ?c) = 0"
    "tk_retransmit (c_sk ?c) = Some 0" "timer_live 0 ?c"
    by (simp_all add: ack_demo_def upd_sk_def demo_ctx_def stack.defs tcpctx.defs timer_live_def)
  show ?thesis
    using rtt_estimates [OF k(4,5)] unfolding r k by simp
qed

subsection \<open>Timeouts\<close>

text \<open>What both handlers do first: take the socket and drop their reference to the timer.\<close>

definition rto_enter :: "tcpctx \<Rightarrow> tcpctx" where
  "rto_enter c = tcp_release_rto_timer (snd (socket_wr_acquire c))"

lemma rto_enter_sel [simp]:
  "c_sk (rto_enter c) = (c_sk c)\<lparr>tk_retransmit := None\<rparr>" "c_sid (rto_enter c) = c_sid c"
  "s_skbs (rto_enter c) = s_skbs c" "s_bnext (rto_enter c) = s_bnext c" "s_routes (rto_enter c) = s_routes c"
  "s_arp_cache (rto_enter c) = s_arp_cache c" "s_tap (rto_enter c) = s_tap c" "s_write (rto_enter c) = s_write c"
  "s_tick (rto_enter c) = s_tick c"
  by (simp_all add: rto_enter_def tcp_release_rto_timer_def socket_wr_acquire_def timer_release_def Let_def
      split: option.split)

lemma rto_enter_heap [simp]: "live b (rto_enter c) = live b c" "deref b (rto_enter c) = deref b c"
  "route_lookup d (rto_enter c) = route_lookup d c"
  by (simp_all add: live_def deref_def route_lookup_def)

lemma release_sel [simp]:
  "c_sk (socket_release c) = c_sk c" "s_timers (socket_release c) = s_timers c" "s_tap (socket_release c) = s_tap c"
  "s_skbs (socket_release c) = s_skbs c"
  by (simp_all add: socket_release_def Let_def)

lemma fin_state_sel [simp]:
  "tk_rto (c_sk (tcp_handle_fin_state c)) = tk_rto (c_sk c)" "tk_backoff (c_sk (tcp_handle_fin_state c)) = tk_backoff (c_sk c)"
  "sk_write_queue (c_sk (tcp_handle_fin_state c)) = sk_write_queue (c_sk c)"
  "tk_retransmit (c_sk (tcp_handle_fin_state c)) = tk_retransmit (c_sk c)" "sk_err (c_sk (tcp_handle_fin_state c)) = sk_err (c_sk c)"
  "s_timers (tcp_handle_fin_state c) = s_timers c" "s_tap (tcp_handle_fin_state c) = s_tap c"
  by (simp_all add: tcp_handle_fin_state_def tcp_set_state_def split: tcp_states.split)

definition retransmit_head :: "nat \<Rightarrow> tcpctx \<Rightarrow> tcpctx" where
  "retransmit_head b c =
     snd (tcp_transmit_skb b (snd_una (tcb_of c)) (upd_skb b skb_reset_header (rto_enter c)))"

lemma retransmit_head_sel [simp]:
  "sk_write_queue (c_sk (retransmit_head b c)) = sk_write_queue (c_sk c)" "tk_rto (c_sk (retransmit_head b c)) = tk_rto (c_sk c)"
  "tk_backoff (c_sk (retransmit_head b c)) = tk_backoff (c_sk c)" "sk_err (c_sk (retransmit_head b c)) = sk_err (c_sk c)"
  "state_of (retransmit_head b c) = state_of c" "tcb_of (retransmit_head b c) = tcb_of c"
  "c_sid (retransmit_head b c) = c_sid c" "s_tick (retransmit_head b c) = s_tick c"
  by (simp_all add: retransmit_head_def)

lemma retransmission_timeout_eq:
  assumes "sk_write_queue (c_sk c) = b # q"
  shows "tcp_retransmission_timeout c =
    (if tk_rto (c_sk c) > 60000
     then socket_release (upd_sk (\<lambda>k. k\<lparr>sk_err := - ETIMEDOUT,
                               sk_poll_events := sk_poll_events k OR (POLLOUT OR POLLERR OR POLLHUP)\<rparr>)
            (snd (tcp_done (retransmit_head b c))))
     else let d = upd_sk (\<lambda>k. k\<lparr>tk_rto := tk_rto k * 2, tk_backoff := tk_backoff k + 1\<rparr>) (retransmit_head b c);
              (t, d) = timer_add (tk_rto (c_sk d)) H_retransmission_timeout (c_sid d) d;
              d = upd_sk (\<lambda>k. k\<lparr>tk_retransmit := Some t\<rparr>) d
          in socket_release (if th_fin (tcp_hdr (deref b d)) then tcp_handle_fin_state d else d))"
proof -
  have e: "write_queue_head (rto_enter c) = Some b" using assms by (simp add: write_queue_head_def q_peek_def)
  have r: "snd (tcp_transmit_skb b (snd_una (tcb_of (upd_skb b skb_reset_header (rto_enter c))))
      (upd_skb b skb_reset_header (rto_enter c))) = retransmit_head b c"
    by (simp add: retransmit_head_def)
  show ?thesis
    unfolding tcp_retransmission_timeout_def Let_def rto_enter_def [symmetric] e option.case r
    by (simp add: Let_def split_beta)
qed

lemma done_sel [simp]:
  "sk_write_queue (c_sk (snd (tcp_done c))) = sk_write_queue (c_sk c)"
  by (simp add: tcp_done_def tcp_free_def tcp_clear_queues_def)

text \<open>One timeout below the limit, and the one beyond it.\<close>

lemma retransmission_timeout_again:
  assumes "sk_write_queue (c_sk c) = b # q" and "tk_rto (c_sk c) \<le> 60000"
  defines "c' \<equiv> tcp_retransmission_timeout c"
  shows "sk_write_queue (c_sk c') = b # q" "tk_rto (c_sk c') = 2 * tk_rto (c_sk c)"
    "tk_backoff (c_sk c') = tk_backoff (c_sk c) + 1" "sk_err (c_sk c') = sk_err (c_sk c)"
    "s_tap c' = s_tap (retransmit_head b c)"
    "\<exists>t. tk_retransmit (c_sk c') = Some t \<and> last (s_timers c') =
      \<lparr>t_id = t, t_refcnt = 1, t_expires = s_tick c + 2 * tk_rto (c_sk c), t_cancelled = False,
       t_handler = H_retransmission_timeout, t_arg = c_sid c\<rparr>"
proof -
  have "\<not> tk_rto (c_sk c) > 60000" using assms(2) by simp
  note eq = retransmission_timeout_eq [OF assms(1), unfolded if_not_P [OF this] Let_def case_prod_beta]
  have ta: "s_tap (snd (timer_add e h a s)) = s_tap s" for e h a and s :: tcpctx by (simp add: timer_add_def)
  show "sk_write_queue (c_sk c') = b # q" "tk_rto (c_sk c') = 2 * tk_rto (c_sk c)"
    "tk_backoff (c_sk c') = tk_backoff (c_sk c) + 1" "sk_err (c_sk c') = sk_err (c_sk c)"
    "s_tap c' = s_tap (retransmit_head b c)"
    using assms(1) unfolding c'_def eq by (simp_all add: ta)
  show "\<exists>t. tk_retransmit (c_sk c') = Some t \<and> last (s_timers c') =
      \<lparr>t_id = t, t_refcnt = 1, t_expires = s_tick c + 2 * tk_rto (c_sk c), t_cancelled = False,
       t_handler = H_retransmission_timeout, t_arg = c_sid c\<rparr>"
    unfolding c'_def eq by (simp add: timer_add_def timer_alloc_def timer_get_tick_def)
qed

lemma retransmission_timeout_last:
  assumes "sk_write_queue (c_sk c) = b # q" and "tk_rto (c_sk c) > 60000"
  shows "sk_err (c_sk (tcp_retransmission_timeout c)) = - ETIMEDOUT"
    "state_of (tcp_retransmission_timeout c) = TCP_CLOSING"
  unfolding retransmission_timeout_eq [OF assms(1), unfolded if_P [OF assms(2)]] by simp_all

lemma timeouts_double:
  assumes "sk_write_queue (c_sk c) \<noteq> []" and "60000 < 2 ^ k * unat (tk_rto (c_sk c))"
  shows "\<exists>n \<le> k. (\<forall>m \<le> n. unat (tk_rto (c_sk ((tcp_retransmission_timeout ^^ m) c))) = 2 ^ m * unat (tk_rto (c_sk c))
        \<and> sk_err (c_sk ((tcp_retransmission_timeout ^^ m) c)) = sk_err (c_sk c))
    \<and> sk_err (c_sk ((tcp_retransmission_timeout ^^ Suc n) c)) = - ETIMEDOUT
    \<and> state_of ((tcp_retransmission_timeout ^^ Suc n) c) = TCP_CLOSING"
  using assms
proof (induction k arbitrary: c)
  case 0
  obtain b q where q: "sk_write_queue (c_sk c) = b # q" using 0(1) by (cases "sk_write_queue (c_sk c)") auto
  have "tk_rto (c_sk c) > 60000" using 0 by (simp add: word_less_nat_alt)
  from retransmission_timeout_last [OF q this] show ?case by simp
next
  case (Suc k)
  obtain b q where q: "sk_write_queue (c_sk c) = b # q" using Suc(2) by (cases "sk_write_queue (c_sk c)") auto
  show ?case
  proof (cases "tk_rto (c_sk c) > 60000")
    case True
    from retransmission_timeout_last [OF q this] show ?thesis by (intro exI [of _ 0]) simp
  next
    case False
    let ?c1 = "tcp_retransmission_timeout c"
    have le: "tk_rto (c_sk c) \<le> 60000" using False by simp
    note one = retransmission_timeout_again [OF q le]
    have r1: "unat (tk_rto (c_sk ?c1)) = 2 * unat (tk_rto (c_sk c))"
      using le by (simp add: one(2) word_le_nat_alt unat_word_ariths)
    have "60000 < 2 ^ k * unat (tk_rto (c_sk ?c1))" using Suc.prems(2) by (simp add: r1 mult.assoc mult.left_commute)
    then obtain n where n: "n \<le> k"
      "\<And>m. m \<le> n \<Longrightarrow> unat (tk_rto (c_sk ((tcp_retransmission_timeout ^^ m) ?c1))) = 2 ^ m * unat (tk_rto (c_sk ?c1))
        \<and> sk_err (c_sk ((tcp_retransmission_timeout ^^ m) ?c1)) = sk_err (c_sk ?c1)"
      "sk_err (c_sk ((tcp_retransmission_timeout ^^ Suc n) ?c1)) = - ETIMEDOUT"
      "state_of ((tcp_retransmission_timeout ^^ Suc n) ?c1) = TCP_CLOSING"
      using Suc.IH [of ?c1] one(1) by (auto simp del: funpow.simps)
    have "unat (tk_rto (c_sk ((tcp_retransmission_timeout ^^ m) c))) = 2 ^ m * unat (tk_rto (c_sk c))
        \<and> sk_err (c_sk ((tcp_retransmission_timeout ^^ m) c)) = sk_err (c_sk c)" if "m \<le> Suc n" for m
    proof (cases m)
      case 0
      then show ?thesis by simp
    next
      case (Suc i)
      then show ?thesis using n(2) [of i] that r1 one(4) by (simp add: funpow_swap1)
    qed
    then show ?thesis
      using n(1,3,4) by (intro exI [of _ "Suc n"]) (simp add: funpow_swap1)
  qed
qed

text \<open>
  C21: While nothing is acknowledged, every timeout doubles the timeout, and after at most nine
  doublings the connection is given up: its error is ETIMEDOUT and its state CLOSING.
\<close>

theorem retransmission_gives_up:
  assumes "sk_write_queue (c_sk c) \<noteq> []" and "200 \<le> tk_rto (c_sk c)"
  shows "\<exists>n \<le> 9. (\<forall>m \<le> n. unat (tk_rto (c_sk ((tcp_retransmission_timeout ^^ m) c))) = 2 ^ m * unat (tk_rto (c_sk c))
        \<and> sk_err (c_sk ((tcp_retransmission_timeout ^^ m) c)) = sk_err (c_sk c))
    \<and> sk_err (c_sk ((tcp_retransmission_timeout ^^ Suc n) c)) = - ETIMEDOUT
    \<and> state_of ((tcp_retransmission_timeout ^^ Suc n) c) = TCP_CLOSING"
proof -
  have "200 \<le> unat (tk_rto (c_sk c))" using assms(2) by (simp add: word_le_nat_alt)
  then have "60000 < 2 ^ 9 * unat (tk_rto (c_sk c))" by simp
  then show ?thesis by (rule timeouts_double [OF assms(1)])
qed

theorem retransmission_gives_up_witness:
  "\<exists>n \<le> 9. sk_err (c_sk ((tcp_retransmission_timeout ^^ Suc n) (upd_sk (\<lambda>k. k\<lparr>tk_rto := 200\<rparr>) ack_demo))) = - ETIMEDOUT"
proof -
  have "sk_write_queue (c_sk (upd_sk (\<lambda>k. k\<lparr>tk_rto := 200\<rparr>) ack_demo)) \<noteq> []"
    by (simp add: ack_demo_def upd_sk_def)
  moreover have "200 \<le> tk_rto (c_sk (upd_sk (\<lambda>k. k\<lparr>tk_rto := 200\<rparr>) ack_demo))" by simp
  ultimately show ?thesis using retransmission_gives_up by blast
qed

text \<open>
  C18: A timeout below the limit sends the oldest unacknowledged segment again, to a reachable
  peer: one frame with sequence number snd_una, the flags and data of the head of the queue, which
  stays queued; the timeout doubles and a new timer is armed for it.
\<close>

theorem timeout_retransmits_head:
  assumes "sk_write_queue (c_sk c) = b # q" and "tk_rto (c_sk c) \<le> 60000" and "live b c"
    and "hdr_words (deref b c) = 5" "length (b_mem (deref b c)) = 54 + n" "unat (b_dlen (deref b c)) = n" "n < 65480"
    and "route_lookup (sk_daddr (c_sk c)) c = Some rt" "netdev_ok (rt_dev rt)"
    and "arp_get_hwaddr (next_hop rt (sk_daddr (c_sk c))) (s_arp_cache c) = Some dmac" "length dmac = 6"
  shows "\<exists>F t. let th = tcp_ntoh (dec_tcphdr (mread F 34 20)); c' = tcp_retransmission_timeout c in
      s_tap c' = s_tap c @ [F] \<and> th_seq th = snd_una (tcb_of c) \<and> th_flags th = seg_flags b c
    \<and> drop 54 F = seg_data b c \<and> sk_write_queue (c_sk c') = b # q \<and> tk_rto (c_sk c') = 2 * tk_rto (c_sk c)
    \<and> tk_backoff (c_sk c') = tk_backoff (c_sk c) + 1 \<and> tk_retransmit (c_sk c') = Some t
    \<and> last (s_timers c') = \<lparr>t_id = t, t_refcnt = 1, t_expires = s_tick c + 2 * tk_rto (c_sk c), t_cancelled = False,
        t_handler = H_retransmission_timeout, t_arg = c_sid c\<rparr>"
proof -
  let ?c1 = "upd_skb b skb_reset_header (rto_enter c)" and ?una = "snd_una (tcb_of c)"
  note one = retransmission_timeout_again [OF assms(1,2)]
  have hd: "tcp_hdr (skb_reset_header k) = tcp_hdr k" "b_mem (skb_reset_header k) = b_mem k"
    "b_dlen (skb_reset_header k) = b_dlen k" for k
    by (simp_all add: tcp_hdr_def skb_reset_header_def)
  have d: "live b ?c1" "deref b ?c1 = skb_reset_header (deref b c)" using assms(3) by simp_all
  have w: "hdr_words (deref b ?c1) = 5" using assms(4) unfolding d(2) hdr_words_def hd .
  have "b_data (deref b ?c1) = 54" "unat (b_len (deref b ?c1)) = n"
    unfolding d(2) using assms(5,6) by (simp_all add: skb_reset_header_def)
  then have r: "tcp_ready b n ?c1"
    using w d assms(5,7) by (simp add: tcp_ready_def Let_def hd)
  have reach: "route_lookup (sk_daddr (c_sk ?c1)) ?c1 = Some rt"
    "arp_get_hwaddr (next_hop rt (sk_daddr (c_sk ?c1))) (s_arp_cache ?c1) = Some dmac"
    using assms(8,10) by (simp_all add: route_lookup_def)
  define body where "body = seg_body n (deref b ?c1)"
  obtain F where F: "s_tap (retransmit_head b c) = s_tap c @ [F]"
    "drop 34 F = tcp_segment (c_sk ?c1) ?una (tcp_hdr (deref b c)) body"
    using tcp_transmit_frame [OF r reach(1) assms(9) reach(2) assms(11), of ?una]
    by (auto simp: retransmit_head_def d hd body_def)
  have th: "mread F 34 20 = take 20 (tcp_segment (c_sk ?c1) ?una (tcp_hdr (deref b c)) body)"
    by (simp add: mread_def F(2))
  have "drop 20 (drop 34 F) = body" by (simp only: F(2) tcp_segment_def Let_def) simp
  moreover have "body = seg_data b c"
    unfolding body_def seg_body_def w unfolding d(2) hd using assms(5) by (simp add: mread_def seg_data_def)
  ultimately have "drop 54 F = seg_data b c" by simp
  moreover note seg_fields(3,6) [of "c_sk ?c1" ?una "tcp_hdr (deref b c)" body]
  moreover obtain t where t: "tk_retransmit (c_sk (tcp_retransmission_timeout c)) = Some t"
    "last (s_timers (tcp_retransmission_timeout c)) =
      \<lparr>t_id = t, t_refcnt = 1, t_expires = s_tick c + 2 * tk_rto (c_sk c), t_cancelled = False,
       t_handler = H_retransmission_timeout, t_arg = c_sid c\<rparr>"
    using one(6) by blast
  ultimately show ?thesis
    unfolding Let_def seg_flags_def
    by (intro exI [of _ F] exI [of _ t] conjI)
      (use one(1-5) F(1) t in \<open>simp_all only: th\<close>)
qed

definition retx_demo :: tcpctx where
  "retx_demo = upd_tcb (\<lambda>t. t\<lparr>snd_una := 1001\<rparr>)
     (upd_sk (\<lambda>k. k\<lparr>sk_write_queue := [0], tk_rto := 200\<rparr>) (seg_demo 0x08080808))"

theorem timeout_retransmits_head_witness:
  "\<exists>F. s_tap (tcp_retransmission_timeout retx_demo) = [F]
    \<and> th_seq (tcp_ntoh (dec_tcphdr (mread F 34 20))) = 1001 \<and> drop 54 F = [1, 2, 3, 4]
    \<and> tk_rto (c_sk (tcp_retransmission_timeout retx_demo)) = 400"
proof -
  have k: "sk_write_queue (c_sk retx_demo) = [0]" "tk_rto (c_sk retx_demo) = 200" "snd_una (tcb_of retx_demo) = 1001"
    "sk_daddr (c_sk retx_demo) = 0x08080808" "s_tap retx_demo = []"
    by (simp_all add: retx_demo_def seg_demo_sel)
  have d: "live 0 retx_demo" "deref 0 retx_demo = seg_skb"
    using seg_demo_skb by (simp_all add: retx_demo_def)
  have s: "length (b_mem seg_skb) = 54 + 4" "unat (b_dlen seg_skb) = 4" "drop 54 (b_mem seg_skb) = [1, 2, 3, 4]"
    by (simp_all add: seg_skb_def)
  have ok: "netdev_ok (rt_dev demo_rt)" by (simp add: demo_rt_def route_alloc_def)
  have rt: "route_lookup (sk_daddr (c_sk retx_demo)) retx_demo = Some demo_rt"
    "arp_get_hwaddr (next_hop demo_rt (sk_daddr (c_sk retx_demo))) (s_arp_cache retx_demo) = Some [2, 0, 0, 0, 0, 1]"
    using seg_demo_route(1) seg_demo_arp by (simp_all add: k retx_demo_def route_lookup_def seg_demo_sel(5))
  show ?thesis
    using timeout_retransmits_head [of retx_demo 0 "[]" 4, OF k(1) _ d(1) _ _ _ _ rt(1) ok rt(2)]
    unfolding d(2) hdr_words_seg_skb s(1,2) k seg_data_def s(3) Let_def by auto
qed

subsection \<open>Connecting\<close>

lemma connect_rto_again:
  assumes "sk_write_queue (c_sk c) = b # q" and "state_of c = TCP_SYN_SENT" and "tk_backoff (c_sk c) \<le> TCP_CONN_RETRIES"
  defines "c' \<equiv> tcp_connect_rto c"
  shows "sk_write_queue (c_sk c') = b # q" "state_of c' = TCP_SYN_SENT" "tk_backoff (c_sk c') = tk_backoff (c_sk c) + 1"
    "sk_err (c_sk c') = sk_err (c_sk c)" "s_tap c' = s_tap (retransmit_head b c)" "s_tick c' = s_tick c" "c_sid c' = c_sid c"
    "\<exists>t. tk_retransmit (c_sk c') = Some t \<and> last (s_timers c') =
      \<lparr>t_id = t, t_refcnt = 1, t_expires = s_tick c + push_bit (unat (tk_backoff (c_sk c) + 1)) TCP_SYN_BACKOFF,
       t_cancelled = False, t_handler = H_connect_rto, t_arg = c_sid c\<rparr>"
proof -
  have e: "write_queue_head (rto_enter c) = Some b" using assms by (simp add: write_queue_head_def q_peek_def)
  have nb: "\<not> tk_backoff (c_sk (rto_enter c)) > TCP_CONN_RETRIES" using assms(3) by simp
  have st: "state_of (rto_enter c) = TCP_SYN_SENT" using assms(2) by simp
  have r: "snd (tcp_transmit_skb b (snd_una (tcb_of (upd_skb b skb_reset_header (rto_enter c))))
      (upd_skb b skb_reset_header (rto_enter c))) = retransmit_head b c"
    by (simp add: retransmit_head_def)
  have eq: "c' = socket_release (tcp_rearm_rto_timer
      (upd_sk (\<lambda>k. k\<lparr>tk_backoff := tk_backoff k + 1\<rparr>) (retransmit_head b c)))"
    unfolding c'_def tcp_connect_rto_def Let_def rto_enter_def [symmetric] if_P [OF st] if_not_P [OF nb] e option.case r ..
  have rel: "s_tick (socket_release d) = s_tick d" "c_sid (socket_release d) = c_sid d" for d
    by (simp_all add: socket_release_def Let_def)
  have rearm: "tk_backoff (c_sk (tcp_rearm_rto_timer d)) = tk_backoff (c_sk d)"
    "sk_err (c_sk (tcp_rearm_rto_timer d)) = sk_err (c_sk d)" "s_tap (tcp_rearm_rto_timer d) = s_tap d"
    "s_tick (tcp_rearm_rto_timer d) = s_tick d" "c_sid (tcp_rearm_rto_timer d) = c_sid d" for d
    by (simp_all add: tcp_rearm_rto_timer_def Let_def split_beta tcp_release_rto_timer_def)
      (simp_all add: timer_add_def timer_release_def split: option.split)
  show "sk_write_queue (c_sk c') = b # q" "state_of c' = TCP_SYN_SENT" "tk_backoff (c_sk c') = tk_backoff (c_sk c) + 1"
    "sk_err (c_sk c') = sk_err (c_sk c)" "s_tap c' = s_tap (retransmit_head b c)" "s_tick c' = s_tick c" "c_sid c' = c_sid c"
    using assms(1,2) by (simp_all add: eq rearm rel)
  show "\<exists>t. tk_retransmit (c_sk c') = Some t \<and> last (s_timers c') =
      \<lparr>t_id = t, t_refcnt = 1, t_expires = s_tick c + push_bit (unat (tk_backoff (c_sk c) + 1)) TCP_SYN_BACKOFF,
       t_cancelled = False, t_handler = H_connect_rto, t_arg = c_sid c\<rparr>"
    using assms(2)
    by (simp add: eq tcp_rearm_rto_timer_def Let_def tcp_release_rto_timer_def timer_release_def timer_add_def
        timer_alloc_def timer_get_tick_def split: option.split)
qed

lemma connect_rto_last:
  assumes "state_of c = TCP_SYN_SENT" and "tk_backoff (c_sk c) > TCP_CONN_RETRIES"
  shows "sk_err (c_sk (tcp_connect_rto c)) = - ETIMEDOUT" "state_of (tcp_connect_rto c) = TCP_CLOSING"
proof -
  have st: "state_of (rto_enter c) = TCP_SYN_SENT" "tk_backoff (c_sk (rto_enter c)) > TCP_CONN_RETRIES"
    using assms by simp_all
  show "sk_err (c_sk (tcp_connect_rto c)) = - ETIMEDOUT" "state_of (tcp_connect_rto c) = TCP_CLOSING"
    unfolding tcp_connect_rto_def Let_def rto_enter_def [symmetric] if_P [OF st(1)] if_P [OF st(2)] by simp_all
qed

lemma connect_timeouts:
  assumes "sk_write_queue (c_sk c) = b # q" and "state_of c = TCP_SYN_SENT" and "tk_backoff (c_sk c) = 0" and "m \<le> 4"
  shows "sk_write_queue (c_sk ((tcp_connect_rto ^^ m) c)) = b # q \<and> state_of ((tcp_connect_rto ^^ m) c) = TCP_SYN_SENT
    \<and> tk_backoff (c_sk ((tcp_connect_rto ^^ m) c)) = of_nat m \<and> sk_err (c_sk ((tcp_connect_rto ^^ m) c)) = sk_err (c_sk c)
    \<and> s_tick ((tcp_connect_rto ^^ m) c) = s_tick c \<and> c_sid ((tcp_connect_rto ^^ m) c) = c_sid c"
  using assms(4)
proof (induction m)
  case 0
  then show ?case using assms by simp
next
  case (Suc m)
  let ?d = "(tcp_connect_rto ^^ m) c"
  have IH: "sk_write_queue (c_sk ?d) = b # q" "state_of ?d = TCP_SYN_SENT" "tk_backoff (c_sk ?d) = of_nat m"
    "sk_err (c_sk ?d) = sk_err (c_sk c)" "s_tick ?d = s_tick c" "c_sid ?d = c_sid c"
    using Suc by simp_all
  have "tk_backoff (c_sk ?d) \<le> TCP_CONN_RETRIES"
    using Suc.prems by (simp add: IH(3) TCP_CONN_RETRIES_def word_le_nat_alt unat_of_nat)
  from connect_rto_again [OF IH(1,2) this] IH show ?case by simp
qed

text \<open>
  A SYN that is never answered is sent again at most four times: each timeout retransmits it
  and waits twice as long for the next (1, 2, 4 and 8 seconds after the first), and the fifth
  timeout ends the attempt with ETIMEDOUT.
\<close>

theorem connect_gives_up:
  assumes "sk_write_queue (c_sk c) = b # q" and "state_of c = TCP_SYN_SENT" and "tk_backoff (c_sk c) = 0"
  shows "(\<forall>m \<in> {1..4}. state_of ((tcp_connect_rto ^^ m) c) = TCP_SYN_SENT
        \<and> sk_err (c_sk ((tcp_connect_rto ^^ m) c)) = sk_err (c_sk c)
        \<and> s_tap ((tcp_connect_rto ^^ m) c) = s_tap (retransmit_head b ((tcp_connect_rto ^^ (m - 1)) c))
        \<and> t_handler (last (s_timers ((tcp_connect_rto ^^ m) c))) = H_connect_rto
        \<and> t_expires (last (s_timers ((tcp_connect_rto ^^ m) c))) = s_tick c + 500 * 2 ^ m)
    \<and> sk_err (c_sk ((tcp_connect_rto ^^ 5) c)) = - ETIMEDOUT
    \<and> state_of ((tcp_connect_rto ^^ 5) c) = TCP_CLOSING"
proof -
  have step: "state_of ((tcp_connect_rto ^^ Suc m) c) = TCP_SYN_SENT
      \<and> sk_err (c_sk ((tcp_connect_rto ^^ Suc m) c)) = sk_err (c_sk c)
      \<and> s_tap ((tcp_connect_rto ^^ Suc m) c) = s_tap (retransmit_head b ((tcp_connect_rto ^^ m) c))
      \<and> t_handler (last (s_timers ((tcp_connect_rto ^^ Suc m) c))) = H_connect_rto
      \<and> t_expires (last (s_timers ((tcp_connect_rto ^^ Suc m) c))) = s_tick c + 500 * 2 ^ Suc m"
    if "m < 4" for m
  proof -
    let ?d = "(tcp_connect_rto ^^ m) c"
    have d: "sk_write_queue (c_sk ?d) = b # q" "state_of ?d = TCP_SYN_SENT" "tk_backoff (c_sk ?d) = of_nat m"
      "sk_err (c_sk ?d) = sk_err (c_sk c)" "s_tick ?d = s_tick c"
      using connect_timeouts [OF assms, of m] that by simp_all
    have "tk_backoff (c_sk ?d) \<le> TCP_CONN_RETRIES"
      using that by (simp add: d(3) TCP_CONN_RETRIES_def word_le_nat_alt unat_of_nat)
    note one = connect_rto_again [OF d(1,2) this]
    have "unat (of_nat m + 1 :: u8) = Suc m"
      using that unat_of_nat [where 'a = 8, of "Suc m"] by (simp add: add.commute)
    then have "push_bit (unat (tk_backoff (c_sk ?d) + 1)) TCP_SYN_BACKOFF = 500 * 2 ^ Suc m"
      by (simp add: d(3) push_bit_eq_mult TCP_SYN_BACKOFF_def)
    then show ?thesis using one d(2,4,5) by auto
  qed
  let ?d = "(tcp_connect_rto ^^ 4) c"
  have "state_of ?d = TCP_SYN_SENT" "tk_backoff (c_sk ?d) > TCP_CONN_RETRIES"
    using connect_timeouts [OF assms, of 4] by (simp_all add: TCP_CONN_RETRIES_def)
  then have "sk_err (c_sk (tcp_connect_rto ?d)) = - ETIMEDOUT" "state_of (tcp_connect_rto ?d) = TCP_CLOSING"
    by (rule connect_rto_last)+
  moreover have "(tcp_connect_rto ^^ 5) c = tcp_connect_rto ?d" by (simp add: numeral_eq_Suc)
  moreover have "\<forall>m \<in> {1..4}. state_of ((tcp_connect_rto ^^ m) c) = TCP_SYN_SENT
        \<and> sk_err (c_sk ((tcp_connect_rto ^^ m) c)) = sk_err (c_sk c)
        \<and> s_tap ((tcp_connect_rto ^^ m) c) = s_tap (retransmit_head b ((tcp_connect_rto ^^ (m - 1)) c))
        \<and> t_handler (last (s_timers ((tcp_connect_rto ^^ m) c))) = H_connect_rto
        \<and> t_expires (last (s_timers ((tcp_connect_rto ^^ m) c))) = s_tick c + 500 * 2 ^ m"
  proof
    fix m :: nat assume "m \<in> {1..4}"
    then have "m = Suc (m - 1)" "m - 1 < 4" by auto
    then show "state_of ((tcp_connect_rto ^^ m) c) = TCP_SYN_SENT
        \<and> sk_err (c_sk ((tcp_connect_rto ^^ m) c)) = sk_err (c_sk c)
        \<and> s_tap ((tcp_connect_rto ^^ m) c) = s_tap (retransmit_head b ((tcp_connect_rto ^^ (m - 1)) c))
        \<and> t_handler (last (s_timers ((tcp_connect_rto ^^ m) c))) = H_connect_rto
        \<and> t_expires (last (s_timers ((tcp_connect_rto ^^ m) c))) = s_tick c + 500 * 2 ^ m"
      using step [of "m - 1"] by metis
  qed
  ultimately show ?thesis by simp
qed

theorem connect_gives_up_witness:
  "sk_err (c_sk ((tcp_connect_rto ^^ 5) (upd_sk (\<lambda>k. k\<lparr>sk_write_queue := [0]\<rparr>) (demo_ctx TCP_SYN_SENT)))) = - ETIMEDOUT"
proof -
  have "tk_backoff (c_sk (demo_ctx TCP_SYN_SENT)) = 0"
    by (simp add: demo_ctx_def stack.defs tcpctx.defs tcp_alloc_sock_def tcp_sock.defs sock.defs)
  then show ?thesis
    using connect_gives_up [of "upd_sk (\<lambda>k. k\<lparr>sk_write_queue := [0]\<rparr>) (demo_ctx TCP_SYN_SENT)" 0 "[]"] by simp
qed

end
