(* ===== verification/Tcp_Transfer.thy ===== *)
theory Tcp_Transfer
  imports Tcp_Ofo Tcp_Retx Tcp "HOL-Library.Sublist"
begin

unbundle bit_operations_syntax

text \<open>
  A whole transfer: segments of a sender's data that arrive in any order, repeated or not at all,
  between reads, sends and timeouts of this end, hand the reader a prefix of the data.
\<close>

subsection \<open>Operations that do not touch the received data\<close>

text \<open>
  \<open>R\<close> are the buffers of received data: allocated, and none of the write queue's.
\<close>

definition rx_ok :: "nat set \<Rightarrow> tcpctx \<Rightarrow> bool" where
  "rx_ok R c \<longleftrightarrow> heap_ok c \<and> (\<forall>b\<in>R. live b c) \<and> R \<inter> set (sk_write_queue (c_sk c)) = {}
     \<and> (\<forall>b\<in>set (sk_write_queue (c_sk c)). b < s_bnext c)"

definition rx_frame :: "nat set \<Rightarrow> tcpctx \<Rightarrow> tcpctx \<Rightarrow> bool" where
  "rx_frame R c c' \<longleftrightarrow> (rx_ok R c \<longrightarrow> rx_ok R c' \<and> (\<forall>b\<in>R. s_skbs c' b = s_skbs c b)
     \<and> sk_receive_queue (c_sk c') = sk_receive_queue (c_sk c) \<and> tk_ofo_queue (c_sk c') = tk_ofo_queue (c_sk c)
     \<and> rcv_nxt (tcb_of c') = rcv_nxt (tcb_of c) \<and> rcv_wnd (tcb_of c') = rcv_wnd (tcb_of c)
     \<and> s_bnext c \<le> s_bnext c')"

lemma rx_frame_refl [simp]: "rx_frame R c c"
  by (simp add: rx_frame_def)

lemma rx_frame_trans: "rx_frame R c c' \<Longrightarrow> rx_frame R c' c'' \<Longrightarrow> rx_frame R c c''"
  by (auto simp: rx_frame_def)

text \<open>What most operations leave alone, a rewrite rule for each.\<close>

definition conn_view ::
  "tcpctx \<Rightarrow> (nat \<Rightarrow> sk_buff option) \<times> nat \<times> rtentry list \<times> nat list \<times> nat list \<times> nat list \<times> tcb \<times> u32" where
  "conn_view c = (s_skbs c, s_bnext c, s_routes c, sk_write_queue (c_sk c), sk_receive_queue (c_sk c),
     tk_ofo_queue (c_sk c), tcb_of c, tk_inflight (c_sk c))"

lemma conn_view_upd [simp]:
  "(\<And>k. sk_write_queue (f k) = sk_write_queue k \<and> sk_receive_queue (f k) = sk_receive_queue k
     \<and> tk_ofo_queue (f k) = tk_ofo_queue k \<and> tk_tcb (f k) = tk_tcb k \<and> tk_inflight (f k) = tk_inflight k) \<Longrightarrow>
     conn_view (upd_sk f c) = conn_view c"
  "conn_view (upd_sock h c) = conn_view c" "conn_view (check e c) = conn_view c" "conn_view (touch b c) = conn_view c"
  by (simp_all add: conn_view_def touch_def)

lemma conn_view_timer [simp]:
  "conn_view (timer_cancel t c) = conn_view c" "conn_view (timer_release t c) = conn_view c"
  "conn_view (snd (timer_add e h a c)) = conn_view c" "conn_view (timer_oneshot e h a c) = conn_view c"
  by (simp_all add: conn_view_def)
    (simp_all add: timer_cancel_def timer_release_def timer_add_def timer_oneshot_def split: option.split)

lemma conn_view_state [simp]:
  "conn_view (tcp_set_state st c) = conn_view c" "conn_view (wakeup_recv c) = conn_view c"
  "conn_view (wakeup_sock c) = conn_view c" "conn_view (snd (tcp_recv_notify c)) = conn_view c"
  "conn_view (tcp_stop_rto_timer c) = conn_view c" "conn_view (tcp_release_rto_timer c) = conn_view c"
  "conn_view (tcp_stop_delack_timer c) = conn_view c" "conn_view (tcp_release_delack_timer c) = conn_view c"
  "conn_view (snd (socket_wr_acquire c)) = conn_view c" "conn_view (socket_release c) = conn_view c"
  by (simp_all add: tcp_set_state_def wakeup_recv_def wakeup_sock_def tcp_recv_notify_def tcp_stop_rto_timer_def
      tcp_release_rto_timer_def tcp_stop_delack_timer_def tcp_release_delack_timer_def socket_wr_acquire_def
      socket_release_def Let_def)

lemma conn_view_clear_timers [simp]: "conn_view (tcp_clear_timers c) = conn_view c"
  by (simp add: tcp_clear_timers_def Let_def)

lemma conn_view_more [simp]:
  "conn_view (tcp_enter_time_wait c) = conn_view c" "conn_view (tcp_rearm_rto_timer c) = conn_view c"
  "conn_view (tcp_rearm_user_timeout c) = conn_view c" "conn_view (tcp_rtt c) = conn_view c"
  "conn_view (tcp_handle_fin_state c) = conn_view c" "conn_view (snd (tcp_calculate_sacks c)) = conn_view c"
  by (simp_all add: tcp_enter_time_wait_def tcp_rearm_rto_timer_def tcp_rearm_user_timeout_def tcp_rtt_def
      rtt_update_def tcp_handle_fin_state_def tcp_calculate_sacks_def Let_def case_prod_beta
      split: option.split tcp_states.split)

lemmas conn_views = conn_view_upd conn_view_timer conn_view_state conn_view_clear_timers conn_view_more

lemma rx_frame_upd [simp]:
  "(\<And>k. sk_write_queue (f k) = sk_write_queue k \<and> sk_receive_queue (f k) = sk_receive_queue k
     \<and> tk_ofo_queue (f k) = tk_ofo_queue k \<and> tk_tcb (f k) = tk_tcb k) \<Longrightarrow>
     rx_frame R c (upd_sk f c') = rx_frame R c c'"
  "(\<And>t. rcv_nxt (g t) = rcv_nxt t \<and> rcv_wnd (g t) = rcv_wnd t) \<Longrightarrow>
     rx_frame R c (upd_tcb g c') = rx_frame R c c'"
  by (simp_all add: rx_frame_def rx_ok_def heap_ok_def live_def)

lemma rx_frame_view: "conn_view c'' = conn_view c' \<Longrightarrow> rx_frame R c c'' = rx_frame R c c'"
  by (simp add: conn_view_def rx_frame_def rx_ok_def heap_ok_def live_def)

lemmas rx_frame_views [simp] = conn_views [THEN rx_frame_view]

lemma rx_view_frame: "conn_view c' = conn_view c \<Longrightarrow> rx_frame R c c'"
  using rx_frame_view [of c' c R c] by simp

subsection \<open>Buffers\<close>

lemma rx_frame_upd_skb: "b \<notin> R \<Longrightarrow> rx_frame R c (upd_skb b f c)"
  by (auto simp: rx_frame_def rx_ok_def intro!: s_skbs_upd_skb)

lemma rx_frame_free: "b \<notin> R \<Longrightarrow> rx_frame R c (free_skb b c)"
  by (auto simp: rx_frame_def rx_ok_def s_skbs_free_skb heap_ok_free_skb live_def)
    (auto simp: free_skb_def Let_def touch_def)

lemma rx_frame_tx:
  assumes "heap_ok c \<Longrightarrow> tcp_tx B c c'" "B \<inter> R = {}"
  shows "rx_frame R c c'"
proof -
  have "rx_ok R c' \<and> (\<forall>b\<in>R. s_skbs c' b = s_skbs c b) \<and> s_bnext c \<le> s_bnext c'"
    if ok: "rx_ok R c"
  proof -
    have tx: "tcp_tx B c c'" using assms(1) ok by (simp add: rx_ok_def)
    have keep: "s_skbs c' b = s_skbs c b" if "b \<in> R" for b
      using tx ok that assms(2) by (auto simp: tcp_tx_def tx_frame_def rx_ok_def)
    moreover have "heap_ok c'" "s_bnext c \<le> s_bnext c'"
      using tx ok by (auto simp: tcp_tx_def tx_frame_def rx_ok_def heap_ok_def live_def)
    ultimately show ?thesis
      using ok same_sk_fields(3) [OF same_sk_tx [OF tx]] by (fastforce simp: rx_ok_def live_def)
  qed
  moreover have "rx_ok R c \<Longrightarrow> same_sk c c'"
    using assms(1) same_sk_tx by (auto simp: rx_ok_def)
  ultimately show ?thesis by (auto simp: rx_frame_def same_sk_fields)
qed

lemma rx_frame_ack: "rx_frame R c (snd (tcp_send_ack c))"
  by (rule rx_frame_tx [OF tcp_send_ack_tx]) simp_all

lemma rx_frame_transmit: "b \<notin> R \<Longrightarrow> rx_frame R c (snd (tcp_transmit_skb b seq c))"
  by (rule rx_frame_tx [OF tcp_transmit_tx [of b "{b}"]]) simp_all

subsection \<open>The phases of segment processing\<close>

lemma clean_rto_frame: "sk_write_queue (c_sk c) = q \<Longrightarrow> rx_frame R c (clean_rto q una c)"
proof (induction q arbitrary: c)
  case Nil
  then show ?case by simp
next
  case (Cons b q)
  let ?c1 = "upd_sk (\<lambda>t. t\<lparr>sk_write_queue := q\<rparr>) (touch b c)"
  let ?c2 = "free_skb b (upd_skb b (\<lambda>k. k\<lparr>b_refcnt := b_refcnt k - 1\<rparr>) ?c1)"
  let ?c3 = "if tk_inflight (c_sk ?c2) > 0 then upd_sk (\<lambda>t. t\<lparr>tk_inflight := tk_inflight t - 1\<rparr>) ?c2 else ?c2"
  show ?case
  proof (cases "b \<in> R")
    case True
    then show ?thesis using Cons.prems by (auto simp: rx_frame_def rx_ok_def)
  next
    case False
    have "rx_frame R c (touch b c)" by (rule rx_view_frame) simp
    moreover have "rx_frame R (touch b c) ?c1"
      using Cons.prems by (auto simp: rx_frame_def rx_ok_def)
    moreover have "rx_frame R ?c1 ?c2"
      using False by (blast intro: rx_frame_trans rx_frame_free rx_frame_upd_skb)
    moreover have "rx_frame R ?c2 ?c3" by simp
    ultimately have c3: "rx_frame R c (touch b c)" "rx_frame R c ?c3" by (blast intro: rx_frame_trans)+
    have "rx_frame R ?c3 (clean_rto q una ?c3)" by (rule Cons.IH) simp
    with c3 show ?thesis by (auto simp: Let_def intro: rx_frame_trans)
  qed
qed

lemma clean_rto_queue_frame: "rx_frame R c (snd (tcp_clean_rto_queue una c))"
  using clean_rto_frame [OF refl, of R c una] by (simp add: tcp_clean_rto_queue_def Let_def)

lemmas rx_frame_then =
  rx_frame_trans [OF _ rx_frame_upd_skb] rx_frame_trans [OF _ rx_frame_free] rx_frame_trans [OF _ rx_frame_transmit]
  rx_frame_trans [OF _ rx_frame_ack] rx_frame_trans [OF _ clean_rto_queue_frame]

lemma store_seq_frame: "b \<notin> R \<Longrightarrow> rx_frame R c (tcp_store_seq b c)"
  by (auto simp: tcp_store_seq_def Let_def intro!: rx_frame_then)

lemma send_each_frame: "set bs \<inter> R = {} \<Longrightarrow> rx_frame R c (send_each bs c)"
proof (induction bs c rule: send_each.induct)
  case (2 b bs c)
  then have "b \<notin> R" by simp
  then have "rx_frame R c (tcp_store_seq b (snd (tcp_transmit_skb b (snd_nxt (tcb_of (upd_skb b skb_reset_header c)))
      (upd_skb b skb_reset_header c))))"
    by (intro rx_frame_trans [OF _ store_seq_frame] rx_frame_then) simp_all
  with 2 show ?case by (auto simp: Let_def intro: rx_frame_trans)
qed simp

lemma send_next_frame: "rx_frame R c (snd (tcp_send_next n c))"
proof (cases "rx_ok R c")
  case True
  then have "set (take n (sk_write_queue (c_sk c))) \<inter> R = {}" by (auto simp: rx_ok_def dest: in_set_takeD)
  then show ?thesis by (simp add: tcp_send_next_def send_each_frame)
qed (simp add: rx_frame_def)

lemma input_check_frame:
  "input_check b th c = Inl r \<Longrightarrow> b \<notin> R \<Longrightarrow> rx_frame R c (snd r)"
  by (auto simp: input_check_def tcp_drop_def tcp_send_challenge_ack_def Let_def split: if_splits
      intro!: rx_frame_then)

lemma input_ack_field_frame:
  "input_ack_field b th c = Inl r \<Longrightarrow> b \<notin> R \<Longrightarrow> rx_frame R c (snd r)"
  "input_ack_field b th c = Inr c' \<Longrightarrow> rx_frame R c c'"
  by (auto simp: input_ack_field_def Let_def tcp_drop_def split: if_splits intro!: rx_frame_then)

lemma input_ack_frame:
  "input_ack b th c = Inl r \<Longrightarrow> b \<notin> R \<Longrightarrow> rx_frame R c (snd r)"
  "input_ack b th c = Inr c' \<Longrightarrow> rx_frame R c c'"
proof -
  have s: "rx_frame R c (tcp_set_state TCP_ESTABLISHED c)" by simp
  show "input_ack b th c = Inl r \<Longrightarrow> b \<notin> R \<Longrightarrow> rx_frame R c (snd r)"
    by (auto simp: input_ack_def tcp_drop_def split: tcp_states.splits if_splits
        dest: input_ack_field_frame(1) intro: rx_frame_trans [OF s] intro!: rx_frame_then)
  show "input_ack b th c = Inr c' \<Longrightarrow> rx_frame R c c'"
    by (auto simp: input_ack_def split: tcp_states.splits if_splits dest: input_ack_field_frame(2)
        intro: rx_frame_trans [OF s])
qed

lemma input_fin_acked_frame: "input_fin_acked b th c = Inr c' \<Longrightarrow> rx_frame R c c'"
  by (auto simp: input_fin_acked_def Let_def split: tcp_states.splits if_splits intro!: rx_frame_then)

lemma input_delack_frame: "rx_frame R c (input_delack b th expected c)"
  unfolding input_delack_def Let_def case_prod_beta
  by (auto intro!: rx_frame_then rx_frame_trans [OF _ send_next_frame])

subsection \<open>The sender's segments\<close>

text \<open>
  The sender cuts its data into the chunks \<open>css\<close>, none empty, and numbers the bytes from \<open>s0\<close>,
  without passing the end of the sequence space.  \<open>offs css j\<close> bytes are before chunk \<open>j\<close>.
\<close>

definition offs :: "bytes list \<Rightarrow> nat \<Rightarrow> nat" where
  "offs css j = length (concat (take j css))"

definition seq_at :: "bytes list \<Rightarrow> u32 \<Rightarrow> nat \<Rightarrow> u32" where
  "seq_at css s0 j = s0 + of_nat (offs css j)"

definition numbered :: "bytes list \<Rightarrow> u32 \<Rightarrow> bool" where
  "numbered css s0 \<longleftrightarrow> [] \<notin> set css \<and> unat s0 + length (concat css) < 4294967296"

definition chunk_at :: "bytes list \<Rightarrow> u32 \<Rightarrow> nat \<Rightarrow> sk_buff \<Rightarrow> bool" where
  "chunk_at css s0 j k \<longleftrightarrow> j < length css \<and> b_seq k = seq_at css s0 j \<and> b_end_seq k = seq_at css s0 (Suc j)
     \<and> payload k = css ! j \<and> data_ok k"

lemma chunk_at_misc [simp]: "chunk_at css s0 j (k\<lparr>b_refcnt := n\<rparr>) = chunk_at css s0 j k"
  by (simp add: chunk_at_def)

lemma offs_Suc: "j < length css \<Longrightarrow> offs css (Suc j) = offs css j + length (css ! j)"
  by (simp add: offs_def take_Suc_conv_app_nth)

lemma offs_add: "i + n \<le> length css \<Longrightarrow> offs css (i + n) = offs css i + length (concat (take n (drop i css)))"
  by (simp add: offs_def take_add)

lemma offs_less:
  assumes "[] \<notin> set css" "i < j" "j \<le> length css"
  shows "offs css i < offs css j"
proof -
  have "css ! i \<noteq> []" using assms by (metis less_le_trans nth_mem)
  then have "offs css i < offs css (Suc i)" using assms by (simp add: offs_Suc)
  also have "\<dots> \<le> offs css j" using offs_add [of "Suc i" "j - Suc i" css] assms(2,3) by simp
  finally show ?thesis .
qed

lemma offs_le: "offs css j \<le> length (concat css)"
proof -
  have "length (concat css) = length (concat (take j css)) + length (concat (drop j css))"
    by (metis append_take_drop_id concat_append length_append)
  then show ?thesis by (simp add: offs_def)
qed

lemma unat_seq_at: "numbered css s0 \<Longrightarrow> unat (seq_at css s0 j) = unat s0 + offs css j"
proof -
  assume "numbered css s0"
  then have l: "unat s0 + offs css j < 4294967296" using offs_le [of css j] by (simp add: numbered_def)
  then have o: "unat (of_nat (offs css j) :: u32) = offs css j" by (simp add: unat_of_nat)
  show ?thesis using l by (simp add: seq_at_def unat_word_ariths o)
qed

lemma seq_at_cmp:
  assumes "numbered css s0" "i \<le> length css" "j \<le> length css"
  shows "seq_at css s0 i < seq_at css s0 j \<longleftrightarrow> i < j" "seq_at css s0 i \<le> seq_at css s0 j \<longleftrightarrow> i \<le> j"
    "seq_at css s0 i = seq_at css s0 j \<longleftrightarrow> i = j"
proof -
  have ne: "[] \<notin> set css" using assms(1) by (simp add: numbered_def)
  have lt: "offs css i < offs css j \<longleftrightarrow> i < j"
    using offs_less [OF ne, of i j] offs_less [OF ne, of j i] assms(2,3) by (metis less_asym nat_neq_iff)
  show less: "seq_at css s0 i < seq_at css s0 j \<longleftrightarrow> i < j"
    by (simp add: word_less_nat_alt unat_seq_at [OF assms(1)] lt)
  have lt': "offs css j < offs css i \<longleftrightarrow> j < i"
    using offs_less [OF ne, of i j] offs_less [OF ne, of j i] assms(2,3) by (metis less_asym nat_neq_iff)
  show "seq_at css s0 i \<le> seq_at css s0 j \<longleftrightarrow> i \<le> j"
    using lt' by (simp add: word_le_nat_alt unat_seq_at [OF assms(1)] flip: not_less)
  show "seq_at css s0 i = seq_at css s0 j \<longleftrightarrow> i = j"
    using lt lt' by (metis assms(1) nat_neq_iff unat_seq_at add_left_cancel)
qed

lemma chunk_before:
  assumes "numbered css s0" "chunk_at css s0 i k" "chunk_at css s0 j k'"
  shows "before k k' \<longleftrightarrow> i < j" "b_seq k = b_seq k' \<longleftrightarrow> i = j"
  using assms seq_at_cmp [of css s0 i j] seq_at_cmp [of css s0 "Suc i" j]
  by (auto simp: chunk_at_def before_def)

lemma chunks_fit:
  assumes "numbered css s0" "chunk_at css s0 j k" "\<forall>b\<in>set q. \<exists>j. chunk_at css s0 j (deref b c)"
  shows "fits k q c"
proof -
  have "b_seq (deref n c) = b_seq k \<or> before k (deref n c) \<or> before (deref n c) k" if "n \<in> set q" for n
  proof -
    from assms(3) that obtain i where i: "chunk_at css s0 i (deref n c)" by blast
    consider "i = j" | "j < i" | "i < j" by linarith
    then show ?thesis
      using chunk_before [OF assms(1) i assms(2)] chunk_before [OF assms(1,2) i] by cases auto
  qed
  then show ?thesis by (simp add: fits_def)
qed

text \<open>Buffers that follow each other from the start of a chunk hold the chunks from there on.\<close>

lemma contiguous_chunks:
  assumes "numbered css s0" "m \<le> length css" "contiguous (seq_at css s0 m) q c"
    and "\<forall>b\<in>set q. \<exists>j. chunk_at css s0 j (deref b c)"
  shows "m + length q \<le> length css \<and> stream_of q c = concat (take (length q) (drop m css))
    \<and> (\<forall>j. m \<le> j \<and> j < m + length q \<longrightarrow> (\<exists>b\<in>set q. b_seq (deref b c) = seq_at css s0 j))"
  using assms(2-4)
proof (induction q arbitrary: m)
  case (Cons b q)
  from Cons.prems(3) obtain j where j: "chunk_at css s0 j (deref b c)" by auto
  have "seq_at css s0 j = seq_at css s0 m" using j Cons.prems(2) by (simp add: chunk_at_def)
  then have m: "chunk_at css s0 m (deref b c)"
    using j Cons.prems(1) seq_at_cmp(3) [OF assms(1), of j m] by (auto simp: chunk_at_def)
  then have "b_dlen (deref b c) = of_nat (length (css ! m))"
    using length_payload [of "deref b c"] by (simp add: chunk_at_def)
  then have "contiguous (seq_at css s0 (Suc m)) q c"
    using Cons.prems(2) m by (simp add: chunk_at_def seq_at_def offs_Suc add.assoc)
  with Cons.IH [of "Suc m"] Cons.prems(3) m have ih: "Suc m + length q \<le> length css"
    "stream_of q c = concat (take (length q) (drop (Suc m) css))"
    "\<forall>j. Suc m \<le> j \<and> j < Suc m + length q \<longrightarrow> (\<exists>b\<in>set q. b_seq (deref b c) = seq_at css s0 j)"
    by (auto simp: chunk_at_def)
  have "drop m css = css ! m # drop (Suc m) css" using m by (simp add: Cons_nth_drop_Suc chunk_at_def)
  moreover have "\<exists>b'\<in>set (b # q). b_seq (deref b' c) = seq_at css s0 j" if "m \<le> j" "j < m + length (b # q)" for j
    using that m ih(3) by (cases "j = m") (auto simp: chunk_at_def)
  ultimately show ?case using ih m by (simp add: chunk_at_def)
qed simp

subsection \<open>The invariant\<close>

text \<open>
  What the reader got and the receive queue holds is a prefix of the data.  In the states in which
  data are taken \<open>rcv_nxt\<close> stands between two chunks, at the end of that prefix and not before chunk
  \<open>lo\<close>, and the segments of the out-of-order queue are chunks further on.
\<close>

definition recv_base :: "bytes list \<Rightarrow> bytes \<Rightarrow> tcpctx \<Rightarrow> bool" where
  "recv_base css got c \<longleftrightarrow> queue_ok (sk_receive_queue (c_sk c) @ tk_ofo_queue (c_sk c)) c
     \<and> rx_ok (set (sk_receive_queue (c_sk c) @ tk_ofo_queue (c_sk c))) c
     \<and> prefix (got @ stream c) (concat css)"

definition recv_open :: "nat \<Rightarrow> bytes list \<Rightarrow> u32 \<Rightarrow> bytes \<Rightarrow> tcpctx \<Rightarrow> bool" where
  "recv_open lo css s0 got c \<longleftrightarrow> (\<exists>i \<le> length css. lo \<le> i \<and> rcv_nxt (tcb_of c) = seq_at css s0 i
     \<and> got @ stream c = concat (take i css) \<and> ofo_sorted (tk_ofo_queue (c_sk c)) c
     \<and> (\<forall>b\<in>set (tk_ofo_queue (c_sk c)). \<exists>j>i. chunk_at css s0 j (deref b c)))"

lemma recv_open_mono: "recv_open (Suc lo) css s0 got c \<Longrightarrow> recv_open lo css s0 got c"
  unfolding recv_open_def using Suc_leD by blast

lemma recv_frame:
  assumes "rx_frame (set (sk_receive_queue (c_sk c) @ tk_ofo_queue (c_sk c))) c c'" "recv_base css got c"
  shows "recv_base css got c'" "recv_open lo css s0 got c \<Longrightarrow> recv_open lo css s0 got c'"
proof -
  let ?q = "sk_receive_queue (c_sk c) @ tk_ofo_queue (c_sk c)"
  have f: "rx_ok (set ?q) c'" "\<And>b. b \<in> set ?q \<Longrightarrow> s_skbs c' b = s_skbs c b"
    "sk_receive_queue (c_sk c') = sk_receive_queue (c_sk c)" "tk_ofo_queue (c_sk c') = tk_ofo_queue (c_sk c)"
    "rcv_nxt (tcb_of c') = rcv_nxt (tcb_of c)"
    using assms unfolding rx_frame_def recv_base_def by blast+
  then have "queue_ok ?q c' = queue_ok ?q c" "stream c' = stream c"
    using queue_cong [of ?q c' c] queue_cong [of "sk_receive_queue (c_sk c)" c' c] by simp_all
  then show "recv_base css got c'" using assms(2) f(1,3,4) by (simp add: recv_base_def)
  have d: "deref b c' = deref b c" if "b \<in> set (tk_ofo_queue (c_sk c))" for b
    using f(2) that by (simp add: deref_def)
  then have "ofo_sorted (tk_ofo_queue (c_sk c)) c' = ofo_sorted (tk_ofo_queue (c_sk c)) c"
    by (intro ofo_sorted_cong) simp
  then show "recv_open lo css s0 got c \<Longrightarrow> recv_open lo css s0 got c'"
    using d f(3-5) \<open>stream c' = stream c\<close> by (auto simp: recv_open_def)
qed

text \<open>Which of a connection's queues a buffer is in.\<close>

definition arriving :: "nat \<Rightarrow> tcpctx \<Rightarrow> bool" where
  "arriving b c \<longleftrightarrow> live b c \<and> b_refcnt (deref b c) = 0
     \<and> b \<notin> set (sk_receive_queue (c_sk c) @ tk_ofo_queue (c_sk c)) \<and> b \<notin> set (sk_write_queue (c_sk c))"

lemma later_chunks:
  assumes n: "numbered css s0" and sorted: "ofo_sorted (xs @ ys) c"
    and ofo: "\<forall>x\<in>set (xs @ ys). \<exists>j>i. chunk_at css s0 j (deref x c)"
    and at: "\<forall>j. i \<le> j \<and> j < n' \<longrightarrow> (\<exists>x\<in>set (b # xs). b_seq (deref x c) = seq_at css s0 j)"
    and b: "chunk_at css s0 i (deref b c)" and hd: "ys = [] \<or> b_seq (deref (hd ys) c) \<noteq> seq_at css s0 n'"
    and n': "n' \<le> length css"
  shows "\<forall>y\<in>set ys. \<exists>j>n'. chunk_at css s0 j (deref y c)"
proof
  fix y assume y: "y \<in> set ys"
  from ofo y obtain j where j: "i < j" "chunk_at css s0 j (deref y c)" by auto
  have ge: "n' \<le> l" if l: "chunk_at css s0 l (deref z c)" "z \<in> set ys" "i < l" for l z
  proof (rule ccontr)
    assume "\<not> n' \<le> l"
    then have "i \<le> l \<and> l < n'" using l(3) by simp
    with at obtain x where x: "x \<in> set (b # xs)" "b_seq (deref x c) = seq_at css s0 l" by blast
    have "b_seq (deref b c) \<noteq> seq_at css s0 l"
      using b l(1,3) chunk_before(2) [OF n b l(1)] by (simp add: chunk_at_def)
    with x have "x \<in> set xs" by auto
    then have "before (deref x c) (deref z c)" using sorted l(2) by (auto simp: ofo_sorted_def sorted_wrt_append)
    then show False using x(2) l(1) by (auto simp: before_def chunk_at_def)
  qed
  obtain h t where h: "ys = h # t" using y by (cases ys) auto
  from ofo h obtain l where l: "i < l" "chunk_at css s0 l (deref h c)" by auto
  have "n' < l" using ge [OF l(2) _ l(1)] hd h l(2) by (cases "n' = l") (auto simp: chunk_at_def)
  moreover have "l \<le> j"
  proof (cases "y = h")
    case True
    then show ?thesis using chunk_before(2) [OF n l(2) j(2)] by simp
  next
    case False
    then have "before (deref h c) (deref y c)"
      using sorted y h by (auto simp: ofo_sorted_def sorted_wrt_append)
    then show ?thesis using chunk_before(1) [OF n l(2) j(2)] by simp
  qed
  ultimately show "\<exists>j>n'. chunk_at css s0 j (deref y c)" using j by (meson less_le_trans)
qed

lemma queue_ok_insert:
  assumes "queue_ok (p @ q) c" "live b c" "data_ok (deref b c)" "b \<notin> set (p @ q)"
    and "f (deref b c) = (deref b c)\<lparr>b_refcnt := 1\<rparr>"
  shows "queue_ok (p @ b # q) (upd_skb b f c)"
proof -
  have "queue_ok (b # p @ q) (upd_skb b f c)" using assms by (simp add: queue_ok_Cons del: set_append)
  then show ?thesis by (auto simp: queue_ok_def)
qed

lemma data_in_order:
  assumes "numbered css s0" "recv_base css got c" "recv_open lo css s0 got c" "arriving b c"
    and "chunk_at css s0 j (deref b c)" "rcv_wnd (tcb_of c) \<noteq> 0" "b_seq (deref b c) = rcv_nxt (tcb_of c)"
  shows "recv_base css got (snd (tcp_data_queue b c)) \<and> recv_open (Suc lo) css s0 got (snd (tcp_data_queue b c))"
proof -
  let ?R = "snd (tcp_data_queue b c)" and ?q = "tk_ofo_queue (c_sk c)" and ?u = "upd_skb b (\<lambda>k. k\<lparr>b_refcnt := 1\<rparr>) c"
  from assms(3) obtain i where i: "i \<le> length css" "rcv_nxt (tcb_of c) = seq_at css s0 i"
    "got @ stream c = concat (take i css)" "ofo_sorted ?q c"
    "\<forall>b\<in>set ?q. \<exists>j>i. chunk_at css s0 j (deref b c)" "lo \<le> i" by (auto simp: recv_open_def)
  have base: "queue_ok (sk_receive_queue (c_sk c) @ ?q) c" "rx_ok (set (sk_receive_queue (c_sk c) @ ?q)) c"
    using assms(2) by (simp_all add: recv_base_def)
  have b: "live b c" "b_refcnt (deref b c) = 0" "b \<notin> set (sk_receive_queue (c_sk c))" "b \<notin> set ?q"
    "b \<notin> set (sk_write_queue (c_sk c))" using assms(4) by (simp_all add: arriving_def)
  have j: "j = i" using assms(1,5,7) i(1,2) seq_at_cmp(3) [of css s0 j i] by (auto simp: chunk_at_def)
  have ok: "data_ok (deref b c)" "\<forall>b'\<in>set ?q. live b' c \<and> data_ok (deref b' c)"
    using assms(5) base(1) by (auto simp: chunk_at_def queue_ok_def)
  from data_queue_in_order [OF assms(6,7) b(1,2) ok(1) b(4) ok(2)] obtain xs ys where r: "?q = xs @ ys"
    "contiguous (rcv_nxt (tcb_of c)) (b # xs) c" "sk_receive_queue (c_sk ?R) = sk_receive_queue (c_sk c) @ b # xs"
    "tk_ofo_queue (c_sk ?R) = ys" "rcv_nxt (tcb_of ?R) = rcv_nxt (tcb_of c) + of_nat (length (stream_of (b # xs) c))"
    "ys = [] \<or> b_seq (deref (hd ys) c) \<noteq> rcv_nxt (tcb_of ?R)" "s_skbs ?R = s_skbs ?u" "s_bnext ?R = s_bnext c"
    by blast
  have "\<forall>x\<in>set (b # xs). \<exists>j. chunk_at css s0 j (deref x c)" using assms(5) i(5) r(1) by auto
  note cs = contiguous_chunks [OF assms(1) i(1) r(2) [unfolded i(2)] this]
  let ?n = "i + length (b # xs)"
  have n: "?n \<le> length css" "rcv_nxt (tcb_of ?R) = seq_at css s0 ?n"
    using cs r(5) i(2) offs_add [of i "length (b # xs)" css] by (simp_all add: seq_at_def add.assoc del: stream_of_simps)
  have q: "queue_ok (sk_receive_queue (c_sk c) @ b # xs @ ys) ?R"
    using queue_ok_insert [OF base(1) b(1) ok(1)] b(3,4) r(1) by (subst queue_cong(1) [of _ ?R ?u]) (simp_all add: r(7))
  have "stream ?R = stream c @ stream_of (b # xs) c"
    using b r(1) unfolding r(3) by (subst queue_cong(2) [of _ ?R ?u]) (simp_all add: r(7))
  then have st: "got @ stream ?R = concat (take ?n css)"
    using cs unfolding take_add concat_append i(3) [symmetric] by (simp only: append_assoc)
  have d: "deref b' ?R = deref b' ?u" for b' using r(7) by (simp add: deref_def)
  have l: "live b' ?R = live b' c" for b'
    using r(7) live_upd_skb [of b' b "\<lambda>k. k\<lparr>b_refcnt := 1\<rparr>" c] by (simp add: live_def)
  have "\<forall>y\<in>set ys. \<exists>j>?n. chunk_at css s0 j (deref y c)"
    using i(4,5) r(1,6) cs j assms(5) n unfolding n(2)
    by (intro later_chunks [OF assms(1), of xs ys c i]) auto
  then have later: "\<forall>y\<in>set ys. \<exists>j>?n. chunk_at css s0 j (deref y ?R)"
    using d b(4) r(1) by (metis UnCI deref_upd_skb(2) set_append)
  have sorted: "ofo_sorted ys ?R"
  proof -
    have "ofo_sorted ys c" using i(4) r(1) by (simp add: ofo_sorted_def sorted_wrt_append)
    moreover have "ofo_sorted ys ?R = ofo_sorted ys c"
      using d b(4) r(1) by (intro ofo_sorted_cong) (metis UnCI deref_upd_skb(2) set_append)
    ultimately show ?thesis by simp
  qed
  have "recv_open (Suc lo) css s0 got ?R"
    unfolding recv_open_def using n st sorted later r(4) i(6) by (intro exI [of _ ?n]) simp
  moreover have "rx_ok (set (sk_receive_queue (c_sk ?R) @ ys)) ?R"
    using base(2) b(1,5) r(1,3,8) l by (auto simp: rx_ok_def heap_ok_def)
  moreover have "prefix (got @ stream ?R) (concat css)"
    unfolding st by (metis append_take_drop_id concat_append prefixI)
  ultimately show ?thesis using q r(3,4) by (simp add: recv_base_def)
qed

lemma data_out_of_order:
  assumes "numbered css s0" "recv_base css got c" "recv_open lo css s0 got c" "arriving b c"
    and "chunk_at css s0 j (deref b c)" "rcv_wnd (tcb_of c) \<noteq> 0" "b_seq (deref b c) > rcv_nxt (tcb_of c)"
  shows "recv_base css got (snd (tcp_data_queue b c)) \<and> recv_open lo css s0 got (snd (tcp_data_queue b c))"
proof -
  let ?R = "snd (tcp_data_queue b c)" and ?rq = "sk_receive_queue (c_sk c)" and ?q = "tk_ofo_queue (c_sk c)"
    and ?u = "upd_skb b (\<lambda>k. k\<lparr>b_refcnt := b_refcnt k + 1\<rparr>) c"
  from assms(3) obtain i where i: "i \<le> length css" "rcv_nxt (tcb_of c) = seq_at css s0 i"
    "got @ stream c = concat (take i css)" "ofo_sorted ?q c"
    "\<forall>b\<in>set ?q. \<exists>j>i. chunk_at css s0 j (deref b c)" "lo \<le> i" by (auto simp: recv_open_def)
  have base: "queue_ok (?rq @ ?q) c" "rx_ok (set (?rq @ ?q)) c" "prefix (got @ stream c) (concat css)"
    using assms(2) by (simp_all add: recv_base_def)
  have b: "live b c" "b_refcnt (deref b c) = 0" "b \<notin> set ?rq" "b \<notin> set ?q" "b \<notin> set (sk_write_queue (c_sk c))"
    using assms(4) by (simp_all add: arriving_def)
  have j: "i < j" using assms(5,7) i(1,2) seq_at_cmp(1) [OF assms(1), of i j] by (simp add: chunk_at_def)
  have fit: "fits (deref b c) ?q c" using chunks_fit [OF assms(1,5)] i(5) by blast
  have dist: "distinct ?q" "heap_ok c" using base by (simp_all add: queue_ok_def rx_ok_def)
  note spec = data_queue_out_of_order [OF assms(6) less_imp_neq [OF assms(7), symmetric] dist(2,1) i(4) fit]
  then consider (dup) "tk_ofo_queue (c_sk ?R) = ?q" "s_skbs ?R = s_skbs c"
    | (new) xs ys where "?q = xs @ ys" "tk_ofo_queue (c_sk ?R) = xs @ b # ys"
      "\<forall>x \<in> set xs. before (deref x c) (deref b c)" "\<forall>y \<in> set ys. before (deref b c) (deref y c)"
      "s_skbs ?R = s_skbs ?u" by blast
  then show ?thesis
  proof cases
    case dup
    then have "rx_frame (set (?rq @ ?q)) c ?R"
      using spec by (auto simp: rx_frame_def rx_ok_def live_def)
    with recv_frame [OF _ assms(2)] assms(3) show ?thesis by blast
  next
    case new
    have "deref x ?R = deref x ?u" for x using new(5) by (simp add: deref_def)
    then have d: "deref x ?R = (if x = b then (deref b c)\<lparr>b_refcnt := 1\<rparr> else deref x c)" for x
      using b(1,2) by simp
    have q: "queue_ok (?rq @ xs @ b # ys) ?R"
      using queue_ok_insert [where p = "?rq @ xs" and q = ys and c = c and b = b] base(1) b new(1) assms(5)
      by (subst queue_cong(1) [of _ ?R ?u]) (simp_all add: new(5) chunk_at_def)
    have st: "stream ?R = stream c"
      using spec b(3) by (simp add: queue_cong(2) [of _ ?R ?u] new(5))
    have "ofo_sorted (xs @ b # ys) c"
      using i(4) new(1,3,4) by (auto simp: ofo_sorted_def sorted_wrt_append)
    then have "ofo_sorted (xs @ b # ys) ?R"
      using ofo_sorted_cong [of "xs @ b # ys" ?R c] by (simp add: d)
    moreover have "\<forall>x\<in>set (xs @ b # ys). \<exists>j>i. chunk_at css s0 j (deref x ?R)"
      using i(5) new(1) j assms(5) by (auto simp: d)
    ultimately have "recv_open lo css s0 got ?R"
      unfolding recv_open_def using i(1-3,6) st spec new(2) by (intro exI [of _ i]) simp
    moreover have "rx_ok (set (?rq @ xs @ b # ys)) ?R"
      using base(2) b(1,5) new(1,5) spec live_upd_skb [of _ b "\<lambda>k. k\<lparr>b_refcnt := b_refcnt k + 1\<rparr>" c]
      by (auto simp: rx_ok_def live_def)
    ultimately show ?thesis using q st base(3) new(2) spec by (simp add: recv_base_def)
  qed
qed

subsection \<open>A segment arrives\<close>

definition receiving :: "tcp_states set" where
  "receiving = {TCP_SYN_RECEIVED, TCP_ESTABLISHED, TCP_FIN_WAIT_1, TCP_FIN_WAIT_2}"

definition recv_inv :: "nat \<Rightarrow> bytes list \<Rightarrow> u32 \<Rightarrow> bytes \<Rightarrow> tcpctx \<Rightarrow> bool" where
  "recv_inv lo css s0 got c \<longleftrightarrow> recv_base css got c \<and> (state_of c \<in> receiving \<longrightarrow> recv_open lo css s0 got c)"

text \<open>A segment of the sender: no data and no PSH, or one of the chunks.\<close>

definition sent_by :: "bytes list \<Rightarrow> u32 \<Rightarrow> sk_buff \<Rightarrow> tcphdr \<Rightarrow> bool" where
  "sent_by css s0 k th \<longleftrightarrow> b_refcnt k = 0 \<and> b_seq k = th_seq th
     \<and> (b_dlen k = 0 \<and> \<not> th_psh th \<or> (\<exists>j. chunk_at css s0 j k))"

lemma recv_inv_frame:
  assumes "\<And>R. b \<notin> R \<Longrightarrow> rx_frame R c c'" "recv_inv lo css s0 got c" "arriving b c"
    and "state_of c' \<in> receiving \<Longrightarrow> state_of c \<in> receiving"
  shows "recv_inv lo css s0 got c'"
proof -
  have "rx_frame (set (sk_receive_queue (c_sk c) @ tk_ofo_queue (c_sk c))) c c'"
    using assms(1,3) by (simp add: arriving_def)
  from recv_frame [OF this] assms(2,4) show ?thesis by (simp add: recv_inv_def)
qed

lemma arriving_frame:
  assumes "\<And>R. rx_frame R c c'" "recv_base css got c" "arriving b c"
  shows "arriving b c' \<and> deref b c' = deref b c \<and> rcv_nxt (tcb_of c') = rcv_nxt (tcb_of c)
    \<and> rcv_wnd (tcb_of c') = rcv_wnd (tcb_of c)"
proof -
  let ?q = "set (sk_receive_queue (c_sk c) @ tk_ofo_queue (c_sk c))"
  have "rx_ok (insert b ?q) c" using assms(2,3) by (auto simp: recv_base_def rx_ok_def arriving_def)
  then have f: "rx_ok (insert b ?q) c'" "s_skbs c' b = s_skbs c b"
    "sk_receive_queue (c_sk c') = sk_receive_queue (c_sk c)" "tk_ofo_queue (c_sk c') = tk_ofo_queue (c_sk c)"
    "rcv_nxt (tcb_of c') = rcv_nxt (tcb_of c)" "rcv_wnd (tcb_of c') = rcv_wnd (tcb_of c)"
    using assms(1) [of "insert b ?q"] unfolding rx_frame_def by blast+
  from f(2) have "deref b c' = deref b c" "live b c' = live b c" by (simp_all add: deref_def live_def)
  with f assms(3) show ?thesis by (auto simp: arriving_def rx_ok_def)
qed

lemma input_data_advances:
  assumes "numbered css s0" "recv_inv lo css s0 got c" "arriving b c" "chunk_at css s0 j (deref b c)"
    and "state_of c \<in> {TCP_ESTABLISHED, TCP_FIN_WAIT_1, TCP_FIN_WAIT_2}" "rcv_wnd (tcb_of c) \<noteq> 0"
    and "b_seq (deref b c) = rcv_nxt (tcb_of c)"
  shows "recv_inv (Suc lo) css s0 got (input_data b th c)"
proof -
  have inv: "recv_base css got c" "recv_open lo css s0 got c" using assms(2,5) by (auto simp: recv_inv_def receiving_def)
  have "css ! j \<noteq> []" using assms(1,4) by (auto simp: numbered_def chunk_at_def in_set_conv_nth)
  then have "b_dlen (deref b c) > 0"
    using assms(4) length_payload [of "deref b c"] by (auto simp: chunk_at_def word_gt_0)
  then show ?thesis
    using data_in_order [OF assms(1) inv assms(3,4,6,7)] assms(5) by (simp add: input_data_def recv_inv_def)
qed

lemma input_data_recv:
  assumes "numbered css s0" "recv_inv lo css s0 got c" "arriving b c" "sent_by css s0 (deref b c) th"
    and "b_dlen (deref b c) > 0 \<Longrightarrow> rcv_wnd (tcb_of c) \<noteq> 0" "\<not> b_seq (deref b c) < rcv_nxt (tcb_of c)"
  shows "recv_inv lo css s0 got (input_data b th c)"
proof (cases "state_of c \<in> {TCP_ESTABLISHED, TCP_FIN_WAIT_1, TCP_FIN_WAIT_2} \<and> (th_psh th \<or> b_dlen (deref b c) > 0)")
  case True
  then have inv: "recv_base css got c" "recv_open lo css s0 got c" using assms(2) by (auto simp: recv_inv_def receiving_def)
  from True assms(4) obtain j where j: "chunk_at css s0 j (deref b c)" by (auto simp: sent_by_def)
  then have "css ! j \<noteq> []" using assms(1) by (auto simp: numbered_def chunk_at_def in_set_conv_nth)
  then have "b_dlen (deref b c) > 0"
    using j length_payload [of "deref b c"] by (auto simp: chunk_at_def word_gt_0)
  then have wnd: "rcv_wnd (tcb_of c) \<noteq> 0" using assms(5) by simp
  show ?thesis
  proof (cases "b_seq (deref b c) = rcv_nxt (tcb_of c)")
    case eq: True
    from input_data_advances [OF assms(1-3) j conjunct1 [OF True] wnd eq, of th] show ?thesis
      using recv_open_mono by (auto simp: recv_inv_def)
  next
    case False
    with assms(6) have "b_seq (deref b c) > rcv_nxt (tcb_of c)" by simp
    from data_out_of_order [OF assms(1) inv assms(3) j wnd this] True show ?thesis
      by (auto simp: input_data_def recv_inv_def)
  qed
next
  case False
  then have "input_data b th c = c" by (auto simp: input_data_def)
  with assms(2) show ?thesis by simp
qed

lemma recv_base_upd_tcb [simp]: "recv_base css got (upd_tcb f c) = recv_base css got c"
  by (simp add: recv_base_def rx_ok_def)

lemma recv_base_frame: "recv_base css got c \<Longrightarrow> (\<And>R. rx_frame R c c') \<Longrightarrow> recv_base css got c'"
  using recv_frame(1) by blast

lemma input_fin_recv:
  assumes "recv_inv lo css s0 got c" "input_fin b th e c = Inr c'"
  shows "recv_inv lo css s0 got c'"
proof (cases "th_fin th \<and> e")
  case True
  have "recv_base css got (upd_tcb (\<lambda>t. t\<lparr>rcv_nxt := rcv_nxt t + 1\<rparr>) c)" using assms(1) by (simp add: recv_inv_def)
  moreover have "rx_frame R (upd_tcb (\<lambda>t. t\<lparr>rcv_nxt := rcv_nxt t + 1\<rparr>) c) c'" for R
    using assms(2) True
    by (auto simp: input_fin_def Let_def split: if_splits tcp_states.splits intro!: rx_frame_then)
  moreover have "state_of c' \<notin> receiving"
    using assms(2) True by (auto simp: input_fin_def Let_def receiving_def split: if_splits tcp_states.splits)
  ultimately show ?thesis unfolding recv_inv_def by (blast intro: recv_base_frame)
next
  case False
  then show ?thesis using assms by (auto simp: input_fin_def)
qed

text \<open>The reference the caller drops is the last one unless the segment was queued.\<close>

lemma free_recv:
  assumes "recv_inv lo css s0 got c"
  shows "recv_inv lo css s0 got (free_skb b c)"
proof -
  let ?q = "sk_receive_queue (c_sk c) @ tk_ofo_queue (c_sk c)"
  have base: "recv_base css got c" using assms by (simp add: recv_inv_def)
  have "rx_frame (set ?q) c (free_skb b c)"
  proof (cases "b \<in> set ?q")
    case True
    then have "live b c" "b_refcnt (deref b c) = 1" using base by (auto simp: recv_base_def queue_ok_def)
    then have "free_skb b c = c" by (simp add: free_skb_def Let_def)
    then show ?thesis by simp
  qed (rule rx_frame_free)
  from recv_frame [OF this base] assms show ?thesis by (simp add: recv_inv_def)
qed

text \<open>What follows the data.\<close>

lemma input_text_rest:
  assumes "arriving b c" "recv_inv lo css s0 got (input_data b th c)"
    and "state_of c \<notin> {TCP_CLOSE, TCP_LISTEN, TCP_SYN_SENT}"
  shows "recv_inv lo css s0 got (snd (input_text b th c))"
proof -
  let ?e = "b_seq (deref b c) = rcv_nxt (tcb_of c)"
  have touch: "touch b c = c" using assms(1) by (simp add: arriving_def)
  have st: "state_of (input_data b th c) = state_of c" by simp
  obtain c' where c': "input_fin b th ?e (input_data b th c) = Inr c'"
    using assms(3) st by (cases "input_fin b th ?e (input_data b th c)") (auto simp: input_fin_def Let_def split: if_splits)
  have "recv_inv lo css s0 got c'" by (rule input_fin_recv [OF assms(2) c'])
  then have "recv_inv lo css s0 got (input_delack b th ?e c')"
    using recv_frame [OF input_delack_frame] by (auto simp: recv_inv_def)
  then have "recv_inv lo css s0 got (free_skb b (input_delack b th ?e c'))" by (rule free_recv)
  then show ?thesis by (simp add: input_text_def touch c')
qed

lemma input_text_recv:
  assumes "numbered css s0" "recv_inv lo css s0 got c" "arriving b c" "sent_by css s0 (deref b c) th"
    and "b_dlen (deref b c) > 0 \<Longrightarrow> rcv_wnd (tcb_of c) \<noteq> 0" "\<not> b_seq (deref b c) < rcv_nxt (tcb_of c)"
    and "state_of c \<notin> {TCP_CLOSE, TCP_LISTEN, TCP_SYN_SENT}"
  shows "recv_inv lo css s0 got (snd (input_text b th c))"
  by (rule input_text_rest [OF assms(3) input_data_recv [OF assms(1-6)] assms(7)])

subsection \<open>The connection is given up\<close>

lemma queue_free_frame: "set q \<inter> R = {} \<Longrightarrow> rx_frame R c (skb_queue_free q c)"
proof (induction q c rule: skb_queue_free.induct)
  case (2 b q c)
  let ?c = "upd_skb b (\<lambda>k. k\<lparr>b_refcnt := b_refcnt k - 1\<rparr>) c"
  have "rx_frame R c (free_skb b ?c)" using 2 by (intro rx_frame_then rx_frame_upd_skb) simp_all
  moreover have "rx_frame R (free_skb b ?c) (skb_queue_free q (free_skb b ?c))"
    using 2 by (simp add: upd_skb_def Let_def)
  ultimately show ?case by (auto simp: Let_def upd_skb_def intro: rx_frame_trans)
qed simp

lemma recv_base_done:
  assumes "recv_base css got c"
  shows "recv_base css got (snd (tcp_done c))"
proof -
  let ?c1 = "tcp_clear_timers (tcp_set_state TCP_CLOSING c)"
  let ?c2 = "skb_queue_free (tk_ofo_queue (c_sk ?c1)) ?c1"
  have q: "sk_receive_queue (c_sk ?c1) = sk_receive_queue (c_sk c)" "tk_ofo_queue (c_sk ?c1) = tk_ofo_queue (c_sk c)"
    by simp_all
  have d: "set (tk_ofo_queue (c_sk c)) \<inter> set (sk_receive_queue (c_sk c)) = {}"
    "rx_ok (set (sk_receive_queue (c_sk c))) c" "queue_ok (sk_receive_queue (c_sk c)) c"
    using assms by (auto simp: recv_base_def queue_ok_def rx_ok_def)
  have "rx_frame (set (sk_receive_queue (c_sk c))) c ?c1" by simp
  then have f: "rx_frame (set (sk_receive_queue (c_sk c))) c ?c2"
    by (rule rx_frame_trans) (rule queue_free_frame, use d(1) in simp)
  then have "rx_ok (set (sk_receive_queue (c_sk c))) ?c2"
    "\<forall>b\<in>set (sk_receive_queue (c_sk c)). s_skbs ?c2 b = s_skbs c b"
    using d(2) unfolding rx_frame_def by blast+
  moreover from this(2) have "stream_of (sk_receive_queue (c_sk c)) ?c2 = stream c"
    "queue_ok (sk_receive_queue (c_sk c)) ?c2" using d(3) queue_cong by blast+
  ultimately have "recv_base css got (upd_sk (\<lambda>k. k\<lparr>tk_ofo_queue := []\<rparr>) ?c2)"
    using assms q by (simp add: recv_base_def rx_ok_def)
  then show ?thesis
    by (rule recv_base_frame)
      (simp add: tcp_done_def tcp_free_def tcp_clear_queues_def socket_delete_def Let_def)
qed

lemma recv_inv_done: "recv_inv lo css s0 got c \<Longrightarrow> recv_inv lo css s0 got (snd (tcp_done c))"
  using recv_base_done by (simp add: recv_inv_def receiving_def)

lemma input_state_recv:
  assumes "numbered css s0" "recv_inv lo css s0 got c" "arriving b c" "sent_by css s0 (deref b c) th"
    and "state_of c \<notin> {TCP_CLOSE, TCP_LISTEN, TCP_SYN_SENT}"
  shows "recv_inv lo css s0 got (snd (tcp_input_state b th c))"
proof (cases "input_check b th c")
  case (Inl r)
  have "state_of (snd r) \<in> receiving \<Longrightarrow> state_of c \<in> receiving"
    using input_check_state(1) [OF Inl] by (auto simp: receiving_def)
  with recv_inv_frame [OF input_check_frame [OF Inl] assms(2,3)] Inl show ?thesis
    by (simp add: input_state_other [OF assms(5)])
next
  case check: (Inr c0)
  have c0: "c0 = c" by (rule input_check_state(2) [OF check])
  have ver: "b_dlen (deref b c) > 0 \<Longrightarrow> rcv_wnd (tcb_of c) \<noteq> 0" "\<not> b_seq (deref b c) < rcv_nxt (tcb_of c)"
    using check assms(4) by (auto simp: input_check_def tcp_verify_segment_def sent_by_def split: if_splits)
  note unfold = input_state_other [OF assms(5)] check c0
  show ?thesis
  proof (cases "input_ack b th c")
    case (Inl r)
    have "state_of (snd r) \<in> receiving \<Longrightarrow> state_of c \<in> receiving"
      using input_ack_state(1) [OF Inl] by (auto simp: receiving_def)
    with recv_inv_frame [OF input_ack_frame(1) [OF Inl] assms(2,3)] Inl show ?thesis by (simp add: unfold)
  next
    case ack: (Inr c1)
    have st1: "state_of c1 = (if state_of c = TCP_SYN_RECEIVED then TCP_ESTABLISHED else state_of c)"
      by (rule input_ack_state(2) [OF ack])
    then have c1: "recv_inv lo css s0 got c1"
      by (intro recv_inv_frame [OF input_ack_frame(2) [OF ack] assms(2,3)]) (auto simp: receiving_def split: if_splits)
    have base: "recv_base css got c" using assms(2) by (simp add: recv_inv_def)
    note a1 = arriving_frame [OF input_ack_frame(2) [OF ack] base assms(3)]
    show ?thesis
    proof (cases "input_fin_acked b th c1")
      case (Inl r)
      then have "r = tcp_done (free_skb b c1)"
        by (auto simp: input_fin_acked_def split: if_splits tcp_states.splits)
      with recv_inv_done [OF free_recv [OF c1]] ack Inl show ?thesis by (simp add: unfold)
    next
      case (Inr c2)
      have st2: "state_of c2 \<in> receiving \<longrightarrow> state_of c1 \<in> receiving" "state_of c2 \<notin> {TCP_CLOSE, TCP_LISTEN, TCP_SYN_SENT}"
        using input_fin_acked_state(2) [OF Inr] st1 assms(5) by (auto simp: receiving_def split: if_splits)
      have c2: "recv_inv lo css s0 got c2"
        by (rule recv_inv_frame [OF input_fin_acked_frame [OF Inr] c1, of b]) (use a1 st2(1) in simp_all)
      have "recv_base css got c1" using c1 by (simp add: recv_inv_def)
      note a2 = arriving_frame [OF input_fin_acked_frame [OF Inr] this]
      have "recv_inv lo css s0 got (snd (input_text b th c2))"
        using a1 a2 ver assms(4) st2(2) by (intro input_text_recv [OF assms(1) c2]) auto
      with ack Inr show ?thesis by (simp add: unfold)
    qed
  qed
qed

subsection \<open>Reading\<close>

text \<open>A read takes buffers off the front of the receive queue, and eats of the next one.\<close>

definition rd_frame :: "tcpctx \<Rightarrow> tcpctx \<Rightarrow> bool" where
  "rd_frame c c' \<longleftrightarrow> (\<exists>p. sk_receive_queue (c_sk c) = p @ sk_receive_queue (c_sk c'))
     \<and> tk_ofo_queue (c_sk c') = tk_ofo_queue (c_sk c) \<and> sk_write_queue (c_sk c') = sk_write_queue (c_sk c)
     \<and> tcb_of c' = tcb_of c \<and> tk_inflight (c_sk c') = tk_inflight (c_sk c) \<and> state_of c' = state_of c
     \<and> s_routes c' = s_routes c \<and> s_bnext c' = s_bnext c \<and> (heap_ok c \<longrightarrow> heap_ok c')
     \<and> (\<forall>x. x \<notin> set (sk_receive_queue (c_sk c)) \<longrightarrow> s_skbs c' x = s_skbs c x)"

lemma rd_frame_refl [simp]: "rd_frame c c"
  by (simp add: rd_frame_def)

lemma rd_frame_trans: "rd_frame c c' \<Longrightarrow> rd_frame c' c'' \<Longrightarrow> rd_frame c c''"
  unfolding rd_frame_def by (elim conjE exE) (intro conjI, auto)

lemma rd_frame_upd [simp]:
  "(\<And>k. sk_write_queue (f k) = sk_write_queue k \<and> sk_receive_queue (f k) = sk_receive_queue k
     \<and> tk_ofo_queue (f k) = tk_ofo_queue k \<and> tk_tcb (f k) = tk_tcb k \<and> sk_state (f k) = sk_state k
     \<and> tk_inflight (f k) = tk_inflight k) \<Longrightarrow>
     rd_frame c (upd_sk f c') = rd_frame c c'"
  "rd_frame c (upd_sock h c') = rd_frame c c'" "rd_frame c (check e c') = rd_frame c c'"
  "rd_frame c (touch b c') = rd_frame c c'" "rd_frame c (timer_cancel t c') = rd_frame c c'"
  "rd_frame c (snd (timer_add x h' a c')) = rd_frame c c'"
  by (simp_all add: rd_frame_def touch_def check_def)
    (simp_all add: heap_ok_def live_def timer_cancel_def timer_add_def split: option.split)

lemma bnext_free [simp]: "s_bnext (free_skb b c) = s_bnext c"
  by (simp add: free_skb_def Let_def touch_def)

lemma rd_frame_skb:
  assumes "rd_frame c c'" "b \<in> set (sk_receive_queue (c_sk c))"
  shows "rd_frame c (upd_skb b f c')" "rd_frame c (free_skb b c')"
proof -
  have o: "s_skbs (upd_skb b f c') x = s_skbs c' x \<and> s_skbs (free_skb b c') x = s_skbs c' x"
    if "x \<notin> set (sk_receive_queue (c_sk c))" for x
  proof -
    have "x \<noteq> b" using that assms(2) by blast
    then show ?thesis by (simp add: s_skbs_upd_skb s_skbs_free_skb)
  qed
  then show "rd_frame c (upd_skb b f c')" "rd_frame c (free_skb b c')"
    using assms(1) unfolding rd_frame_def by (simp_all add: heap_ok_free_skb cong: imp_cong)
qed

lemma rd_frame_dequeue:
  "rd_frame c c' \<Longrightarrow> sk_receive_queue (c_sk c) = p @ q \<Longrightarrow>
     rd_frame c (upd_sk (\<lambda>t. t\<lparr>sk_receive_queue := q\<rparr>) c')"
  by (simp add: rd_frame_def)

lemma dequeue_loop_frame:
  "sk_receive_queue (c_sk c) = q \<Longrightarrow> dequeue_loop q rlen userlen buf c = (r, buf', c') \<Longrightarrow>
     rd_frame c c' \<and> prefix buf buf'"
proof (induction q arbitrary: rlen buf c)
  case Nil
  then show ?case by simp
next
  case (Cons b q)
  show ?case
  proof (cases "rlen < userlen")
    case False
    with Cons.prems show ?thesis by auto
  next
    case True
    let ?k = "deref b c"
    let ?d = "if (of_int rlen + b_dlen ?k :: u32) > of_int userlen then userlen - rlen else sint (b_dlen ?k)"
    let ?c1 = "upd_skb b (\<lambda>k. k\<lparr>b_dlen := b_dlen k - of_int ?d, b_payload := b_payload k + ?d\<rparr>)
      (check (?d \<ge> 0 \<and> in_region (b_mem ?k) (b_payload ?k) (nat ?d)) (touch b c))"
    let ?c2 = "if th_psh (tcp_hdr ?k) then upd_sk (\<lambda>t. t\<lparr>tk_flags := tk_flags t OR TCP_PSH\<rparr>) ?c1 else ?c1"
    let ?c3 = "free_skb b (upd_skb b (\<lambda>k. k\<lparr>b_refcnt := b_refcnt k - 1\<rparr>) (upd_sk (\<lambda>t. t\<lparr>sk_receive_queue := q\<rparr>) ?c2))"
    let ?buf = "buf @ mread (b_mem ?k) (nat (b_payload ?k)) (nat ?d)"
    have run: "dequeue_loop (b # q) rlen userlen buf c =
      (if b_dlen (deref b ?c1) = 0 then dequeue_loop q (rlen + ?d) userlen ?buf ?c3 else (rlen + ?d, ?buf, ?c1))"
      unfolding dequeue_loop.simps(2) Let_def if_P [OF True] by (rule refl)
    have b: "b \<in> set (sk_receive_queue (c_sk c))" and q: "sk_receive_queue (c_sk c) = [b] @ q"
      using Cons.prems(1) by simp_all
    have f1: "rd_frame c ?c1" by (rule rd_frame_skb(1) [OF _ b]) simp
    then have "rd_frame c ?c2" by simp
    then have f3: "rd_frame c ?c3" by (intro rd_frame_skb [OF _ b] rd_frame_dequeue [OF _ q])
    show ?thesis
    proof (cases "b_dlen (deref b ?c1) = 0")
      case z: True
      note rest = Cons.prems(2) [unfolded run if_P [OF z]]
      from Cons.IH [OF _ rest] have "rd_frame ?c3 c' \<and> prefix ?buf buf'" by simp
      with f3 show ?thesis by (blast intro: rd_frame_trans append_prefixD)
    next
      case False
      from Cons.prems(2) [unfolded run if_not_P [OF False] prod.inject]
      have e: "?buf = buf'" "?c1 = c'" by blast+
      have "prefix buf ?buf" by simp
      then show ?thesis using f1 unfolding e by (rule conjI [rotated])
    qed
  qed
qed

lemma rd_frame_rearm [simp]: "rd_frame c (tcp_rearm_user_timeout c') = rd_frame c c'"
  by (simp add: tcp_rearm_user_timeout_def Let_def case_prod_beta)

lemma receive_round_frame:
  "tcp_receive_round len rlen buf c = Received r buf' c' \<or> tcp_receive_round len rlen buf c = Sleep r buf' c' \<Longrightarrow>
     rd_frame c c' \<and> prefix buf buf'"
proof -
  obtain n new c1 where d: "tcp_data_dequeue (len - rlen) c = (n, new, c1)" by (metis prod_cases3)
  then have "rd_frame c c1"
    using dequeue_loop_frame [OF refl, of c 0 "len - rlen" "[]"]
    by (auto simp: tcp_data_dequeue_def split: prod.splits if_splits)
  then show "tcp_receive_round len rlen buf c = Received r buf' c' \<or> tcp_receive_round len rlen buf c = Sleep r buf' c' \<Longrightarrow>
     rd_frame c c' \<and> prefix buf buf'"
    by (auto simp: tcp_receive_round_def d receive_done_def sleep_recv_def socket_release_def Let_def split: if_splits)
qed

lemma read_recv:
  assumes "recv_inv lo css s0 got c" "int (length buf) \<le> len" "len < 2 ^ 31"
    and "tcp_receive_round len (int (length buf)) buf c = Received r buf' c'
       \<or> tcp_receive_round len (int (length buf)) buf c = Sleep r buf' c'"
  shows "recv_inv lo css s0 (got @ drop (length buf) buf') c'"
proof -
  let ?q = "sk_receive_queue (c_sk c)" and ?o = "tk_ofo_queue (c_sk c)"
  have base: "queue_ok (?q @ ?o) c" "rx_ok (set (?q @ ?o)) c" "prefix (got @ stream c) (concat css)"
    using assms(1) by (simp_all add: recv_inv_def recv_base_def)
  then have "queue_ok ?q c" by (simp add: queue_ok_def)
  from receive_round_spec [OF this refl assms(2,3)] assms(4)
  have s: "buf @ stream c = buf' @ stream c'" "queue_ok (sk_receive_queue (c_sk c')) c'"
    by (auto simp: read_so_far_def)
  note f = receive_round_frame [OF assms(4)]
  then obtain p where p: "?q = p @ sk_receive_queue (c_sk c')" by (auto simp: rd_frame_def)
  from f have rest: "tk_ofo_queue (c_sk c') = ?o" "sk_write_queue (c_sk c') = sk_write_queue (c_sk c)"
    "tcb_of c' = tcb_of c" "state_of c' = state_of c" "s_bnext c' = s_bnext c" "heap_ok c \<longrightarrow> heap_ok c'"
    "\<And>x. x \<notin> set ?q \<Longrightarrow> s_skbs c' x = s_skbs c x" by (auto simp: rd_frame_def)
  have "stream c = drop (length buf) buf' @ stream c'"
    using s(1) f by (metis append_eq_conv_conj drop_append prefix_def same_append_eq append_assoc)
  then have st: "(got @ drop (length buf) buf') @ stream c' = got @ stream c" by simp
  have disj: "x \<notin> set ?q" if "x \<in> set ?o" for x using base(1) that by (auto simp: queue_ok_def)
  have o: "queue_ok ?o c' = queue_ok ?o c" using disj rest(7) by (intro queue_cong(1)) blast
  have d: "deref x c' = deref x c \<and> live x c' = live x c" if "x \<in> set ?o" for x
    using rest(7) [OF disj [OF that]] by (simp add: deref_def live_def)
  have "queue_ok (sk_receive_queue (c_sk c') @ ?o) c'"
    using s(2) o base(1) p by (auto simp: queue_ok_def)
  moreover have "rx_ok (set (sk_receive_queue (c_sk c') @ ?o)) c'"
    using base(2) rest d p s(2) by (auto simp: rx_ok_def queue_ok_def)
  moreover have "recv_open lo css s0 got c \<Longrightarrow> recv_open lo css s0 (got @ drop (length buf) buf') c'"
  proof -
    have "ofo_sorted ?o c' = ofo_sorted ?o c" using d by (intro ofo_sorted_cong) simp
    then show "recv_open lo css s0 got c \<Longrightarrow> recv_open lo css s0 (got @ drop (length buf) buf') c'"
      unfolding recv_open_def st using rest(1,3) d by auto
  qed
  ultimately show ?thesis
    using assms(1) base(3) st rest(1,4) by (simp add: recv_inv_def recv_base_def)
qed

subsection \<open>Sending and timeouts\<close>

lemma fresh_not_rx: "rx_ok R c \<Longrightarrow> s_bnext c \<notin> R"
  by (auto simp: rx_ok_def heap_ok_def)

lemma alloc_frame: "rx_frame R c (snd (tcp_alloc_skb o0 n c))"
proof (cases "rx_ok R c")
  case True
  note fresh = fresh_not_rx [OF True]
  then have "rx_frame R c (snd (alloc_skb (54 + o0 + n) c))"
    by (auto simp: rx_frame_def rx_ok_def heap_ok_def live_def alloc_skb_def)
  then show ?thesis using fresh by (simp add: tcp_alloc_skb_eq rx_frame_then)
qed (simp add: rx_frame_def)

lemma alloc_name:
  "fst (tcp_alloc_skb o0 n c) = s_bnext c" "s_bnext (snd (tcp_alloc_skb o0 n c)) = Suc (s_bnext c)"
  unfolding tcp_alloc_skb_eq by (simp_all add: alloc_skb_def)

lemma queue_transmit_frame:
  assumes "b \<notin> R" "b < s_bnext c"
  shows "rx_frame R c (snd (tcp_queue_transmit_skb b c))"
proof -
  let ?c1 = "if sk_write_queue (c_sk c) = [] then tcp_rearm_rto_timer c else c"
  let ?c2 = "if tk_inflight (c_sk ?c1) = 0
      then tcp_store_seq b (upd_sk (\<lambda>k. k\<lparr>tk_inflight := tk_inflight k + 1\<rparr>)
             (snd (tcp_transmit_skb b (snd_nxt (tcb_of ?c1)) ?c1)))
      else ?c1"
  have f: "rx_frame R c ?c2"
    using assms(1) by (auto intro!: rx_frame_then rx_frame_trans [OF _ store_seq_frame])
  have "rx_frame R c (upd_sk (\<lambda>k. k\<lparr>sk_write_queue := q_tail b (sk_write_queue k)\<rparr>) ?c2)"
    using f assms by (auto simp: rx_frame_def rx_ok_def q_tail_def)
  then show ?thesis by (simp add: tcp_queue_transmit_skb_def Let_def case_prod_beta split: if_splits)
qed

lemma put_frame: "b \<notin> R \<Longrightarrow> rx_frame R c (put_skb b k c)"
  by (auto simp: rx_frame_def rx_ok_def s_skbs_put_skb_other) (metis s_skbs_put_skb_other)

lemma fresh_frame: "rx_ok R c \<Longrightarrow> rx_frame R c (snd (alloc_skb n c))"
  using fresh_not_rx [of R c] heap_ok_alloc [of c n] unfolding rx_ok_def rx_frame_def
  by (auto simp: live_def alloc_skb_def)

lemma send_chunk_frame: "rx_frame R c (send_chunk psh chunk c)"
proof (cases "rx_ok R c")
  case True
  let ?b = "s_bnext c" and ?c1 = "snd (alloc_skb (54 + length chunk) c)"
  note fresh = fresh_not_rx [OF True]
  have "rx_frame R (put_skb ?b k ?c1) (snd (tcp_queue_transmit_skb ?b (put_skb ?b k ?c1)))" for k
    using fresh by (intro queue_transmit_frame) (simp_all add: alloc_skb_def)
  with put_frame [OF fresh] fresh_frame [OF True] show ?thesis
    unfolding send_chunk_def Let_def by (blast intro: rx_frame_trans)
qed (simp add: rx_frame_def)

lemma send_chunk_state [simp]: "state_of (send_chunk psh chunk c) = state_of c"
  by (simp add: send_chunk_def Let_def alloc_skb_def)

lemma send_loop_frame:
  "tcp_send_loop fuel mss data c = Some c' \<Longrightarrow> rx_frame R c c' \<and> state_of c' = state_of c"
proof (induction fuel arbitrary: data c)
  case 0
  then show ?case by (cases data) simp_all
next
  case (Suc fuel)
  show ?case
  proof (cases "data = []")
    case False
    then have "tcp_send_loop fuel mss (drop mss data) (send_chunk (length data \<le> mss) (take mss data) c) = Some c'"
      using Suc.prems by (simp add: tcp_send_loop_step)
    from Suc.IH [OF this] show ?thesis using rx_frame_trans [OF send_chunk_frame] by auto
  qed (use Suc.prems in simp)
qed

lemma recv_inv_same:
  assumes "\<And>R. rx_frame R c c'" "state_of c' \<in> receiving \<Longrightarrow> state_of c \<in> receiving"
    and "recv_inv lo css s0 got c"
  shows "recv_inv lo css s0 got c'"
  using assms recv_frame [OF assms(1)] by (auto simp: recv_inv_def)

lemma send_recv:
  assumes "recv_inv lo css s0 got c" "tcp_send data c = Some (rc, c')"
  shows "recv_inv lo css s0 got c'"
proof -
  obtain c1 where c1: "tcp_send_loop (length data) (unat (tk_smss (c_sk c))) data c = Some c1"
    "c' = tcp_rearm_user_timeout c1"
    using assms(2) by (auto simp: tcp_send_def)
  with send_loop_frame [OF c1(1)] show ?thesis
    by (intro recv_inv_same [OF _ _ assms(1)]) simp_all
qed

lemma state_acquire [simp]:
  "state_of (snd (socket_wr_acquire c)) = state_of c" "state_of (socket_release c) = state_of c"
  by (simp_all add: socket_wr_acquire_def socket_release_def Let_def)

lemma delack_recv:
  assumes "recv_inv lo css s0 got c"
  shows "recv_inv lo css s0 got (tcp_send_delack c)"
  unfolding tcp_send_delack_def Let_def
  by (rule recv_inv_same [OF _ _ assms]) (simp_all add: tcp_release_delack_timer_def rx_frame_then)

lemma state_fin: "state_of (tcp_handle_fin_state c) \<in> receiving \<Longrightarrow> state_of c \<in> receiving"
  by (auto simp: tcp_handle_fin_state_def receiving_def split: tcp_states.splits)

lemma recv_inv_steps:
  assumes "recv_inv lo css s0 got c"
  shows "recv_inv lo css s0 got (socket_release c)" "recv_inv lo css s0 got (tcp_handle_fin_state c)"
    "recv_inv lo css s0 got (snd (timer_add e h a c))"
    "(\<And>k. sk_write_queue (f k) = sk_write_queue k \<and> sk_receive_queue (f k) = sk_receive_queue k
        \<and> tk_ofo_queue (f k) = tk_ofo_queue k \<and> tk_tcb (f k) = tk_tcb k \<and> sk_state (f k) = sk_state k) \<Longrightarrow>
      recv_inv lo css s0 got (upd_sk f c)"
  by (rule recv_inv_same [OF _ _ assms]; auto dest: state_fin)+

lemma timeout_recv:
  assumes "recv_inv lo css s0 got c"
  shows "recv_inv lo css s0 got (tcp_retransmission_timeout c)"
proof (cases "sk_write_queue (c_sk c)")
  case Nil
  then have "write_queue_head (rto_enter c) = None" by (simp add: write_queue_head_def q_peek_def)
  then show ?thesis
    unfolding tcp_retransmission_timeout_def Let_def rto_enter_def [symmetric]
    by (auto intro!: recv_inv_same [OF _ _ assms] simp: rto_enter_def tcp_release_rto_timer_def tcp_notify_user_def
        split: tcp_states.splits)
next
  case (Cons b q)
  let ?q = "sk_receive_queue (c_sk c) @ tk_ofo_queue (c_sk c)"
  have base: "recv_base css got c" using assms by (simp add: recv_inv_def)
  then have "b \<notin> set ?q" using Cons by (auto simp: recv_base_def rx_ok_def)
  then have "rx_frame (set ?q) c (retransmit_head b c)"
    unfolding retransmit_head_def rto_enter_def
    by (intro rx_frame_trans [OF _ rx_frame_transmit] rx_frame_trans [OF _ rx_frame_upd_skb]) simp_all
  from recv_frame [OF this base] assms have c1: "recv_inv lo css s0 got (retransmit_head b c)" by (simp add: recv_inv_def)
  show ?thesis
    unfolding retransmission_timeout_eq [OF Cons] Let_def case_prod_beta
    by (auto intro!: recv_inv_steps c1 recv_inv_done)
qed

lemma fresh_transmit_frame:
  assumes "\<And>b c1. rx_frame R c c1 \<Longrightarrow> b \<notin> R \<Longrightarrow> b < s_bnext c1 \<Longrightarrow> rx_frame R c (f b c1)"
  shows "rx_frame R c (case tcp_alloc_skb o0 n c of (b, c1) \<Rightarrow> f b c1)"
proof (cases "rx_ok R c")
  case True
  obtain b c1 where a: "tcp_alloc_skb o0 n c = (b, c1)" by (meson surj_pair)
  then have "b = s_bnext c" "s_bnext c1 = Suc (s_bnext c)" "rx_frame R c c1"
    using alloc_frame [of R c o0 n] alloc_name [of o0 n c] by simp_all
  with fresh_not_rx [OF True] show ?thesis by (simp add: a assms)
qed (simp add: rx_frame_def)

lemma queue_fin_frame: "rx_frame R c (snd (tcp_queue_fin c))"
proof -
  have "rx_frame R c (case tcp_alloc_skb 0 0 c of (b, c1) \<Rightarrow>
      snd (tcp_queue_transmit_skb b (upd_skb b (upd_th (\<lambda>th. th\<lparr>th_fin := True, th_ack := True\<rparr>)) c1)))"
    by (rule fresh_transmit_frame, rule rx_frame_trans [OF _ queue_transmit_frame])
      (auto intro: rx_frame_trans [OF _ put_frame] simp: upd_skb_def)
  then show ?thesis by (simp add: tcp_queue_fin_def Let_def split_beta)
qed

lemma send_reset_frame: "rx_frame R c (snd (tcp_send_reset c))"
proof -
  have "rx_frame R c (case tcp_alloc_skb 0 0 c of (b, c1) \<Rightarrow> free_skb b (snd (tcp_transmit_skb b
      (snd_nxt (tcb_of (upd_tcb (\<lambda>t. t\<lparr>snd_una := snd_nxt t\<rparr>) (upd_skb b (upd_th (\<lambda>th. th\<lparr>th_rst := True\<rparr>)) c1))))
      (upd_tcb (\<lambda>t. t\<lparr>snd_una := snd_nxt t\<rparr>) (upd_skb b (upd_th (\<lambda>th. th\<lparr>th_rst := True\<rparr>)) c1)))))"
    by (rule fresh_transmit_frame) (simp add: rx_frame_then)
  then show ?thesis by (simp add: tcp_send_reset_def Let_def split_beta)
qed

lemma close_recv:
  assumes "recv_inv lo css s0 got c"
  shows "recv_inv lo css s0 got (snd (tcp_close c))"
proof -
  have est: "recv_inv lo css s0 got (snd (tcp_queue_fin (tcp_set_state TCP_FIN_WAIT_1 c)))" if "state_of c = TCP_ESTABLISHED"
    by (rule recv_inv_same [OF _ _ assms])
      (use that in \<open>auto intro: rx_frame_trans [OF _ queue_fin_frame] simp: receiving_def\<close>)
  have wait: "recv_inv lo css s0 got (snd (tcp_queue_fin c))"
    by (rule recv_inv_same [OF queue_fin_frame _ assms]) (simp add: tcp_queue_fin_def Let_def split_beta)
  show ?thesis
    using est wait recv_inv_done [OF assms] by (auto simp: tcp_close_def intro: recv_inv_steps [OF assms])
qed

lemma linger_recv:
  assumes "recv_inv lo css s0 got c"
  shows "recv_inv lo css s0 got (tcp_linger c)" "recv_inv lo css s0 got (tcp_user_timeout c)"
proof -
  let ?c1 = "upd_sk (\<lambda>k. k\<lparr>tk_linger := None\<rparr>)
    (timer_cancel (tk_linger (c_sk (snd (socket_wr_acquire c)))) (snd (socket_wr_acquire c)))"
  have c1: "recv_inv lo css s0 got ?c1" by (rule recv_inv_same [OF _ _ assms]) simp_all
  then have "recv_inv lo css s0 got (snd (tcp_send_reset ?c1))"
    by (rule recv_inv_same [OF send_reset_frame, rotated]) simp
  with c1 show "recv_inv lo css s0 got (tcp_linger c)" "recv_inv lo css s0 got (tcp_user_timeout c)"
    unfolding tcp_linger_def tcp_user_timeout_def tcp_abort_def Let_def
    by (blast intro: recv_inv_steps(1) recv_inv_done)+
qed

subsection \<open>Transfers\<close>

text \<open>
  The driver hands over a buffer of its own; the steps are those of one end of the connection.
\<close>

definition arrive :: "sk_buff \<Rightarrow> tcpctx \<Rightarrow> tcpctx" where
  "arrive k c = c\<lparr>s_skbs := (s_skbs c)(s_bnext c \<mapsto> k), s_bnext := Suc (s_bnext c)\<rparr>"

inductive transfer :: "bytes list \<Rightarrow> u32 \<Rightarrow> bytes \<Rightarrow> tcpctx \<Rightarrow> bool" for css s0 where
  start: "rx_ok {} c \<Longrightarrow> sk_receive_queue (c_sk c) = [] \<Longrightarrow> tk_ofo_queue (c_sk c) = [] \<Longrightarrow>
    rcv_nxt (tcb_of c) = s0 \<Longrightarrow> transfer css s0 [] c"
| segment: "transfer css s0 got c \<Longrightarrow> state_of c \<notin> {TCP_CLOSE, TCP_LISTEN, TCP_SYN_SENT} \<Longrightarrow>
    sent_by css s0 k th \<Longrightarrow> transfer css s0 got (snd (tcp_input_state (s_bnext c) th (arrive k c)))"
| read: "transfer css s0 got c \<Longrightarrow> int (length buf) \<le> len \<Longrightarrow> len < 2 ^ 31 \<Longrightarrow>
    tcp_receive_round len (int (length buf)) buf c = Received r buf' c'
      \<or> tcp_receive_round len (int (length buf)) buf c = Sleep r buf' c' \<Longrightarrow>
    transfer css s0 (got @ drop (length buf) buf') c'"
| send: "transfer css s0 got c \<Longrightarrow> tcp_send data c = Some (rc, c') \<Longrightarrow> transfer css s0 got c'"
| delack: "transfer css s0 got c \<Longrightarrow> transfer css s0 got (tcp_send_delack c)"
| timeout: "transfer css s0 got c \<Longrightarrow> transfer css s0 got (tcp_retransmission_timeout c)"
| close: "transfer css s0 got c \<Longrightarrow> transfer css s0 got (snd (tcp_close c))"
| linger: "transfer css s0 got c \<Longrightarrow> transfer css s0 got (tcp_linger c)"
| user_timeout: "transfer css s0 got c \<Longrightarrow> transfer css s0 got (tcp_user_timeout c)"
| lock: "transfer css s0 got c \<Longrightarrow> transfer css s0 got (snd (socket_wr_acquire c))"
| release: "transfer css s0 got c \<Longrightarrow> transfer css s0 got (socket_release c)"

lemma arrive_recv:
  assumes "recv_inv lo css s0 got c" "b_refcnt k = 0"
  shows "recv_inv lo css s0 got (arrive k c)" "arriving (s_bnext c) (arrive k c)"
    "deref (s_bnext c) (arrive k c) = k" "state_of (arrive k c) = state_of c"
proof -
  let ?q = "sk_receive_queue (c_sk c) @ tk_ofo_queue (c_sk c)"
  have ok: "rx_ok (set ?q) c" using assms(1) by (simp add: recv_inv_def recv_base_def)
  note fresh = fresh_not_rx [OF ok]
  have "rx_frame (set ?q) c (arrive k c)"
    using ok fresh by (auto simp: rx_frame_def rx_ok_def arrive_def heap_ok_def live_def less_Suc_eq)
  moreover show st: "state_of (arrive k c) = state_of c" by (simp add: arrive_def)
  ultimately show "recv_inv lo css s0 got (arrive k c)"
    using assms(1) recv_frame by (simp add: recv_inv_def)
  show "deref (s_bnext c) (arrive k c) = k" by (simp add: arrive_def deref_def)
  show "arriving (s_bnext c) (arrive k c)"
    using fresh assms(2) ok by (auto simp: arriving_def arrive_def live_def deref_def rx_ok_def)
qed

lemma transfer_inv:
  assumes "numbered css s0" "transfer css s0 got c"
  shows "recv_inv 0 css s0 got c"
  using assms(2)
proof induction
  case (start c)
  then have "recv_base css [] c" by (simp add: recv_base_def queue_ok_def)
  with start show ?case by (auto simp: recv_inv_def ofo_sorted_def recv_open_def seq_at_def offs_def intro!: exI [of _ 0])
next
  case (segment got c k th)
  note a = arrive_recv [OF segment.IH, of k]
  show ?case
    by (rule input_state_recv [OF assms(1)]) (use segment a in \<open>simp_all add: sent_by_def\<close>)
next
  case (read got c buf len r buf' c')
  show ?case by (rule read_recv [OF read.IH read.hyps(2-4)])
next
  case (lock got c)
  show ?case by (rule recv_inv_same [OF _ _ lock.IH]) simp_all
qed (auto intro: send_recv delack_recv timeout_recv close_recv linger_recv recv_inv_steps)

text \<open>
  C2: whatever the order in which the segments of a sender's data arrive, however often they are
  repeated, and however they interleave with reads of any size, with sends and the close of this
  end, delayed acknowledgements and timeouts, the bytes handed to the reader are a prefix of the
  bytes sent.  While data are taken, \<open>rcv_nxt\<close> counts exactly the bytes that were handed over or
  wait in the receive queue: nothing is lost, repeated or swapped.
\<close>

theorem reader_gets_prefix:
  assumes "numbered css s0" "transfer css s0 got c"
  shows "prefix got (concat css) \<and> (state_of c \<in> receiving \<longrightarrow>
    (\<exists>n \<le> length (concat css). rcv_nxt (tcb_of c) = s0 + of_nat n \<and> got @ stream c = take n (concat css)))"
proof -
  have inv: "recv_base css got c" "state_of c \<in> receiving \<Longrightarrow> recv_open 0 css s0 got c"
    using transfer_inv [OF assms] by (simp_all add: recv_inv_def)
  then have "prefix got (concat css)" by (auto simp: recv_base_def dest: append_prefixD)
  moreover have "\<exists>n \<le> length (concat css). rcv_nxt (tcb_of c) = s0 + of_nat n \<and> got @ stream c = take n (concat css)"
    if "state_of c \<in> receiving"
  proof -
    from inv(2) [OF that] obtain i
      where i: "i \<le> length css" "rcv_nxt (tcb_of c) = seq_at css s0 i" "got @ stream c = concat (take i css)"
      by (auto simp: recv_open_def)
    have "concat css = concat (take i css) @ concat (drop i css)"
      by (metis append_take_drop_id concat_append)
    then have "concat (take i css) = take (offs css i) (concat css)" by (simp add: offs_def)
    with i show ?thesis by (intro exI [of _ "offs css i"]) (simp add: seq_at_def offs_le)
  qed
  ultimately show ?thesis by blast
qed

text \<open>Three bytes in two chunks, a read of one byte after the first and of the rest after the second.\<close>

definition chunk_demo :: "u32 \<Rightarrow> bytes \<Rightarrow> sk_buff" where
  "chunk_demo seq bs = (new_skb 54)\<lparr>b_mem := replicate 54 0 @ bs, b_payload := 54, b_dlen := of_nat (length bs),
     b_seq := seq, b_end_seq := seq + of_nat (length bs)\<rparr>"

definition start_demo :: tcpctx where
  "start_demo = (demo_ctx TCP_ESTABLISHED)\<lparr>s_skbs := (\<lambda>_. None), s_bnext := 0\<rparr>"

definition first_demo :: tcpctx where
  "first_demo = snd (tcp_input_state (s_bnext start_demo) (demo_th\<lparr>th_ack_seq := 1000\<rparr>)
     (arrive (chunk_demo 500 [1, 2]) start_demo))"

definition read_demo :: "int \<Rightarrow> tcpctx \<Rightarrow> bytes \<times> tcpctx" where
  "read_demo n c = (case tcp_receive_round n 0 [] c of Received r bs c' \<Rightarrow> (bs, c') | Sleep r bs c' \<Rightarrow> (bs, c'))"

definition second_demo :: tcpctx where
  "second_demo = (let c = snd (read_demo 1 first_demo) in
     snd (tcp_input_state (s_bnext c) (demo_th\<lparr>th_seq := 502, th_ack_seq := 1000\<rparr>)
       (arrive (chunk_demo 502 [3]) c)))"

lemma demo_runs:
  "state_of (snd (read_demo 1 first_demo)) = TCP_ESTABLISHED" "fst (read_demo 1 first_demo) = [1]"
  "state_of (snd (read_demo 5 second_demo)) = TCP_ESTABLISHED" "fst (read_demo 5 second_demo) = [2, 3]"
  "sk_receive_queue (c_sk start_demo) = []" "tk_ofo_queue (c_sk start_demo) = []" "rcv_nxt (tcb_of start_demo) = 500"
  "state_of start_demo = TCP_ESTABLISHED" "sk_write_queue (c_sk start_demo) = []"
  by code_simp+

lemma demo_sent:
  "sent_by [[1, 2], [3]] 500 (chunk_demo 500 [1, 2]) (demo_th\<lparr>th_ack_seq := 1000\<rparr>)"
  "sent_by [[1, 2], [3]] 500 (chunk_demo 502 [3]) (demo_th\<lparr>th_seq := 502, th_ack_seq := 1000\<rparr>)"
  by (auto simp: sent_by_def chunk_demo_def chunk_at_def seq_at_def offs_def payload_def mread_def data_ok_def
      in_region_def demo_th_def new_skb_def intro: exI [of _ 0] exI [of _ 1])

lemma transfer_read:
  assumes "transfer css s0 got c" "0 \<le> n" "n < 2 ^ 31"
  shows "transfer css s0 (got @ fst (read_demo n c)) (snd (read_demo n c))"
  using transfer.read [OF assms(1), of "[]" n] assms(2,3)
  by (cases "tcp_receive_round n 0 [] c") (auto simp: read_demo_def)

theorem reader_gets_prefix_witness:
  "transfer [[1, 2], [3]] 500 [1, 2, 3] (snd (read_demo 5 second_demo))
    \<and> rcv_nxt (tcb_of (snd (read_demo 5 second_demo))) = 503
    \<and> prefix [1, 2, 3] (concat [[1, 2], [3 :: u8]])"
proof -
  let ?css = "[[1, 2], [3]] :: bytes list"
  have num: "numbered ?css 500" by (simp add: numbered_def)
  have t0: "transfer ?css 500 [] start_demo"
    by (rule transfer.start) (simp_all add: demo_runs rx_ok_def heap_ok_def live_def, simp add: start_demo_def)
  have t1: "transfer ?css 500 [] first_demo"
    unfolding first_demo_def by (rule transfer.segment [OF t0 _ demo_sent(1)]) (simp add: demo_runs)
  have t2: "transfer ?css 500 [1] (snd (read_demo 1 first_demo))"
    using transfer_read [OF t1, of 1] by (simp add: demo_runs)
  have "transfer ?css 500 [1] second_demo"
    unfolding second_demo_def Let_def by (rule transfer.segment [OF t2 _ demo_sent(2)]) (simp add: demo_runs)
  from transfer_read [OF this, of 5] have t3: "transfer ?css 500 [1, 2, 3] (snd (read_demo 5 second_demo))"
    by (simp add: demo_runs)
  have st: "state_of (snd (read_demo 5 second_demo)) \<in> receiving" by (simp add: demo_runs receiving_def)
  note result = reader_gets_prefix [OF num t3]
  with st obtain n where n: "n \<le> length (concat ?css)"
      "rcv_nxt (tcb_of (snd (read_demo 5 second_demo))) = 500 + of_nat n"
      "[1, 2, 3] @ stream (snd (read_demo 5 second_demo)) = take n (concat ?css)"
    by blast
  from arg_cong [OF n(3), of length] n(1) have "n = 3" by simp
  with n t3 result show ?thesis by simp
qed

end
