(* ===== verification/Tcp_Sender.thy ===== *)
theory Tcp_Sender
  imports Tcp_Transfer
begin

unbundle bit_operations_syntax

text \<open>
  The sending side of a connection over a whole transfer: what was written and is not acknowledged
  is in the retransmission queue, in order, and every segment that was sent has the sequence number
  of its data.  And the two ways in which the code loses this order.
\<close>

subsection \<open>Operations that do not touch the retransmission queue\<close>

text \<open>\<open>S\<close> are the buffers of the retransmission queue: none of those received.\<close>

definition sd_ok :: "nat set \<Rightarrow> tcpctx \<Rightarrow> bool" where
  "sd_ok S c \<longleftrightarrow> heap_ok c \<and> devs_ok c \<and> (\<forall>b\<in>S. live b c)
     \<and> S \<inter> set (sk_receive_queue (c_sk c) @ tk_ofo_queue (c_sk c)) = {}
     \<and> (\<forall>b\<in>set (sk_receive_queue (c_sk c) @ tk_ofo_queue (c_sk c)). b < s_bnext c)"

definition sd_frame :: "nat set \<Rightarrow> tcpctx \<Rightarrow> tcpctx \<Rightarrow> bool" where
  "sd_frame S c c' \<longleftrightarrow> (sd_ok S c \<longrightarrow> sd_ok S c' \<and> (\<forall>b\<in>S. s_skbs c' b = s_skbs c b)
     \<and> sk_write_queue (c_sk c') = sk_write_queue (c_sk c) \<and> tk_inflight (c_sk c') = tk_inflight (c_sk c)
     \<and> snd_nxt (tcb_of c') = snd_nxt (tcb_of c) \<and> snd_una (tcb_of c') = snd_una (tcb_of c)
     \<and> s_bnext c \<le> s_bnext c')"

lemma sd_ok_heap: "sd_ok S c \<Longrightarrow> heap_ok c" "sd_ok S c \<Longrightarrow> devs_ok c"
  by (simp_all add: sd_ok_def)

lemma sd_frame_refl [simp]: "sd_frame S c c"
  by (simp add: sd_frame_def)

lemma sd_frame_trans: "sd_frame S c c' \<Longrightarrow> sd_frame S c' c'' \<Longrightarrow> sd_frame S c c''"
  by (auto simp: sd_frame_def)

lemma sd_frame_upd [simp]:
  "(\<And>k. sk_write_queue (f k) = sk_write_queue k \<and> sk_receive_queue (f k) = sk_receive_queue k
     \<and> tk_ofo_queue (f k) = tk_ofo_queue k \<and> tk_tcb (f k) = tk_tcb k \<and> tk_inflight (f k) = tk_inflight k) \<Longrightarrow>
     sd_frame S c (upd_sk f c') = sd_frame S c c'"
  "(\<And>t. snd_nxt (g t) = snd_nxt t \<and> snd_una (g t) = snd_una t) \<Longrightarrow>
     sd_frame S c (upd_tcb g c') = sd_frame S c c'"
  by (simp_all add: sd_frame_def sd_ok_def devs_ok_def)

lemma sd_frame_view: "conn_view c'' = conn_view c' \<Longrightarrow> sd_frame S c c'' = sd_frame S c c'"
  by (simp add: conn_view_def sd_frame_def sd_ok_def heap_ok_def devs_ok_def live_def)

lemmas sd_frame_views [simp] = conn_views [THEN sd_frame_view]

lemma sd_frame_upd_skb: "b \<notin> S \<Longrightarrow> sd_frame S c (upd_skb b f c)"
  by (auto simp: sd_frame_def sd_ok_def devs_ok_def intro!: s_skbs_upd_skb)

lemma sd_frame_free:
  assumes "b \<notin> S"
  shows "sd_frame S c (free_skb b c)"
proof -
  have "s_skbs (free_skb b c) x = s_skbs c x" if "x \<in> S" for x
    using that assms by (intro s_skbs_free_skb) blast
  then show ?thesis by (simp add: sd_frame_def sd_ok_def devs_ok_def heap_ok_free_skb live_def cong: imp_cong)
qed

lemma sd_frame_tx:
  assumes "heap_ok c \<Longrightarrow> tcp_tx B c c'" "B \<inter> S = {}"
  shows "sd_frame S c c'"
proof -
  have "sd_ok S c' \<and> (\<forall>b\<in>S. s_skbs c' b = s_skbs c b) \<and> s_bnext c \<le> s_bnext c'" if ok: "sd_ok S c"
  proof -
    have tx: "tcp_tx B c c'" using assms(1) ok by (simp add: sd_ok_def)
    have keep: "s_skbs c' b = s_skbs c b" if "b \<in> S" for b
      using tx ok that assms(2) by (auto simp: tcp_tx_def tx_frame_def sd_ok_def)
    moreover have "heap_ok c'" "s_bnext c \<le> s_bnext c'" "s_routes c' = s_routes c"
      using tx ok by (auto simp: tcp_tx_def tx_frame_def sd_ok_def heap_ok_def live_def)
    ultimately show ?thesis
      using ok same_sk_fields(2) [OF same_sk_tx [OF tx]] same_sk_tx [OF tx]
      by (auto simp: sd_ok_def live_def devs_ok_def same_sk_fields dest: order.strict_trans2)
  qed
  moreover have "sd_ok S c \<Longrightarrow> same_sk c c'"
    using assms(1) same_sk_tx by (auto simp: sd_ok_def)
  ultimately show ?thesis by (auto simp: sd_frame_def same_sk_fields)
qed

lemma sd_frame_ack: "sd_frame S c (snd (tcp_send_ack c))"
  by (rule sd_frame_tx [OF tcp_send_ack_tx]) simp_all

lemma sd_frame_transmit: "b \<notin> S \<Longrightarrow> sd_frame S c (snd (tcp_transmit_skb b seq c))"
  by (rule sd_frame_tx [OF tcp_transmit_tx [of b "{b}"]]) simp_all

lemmas sd_frame_then =
  sd_frame_trans [OF _ sd_frame_upd_skb] sd_frame_trans [OF _ sd_frame_free] sd_frame_trans [OF _ sd_frame_transmit]
  sd_frame_trans [OF _ sd_frame_ack]

text \<open>Received buffers move between the queues, and a new one comes in.\<close>

lemma sd_frame_queues:
  assumes "sd_frame S c c'" "B \<inter> S = {}" "\<forall>b\<in>B. b < s_bnext c'"
    and "\<And>k. sk_write_queue (f k) = sk_write_queue k \<and> tk_tcb (f k) = tk_tcb k \<and> tk_inflight (f k) = tk_inflight k"
    and "set (sk_receive_queue (f (c_sk c')) @ tk_ofo_queue (f (c_sk c')))
      \<subseteq> B \<union> set (sk_receive_queue (c_sk c') @ tk_ofo_queue (c_sk c'))"
  shows "sd_frame S c (upd_sk f c')"
proof -
  have "sd_ok S (upd_sk f c')" if "sd_ok S c'"
  proof -
    have "x \<notin> S \<and> x < s_bnext c'" if "x \<in> set (sk_receive_queue (f (c_sk c')) @ tk_ofo_queue (f (c_sk c')))" for x
      using subsetD [OF assms(5) that] assms(2,3) \<open>sd_ok S c'\<close> by (auto simp: sd_ok_def)
    then show ?thesis using that by (fastforce simp: sd_ok_def devs_ok_def)
  qed
  then show ?thesis using assms(1,4) by (auto simp: sd_frame_def)
qed

lemma q_add_in: "x \<in> set (q_add n y q) \<Longrightarrow> x = n \<or> x \<in> set q"
  by (induction n y q rule: q_add.induct) (auto split: if_splits)

lemma insert_ordered_sd:
  assumes "b \<notin> S" "b < s_bnext c"
  shows "sd_frame S c (tcp_data_insert_ordered b c)"
proof -
  let ?u = "upd_skb b (\<lambda>k. k\<lparr>b_refcnt := b_refcnt k + 1\<rparr>) c"
  have u: "sd_frame S c ?u" using assms(1) by (rule sd_frame_upd_skb)
  show ?thesis
    unfolding tcp_data_insert_ordered_def Let_def
    by (cases "insert_pos (deref b c) (tk_ofo_queue (c_sk c)) c")
      (use assms in \<open>auto intro!: sd_frame_queues [OF u, of "{b}"] simp: q_tail_def dest: q_add_in\<close>)
qed

lemma consume_ofo_sd:
  "tk_ofo_queue (c_sk c) = q \<Longrightarrow> sd_frame S c (consume_ofo q c)"
proof (induction q arbitrary: c)
  case (Cons b q)
  let ?c0 = "touch b c"
  let ?c1 = "upd_sk (\<lambda>k. k\<lparr>tk_ofo_queue := q, sk_receive_queue := q_tail b (sk_receive_queue k)\<rparr>)
    (upd_tcb (\<lambda>t. t\<lparr>rcv_nxt := rcv_nxt t + b_dlen (deref b ?c0)\<rparr>) ?c0)"
  have "sd_frame S c ?c1"
    by (rule sd_frame_queues [of _ _ _ "{}"]) (use Cons.prems in \<open>auto simp: q_tail_def touch_def\<close>)
  moreover have "sd_frame S ?c1 (consume_ofo q ?c1)" by (rule Cons.IH) simp
  ultimately show ?case by (auto simp: Let_def intro: sd_frame_trans)
qed simp

lemma data_queue_sd:
  assumes "b \<notin> S" "b < s_bnext c"
  shows "sd_frame S c (snd (tcp_data_queue b c))"
proof -
  let ?u = "upd_skb b (\<lambda>k. k\<lparr>b_refcnt := b_refcnt k + 1\<rparr>) (upd_tcb (\<lambda>t. t\<lparr>rcv_nxt := rcv_nxt t + b_dlen (deref b c)\<rparr>) c)"
  let ?q = "upd_sk (\<lambda>k. k\<lparr>sk_receive_queue := q_tail b (sk_receive_queue k)\<rparr>) ?u"
  have "sd_frame S c ?u" using assms(1) by (intro sd_frame_then) simp_all
  then have "sd_frame S c ?q"
    by (rule sd_frame_queues [of _ _ _ "{b}"]) (use assms in \<open>auto simp: q_tail_def\<close>)
  then have "sd_frame S c (tcp_consume_ofo_queue ?q)"
    unfolding tcp_consume_ofo_queue_def using consume_ofo_sd [OF refl] by (rule sd_frame_trans)
  moreover note ins = insert_ordered_sd [OF assms]
  ultimately show ?thesis
    using assms(1) by (auto simp: tcp_data_queue_def Let_def intro!: sd_frame_then)
qed

text \<open>The phases of segment processing that release and send no data.\<close>

lemma input_check_sd: "input_check b th c = Inl r \<Longrightarrow> b \<notin> S \<Longrightarrow> sd_frame S c (snd r)"
  by (auto simp: input_check_def tcp_drop_def tcp_send_challenge_ack_def Let_def split: if_splits
      intro!: sd_frame_then)

lemma input_data_sd: "b \<notin> S \<Longrightarrow> b < s_bnext c \<Longrightarrow> sd_frame S c (input_data b th c)"
  by (simp add: input_data_def data_queue_sd)

lemma input_fin_sd:
  "input_fin b th e c = Inl r \<Longrightarrow> b \<notin> S \<Longrightarrow> sd_frame S c (snd r)"
  "input_fin b th e c = Inr c' \<Longrightarrow> sd_frame S c c'"
  by (auto simp: input_fin_def tcp_drop_def Let_def split: if_splits tcp_states.splits intro!: sd_frame_then)

lemma queue_free_sd: "set q \<inter> S = {} \<Longrightarrow> sd_frame S c (skb_queue_free q c)"
proof (induction q c rule: skb_queue_free.induct)
  case (2 b q c)
  let ?c = "upd_skb b (\<lambda>k. k\<lparr>b_refcnt := b_refcnt k - 1\<rparr>) c"
  have "sd_frame S c (free_skb b ?c)" using 2 by (intro sd_frame_then sd_frame_upd_skb) simp_all
  moreover have "sd_frame S (free_skb b ?c) (skb_queue_free q (free_skb b ?c))"
    using 2 by (simp add: upd_skb_def Let_def)
  ultimately show ?case by (auto simp: Let_def upd_skb_def intro: sd_frame_trans)
qed simp

lemma done_sd:
  "sd_frame S c (snd (tcp_done c))"
proof (cases "sd_ok S c")
  case True
  let ?c1 = "tcp_clear_timers (tcp_set_state TCP_CLOSING c)"
  let ?c2 = "skb_queue_free (tk_ofo_queue (c_sk ?c1)) ?c1"
  have "sd_frame S c ?c1" by simp
  moreover have "set (tk_ofo_queue (c_sk ?c1)) \<inter> S = {}" using True by (auto simp: sd_ok_def)
  ultimately have "sd_frame S c ?c2" using queue_free_sd sd_frame_trans by blast
  then have "sd_frame S c (upd_sk (\<lambda>k. k\<lparr>tk_ofo_queue := []\<rparr>) ?c2)"
    by (rule sd_frame_queues [of _ _ _ "{}"]) simp_all
  then show ?thesis
    by (simp add: tcp_done_def tcp_free_def tcp_clear_queues_def socket_delete_def Let_def)
qed (simp add: sd_frame_def)

text \<open>Reads.\<close>

lemma read_sd:
  assumes "rd_frame c c'"
  shows "sd_frame S c c'"
proof -
  obtain p where p: "sk_receive_queue (c_sk c) = p @ sk_receive_queue (c_sk c')"
    using assms(1) by (auto simp: rd_frame_def)
  have f: "tk_ofo_queue (c_sk c') = tk_ofo_queue (c_sk c)" "sk_write_queue (c_sk c') = sk_write_queue (c_sk c)"
    "tcb_of c' = tcb_of c" "s_routes c' = s_routes c" "tk_inflight (c_sk c') = tk_inflight (c_sk c)"
    "s_bnext c' = s_bnext c" "heap_ok c \<longrightarrow> heap_ok c'"
    "\<And>x. x \<notin> set (sk_receive_queue (c_sk c)) \<Longrightarrow> s_skbs c' x = s_skbs c x"
    using assms(1) by (auto simp: rd_frame_def)
  have "s_skbs c' b = s_skbs c b" if "sd_ok S c" "b \<in> S" for b
    using that by (intro f(8)) (auto simp: sd_ok_def)
  then show ?thesis
    using f(1-7) p by (auto simp: sd_frame_def sd_ok_def devs_ok_def live_def)
qed

subsection \<open>The retransmission queue and the data\<close>

text \<open>
  The data are cut into \<open>css\<close>, numbered from \<open>s0\<close> (see \<open>Tcp_Transfer\<close>).  Chunk \<open>j\<close> is in a
  buffer of the queue, with its number once it was sent; \<open>n\<close> chunks were.
\<close>

definition entry :: "bytes list \<Rightarrow> u32 \<Rightarrow> nat \<Rightarrow> nat \<Rightarrow> nat \<Rightarrow> tcpctx \<Rightarrow> bool" where
  "entry css s0 n j b c \<longleftrightarrow> (\<exists>psh. segment_of psh (css ! j) b c)
     \<and> (if j < n then b_seq (deref b c) = seq_at css s0 j \<and> b_end_seq (deref b c) = seq_at css s0 (Suc j)
        else b_seq (deref b c) = 0)"

text \<open>\<open>a\<close> chunks were acknowledged and released, \<open>n\<close> sent, and the queue holds all from \<open>a\<close> on.\<close>

definition queued :: "bytes list \<Rightarrow> u32 \<Rightarrow> nat \<Rightarrow> nat \<Rightarrow> tcpctx \<Rightarrow> bool" where
  "queued css s0 a n c \<longleftrightarrow> (let q = sk_write_queue (c_sk c) in
     a \<le> n \<and> n \<le> length css \<and> sd_ok (set q) c \<and> distinct q \<and> length q = length css - a
     \<and> (\<forall>i < length q. entry css s0 n (a + i) (q ! i) c)
     \<and> snd_nxt (tcb_of c) = seq_at css s0 n
     \<and> seq_at css s0 a \<le> snd_una (tcb_of c) \<and> snd_una (tcb_of c) \<le> seq_at css s0 n
     \<and> (a < n \<longrightarrow> snd_una (tcb_of c) < seq_at css s0 (Suc a)))"

definition snd_inv :: "bytes list \<Rightarrow> u32 \<Rightarrow> tcpctx \<Rightarrow> bool" where
  "snd_inv css s0 c \<longleftrightarrow> numbered css s0 \<and> 0 < s0 \<and> (\<forall>chunk\<in>set css. length chunk \<le> 1460)
     \<and> (\<exists>a n. queued css s0 a n c \<and> unat (tk_inflight (c_sk c)) = n - a)"

lemma entry_cong: "s_skbs c' b = s_skbs c b \<Longrightarrow> entry css s0 n j b c' = entry css s0 n j b c"
  using segment_of_cong [of b c' c] by (simp add: entry_def live_def deref_def)

lemma queued_frame:
  assumes "sd_frame (set (sk_write_queue (c_sk c))) c c'" "queued css s0 a n c"
  shows "queued css s0 a n c' \<and> sk_write_queue (c_sk c') = sk_write_queue (c_sk c)
    \<and> tk_inflight (c_sk c') = tk_inflight (c_sk c) \<and> s_bnext c \<le> s_bnext c'"
proof -
  let ?q = "sk_write_queue (c_sk c)"
  have f: "sd_ok (set ?q) c'" "\<forall>b\<in>set ?q. s_skbs c' b = s_skbs c b" "sk_write_queue (c_sk c') = ?q"
    "tk_inflight (c_sk c') = tk_inflight (c_sk c)" "snd_nxt (tcb_of c') = snd_nxt (tcb_of c)"
    "snd_una (tcb_of c') = snd_una (tcb_of c)" "s_bnext c \<le> s_bnext c'"
    using assms unfolding sd_frame_def queued_def Let_def by blast+
  have "entry css s0 n j (?q ! i) c' = entry css s0 n j (?q ! i) c" if "i < length ?q" for i j
    using f(2) that by (intro entry_cong) simp
  then show ?thesis using assms(2) f by (simp add: queued_def Let_def)
qed

lemma snd_inv_frame:
  "sd_frame (set (sk_write_queue (c_sk c))) c c' \<Longrightarrow> snd_inv css s0 c \<Longrightarrow> snd_inv css s0 c'"
  using queued_frame unfolding snd_inv_def by metis

text \<open>One buffer of the queue changes.\<close>

lemma queued_update:
  assumes "queued css s0 a n c" "i < length (sk_write_queue (c_sk c))" "sk_write_queue (c_sk c) ! i = b"
    and "\<forall>x. x \<noteq> b \<longrightarrow> s_skbs c' x = s_skbs c x" "entry css s0 n' (a + i) b c'" "heap_ok c'" "devs_ok c'"
    and "sk_write_queue (c_sk c') = sk_write_queue (c_sk c)" "sk_receive_queue (c_sk c') = sk_receive_queue (c_sk c)"
    and "tk_ofo_queue (c_sk c') = tk_ofo_queue (c_sk c)" "s_bnext c \<le> s_bnext c'"
    and "snd_nxt (tcb_of c') = seq_at css s0 n'" "snd_una (tcb_of c') = snd_una (tcb_of c)"
    and "n' = n \<or> n' = Suc n \<and> i = n - a" "numbered css s0"
  shows "queued css s0 a n' c'"
proof -
  let ?q = "sk_write_queue (c_sk c)"
  from assms(1) have q: "a \<le> n" "n \<le> length css" "sd_ok (set ?q) c" "distinct ?q" "length ?q = length css - a"
    "\<And>i. i < length ?q \<Longrightarrow> entry css s0 n (a + i) (?q ! i) c" "seq_at css s0 a \<le> snd_una (tcb_of c)"
    "snd_una (tcb_of c) \<le> seq_at css s0 n" "a < n \<Longrightarrow> snd_una (tcb_of c) < seq_at css s0 (Suc a)"
    by (simp_all add: queued_def Let_def)
  have n': "a \<le> n'" "n' \<le> length css" using assms(2,14) q(1,2,5) by auto
  have e: "entry css s0 n' (a + j) (?q ! j) c'" if "j < length ?q" for j
  proof (cases "j = i")
    case False
    then have "?q ! j \<noteq> b" unfolding assms(3) [symmetric] nth_eq_iff_index_eq [OF q(4) that assms(2)] .
    then have "entry css s0 n (a + j) (?q ! j) c'" using q(6) [OF that] assms(4) entry_cong by blast
    moreover have "(a + j < n') = (a + j < n)" using assms(14) False by auto
    ultimately show ?thesis by (simp add: entry_def)
  qed (use assms(3,5) in simp)
  have l: "live (?q ! i) c'" if "i < length ?q" for i using e [OF that] by (auto simp: entry_def segment_of_def)
  then have "\<forall>x\<in>set ?q. live x c'" by (metis in_set_conv_nth)
  then have ok: "sd_ok (set ?q) c'" using q(3) assms(6,7,9-11) by (auto simp: sd_ok_def intro: less_le_trans)
  have "snd_una (tcb_of c) \<le> seq_at css s0 n' \<and> (a < n' \<longrightarrow> snd_una (tcb_of c) < seq_at css s0 (Suc a))"
  proof (cases "n' = n")
    case False
    then have n: "n' = Suc n" "Suc n \<le> length css" using assms(14) n' by auto
    have "seq_at css s0 n < seq_at css s0 (Suc n)" using n(2) seq_at_cmp(1) [OF assms(15), of n "Suc n"] by simp
    then have lt: "snd_una (tcb_of c) < seq_at css s0 (Suc n)" using q(8) by (rule order.strict_trans1 [rotated])
    show ?thesis
    proof (cases "a < n")
      case True
      with q(9) lt n(1) show ?thesis by simp
    next
      case False
      then have "a = n" using q(1) by simp
      with lt n(1) show ?thesis by simp
    qed
  qed (use q(8,9) in simp)
  show ?thesis
    unfolding queued_def Let_def assms(8) using n' ok q(4,5,7) e \<open>_ \<and> _\<close> assms(12,13) by simp
qed

lemma reset_header_sel:
  "tcp_hdr (skb_reset_header k) = tcp_hdr k" "b_mem (skb_reset_header k) = b_mem k"
  "b_dlen (skb_reset_header k) = b_dlen k" "b_seq (skb_reset_header k) = b_seq k"
  "b_end_seq (skb_reset_header k) = b_end_seq k" "b_protocol (skb_reset_header k) = b_protocol k"
  "hdr_words (skb_reset_header k) = hdr_words k"
  by (simp_all add: hdr_words_def tcp_hdr_def skb_reset_header_def)

lemma segment_ready:
  assumes "segment_of psh chunk b c" "0 < length chunk" "length chunk \<le> 1460"
  defines "c1 \<equiv> upd_skb b skb_reset_header c"
  shows "tcp_ready b (length chunk) c1" "segment_of psh chunk b c1" "deref b c1 = skb_reset_header (deref b c)"
proof -
  have s: "live b c" "seg_data b c = chunk" "unat (b_dlen (deref b c)) = length chunk" "hdr_words (deref b c) = 5"
    using assms(1) by (simp_all add: segment_of_def)
  have "length (drop 54 (b_mem (deref b c))) = length chunk" using s(2) unfolding seg_data_def by (rule arg_cong)
  then have l: "length (b_mem (deref b c)) = 54 + length chunk" using assms(2) unfolding length_drop by linarith
  have d: "live b c1" "deref b c1 = skb_reset_header (deref b c)" using s(1) by (simp_all add: c1_def)
  show "deref b c1 = skb_reset_header (deref b c)" by (rule d(2))
  show "segment_of psh chunk b c1"
    using assms(1) d by (simp add: segment_of_def seg_data_def seg_flags_def reset_header_sel)
  have "b_data (deref b c1) = 54" "unat (b_len (deref b c1)) = length chunk"
    unfolding d(2) using l s(3) by (simp_all add: skb_reset_header_def)
  then show "tcp_ready b (length chunk) c1"
    using d s(4) l assms(3) by (simp add: tcp_ready_def Let_def reset_header_sel)
qed

text \<open>A transmission of a segment of the queue, the first or a later one.\<close>

lemma transmit_segment:
  fixes c :: tcpctx and seq :: u32
  assumes "segment_of psh chunk b c" "0 < length chunk" "length chunk \<le> 1460" "heap_ok c" "devs_ok c"
  defines "c' \<equiv> snd (tcp_transmit_skb b seq (upd_skb b skb_reset_header c))"
  shows "segment_of psh chunk b c'" "b_seq (deref b c') = b_seq (deref b c)" "b_end_seq (deref b c') = b_end_seq (deref b c)"
    "b_dlen (deref b c') = b_dlen (deref b c)" "\<forall>x. x \<noteq> b \<longrightarrow> s_skbs c' x = s_skbs c x" "heap_ok c'" "devs_ok c'"
    "s_bnext c \<le> s_bnext c'"
proof -
  let ?c1 = "upd_skb b skb_reset_header c"
  note r = segment_ready [OF assms(1-3)]
  have l: "live b ?c1" using r(2) by (simp add: segment_of_def)
  have h1: "heap_ok ?c1" "devs_ok ?c1" using assms(4,5) by (simp_all add: devs_ok_def)
  have tx: "tcp_tx {b} ?c1 c'" unfolding c'_def by (rule tcp_transmit_tx) simp
  have keep: "tx_keeps b ?c1 c'" unfolding c'_def by (rule tcp_transmit_keeps [OF h1(1)])
  note seg = transmit_keeps_segment [OF r(1) h1, of seq, folded c'_def]
  show "segment_of psh chunk b c'" using r(2) keep seg by (simp add: segment_of_def tx_keeps_def same_skb_def r(3))
  show "b_seq (deref b c') = b_seq (deref b c)" "b_end_seq (deref b c') = b_end_seq (deref b c)"
    "b_dlen (deref b c') = b_dlen (deref b c)"
    using keep l by (simp_all add: tx_keeps_def same_skb_def r(3) reset_header_sel)
  have "s_skbs c' x = s_skbs ?c1 x" if "x \<noteq> b" for x using tx h1 that by (simp add: tcp_tx_def tx_frame_def)
  then show "\<forall>x. x \<noteq> b \<longrightarrow> s_skbs c' x = s_skbs c x" by (simp add: s_skbs_upd_skb)
  show "heap_ok c'" "devs_ok c'" "s_bnext c \<le> s_bnext c'"
    using tx h1 by (auto simp: tcp_tx_def tx_frame_def heap_ok_def live_def devs_ok_def)
qed

lemma chunk_size:
  assumes "numbered css s0" "\<forall>chunk\<in>set css. length chunk \<le> 1460" "j < length css"
  shows "0 < length (css ! j)" "length (css ! j) \<le> 1460"
  using assms(1,2) nth_mem [OF assms(3)] by (metis numbered_def length_greater_0_conv, blast)

lemma seq_at_Suc: "j < length css \<Longrightarrow> seq_at css s0 (Suc j) = seq_at css s0 j + of_nat (length (css ! j))"
  by (simp add: seq_at_def offs_Suc)

lemma segment_fin: "segment_of psh chunk b c \<Longrightarrow> \<not> th_fin (tcp_hdr (deref b c))"
  by (simp add: segment_of_def seg_flags_def th_flags_def)

lemma segment_numbers:
  assumes "segment_of psh chunk b c"
  shows "segment_of psh chunk b (upd_skb b (\<lambda>k. k\<lparr>b_seq := x, b_end_seq := y\<rparr>) c)"
  using assms by (simp add: segment_of_def seg_data_def seg_flags_def hdr_words_def tcp_hdr_def)

text \<open>One round of \<open>tcp_send_next\<close>: chunk \<open>n\<close> is sent.\<close>

lemma send_one:
  assumes q: "queued css s0 a n c" and n: "n < length css" and b: "b = sk_write_queue (c_sk c) ! (n - a)"
    and num: "numbered css s0" "\<forall>chunk\<in>set css. length chunk \<le> 1460"
  defines "c' \<equiv> tcp_store_seq b (snd (tcp_transmit_skb b (snd_nxt (tcb_of c)) (upd_skb b skb_reset_header c)))"
  shows "queued css s0 a (Suc n) c'" "sk_write_queue (c_sk c') = sk_write_queue (c_sk c)"
    "tk_inflight (c_sk c') = tk_inflight (c_sk c)"
proof -
  define c2 where "c2 = snd (tcp_transmit_skb b (snd_nxt (tcb_of c)) (upd_skb b skb_reset_header c))"
  let ?q = "sk_write_queue (c_sk c)"
  have i: "n - a < length ?q" "a + (n - a) = n" "sd_ok (set ?q) c" "snd_nxt (tcb_of c) = seq_at css s0 n"
    using q n by (auto simp: queued_def Let_def)
  have "entry css s0 n (a + (n - a)) b c" using q i(1) unfolding b queued_def Let_def by blast
  then obtain psh where psh: "segment_of psh (css ! n) b c" unfolding entry_def i(2) by blast
  note tx = transmit_segment [OF psh chunk_size [OF num n] sd_ok_heap(1) [OF i(3)] sd_ok_heap(2) [OF i(3)], where seq = "snd_nxt (tcb_of c)", folded c2_def]
  have sk: "same_sk c c2"
    using same_sk_transmit [of "upd_skb b skb_reset_header c"] by (simp add: c2_def same_sk_def)
  note f = same_sk_fields [OF sk]
  have len: "b_dlen (deref b c) = of_nat (length (css ! n))"
  proof -
    have "unat (b_dlen (deref b c)) = length (css ! n)" using psh by (simp add: segment_of_def)
    then show ?thesis by (metis of_nat_unat ucast_id)
  qed
  have l: "live b c2" using tx(1) by (simp add: segment_of_def)
  have c': "c' = upd_tcb (\<lambda>t. t\<lparr>snd_nxt := seq_at css s0 (Suc n)\<rparr>)
      (upd_skb b (\<lambda>k. k\<lparr>b_seq := seq_at css s0 n, b_end_seq := seq_at css s0 (Suc n)\<rparr>) c2)"
    unfolding c'_def c2_def [symmetric] store_seq_sel [OF l segment_fin [OF tx(1)]]
    by (simp add: f i(4) tx(4) len seq_at_Suc [OF n])
  have e: "entry css s0 (Suc n) (a + (n - a)) b c'"
    using segment_numbers [OF tx(1)] l unfolding i(2) c'
    by (auto simp: entry_def segment_of_def seg_data_def seg_flags_def)
  show "queued css s0 a (Suc n) c'"
    by (rule queued_update [OF q i(1) b [symmetric] _ e])
      (use tx(5-8) f num in \<open>simp_all add: c' s_skbs_upd_skb devs_ok_def\<close>)
  show "sk_write_queue (c_sk c') = ?q" "tk_inflight (c_sk c') = tk_inflight (c_sk c)"
    using f by (simp_all add: c')
qed

lemma send_each_queued:
  assumes "queued css s0 a n c" "bs = take (length bs) (drop (n - a) (sk_write_queue (c_sk c)))"
    and "numbered css s0" "\<forall>chunk\<in>set css. length chunk \<le> 1460"
  shows "queued css s0 a (n + length bs) (send_each bs c) \<and> tk_inflight (c_sk (send_each bs c)) = tk_inflight (c_sk c)
    \<and> sk_write_queue (c_sk (send_each bs c)) = sk_write_queue (c_sk c)"
  using assms(1,2)
proof (induction bs arbitrary: n c)
  case (Cons b bs)
  let ?q = "sk_write_queue (c_sk c)"
  define c1 where "c1 = tcp_store_seq b (snd (tcp_transmit_skb b (snd_nxt (tcb_of c)) (upd_skb b skb_reset_header c)))"
  have ne: "drop (n - a) ?q \<noteq> []" using Cons.prems(2) by auto
  then have d: "n - a < length ?q" "drop (n - a) ?q = ?q ! (n - a) # drop (Suc (n - a)) ?q"
    by (simp_all add: Cons_nth_drop_Suc)
  have b: "b = ?q ! (n - a)" "bs = take (length bs) (drop (Suc (n - a)) ?q)"
    using Cons.prems(2) d(2) by simp_all
  have n: "n < length css" "a \<le> n" using Cons.prems(1) d(1) by (auto simp: queued_def Let_def)
  note one = send_one [OF Cons.prems(1) n(1) b(1) assms(3,4), folded c1_def]
  have "bs = take (length bs) (drop (Suc n - a) (sk_write_queue (c_sk c1)))"
    using b(2) n(2) by (simp add: one(2) Suc_diff_le)
  from Cons.IH [OF one(1) this] show ?case using one(2,3) by (simp add: Let_def c1_def)
qed simp

subsection \<open>An acknowledgement arrives\<close>

lemma clean_rto_rest:
  "s_routes (clean_rto q una c) = s_routes c"
  "sk_receive_queue (c_sk (clean_rto q una c)) = sk_receive_queue (c_sk c)"
  "tk_ofo_queue (c_sk (clean_rto q una c)) = tk_ofo_queue (c_sk c)"
  "s_bnext (clean_rto q una c) = s_bnext c"
  by (induction q una c rule: clean_rto.induct) (simp_all add: Let_def touch_def)

lemma clean_queued:
  fixes ack :: u32
  assumes q: "queued css s0 a n c0" and num: "numbered css s0" "0 < s0"
    and ack: "snd_una (tcb_of c0) < ack" "ack \<le> seq_at css s0 n"
    and inf: "unat (tk_inflight (c_sk c0)) = n - a"
    and c: "conn_view c = conn_view (upd_tcb (\<lambda>t. t\<lparr>snd_una := ack\<rparr>) c0)"
  defines "c' \<equiv> clean_rto (sk_write_queue (c_sk c)) ack c"
  shows "\<exists>a'. queued css s0 a' n c' \<and> unat (tk_inflight (c_sk c')) = n - a' \<and> a \<le> a'
      \<and> sk_write_queue (c_sk c') = drop (a' - a) (sk_write_queue (c_sk c0))"
    "s_bnext c' = s_bnext c0" "snd_una (tcb_of c') = ack"
proof -
  let ?q = "sk_write_queue (c_sk c0)"
  have v: "s_skbs c = s_skbs c0" "s_bnext c = s_bnext c0" "s_routes c = s_routes c0" "sk_write_queue (c_sk c) = ?q"
    "sk_receive_queue (c_sk c) = sk_receive_queue (c_sk c0)" "tk_ofo_queue (c_sk c) = tk_ofo_queue (c_sk c0)"
    "tk_inflight (c_sk c) = tk_inflight (c_sk c0)" "tcb_of c = (tcb_of c0)\<lparr>snd_una := ack\<rparr>"
    using c by (simp_all add: conn_view_def)
  note hv = heap_of_skbs [OF v(1)]
  from q have k: "a \<le> n" "n \<le> length css" "sd_ok (set ?q) c0" "distinct ?q" "length ?q = length css - a"
    "\<And>i. i < length ?q \<Longrightarrow> entry css s0 n (a + i) (?q ! i) c0" "snd_nxt (tcb_of c0) = seq_at css s0 n"
    "seq_at css s0 a \<le> snd_una (tcb_of c0)"
    by (simp_all add: queued_def Let_def)
  define ok where "ok = acked ack c"
  define j where "j = length (takeWhile ok ?q)"
  have pos: "0 < seq_at css s0 i" for i
    using num unat_seq_at [OF num(1), of i] by (simp add: word_less_nat_alt)
  have ok: "ok (?q ! i) \<longleftrightarrow> a + i < n \<and> seq_at css s0 (Suc (a + i)) \<le> ack" if "i < length ?q" for i
    using k(6) [OF that] pos by (auto simp: ok_def acked_def entry_def hv split: if_splits)
  have jl: "j \<le> length ?q" unfolding j_def by (rule length_takeWhile_le)
  have jn: "a + j \<le> n" and ja: "seq_at css s0 (a + j) \<le> ack"
  proof -
    have "a + j \<le> n \<and> seq_at css s0 (a + j) \<le> ack"
    proof (cases j)
      case 0
      with k(1,8) ack(1) show ?thesis by simp
    next
      case (Suc i)
      then have "ok (takeWhile ok ?q ! i)" using set_takeWhileD [of "takeWhile ok ?q ! i" ok ?q] by (simp add: j_def)
      then have "ok (?q ! i)" using takeWhile_nth [of i ok ?q] Suc by (simp add: j_def)
      with ok [of i] jl Suc show ?thesis by simp
    qed
    then show "a + j \<le> n" "seq_at css s0 (a + j) \<le> ack" by simp_all
  qed
  have una: "ack < seq_at css s0 (Suc (a + j))" if "a + j < n"
  proof -
    have l: "j < length ?q" using that k(2,5) by simp
    have "\<not> ok (?q ! j)" unfolding j_def by (rule nth_length_takeWhile) (use l in \<open>simp add: j_def\<close>)
    with ok [OF l] that show ?thesis by simp
  qed
  have "live x c \<and> b_refcnt (deref x c) \<le> 1" if "x \<in> set ?q" for x
    using k(6) that by (auto simp: in_set_conv_nth entry_def segment_of_def hv)
  then have spec: "sk_write_queue (c_sk c') = dropWhile ok ?q"
    "\<And>x. x \<notin> set (takeWhile ok ?q) \<Longrightarrow> s_skbs c' x = s_skbs c0 x"
    "unat (tk_inflight (c_sk c')) = n - (a + j)"
    using clean_rto_spec [OF v(4) k(4), of ack] inf unfolding c'_def v(4) ok_def j_def by (simp_all add: v(1,7))
  have w: "sk_write_queue (c_sk c') = drop j ?q"
    unfolding spec(1) j_def by (metis append_eq_conv_conj takeWhile_dropWhile_id)
  have keep: "s_skbs c' x = s_skbs c0 x" if "x \<in> set (drop j ?q)" for x
  proof (rule spec(2))
    have "takeWhile ok ?q = take j ?q" unfolding j_def by (metis append_eq_conv_conj takeWhile_dropWhile_id)
    then show "x \<notin> set (takeWhile ok ?q)" using that set_take_disj_set_drop_if_distinct [OF k(4), of j j] by auto
  qed
  have r: "s_routes c' = s_routes c0" "s_bnext c' = s_bnext c0" "sk_receive_queue (c_sk c') = sk_receive_queue (c_sk c0)"
    "tk_ofo_queue (c_sk c') = tk_ofo_queue (c_sk c0)" "tcb_of c' = (tcb_of c0)\<lparr>snd_una := ack\<rparr>"
    unfolding c'_def by (simp_all add: clean_rto_rest v)
  have hok: "heap_ok c'"
  proof -
    have "rx_ok {} c" using k(3) by (auto simp: rx_ok_def sd_ok_def heap_ok_def v hv)
    with clean_rto_frame [OF refl, of "{}" c ack] show ?thesis by (simp add: c'_def rx_frame_def rx_ok_def)
  qed
  have "live x c' = live x c0" if "x \<in> set (drop j ?q)" for x using keep [OF that] by (simp add: live_def)
  then have sd: "sd_ok (set (drop j ?q)) c'"
    using k(3) hok r by (auto simp: sd_ok_def devs_ok_def dest: in_set_dropD)
  have e: "entry css s0 n (a + j + i) (drop j ?q ! i) c'" if i: "i < length (drop j ?q)" for i
  proof -
    have "entry css s0 n (a + (j + i)) (?q ! (j + i)) c0" using i by (intro k(6)) simp
    moreover have "drop j ?q ! i \<in> set (drop j ?q)" using i by (rule nth_mem)
    ultimately show ?thesis using entry_cong [OF keep] i by (simp add: add.assoc)
  qed
  have "queued css s0 (a + j) n c'"
    unfolding queued_def Let_def w using jn k(2,4,5,7) sd e ja ack(2) una r(5) by simp
  with spec(3) w show "\<exists>a'. queued css s0 a' n c' \<and> unat (tk_inflight (c_sk c')) = n - a' \<and> a \<le> a'
      \<and> sk_write_queue (c_sk c') = drop (a' - a) ?q"
    by (intro exI [of _ "a + j"]) simp
  show "s_bnext c' = s_bnext c0" "snd_una (tcb_of c') = ack" by (simp_all add: r)
qed

text \<open>The buffer \<open>b\<close> of an arriving segment is none of the queue.\<close>

definition arrived :: "bytes list \<Rightarrow> u32 \<Rightarrow> nat \<Rightarrow> tcpctx \<Rightarrow> bool" where
  "arrived css s0 b c \<longleftrightarrow> snd_inv css s0 c \<and> b \<notin> set (sk_write_queue (c_sk c)) \<and> b < s_bnext c"

lemma arrived_frame:
  assumes "arrived css s0 b c" "\<And>S. b \<notin> S \<Longrightarrow> sd_frame S c c'"
  shows "arrived css s0 b c'"
proof -
  have f: "sd_frame (set (sk_write_queue (c_sk c))) c c'" using assms by (simp add: arrived_def)
  obtain a n where "queued css s0 a n c" using assms(1) by (auto simp: arrived_def snd_inv_def)
  from queued_frame [OF f this] snd_inv_frame [OF f] assms(1) show ?thesis by (auto simp: arrived_def)
qed

lemma ack_arrived:
  assumes "arrived css s0 b c" "snd_una (tcb_of c) < ack" "ack \<le> snd_nxt (tcb_of c)"
  shows "arrived css s0 b (snd (tcp_clean_rto_queue ack (tcp_rtt (upd_tcb (\<lambda>t. t\<lparr>snd_una := ack\<rparr>) c))))"
proof -
  let ?c1 = "tcp_rtt (upd_tcb (\<lambda>t. t\<lparr>snd_una := ack\<rparr>) c)"
  let ?c2 = "clean_rto (sk_write_queue (c_sk ?c1)) ack ?c1"
  from assms(1) obtain a n where q: "queued css s0 a n c" "unat (tk_inflight (c_sk c)) = n - a" "numbered css s0" "0 < s0"
    by (auto simp: arrived_def snd_inv_def)
  have "ack \<le> seq_at css s0 n" using assms(3) q(1) by (simp add: queued_def Let_def)
  note cl = clean_queued [OF q(1,3,4) assms(2) this q(2), of ?c1]
  have "arrived css s0 b ?c2" using cl assms(1) by (auto simp: arrived_def snd_inv_def dest: in_set_dropD)
  moreover have "arrived css s0 b (tcp_stop_rto_timer ?c2)" by (rule arrived_frame [OF calculation]) simp
  ultimately show ?thesis by (simp add: tcp_clean_rto_queue_def Let_def)
qed

lemma arrived_free: "arrived css s0 b c \<Longrightarrow> arrived css s0 b (free_skb b c)"
  by (erule arrived_frame) (rule sd_frame_free)

lemma input_ack_field_arrived:
  assumes "arrived css s0 b c"
  shows "input_ack_field b th c = Inl r \<Longrightarrow> arrived css s0 b (snd r)"
    "input_ack_field b th c = Inr c' \<Longrightarrow> arrived css s0 b c'"
  using ack_arrived [OF assms, of "th_ack_seq th"] assms arrived_free
  by (auto simp: input_ack_field_def Let_def tcp_drop_def split: if_splits)

text \<open>What is sent next when everything in flight was acknowledged.\<close>

lemma send_next_inv:
  assumes "snd_inv css s0 c" "tk_inflight (c_sk c) = 0" "m \<le> length (sk_write_queue (c_sk c))" "m \<le> 3"
  defines "c' \<equiv> upd_sk (\<lambda>k. k\<lparr>tk_inflight := tk_inflight k + of_nat m\<rparr>) (snd (tcp_send_next m c))"
  shows "snd_inv css s0 c'" "sk_write_queue (c_sk c') = sk_write_queue (c_sk c)"
proof -
  from assms(1) obtain a n where q: "queued css s0 a n c" "unat (tk_inflight (c_sk c)) = n - a"
    and num: "numbered css s0" "0 < s0" "\<forall>chunk\<in>set css. length chunk \<le> 1460" by (auto simp: snd_inv_def)
  have "n = a" using q assms(2) by (simp add: queued_def Let_def)
  let ?bs = "take m (sk_write_queue (c_sk c))"
  have l: "length ?bs = m" using assms(3) by simp
  have bs: "?bs = take (length ?bs) (drop (n - a) (sk_write_queue (c_sk c)))" using \<open>n = a\<close> l by simp
  note s = send_each_queued [OF q(1) bs num(1,3), unfolded l]
  have "queued css s0 a (n + m) c'"
    using s by (simp add: c'_def tcp_send_next_def queued_def Let_def sd_ok_def devs_ok_def entry_def segment_of_def
        seg_data_def seg_flags_def)
  moreover have "unat (tk_inflight (c_sk c')) = (n + m) - a"
    using s assms(2,4) \<open>n = a\<close> by (simp add: c'_def tcp_send_next_def unat_of_nat)
  ultimately show "snd_inv css s0 c'" using num by (auto simp: snd_inv_def)
  show "sk_write_queue (c_sk c') = sk_write_queue (c_sk c)" using s by (simp add: c'_def tcp_send_next_def)
qed

lemma input_delack_inv:
  assumes "arrived css s0 b c"
  shows "snd_inv css s0 (free_skb b (input_delack b th e c))"
proof -
  let ?c1 = "tcp_stop_delack_timer c" and ?m = "min (length (sk_write_queue (c_sk (tcp_stop_delack_timer c)))) 3"
  let ?send = "(state_of c = TCP_ESTABLISHED \<or> state_of c = TCP_FIN_WAIT_1 \<or> state_of c = TCP_FIN_WAIT_2) \<and> e
    \<and> tk_inflight (c_sk ?c1) = 0 \<and> ?m > 0"
  have c1: "arrived css s0 b ?c1" by (rule arrived_frame [OF assms]) simp
  show ?thesis
  proof (cases ?send)
    case True
    let ?c2 = "upd_sk (\<lambda>k. k\<lparr>tk_inflight := tk_inflight k + of_nat ?m\<rparr>) (snd (tcp_send_next ?m ?c1))"
    have i1: "snd_inv css s0 ?c1" using c1 by (simp add: arrived_def)
    have z: "tk_inflight (c_sk ?c1) = 0" using True by blast
    have m: "?m \<le> length (sk_write_queue (c_sk ?c1))" "?m \<le> 3" by simp_all
    note n = send_next_inv [OF i1 z m]
    have b: "b \<notin> set (sk_write_queue (c_sk ?c2))" unfolding n(2) using c1 by (simp add: arrived_def)
    have "sd_frame (set (sk_write_queue (c_sk ?c2))) ?c2 (free_skb b (tcp_rearm_rto_timer ?c2))"
      by (intro sd_frame_then b) simp
    then have "snd_inv css s0 (free_skb b (tcp_rearm_rto_timer ?c2))" using n(1) by (rule snd_inv_frame)
    moreover have "input_delack b th e c = tcp_rearm_rto_timer ?c2"
      using True by (simp add: input_delack_def Let_def)
    ultimately show ?thesis by simp
  next
    case False
    have "arrived css s0 b (free_skb b (input_delack b th e c))"
    proof (rule arrived_frame [OF assms])
      fix S assume "b \<notin> S"
      then show "sd_frame S c (free_skb b (input_delack b th e c))"
        using False unfolding input_delack_def Let_def case_prod_beta
        by (auto intro!: sd_frame_then split del: if_split split: if_split_asm)
          (auto intro!: sd_frame_then)
    qed
    then show ?thesis by (simp add: arrived_def)
  qed
qed

lemma input_text_inv:
  assumes "arrived css s0 b c" "state_of c \<notin> {TCP_CLOSE, TCP_LISTEN, TCP_SYN_SENT}"
  shows "snd_inv css s0 (snd (input_text b th c))"
proof -
  let ?e = "b_seq (deref b c) = rcv_nxt (tcb_of c)"
  have "arrived css s0 b (touch b c)" by (rule arrived_frame [OF assms(1)]) simp
  moreover have "b < s_bnext (touch b c)" using assms(1) by (simp add: arrived_def touch_def)
  ultimately have d: "arrived css s0 b (input_data b th (touch b c))"
    by (auto intro: arrived_frame input_data_sd)
  show ?thesis
  proof (cases "input_fin b th ?e (input_data b th (touch b c))")
    case (Inl r)
    have "arrived css s0 b (snd r)" using d input_fin_sd(1) [OF Inl] by (rule arrived_frame)
    then show ?thesis using Inl by (simp add: input_text_def arrived_def)
  next
    case (Inr c')
    have "arrived css s0 b c'" using d input_fin_sd(2) [OF Inr] by (rule arrived_frame)
    then show ?thesis using Inr by (simp add: input_text_def input_delack_inv)
  qed
qed

definition open_states :: "tcp_states set" where
  "open_states = {TCP_ESTABLISHED, TCP_CLOSE_WAIT}"

lemma input_state_snd:
  assumes "arrived css s0 b c" "state_of c \<in> open_states"
  shows "snd_inv css s0 (snd (tcp_input_state b th c))"
proof -
  have st: "state_of c \<notin> {TCP_CLOSE, TCP_LISTEN, TCP_SYN_SENT}" using assms(2) by (auto simp: open_states_def)
  have ack: "input_ack b th c = input_ack_field b th c" using assms(2) by (auto simp: input_ack_def open_states_def)
  show ?thesis
  proof (cases "input_check b th c")
    case (Inl r)
    have "arrived css s0 b (snd r)" using assms(1) input_check_sd [OF Inl] by (rule arrived_frame)
    then show ?thesis using Inl by (simp add: input_state_other [OF st] arrived_def)
  next
    case check: (Inr c0)
    have c0: "c0 = c" by (rule input_check_state(2) [OF check])
    show ?thesis
    proof (cases "input_ack_field b th c")
      case (Inl r)
      then show ?thesis
        using input_ack_field_arrived(1) [OF assms(1) Inl] check c0 ack by (simp add: input_state_other [OF st] arrived_def)
    next
      case (Inr c1)
      have st1: "state_of c1 = state_of c" by (rule input_ack_field_state(2) [OF Inr])
      then have "input_fin_acked b th c1 = Inr c1" using assms(2) by (auto simp: input_fin_acked_def open_states_def)
      moreover have "snd_inv css s0 (snd (input_text b th c1))"
        using input_ack_field_arrived(2) [OF assms(1) Inr] st st1 by (intro input_text_inv) simp_all
      ultimately show ?thesis using Inr check c0 ack by (simp add: input_state_other [OF st])
    qed
  qed
qed

subsection \<open>Sending and timeouts\<close>

text \<open>Nothing is in flight although segments wait: the code has no step that sends them.\<close>

definition stalled :: "tcpctx \<Rightarrow> bool" where
  "stalled c \<longleftrightarrow> tk_inflight (c_sk c) = 0 \<and> sk_write_queue (c_sk c) \<noteq> []"

lemma seq_at_append: "j \<le> length css \<Longrightarrow> seq_at (css @ ys) s0 j = seq_at css s0 j"
  by (simp add: seq_at_def offs_def)

lemma entry_append: "j < length css \<Longrightarrow> entry (css @ ys) s0 n j b c = entry css s0 n j b c"
  by (simp add: entry_def nth_append seq_at_append)

lemma numbered_append: "numbered (css @ ys) s0 \<Longrightarrow> numbered css s0"
  by (simp add: numbered_def)

lemma send_chunk_sel [simp]:
  "snd_una (tcb_of (send_chunk psh chunk c)) = snd_una (tcb_of c)"
  "tk_smss (c_sk (send_chunk psh chunk c)) = tk_smss (c_sk c)"
  by (simp_all add: send_chunk_def Let_def tcp_queue_transmit_skb_def tcp_store_seq_def case_prod_beta)

lemma send_loop_smss: "tcp_send_loop fuel mss data c = Some c' \<Longrightarrow> tk_smss (c_sk c') = tk_smss (c_sk c)"
proof (induction fuel arbitrary: data c)
  case (Suc fuel)
  then show ?case by (cases "data = []") (auto simp: tcp_send_loop_step simp del: tcp_send_loop.simps(3))
qed (case_tac data; simp)

lemma send_chunk_queued:
  fixes psh :: bool and c :: tcpctx
  assumes q: "queued css s0 a n c" and num: "numbered (css @ [chunk]) s0" and len: "length chunk \<le> 1460"
    and inf: "unat (tk_inflight (c_sk c)) = n - a" and st: "\<not> stalled c"
  defines "c' \<equiv> send_chunk psh chunk c"
  shows "\<exists>n'. queued (css @ [chunk]) s0 a n' c' \<and> unat (tk_inflight (c_sk c')) = n' - a" "\<not> stalled c'"
    "tk_smss (c_sk c') = tk_smss (c_sk c)"
proof -
  let ?q = "sk_write_queue (c_sk c)" and ?b = "s_bnext c" and ?css = "css @ [chunk]"
  have k: "a \<le> n" "n \<le> length css" "sd_ok (set ?q) c" "distinct ?q" "length ?q = length css - a"
    "\<And>i. i < length ?q \<Longrightarrow> entry css s0 n (a + i) (?q ! i) c" "snd_nxt (tcb_of c) = seq_at css s0 n"
    "seq_at css s0 a \<le> snd_una (tcb_of c)" "snd_una (tcb_of c) \<le> seq_at css s0 n"
    "a < n \<Longrightarrow> snd_una (tcb_of c) < seq_at css s0 (Suc a)"
    using q by (simp_all add: queued_def Let_def)
  have lv: "\<forall>x\<in>set ?q. live x c" using k(3) by (simp add: sd_ok_def)
  note spec = send_chunk_spec [OF sd_ok_heap(1) [OF k(3)] sd_ok_heap(2) [OF k(3)] len lv, where psh = psh, folded c'_def]
  have "rx_ok {} c" using k(3) by (auto simp: rx_ok_def sd_ok_def heap_ok_def)
  then have rq: "sk_receive_queue (c_sk c') = sk_receive_queue (c_sk c)" "tk_ofo_queue (c_sk c') = tk_ofo_queue (c_sk c)"
    "s_bnext c \<le> s_bnext c'"
    using send_chunk_frame [of "{}" c psh chunk] by (simp_all add: c'_def rx_frame_def)
  have fresh: "?b \<notin> set ?q" using heap_ok_fresh [OF sd_ok_heap(1) [OF k(3)]] lv by blast
  define n' where "n' = (if tk_inflight (c_sk c) = 0 then Suc n else n)"
  have idle: "n = length css \<and> a = n" if "tk_inflight (c_sk c) = 0"
    using that st inf k(1,2,5) by (simp add: stalled_def)
  have busy: "a < n" if "tk_inflight (c_sk c) \<noteq> 0" using that inf k(1) by (metis unat_eq_0 zero_less_diff neq0_conv)
  have nn: "a \<le> n'" "n' \<le> length ?css" using k(1,2) idle by (auto simp: n'_def)
  have qe: "sk_write_queue (c_sk c') = ?q @ [?b]" by (rule spec(6))
  have sd: "sd_ok (set (?q @ [?b])) c'"
    using k(3) spec(1-3,7) lv rq fresh by (auto simp: sd_ok_def segment_of_def intro: less_le_trans)
  have nxt: "snd_nxt (tcb_of c') = seq_at ?css s0 n'"
    using spec(10) k(2,7) idle by (auto simp: n'_def seq_at_append seq_at_Suc)
  have old: "entry ?css s0 n' (a + i) (?q ! i) c'" if i: "i < length ?q" for i
  proof -
    have j: "a + i < length css" using i k(5) by simp
    have "entry css s0 n (a + i) (?q ! i) c'"
      using k(6) [OF i] spec(7) lv nth_mem [OF i] segment_of_cong [of "?q ! i" c' c] by (simp add: entry_def)
    moreover have "n' = n" using idle i k(5) by (auto simp: n'_def)
    ultimately show ?thesis by (simp add: entry_append [OF j])
  qed
  have new: "entry ?css s0 n' (length css) ?b c'"
    using spec(3-5) idle k(2,7)
    by (auto simp: entry_def n'_def nth_append seq_at_append seq_at_Suc)
  have e: "entry ?css s0 n' (a + i) ((?q @ [?b]) ! i) c'" if i: "i < length (?q @ [?b])" for i
  proof (cases "i < length ?q")
    case False
    then have "i = length ?q" "a + i = length css" using i k(1,2,5) by simp_all
    then show ?thesis using new by simp
  qed (use old in \<open>simp add: nth_append\<close>)
  have una: "snd_una (tcb_of c) \<le> seq_at ?css s0 n'" "a < n' \<Longrightarrow> snd_una (tcb_of c) < seq_at ?css s0 (Suc a)"
  proof -
    have "snd_una (tcb_of c) \<le> seq_at ?css s0 n' \<and> (a < n' \<longrightarrow> snd_una (tcb_of c) < seq_at ?css s0 (Suc a))"
    proof (cases "tk_inflight (c_sk c) = 0")
      case True
      have "snd_una (tcb_of c) \<le> seq_at ?css s0 a" using k(9) idle [OF True] by (simp add: seq_at_append)
      also have "seq_at ?css s0 a < seq_at ?css s0 (Suc a)"
        using seq_at_cmp(1) [OF num, of a "Suc a"] idle [OF True] by simp
      finally show ?thesis using idle [OF True] True by (simp add: n'_def)
    next
      case False
      then show ?thesis using busy k(2,9,10) by (simp add: n'_def seq_at_append)
    qed
    then show "snd_una (tcb_of c) \<le> seq_at ?css s0 n'" "a < n' \<Longrightarrow> snd_una (tcb_of c) < seq_at ?css s0 (Suc a)" by simp_all
  qed
  have a: "a \<le> length css" using k(1,2) by simp
  have "queued ?css s0 a n' c'"
    unfolding queued_def Let_def qe
    using nn sd fresh k(4,5,8) e nxt una a by (simp add: c'_def seq_at_append)
  moreover have "unat (tk_inflight (c_sk c')) = n' - a"
    using spec(9) inf idle by (auto simp: n'_def)
  ultimately show "\<exists>n'. queued ?css s0 a n' c' \<and> unat (tk_inflight (c_sk c')) = n' - a" by blast
  show "\<not> stalled c'" using spec(9) by (simp add: stalled_def)
  show "tk_smss (c_sk c') = tk_smss (c_sk c)" by (rule spec(8))
qed

lemma send_loop_inv:
  assumes "tcp_send_loop fuel mss data c = Some c'" "0 < mss" "mss \<le> 1460"
    and "snd_inv css s0 c" "\<not> stalled c" "numbered (css @ chunks mss data) s0"
  shows "snd_inv (css @ chunks mss data) s0 c'"
  using assms(1,4-6)
proof (induction fuel arbitrary: data c css)
  case 0
  then show ?case using assms(2) chunks_Nil [of mss data] by (cases data) simp_all
next
  case (Suc fuel)
  show ?case
  proof (cases "data = []")
    case True
    then show ?thesis using Suc.prems assms(2) chunks_Nil [of mss data] by simp
  next
    case False
    define psh where "psh = (length data \<le> mss)"
    define chunk where "chunk = take mss data"
    have ch: "chunks mss data = chunk # chunks mss (drop mss data)"
      unfolding chunk_def by (rule chunks_step [OF False assms(2)])
    have num: "numbered (css @ [chunk]) s0" using Suc.prems(4) unfolding ch by (auto simp: numbered_def)
    have len: "length chunk \<le> 1460" using assms(3) by (simp add: chunk_def)
    from Suc.prems(2) obtain a n where q: "queued css s0 a n c" "unat (tk_inflight (c_sk c)) = n - a"
      and s0: "0 < s0" "\<forall>chunk\<in>set css. length chunk \<le> 1460" by (auto simp: snd_inv_def)
    note one = send_chunk_queued [OF q(1) num len q(2) Suc.prems(3), of psh]
    have inv: "snd_inv (css @ [chunk]) s0 (send_chunk psh chunk c)"
      using one(1) num s0 len by (auto simp: snd_inv_def)
    have "tcp_send_loop fuel mss (drop mss data) (send_chunk psh chunk c) = Some c'"
      using Suc.prems(1) by (simp add: tcp_send_loop_step [OF False] psh_def chunk_def)
    from Suc.IH [OF this inv one(2)] Suc.prems(4) show ?thesis by (simp add: ch)
  qed
qed

lemma snd_inv_any: "(\<And>S. sd_frame S c c') \<Longrightarrow> snd_inv css s0 c \<Longrightarrow> snd_inv css s0 c'"
  by (rule snd_inv_frame)

lemma send_snd:
  assumes "snd_inv css s0 c" "\<not> stalled c" "0 < tk_smss (c_sk c)" "tk_smss (c_sk c) \<le> 1460"
    and "numbered (css @ chunks (unat (tk_smss (c_sk c))) data) s0" "tcp_send data c = Some (rc, c')"
  shows "snd_inv (css @ chunks (unat (tk_smss (c_sk c))) data) s0 c'"
proof -
  let ?m = "unat (tk_smss (c_sk c))"
  obtain c1 where c1: "tcp_send_loop (length data) ?m data c = Some c1" "c' = tcp_rearm_user_timeout c1"
    using assms(6) by (auto simp: tcp_send_def)
  have m: "0 < ?m" "?m \<le> 1460" using assms(3,4) by (simp_all add: word_less_nat_alt word_le_nat_alt)
  have "snd_inv (css @ chunks ?m data) s0 c1" by (rule send_loop_inv [OF c1(1) m assms(1,2,5)])
  then show ?thesis by (rule snd_inv_any [rotated]) (simp add: c1(2))
qed

lemma retransmit_snd:
  assumes "snd_inv css s0 c" "sk_write_queue (c_sk c) = b # q"
  shows "snd_inv css s0 (retransmit_head b c)"
proof -
  from assms(1) obtain a n where q: "queued css s0 a n c" "unat (tk_inflight (c_sk c)) = n - a"
    and num: "numbered css s0" "0 < s0" "\<forall>chunk\<in>set css. length chunk \<le> 1460" by (auto simp: snd_inv_def)
  let ?d = "rto_enter c" and ?c' = "retransmit_head b c"
  have "sd_frame S c ?d" for S by (simp add: rto_enter_def)
  note d = queued_frame [OF this q(1)]
  have b: "sk_write_queue (c_sk ?d) ! 0 = b" "0 < length (sk_write_queue (c_sk ?d))" "0 < length (sk_write_queue (c_sk c))"
    using assms(2) by simp_all
  have k: "sd_ok (set (sk_write_queue (c_sk ?d))) ?d" "length (sk_write_queue (c_sk ?d)) = length css - a"
    "snd_nxt (tcb_of ?d) = seq_at css s0 n" "\<And>i. i < length (sk_write_queue (c_sk ?d)) \<Longrightarrow>
      entry css s0 n (a + i) (sk_write_queue (c_sk ?d) ! i) ?d"
    using conjunct1 [OF d] unfolding queued_def Let_def by blast+
  have a: "a < length css" "entry css s0 n (a + 0) b ?d"
    using b(2) unfolding k(2) by (linarith, use k(4) [OF b(2)] in \<open>simp only: b(1)\<close>)
  from a(2) obtain psh where psh: "segment_of psh (css ! a) b ?d" by (auto simp: entry_def)
  note tx = transmit_segment [OF psh chunk_size [OF num(1,3) a(1)] sd_ok_heap(1) [OF k(1)] sd_ok_heap(2) [OF k(1)],
      where seq = "snd_una (tcb_of c)", folded retransmit_head_def]
  have "same_sk ?d ?c'"
    using same_sk_transmit [of "upd_skb b skb_reset_header ?d"] by (simp add: retransmit_head_def same_sk_def)
  note f = same_sk_fields [OF this]
  have e: "entry css s0 n (a + 0) b ?c'" using a(2) tx(1-3) by (auto simp: entry_def)
  have "queued css s0 a n ?c'"
    by (rule queued_update [OF conjunct1 [OF d] b(2,1) tx(5) e tx(6,7)])
      (use f tx(8) num(1) k(3) in simp_all)
  moreover have "tk_inflight (c_sk ?c') = tk_inflight (c_sk c)" using f by simp
  ultimately show ?thesis using q(2) num by (auto simp: snd_inv_def)
qed

lemma timeout_snd:
  assumes "snd_inv css s0 c"
  shows "snd_inv css s0 (tcp_retransmission_timeout c)"
proof (cases "sk_write_queue (c_sk c)")
  case Nil
  then have "write_queue_head (rto_enter c) = None" by (simp add: write_queue_head_def q_peek_def)
  then show ?thesis
    unfolding tcp_retransmission_timeout_def Let_def rto_enter_def [symmetric]
    by (auto intro!: snd_inv_any [OF _ assms] simp: rto_enter_def tcp_notify_user_def split: tcp_states.splits)
next
  case (Cons b q)
  have "sd_frame S (retransmit_head b c) (tcp_retransmission_timeout c)" for S
    unfolding retransmission_timeout_eq [OF Cons] Let_def case_prod_beta
    by (auto intro: sd_frame_trans [OF done_sd] done_sd)
  then show ?thesis using retransmit_snd [OF assms Cons] by (rule snd_inv_any)
qed

subsection \<open>Transfers\<close>

text \<open>
  The steps of an end that has not closed: \<open>send\<close> asks that the connection is not stalled, a
  segment may carry anything.
\<close>

inductive sending :: "u32 \<Rightarrow> bytes list \<Rightarrow> tcpctx \<Rightarrow> bool" for s0 where
  start: "0 < s0 \<Longrightarrow> sd_ok {} c \<Longrightarrow> sk_write_queue (c_sk c) = [] \<Longrightarrow> tk_inflight (c_sk c) = 0 \<Longrightarrow>
    snd_nxt (tcb_of c) = s0 \<Longrightarrow> snd_una (tcb_of c) = s0 \<Longrightarrow> sending s0 [] c"
| send: "sending s0 css c \<Longrightarrow> \<not> stalled c \<Longrightarrow> 0 < tk_smss (c_sk c) \<Longrightarrow> tk_smss (c_sk c) \<le> 1460 \<Longrightarrow>
    numbered (css @ chunks (unat (tk_smss (c_sk c))) data) s0 \<Longrightarrow> tcp_send data c = Some (rc, c') \<Longrightarrow>
    sending s0 (css @ chunks (unat (tk_smss (c_sk c))) data) c'"
| segment: "sending s0 css c \<Longrightarrow> state_of c \<in> open_states \<Longrightarrow>
    sending s0 css (snd (tcp_input_state (s_bnext c) th (arrive k c)))"
| read: "sending s0 css c \<Longrightarrow> tcp_receive_round len rlen buf c = Received r buf' c'
      \<or> tcp_receive_round len rlen buf c = Sleep r buf' c' \<Longrightarrow> sending s0 css c'"
| delack: "sending s0 css c \<Longrightarrow> sending s0 css (tcp_send_delack c)"
| timeout: "sending s0 css c \<Longrightarrow> sending s0 css (tcp_retransmission_timeout c)"
| lock: "sending s0 css c \<Longrightarrow> sending s0 css (snd (socket_wr_acquire c))"
| release: "sending s0 css c \<Longrightarrow> sending s0 css (socket_release c)"

lemma arrive_snd:
  assumes "snd_inv css s0 c"
  shows "arrived css s0 (s_bnext c) (arrive k c)" "deref (s_bnext c) (arrive k c) = k" "live (s_bnext c) (arrive k c)"
    "c_sk (arrive k c) = c_sk c"
proof -
  let ?q = "set (sk_write_queue (c_sk c))"
  from assms obtain a n where q: "queued css s0 a n c" by (auto simp: snd_inv_def)
  then have ok: "sd_ok ?q c" by (simp add: queued_def Let_def)
  then have fresh: "s_bnext c \<notin> ?q" by (auto simp: sd_ok_def heap_ok_def)
  show "c_sk (arrive k c) = c_sk c" by (simp add: arrive_def)
  have "sd_frame ?q c (arrive k c)"
    using fresh ok by (auto simp: sd_frame_def sd_ok_def arrive_def heap_ok_def devs_ok_def live_def less_Suc_eq)
  then show "arrived css s0 (s_bnext c) (arrive k c)"
    using snd_inv_frame [OF _ assms] fresh by (simp add: arrived_def) (simp add: arrive_def)
  show "deref (s_bnext c) (arrive k c) = k" "live (s_bnext c) (arrive k c)"
    by (simp_all add: arrive_def deref_def live_def)
qed

lemma sending_inv:
  assumes "sending s0 css c"
  shows "snd_inv css s0 c"
  using assms
proof induction
  case (start c)
  then have "queued [] s0 0 0 c" by (simp add: queued_def seq_at_def offs_def)
  moreover have "numbered [] s0" using unat_u32_less [of s0] by (simp add: numbered_def)
  moreover have "unat (tk_inflight (c_sk c)) = 0 - 0" using start by simp
  ultimately show ?case using start.hyps(1) unfolding snd_inv_def by (metis empty_iff list.set(1))
next
  case (send css c data rc c')
  show ?case by (rule send_snd [OF send.IH send.hyps(2-6)])
next
  case (segment css c th k)
  show ?case
    by (rule input_state_snd [OF arrive_snd(1) [OF segment.IH]]) (simp add: arrive_snd(4) [OF segment.IH] segment.hyps)
next
  case (read css c len rlen buf r buf' c')
  have "rd_frame c c'" by (rule conjunct1 [OF receive_round_frame [OF read.hyps(2)]])
  show ?case by (rule snd_inv_any [OF read_sd read.IH]) fact
next
  case (delack css c)
  then show ?case unfolding tcp_send_delack_def Let_def
    by (intro snd_inv_any [OF _ delack.IH]) (simp add: sd_frame_then)
next
  case (timeout css c)
  show ?case by (rule timeout_snd [OF timeout.IH])
next
  case (lock css c)
  show ?case by (rule snd_inv_any [OF _ lock.IH]) simp
next
  case (release css c)
  show ?case by (rule snd_inv_any [OF _ release.IH]) simp
qed

text \<open>
  C3: over any sequence of sends, received segments, reads, delayed acknowledgements and timeouts,
  what was written and is not yet released is in the retransmission queue, chunk by chunk and in
  order; only acknowledged chunks were released; and each segment that was sent has the sequence
  number of its data, counted from the first byte written.  \<open>snd_nxt\<close> is the number of the next
  chunk to be sent and the in-flight count the number of chunks sent and not released.
\<close>

theorem sender_keeps_unacked:
  assumes "sending s0 css c"
  shows "\<exists>a n. a \<le> n \<and> n \<le> length css
    \<and> map (\<lambda>b. seg_data b c) (sk_write_queue (c_sk c)) = drop a css
    \<and> map (\<lambda>b. b_seq (deref b c)) (take (n - a) (sk_write_queue (c_sk c))) = map (seq_at css s0) [a..<n]
    \<and> seq_at css s0 a \<le> snd_una (tcb_of c) \<and> snd_una (tcb_of c) \<le> snd_nxt (tcb_of c)
    \<and> snd_nxt (tcb_of c) = seq_at css s0 n \<and> unat (tk_inflight (c_sk c)) = n - a"
proof -
  let ?q = "sk_write_queue (c_sk c)"
  from sending_inv [OF assms] obtain a n where q: "queued css s0 a n c" "unat (tk_inflight (c_sk c)) = n - a"
    by (auto simp: snd_inv_def)
  then have l: "a \<le> n" "n \<le> length css" "length ?q = length css - a" and e: "\<And>i. i < length ?q \<Longrightarrow> entry css s0 n (a + i) (?q ! i) c"
    by (simp_all add: queued_def Let_def)
  have "map (\<lambda>b. seg_data b c) ?q = drop a css"
    using l e by (intro nth_equalityI) (auto simp: entry_def segment_of_def)
  moreover have "map (\<lambda>b. b_seq (deref b c)) (take (n - a) ?q) = map (seq_at css s0) [a..<n]"
    using l e by (intro nth_equalityI) (auto simp: entry_def)
  ultimately show ?thesis using q l(1,2) by (intro exI [of _ a] exI [of _ n]) (simp add: queued_def Let_def)
qed

text \<open>Three bytes in two segments, of which the first is sent at once.\<close>

definition unsent_demo :: "tcp_states \<Rightarrow> tcpctx" where
  "unsent_demo st = upd_sk (\<lambda>k. k\<lparr>sk_state := st, tk_smss := 2\<rparr>)
     (upd_tcb (\<lambda>t. t\<lparr>snd_nxt := 1000, snd_una := 1000\<rparr>) start_demo)"

definition written_demo :: "tcp_states \<Rightarrow> tcpctx" where
  "written_demo st = snd (the (tcp_send [1, 2, 3] (unsent_demo st)))"

lemma unsent_demo_sel:
  "sk_write_queue (c_sk (unsent_demo st)) = []" "sk_receive_queue (c_sk (unsent_demo st)) = []"
  "tk_ofo_queue (c_sk (unsent_demo st)) = []" "tk_inflight (c_sk (unsent_demo st)) = 0"
  "tk_smss (c_sk (unsent_demo st)) = 2" "state_of (unsent_demo st) = st" "heap_ok (unsent_demo st)" "devs_ok (unsent_demo st)"
  "tcb_of (unsent_demo st) = zero_tcb\<lparr>iss := 1000, snd_una := 1000, snd_nxt := 1000, rcv_nxt := 500, rcv_wnd := 44477\<rparr>"
proof -
  have "c_sk start_demo = c_sk (demo_ctx TCP_ESTABLISHED)" "s_routes start_demo = s_routes (demo_ctx TCP_ESTABLISHED)"
    "s_skbs start_demo = (\<lambda>_. None)"
    by (simp_all add: start_demo_def)
  then show "sk_write_queue (c_sk (unsent_demo st)) = []" "sk_receive_queue (c_sk (unsent_demo st)) = []"
    "tk_ofo_queue (c_sk (unsent_demo st)) = []" "tk_inflight (c_sk (unsent_demo st)) = 0"
    "tk_smss (c_sk (unsent_demo st)) = 2" "state_of (unsent_demo st) = st" "heap_ok (unsent_demo st)" "devs_ok (unsent_demo st)"
    "tcb_of (unsent_demo st) = zero_tcb\<lparr>iss := 1000, snd_una := 1000, snd_nxt := 1000, rcv_nxt := 500, rcv_wnd := 44477\<rparr>"
    by (simp_all add: unsent_demo_def heap_ok_def live_def)
      (simp_all add: demo_ctx_def stack.defs tcpctx.defs tcp_alloc_sock_def tcp_sock.defs sock.defs devs_ok_def
        booted_def route_alloc_def netdev_ok_def tap_dev_def loop_dev_def zero_sock_def)
qed

lemma written_demo:
  "tcp_send [1, 2, 3] (unsent_demo st) = Some (3, written_demo st)"
  "length (sk_write_queue (c_sk (written_demo st))) = 2" "tk_inflight (c_sk (written_demo st)) = 1"
  "sending 1000 [[1, 2], [3]] (written_demo st)" "state_of (written_demo st) = st"
  "rcv_nxt (tcb_of (written_demo st)) = 500" "rcv_wnd (tcb_of (written_demo st)) = 44477"
  "tk_smss (c_sk (written_demo st)) = 2"
proof -
  let ?c = "unsent_demo st"
  have cs: "chunks 2 [1, 2, 3 :: u8] = [[1, 2], [3]]" by (simp add: numeral_2_eq_2)
  obtain c1 bs where c1: "tcp_send_loop (length [1, 2, 3 :: u8]) 2 [1, 2, 3] ?c = Some c1"
    "sk_write_queue (c_sk c1) = bs" "map (\<lambda>b. seg_data b c1) bs = [[1, 2], [3]]" "tk_inflight (c_sk c1) = 1"
    using send_loop_spec [OF unsent_demo_sel(7,8), of 2 "[1, 2, 3]" "length [1, 2, 3 :: u8]" st]
    by (auto simp: unsent_demo_sel cs simp del: list.size)
  have s: "tcp_send [1, 2, 3] ?c = Some (3, tcp_rearm_user_timeout c1)"
    using c1(1) by (simp add: tcp_send_def unsent_demo_sel)
  then have w: "written_demo st = tcp_rearm_user_timeout c1" by (simp add: written_demo_def)
  show snd: "tcp_send [1, 2, 3] ?c = Some (3, written_demo st)" using s w by simp
  show "length (sk_write_queue (c_sk (written_demo st))) = 2" "tk_inflight (c_sk (written_demo st)) = 1"
    using arg_cong [OF c1(3), of length] c1(2,4) by (simp_all add: w)
  have st: "sending 1000 [] ?c"
    by (rule sending.start) (simp_all add: unsent_demo_sel sd_ok_def)
  show "sending 1000 [[1, 2], [3]] (written_demo st)"
    using sending.send [OF st, of "[1, 2, 3]"] snd
    by (simp add: unsent_demo_sel stalled_def cs numbered_def)
  have "rx_frame {} ?c c1 \<and> state_of c1 = state_of ?c" using send_loop_frame [OF c1(1)] by simp
  moreover have "rx_ok {} ?c" by (simp add: rx_ok_def unsent_demo_sel)
  moreover have "tk_smss (c_sk (tcp_rearm_user_timeout c)) = tk_smss (c_sk c)" for c
    by (simp add: tcp_rearm_user_timeout_def Let_def split_beta)
  ultimately show "state_of (written_demo st) = st" "tk_smss (c_sk (written_demo st)) = 2" "rcv_nxt (tcb_of (written_demo st)) = 500"
    "rcv_wnd (tcb_of (written_demo st)) = 44477"
    by (simp_all add: w rx_frame_def unsent_demo_sel send_loop_smss [OF c1(1)])
qed

theorem sender_keeps_unacked_witness:
  "map (\<lambda>b. seg_data b (written_demo TCP_ESTABLISHED)) (sk_write_queue (c_sk (written_demo TCP_ESTABLISHED))) = [[1, 2], [3]]
    \<and> b_seq (deref (hd (sk_write_queue (c_sk (written_demo TCP_ESTABLISHED)))) (written_demo TCP_ESTABLISHED)) = 1000
    \<and> snd_nxt (tcb_of (written_demo TCP_ESTABLISHED)) = 1002"
proof -
  let ?c = "written_demo TCP_ESTABLISHED"
  from sender_keeps_unacked [OF written_demo(4), of TCP_ESTABLISHED] obtain a n where
    q: "map (\<lambda>b. seg_data b ?c) (sk_write_queue (c_sk ?c)) = drop a [[1, 2], [3]]"
    "map (\<lambda>b. b_seq (deref b ?c)) (take (n - a) (sk_write_queue (c_sk ?c))) = map (seq_at [[1, 2], [3]] 1000) [a..<n]"
    "snd_nxt (tcb_of ?c) = seq_at [[1, 2], [3]] 1000 n" "unat (tk_inflight (c_sk ?c)) = n - a"
    by blast
  from arg_cong [OF q(1), of length] written_demo(2) have "a = 0" by simp
  moreover have "n = 1" using q(4) \<open>a = 0\<close> by (simp add: written_demo(3))
  ultimately show ?thesis
    using q written_demo(2) [of TCP_ESTABLISHED] by (cases "sk_write_queue (c_sk ?c)") (simp_all add: seq_at_def offs_def)
qed

subsection \<open>A stalled connection\<close>

lemma clean_rto_tap: "s_tap (clean_rto q una c) = s_tap c \<and> tk_smss (c_sk (clean_rto q una c)) = tk_smss (c_sk c)"
proof (induction q una c rule: clean_rto.induct)
  case (2 b q una c)
  then show ?case by (auto simp: Let_def touch_def free_skb_def)
qed simp

lemma timers_keep:
  "s_tap (tcp_rtt c) = s_tap c \<and> tk_smss (c_sk (tcp_rtt c)) = tk_smss (c_sk c)"
  "s_tap (tcp_stop_rto_timer c) = s_tap c \<and> tk_smss (c_sk (tcp_stop_rto_timer c)) = tk_smss (c_sk c)
    \<and> tk_retransmit (c_sk (tcp_stop_rto_timer c)) = None"
  by (simp_all add: tcp_rtt_def rtt_update_def Let_def split: option.split)
    (simp_all add: tcp_stop_rto_timer_def timer_cancel_def split: option.split)

lemma clean_everything:
  assumes "snd_inv css s0 c" "0 < tk_inflight (c_sk c)"
  defines "c' \<equiv> snd (tcp_clean_rto_queue (snd_nxt (tcb_of c)) (tcp_rtt (upd_tcb (\<lambda>t. t\<lparr>snd_una := snd_nxt (tcb_of c)\<rparr>) c)))"
  shows "sk_write_queue (c_sk c') = drop (unat (tk_inflight (c_sk c))) (sk_write_queue (c_sk c))"
    "tk_inflight (c_sk c') = 0" "tk_retransmit (c_sk c') = None" "s_tap c' = s_tap c"
    "tk_smss (c_sk c') = tk_smss (c_sk c)" "snd_una (tcb_of c) < snd_nxt (tcb_of c)"
proof -
  let ?nxt = "snd_nxt (tcb_of c)" and ?c1 = "tcp_rtt (upd_tcb (\<lambda>t. t\<lparr>snd_una := snd_nxt (tcb_of c)\<rparr>) c)"
  let ?c2 = "clean_rto (sk_write_queue (c_sk ?c1)) ?nxt ?c1"
  from assms(1) obtain a n where q: "queued css s0 a n c" "unat (tk_inflight (c_sk c)) = n - a" "numbered css s0" "0 < s0"
    by (auto simp: snd_inv_def)
  then have k: "?nxt = seq_at css s0 n" "n \<le> length css" "a < n \<Longrightarrow> snd_una (tcb_of c) < seq_at css s0 (Suc a)"
    by (simp_all add: queued_def Let_def)
  have "a < n" using assms(2) q(2) by (simp add: word_less_nat_alt)
  then have "seq_at css s0 (Suc a) \<le> ?nxt" using seq_at_cmp(2) [OF q(3), of "Suc a" n] k(1,2) by simp
  with k(3) [OF \<open>a < n\<close>] show lt: "snd_una (tcb_of c) < ?nxt" by (rule order.strict_trans2)
  have "?nxt \<le> seq_at css s0 n" "conn_view ?c1 = conn_view (upd_tcb (\<lambda>t. t\<lparr>snd_una := ?nxt\<rparr>) c)"
    using k(1) by simp_all
  note cl = clean_queued [OF q(1,3,4) lt this(1) q(2) this(2)]
  then obtain a' where a': "queued css s0 a' n ?c2" "unat (tk_inflight (c_sk ?c2)) = n - a'"
    "sk_write_queue (c_sk ?c2) = drop (a' - a) (sk_write_queue (c_sk c))" by blast
  have "a' = n"
  proof (rule ccontr)
    assume "a' \<noteq> n"
    then have "a' < n" "?nxt < seq_at css s0 (Suc a')" using a'(1) cl(3) by (auto simp: queued_def Let_def)
    then show False using k(1,2) seq_at_cmp(1) [OF q(3), of n "Suc a'"] by simp
  qed
  then have z: "tk_inflight (c_sk ?c2) = 0" using a'(2) by (simp add: unat_eq_zero)
  have c': "c' = tcp_stop_rto_timer ?c2" using z by (simp add: c'_def tcp_clean_rto_queue_def Let_def)
  show "sk_write_queue (c_sk c') = drop (unat (tk_inflight (c_sk c))) (sk_write_queue (c_sk c))"
    using a'(3) \<open>a' = n\<close> q(2) by (simp add: c')
  show "tk_inflight (c_sk c') = 0" "tk_retransmit (c_sk c') = None" "s_tap c' = s_tap c" "tk_smss (c_sk c') = tk_smss (c_sk c)"
    using z by (simp_all add: c' timers_keep clean_rto_tap)
qed

text \<open>An acknowledgement without data of everything in flight, after the peer's FIN.\<close>

lemma close_wait_ack:
  assumes "live b c" "state_of c = TCP_CLOSE_WAIT" "b_dlen (deref b c) = 0"
    and "th_seq th = rcv_nxt (tcb_of c)" "rcv_nxt (tcb_of c) \<le> rcv_nxt (tcb_of c) + rcv_wnd (tcb_of c)"
    and "th_ack th" "\<not> th_rst th" "\<not> th_syn th" "\<not> th_fin th" "th_ack_seq th = snd_nxt (tcb_of c)"
    and "snd_una (tcb_of c) < snd_nxt (tcb_of c)"
  shows "snd (tcp_input_state b th c) = free_skb b (touch b
      (snd (tcp_clean_rto_queue (snd_nxt (tcb_of c)) (tcp_rtt (upd_tcb (\<lambda>t. t\<lparr>snd_una := snd_nxt (tcb_of c)\<rparr>) c)))))"
proof -
  let ?c1 = "snd (tcp_clean_rto_queue (snd_nxt (tcb_of c)) (tcp_rtt (upd_tcb (\<lambda>t. t\<lparr>snd_una := snd_nxt (tcb_of c)\<rparr>) c)))"
  have st: "state_of c \<notin> {TCP_CLOSE, TCP_LISTEN, TCP_SYN_SENT}" using assms(2) by simp
  have check: "input_check b th c = Inr c"
    using assms(3-9) by (simp add: input_check_def tcp_verify_segment_def)
  have una: "snd_una (tcb_of ?c1) = snd_nxt (tcb_of c)" "snd_nxt (tcb_of ?c1) = snd_nxt (tcb_of c)" by simp_all
  have ack: "input_ack b th c = Inr ?c1"
    using assms(2,10,11) una by (simp add: input_ack_def input_ack_field_def Let_def)
  have st1: "state_of ?c1 = TCP_CLOSE_WAIT" using assms(2) by simp
  then have fin: "input_fin_acked b th ?c1 = Inr ?c1" by (simp add: input_fin_acked_def)
  have "input_text b th ?c1 = (0, free_skb b (touch b ?c1))"
    using st1 assms(9) by (simp add: input_text_def input_data_def input_fin_def input_delack_def)
  then show ?thesis using check ack fin by (simp add: input_state_other [OF st])
qed

text \<open>
  C19: after the peer's FIN the code does not go on sending.  An acknowledgement of everything in
  flight leaves the segments that were not sent yet where they are, transmits nothing and stops the
  retransmission timer; and the next write is transmitted at once, with the sequence number that
  belongs to the first of the waiting segments, which stay unsent.
\<close>

theorem close_wait_ack_stalls:
  fixes c :: tcpctx and k :: sk_buff and th :: tcphdr
  defines "c1 \<equiv> snd (tcp_input_state (s_bnext c) th (arrive k c))"
  assumes "sending s0 css c" "state_of c = TCP_CLOSE_WAIT" "0 < tk_inflight (c_sk c)"
    "unat (tk_inflight (c_sk c)) < length (sk_write_queue (c_sk c))"
    and "b_dlen k = 0" "th_seq th = rcv_nxt (tcb_of c)" "rcv_nxt (tcb_of c) \<le> rcv_nxt (tcb_of c) + rcv_wnd (tcb_of c)"
    and "th_flags th = [False, False, False, False, True, False, False, False]" "th_ack_seq th = snd_nxt (tcb_of c)"
    and "data \<noteq> []" "0 < tk_smss (c_sk c)" "tk_smss (c_sk c) \<le> 1460"
  shows "sk_write_queue (c_sk c1) = drop (unat (tk_inflight (c_sk c))) (sk_write_queue (c_sk c))
    \<and> tk_inflight (c_sk c1) = 0 \<and> tk_retransmit (c_sk c1) = None \<and> s_tap c1 = s_tap c
    \<and> (\<exists>c2 b bs. tcp_send data c1 = Some (int (length data), c2) \<and> sk_write_queue (c_sk c2) = sk_write_queue (c_sk c1) @ b # bs
        \<and> b_seq (deref b c2) = snd_nxt (tcb_of c) \<and> list_all (\<lambda>x. b_seq (deref x c2) = 0) (sk_write_queue (c_sk c1)))"
proof -
  let ?b = "s_bnext c" and ?c0 = "arrive k c"
  have inv: "snd_inv css s0 c" by (rule sending_inv [OF assms(2)])
  note arr = arrive_snd [OF inv, of k]
  have inv0: "snd_inv css s0 ?c0" using arr(1) by (simp add: arrived_def)
  have i0: "0 < tk_inflight (c_sk ?c0)" using assms(4) arr(4) by simp
  note cl = clean_everything [OF inv0 i0, unfolded arr(4)]
  have fl: "th_ack th" "\<not> th_rst th" "\<not> th_syn th" "\<not> th_fin th" using assms(9) by (simp_all add: th_flags_def)
  let ?c2 = "snd (tcp_clean_rto_queue (snd_nxt (tcb_of c)) (tcp_rtt (upd_tcb (\<lambda>t. t\<lparr>snd_una := snd_nxt (tcb_of c)\<rparr>) ?c0)))"
  have c1: "c1 = free_skb ?b (touch ?b ?c2)"
    using close_wait_ack [of ?b ?c0 th] arr assms(3,6-8,10) fl cl(6) by (simp add: c1_def)
  have tap: "s_tap ?c0 = s_tap c" by (simp add: arrive_def)
  have s1: "sk_write_queue (c_sk c1) = drop (unat (tk_inflight (c_sk c))) (sk_write_queue (c_sk c))"
    "tk_inflight (c_sk c1) = 0" "tk_retransmit (c_sk c1) = None" "s_tap c1 = s_tap c" "tk_smss (c_sk c1) = tk_smss (c_sk c)"
    "snd_nxt (tcb_of c1) = snd_nxt (tcb_of c)"
    using cl(1-5) tap arr(4) by (simp_all add: c1 touch_def)
  have "snd_inv css s0 c1"
    unfolding c1_def by (rule input_state_snd [OF arr(1)]) (simp add: arr(4) assms(3) open_states_def)
  then obtain a n where q: "queued css s0 a n c1" "n - a = 0" using s1(2) by (auto simp: snd_inv_def)
  let ?q = "sk_write_queue (c_sk c1)" and ?m = "unat (tk_smss (c_sk c1))"
  have "sd_ok (set ?q) c1" and e: "\<And>i. i < length ?q \<Longrightarrow> entry css s0 n (a + i) (?q ! i) c1"
    using q(1) unfolding queued_def Let_def by blast+
  then have h: "heap_ok c1" "devs_ok c1" "\<forall>b\<in>set ?q. live b c1" by (simp_all add: sd_ok_def)
  have m: "0 < ?m" "?m \<le> 1460" using assms(12,13) by (simp_all add: s1(5) word_less_nat_alt word_le_nat_alt)
  obtain c2 bs where snd: "tcp_send_loop (length data) ?m data c1 = Some c2" "sk_write_queue (c_sk c2) = ?q @ bs"
    "map (\<lambda>b. seg_data b c2) bs = chunks ?m data" "\<forall>b. live b c1 \<longrightarrow> deref b c2 = deref b c1"
    "b_seq (deref (hd bs) c2) = snd_nxt (tcb_of c)"
    using send_loop_spec [OF h(1,2) m order_refl h(3), of data] s1(2,6) assms(11) by auto
  have "bs \<noteq> []" using snd(3) chunks_Nil [OF m(1), of data] assms(11) by auto
  then obtain b bs' where bs: "bs = b # bs'" by (cases bs) auto
  have "b_seq (deref (?q ! i) c2) = 0" if "i < length ?q" for i
    using e [OF that] q(2) snd(4) h(3) nth_mem [OF that] by (auto simp: entry_def)
  then have w: "list_all (\<lambda>x. b_seq (deref x (tcp_rearm_user_timeout c2)) = 0) ?q"
    by (simp add: list_all_length heap_of_skbs [OF rearm_user(1)])
  have "tcp_send data c1 = Some (int (length data), tcp_rearm_user_timeout c2)" using snd(1) by (simp add: tcp_send_def)
  with s1(1-4) snd(2,5) bs w show ?thesis
    by (intro conjI exI [of _ "tcp_rearm_user_timeout c2"] exI [of _ b] exI [of _ bs'])
      (simp_all add: heap_of_skbs [OF rearm_user(1)])
qed

theorem close_wait_ack_stalls_witness:
  "\<exists>c. state_of c = TCP_CLOSE_WAIT \<and> length (sk_write_queue (c_sk c)) = 2
    \<and> length (sk_write_queue (c_sk (snd (tcp_input_state (s_bnext c) (demo_th\<lparr>th_ack_seq := snd_nxt (tcb_of c)\<rparr>)
         (arrive (chunk_demo 500 []) c))))) = 1"
proof -
  note w = written_demo [of TCP_CLOSE_WAIT]
  let ?c = "written_demo TCP_CLOSE_WAIT"
  have t: "th_flags (demo_th\<lparr>th_ack_seq := snd_nxt (tcb_of ?c)\<rparr>) = [False, False, False, False, True, False, False, False]"
    "th_seq (demo_th\<lparr>th_ack_seq := snd_nxt (tcb_of ?c)\<rparr>) = rcv_nxt (tcb_of ?c)" "b_dlen (chunk_demo 500 []) = 0"
    using w(6) by (simp_all add: demo_th_def th_flags_def chunk_demo_def)
  have win: "rcv_nxt (tcb_of ?c) \<le> rcv_nxt (tcb_of ?c) + rcv_wnd (tcb_of ?c)" using w(6,7) by simp
  show ?thesis
    using close_wait_ack_stalls [OF w(4,5) _ _ t(3,2) win t(1), of "[1]"] w by (intro exI [of _ ?c]) simp
qed

subsection \<open>The FIN\<close>

text \<open>
  A FIN takes a sequence number, but the end it is stored with is its start: an acknowledgement of
  the data before it, up to the number of the FIN itself, releases it.
\<close>

lemma fin_acked_too_early:
  assumes "live b c" "th_fin (tcp_hdr (deref b c))" "b_dlen (deref b c) = 0" "0 < snd_nxt (tcb_of c)"
  shows "snd_nxt (tcb_of (tcp_store_seq b c)) = snd_nxt (tcb_of c) + 1
    \<and> acked (snd_nxt (tcb_of c)) (tcp_store_seq b c) b"
proof -
  have "tcp_hdr (k\<lparr>b_seq := x\<rparr>) = tcp_hdr k" "tcp_hdr (k\<lparr>b_seq := x, b_end_seq := y\<rparr>) = tcp_hdr k" for k x y
    by (simp_all add: tcp_hdr_def)
  with assms show ?thesis by (simp add: tcp_store_seq_def Let_def acked_def upd_skb_upd_skb)
qed

end
