(* ===== verification/Tcp_Open.thy ===== *)
theory Tcp_Open
  imports Tcp_Sender
begin

unbundle bit_operations_syntax

text \<open>
  From \<open>connect\<close> to the data: the SYN in the retransmission queue survives whatever happens until
  the peer answers, and the answer leaves the connection where the two whole-transfer relations
  \<open>sending\<close> (\<open>Tcp_Sender\<close>) and \<open>transfer\<close> (\<open>Tcp_Transfer\<close>) start.
\<close>

subsection \<open>The SYN\<close>

text \<open>The SYN is the only segment queued; its number is \<open>isn\<close>, and it ends where it starts.\<close>

definition syn_sent :: "u32 \<Rightarrow> tcpctx \<Rightarrow> bool" where
  "syn_sent isn c \<longleftrightarrow> heap_ok c \<and> devs_ok c \<and> sk_receive_queue (c_sk c) = [] \<and> tk_ofo_queue (c_sk c) = []
     \<and> (\<exists>b. sk_write_queue (c_sk c) = [b] \<and> live b c \<and> b_seq (deref b c) = isn \<and> b_end_seq (deref b c) = isn)
     \<and> tk_inflight (c_sk c) = 1 \<and> snd_nxt (tcb_of c) = isn + 1 \<and> snd_una (tcb_of c) = isn \<and> iss (tcb_of c) = isn"

lemma syn_sent_view: "conn_view c' = conn_view c \<Longrightarrow> syn_sent isn c' = syn_sent isn c"
  by (simp add: conn_view_def syn_sent_def heap_ok_def devs_ok_def live_def deref_def)

lemmas syn_sent_views [simp] = conn_views [THEN syn_sent_view]

lemma syn_sent_tx:
  assumes "syn_sent isn c" "sk_write_queue (c_sk c) = [b]" "tcp_tx {b} c c'" "tx_keeps b c c'"
  shows "syn_sent isn c'"
proof -
  have s: "heap_ok c" "devs_ok c" "live b c" "b_seq (deref b c) = isn" "b_end_seq (deref b c) = isn"
    using assms(1,2) by (auto simp: syn_sent_def)
  have "heap_ok c'" "devs_ok c'"
    using assms(3) s(1,2) by (auto simp: tcp_tx_def tx_frame_def heap_ok_def live_def devs_ok_def)
  moreover have "live b c'" "b_seq (deref b c') = isn" "b_end_seq (deref b c') = isn"
    using assms(4) s(3-5) by (simp_all add: tx_keeps_def same_skb_def)
  ultimately show ?thesis
    using assms(1,2) same_sk_fields [OF same_sk_tx [OF assms(3)]] by (simp add: syn_sent_def)
qed

lemma queue_transmit_sel [simp]:
  "iss (tcb_of (snd (tcp_queue_transmit_skb b c))) = iss (tcb_of c)"
  "snd_una (tcb_of (snd (tcp_queue_transmit_skb b c))) = snd_una (tcb_of c)"
  "sk_receive_queue (c_sk (snd (tcp_queue_transmit_skb b c))) = sk_receive_queue (c_sk c)"
  "tk_ofo_queue (c_sk (snd (tcp_queue_transmit_skb b c))) = tk_ofo_queue (c_sk c)"
  using conn_view_more(2) [of c]
  by (simp_all add: tcp_queue_transmit_skb_def tcp_store_seq_def Let_def split_beta conn_view_def del: conn_view_more)

lemma connect_syn_sent:
  assumes h: "heap_ok c" "devs_ok c" and q: "sk_receive_queue (c_sk c) = []" "tk_ofo_queue (c_sk c) = []" "sk_write_queue (c_sk c) = []"
    and i: "tk_inflight (c_sk c) = 0" and st: "state_of c = TCP_CLOSE"
    and sacks: "tk_sackok (c_sk c) = 0 \<or> fst (tk_sacks (c_sk c) ! 0) = 0"
  shows "syn_sent isn (snd (tcp_connect isn c)) \<and> state_of (snd (tcp_connect isn c)) = TCP_SYN_SENT"
proof -
  define d where "d = upd_tcb (\<lambda>t. t\<lparr>iss := isn, snd_wnd := 0, snd_wl1 := 0, snd_una := isn, snd_up := isn,
      snd_nxt := isn, rcv_nxt := 0, rcv_wnd := tcp_select_initial_window\<rparr>) (upd_sk (\<lambda>k. k\<lparr>tk_header_len := 20\<rparr>) c)"
  obtain opts n where o: "tcp_syn_options (c_sk d) = (opts, n)" by (meson surj_pair)
  then have n: "n = 8 \<or> n = 4" "to_sack opts \<noteq> 0 \<longleftrightarrow> n = 8" by (auto simp: tcp_syn_options_def split: if_splits)
  let ?b = "s_bnext c"
  define data where "data = [TCP_OPT_MSS, TCP_OPTLEN_MSS] @ le16 (htons (to_mss opts))
            @ (if to_sack opts \<noteq> 0 then [TCP_OPT_NOOP, TCP_OPT_NOOP, TCP_OPT_SACK_OK, TCP_OPTLEN_SACK] else [])"
  define k1 where "k1 = put_bytes 54 data ((skb_reserve (54 + n) (new_skb (54 + n)))
      \<lparr>b_protocol := ucast IP_TCP, b_dlen := 0, b_seq := 0\<rparr>)"
  define k where "k = upd_th (\<lambda>th. th\<lparr>th_hl := TCP_DOFFSET + of_nat (n div 4), th_syn := True\<rparr>) k1"
  have len: "length data = n" using n by (auto simp: data_def)
  have m1: "b_mem k1 = replicate 54 0 @ data"
    using len by (simp add: k1_def b_mem_put_bytes mwrite_def new_skb_def skb_reserve_def replicate_add)
  have k: "b_data k = int (54 + n)" "b_len k = 0" "b_dlen k = 0" "b_seq k = 0"
    "length (b_mem k) = 54 + n"
    using m1 len by (simp_all add: k_def) (simp_all add: k1_def skb_reserve_def new_skb_def upd_th_def)
  have th: "tcp_hdr k = (dec_tcphdr (replicate 20 0))\<lparr>th_hl := TCP_DOFFSET + of_nat (n div 4), th_syn := True\<rparr>"
    using m1 by (simp add: k_def tcp_hdr_zero [OF m1])
  let ?c2 = "upd_sk (\<lambda>k. k\<lparr>sk_state := TCP_SYN_SENT\<rparr>) (put_skb ?b k (snd (alloc_skb (54 + n) d)))"
  have k0: "tk_sackok (c_sk d) = tk_sackok (c_sk c)" "tk_sacks (c_sk d) = tk_sacks (c_sk c)"
    "sk_write_queue (c_sk d) = sk_write_queue (c_sk c)" "tk_inflight (c_sk d) = tk_inflight (c_sk c)"
    "sk_receive_queue (c_sk d) = sk_receive_queue (c_sk c)" "tk_ofo_queue (c_sk d) = tk_ofo_queue (c_sk c)"
    "state_of d = state_of c"
    by (simp_all add: d_def)
  have d: "s_skbs d = s_skbs c" "s_bnext d = ?b"
    "s_routes d = s_routes c" "snd_nxt (tcb_of d) = isn" "snd_una (tcb_of d) = isn" "iss (tcb_of d) = isn"
    by (simp_all add: d_def)
  have hd: "heap_ok d" "devs_ok d" using h d by (simp_all add: heap_ok_def devs_ok_def live_def)
  have lv: "live ?b (snd (alloc_skb m d))" for m using live_alloc_skb [of d m] by (simp only: d(2))
  have l: "live ?b (snd (alloc_skb (54 + n) d))" "deref ?b (snd (alloc_skb (54 + n) d)) = new_skb (54 + n)"
    using live_alloc_skb [of d "54 + n"] by (simp_all add: d(2) alloc_skb_def deref_def)
  have syn: "tcp_send_syn d = tcp_queue_transmit_skb ?b ?c2"
  proof -
    have reg: "in_region (b_mem ((skb_reserve (54 + n) (new_skb (54 + n)))\<lparr>b_protocol := ucast IP_TCP, b_dlen := 0, b_seq := 0\<rparr>)) 54 (length data)"
      using len by (simp add: in_region_def skb_reserve_def new_skb_def)
    have w: "tcp_write_syn_options ?b opts n c = upd_skb ?b (\<lambda>k. upd_th (\<lambda>th. th\<lparr>th_hl := TCP_DOFFSET + of_nat (n div 4)\<rparr>) (put_bytes 54 data k)) c"
      if "in_region (b_mem (deref ?b c)) 54 (length data)" for c
      using that unfolding tcp_write_syn_options_def Let_def data_def [symmetric]
      by (simp only: upd_skb_upd_skb check_True)
    have kk: "upd_th (\<lambda>th. th\<lparr>th_syn := True\<rparr>) (upd_th (\<lambda>th. th\<lparr>th_hl := TCP_DOFFSET + of_nat (n div 4)\<rparr>) k1) = k"
      using m1 by (simp add: k_def upd_th_upd_th)
    have pp: "put_skb b k (upd_sk f (put_skb b k' s)) = upd_sk f (put_skb b k s)" for f b k k' s
      by (auto simp: put_skb_def upd_sk_def check_def live_def)
    have "state_of d = TCP_CLOSE" using k0(7) st by simp
    then show ?thesis
      unfolding tcp_send_syn_def tcp_alloc_skb_eq o
      using l reg kk by (simp add: Let_def split_beta w upd_skb_upd_skb upd_skb_live d(2) k1_def pp)
  qed
  have con: "snd (tcp_connect isn c) = upd_tcb (\<lambda>t. t\<lparr>snd_nxt := snd_nxt t + 1\<rparr>) (snd (tcp_send_syn d))"
    by (simp add: tcp_connect_def Let_def split_beta d_def upd_tcb_def upd_sk_def)
  have c2: "deref ?b ?c2 = k" "live ?b ?c2" "heap_ok ?c2" "devs_ok ?c2"
    using l hd heap_ok_alloc [OF hd(1), of "54 + n"] by (simp_all add: devs_ok_def) (simp add: alloc_skb_def)
  have w: "hdr_words k = 5 + n div 4" using n(1) by (auto simp: hdr_words_def th dec_zero tcp_set_hlen_def)
  have r: "tcp_ready ?b 0 ?c2"
    using w k n(1) sacks k0(1,2) unfolding tcp_ready_def c2(1) Let_def by (auto simp: lv)
  have fin: "\<not> th_fin (tcp_hdr (deref ?b ?c2))" unfolding c2(1) by (simp add: th dec_zero)
  have bq: "?b \<notin> set (sk_write_queue (c_sk ?c2))" using q(3) k0(3) by simp
  note spec = queue_transmit_spec [OF r c2(3,4) fin bq]
  let ?s = "snd (tcp_queue_transmit_skb ?b ?c2)"
  have i0: "tk_inflight (c_sk ?c2) = 0" using i k0(4) by simp
  have t: "iss (tcb_of ?s) = isn" "snd_una (tcb_of ?s) = isn" "sk_receive_queue (c_sk ?s) = []" "tk_ofo_queue (c_sk ?s) = []"
    using q k0(5,6) d(5,6) by simp_all
  have "syn_sent isn (upd_tcb (\<lambda>t. t\<lparr>snd_nxt := snd_nxt t + 1\<rparr>) ?s)"
    using spec t i0 k0(3) d(4) q(3) c2(1) k(3,4) by (simp add: syn_sent_def devs_ok_def)
  then show ?thesis by (simp add: con syn)
qed

text \<open>The timeouts while connecting.\<close>

lemma connect_rto_eq:
  assumes "sk_write_queue (c_sk c) = b # q" "state_of c = TCP_SYN_SENT" "tk_backoff (c_sk c) \<le> TCP_CONN_RETRIES"
  shows "tcp_connect_rto c = socket_release (tcp_rearm_rto_timer
      (upd_sk (\<lambda>k. k\<lparr>tk_backoff := tk_backoff k + 1\<rparr>) (retransmit_head b c)))"
proof -
  have e: "write_queue_head (rto_enter c) = Some b" using assms by (simp add: write_queue_head_def q_peek_def)
  have nb: "\<not> tk_backoff (c_sk (rto_enter c)) > TCP_CONN_RETRIES" using assms(3) by simp
  have st: "state_of (rto_enter c) = TCP_SYN_SENT" using assms(2) by simp
  have r: "snd (tcp_transmit_skb b (snd_una (tcb_of (upd_skb b skb_reset_header (rto_enter c))))
      (upd_skb b skb_reset_header (rto_enter c))) = retransmit_head b c"
    by (simp add: retransmit_head_def)
  show ?thesis
    unfolding tcp_connect_rto_def Let_def rto_enter_def [symmetric] if_P [OF st] if_not_P [OF nb] e option.case r ..
qed

lemma connect_rto_other:
  "state_of c = TCP_SYN_SENT \<Longrightarrow> tk_backoff (c_sk c) > TCP_CONN_RETRIES \<Longrightarrow> state_of (tcp_connect_rto c) \<noteq> TCP_SYN_SENT"
  "state_of c \<noteq> TCP_SYN_SENT \<Longrightarrow> state_of (tcp_connect_rto c) = state_of c"
  by (simp_all add: connect_rto_last) (simp add: tcp_connect_rto_def Let_def)

lemma connect_rto_syn_sent:
  assumes "syn_sent isn c" "state_of c = TCP_SYN_SENT" "state_of (tcp_connect_rto c) = TCP_SYN_SENT"
  shows "syn_sent isn (tcp_connect_rto c)"
proof -
  obtain b where b: "sk_write_queue (c_sk c) = [b]" "heap_ok c" "live b c" using assms(1) by (auto simp: syn_sent_def)
  have n: "tk_backoff (c_sk c) \<le> TCP_CONN_RETRIES"
    using connect_rto_other(1) [OF assms(2)] assms(3) by (simp add: not_less [symmetric]) blast
  let ?c1 = "upd_skb b skb_reset_header (rto_enter c)"
  have c1: "syn_sent isn (rto_enter c)" "sk_write_queue (c_sk (rto_enter c)) = [b]" "live b (rto_enter c)"
    using assms(1) b syn_sent_view [of "rto_enter c" c isn] by (simp_all add: conn_view_def)
  then have u: "syn_sent isn ?c1" "sk_write_queue (c_sk ?c1) = [b]" "heap_ok ?c1"
    by (auto simp: syn_sent_def upd_skb_live skb_reset_header_def devs_ok_def)
  have "syn_sent isn (retransmit_head b c)"
    unfolding retransmit_head_def
    by (rule syn_sent_tx [OF u(1,2) tcp_transmit_tx tcp_transmit_keeps]) (use u(3) in simp_all)
  then show ?thesis by (simp add: connect_rto_eq [OF b(1) assms(2) n])
qed

text \<open>Segments that are not the answer.\<close>

lemma arrive_syn_sent:
  assumes "syn_sent isn c"
  shows "syn_sent isn (arrive k c)" "syn_sent isn (free_skb (s_bnext c) (arrive k c))"
proof -
  obtain b where b: "sk_write_queue (c_sk c) = [b]" "live b c" "b_seq (deref b c) = isn" "b_end_seq (deref b c) = isn"
    "heap_ok c" using assms by (auto simp: syn_sent_def)
  then have ne: "b \<noteq> s_bnext c" by (auto simp: heap_ok_def)
  then have d: "s_skbs (arrive k c) b = s_skbs c b" by (simp add: arrive_def)
  have h: "heap_ok (arrive k c)" using b(5) by (auto simp: arrive_def heap_ok_def live_def less_Suc_eq)
  have "s_skbs (free_skb (s_bnext c) (arrive k c)) b = s_skbs c b"
    using s_skbs_free_skb [of b "s_bnext c" "arrive k c"] ne d by simp
  then have "live b (free_skb (s_bnext c) (arrive k c)) \<and> deref b (free_skb (s_bnext c) (arrive k c)) = deref b c"
    "live b (arrive k c) \<and> deref b (arrive k c) = deref b c"
    using d b(2) by (simp_all add: live_def deref_def)
  then show "syn_sent isn (arrive k c)" "syn_sent isn (free_skb (s_bnext c) (arrive k c))"
    using assms b h heap_ok_free_skb [OF h, of "s_bnext c"] by (auto simp: syn_sent_def devs_ok_def) (auto simp: arrive_def)
qed

lemma input_syn_sent:
  assumes "syn_sent isn c" "state_of c = TCP_SYN_SENT"
    and "state_of (snd (tcp_input_state (s_bnext c) th (arrive k c))) = TCP_SYN_SENT"
  shows "syn_sent isn (snd (tcp_input_state (s_bnext c) th (arrive k c)))"
proof -
  let ?a = "arrive k c" and ?b = "s_bnext c"
  have st: "state_of ?a = TCP_SYN_SENT" using assms(2) by (simp add: arrive_def)
  have "snd (tcp_input_state ?b th ?a) = free_skb ?b ?a"
    using assms(3) st tcp_reset_state [of ?a]
    by (auto simp: tcp_input_state_def tcp_synsent_def tcp_drop_def Let_def split_beta split: if_splits)
  then show ?thesis using arrive_syn_sent(2) [OF assms(1)] by simp
qed

subsection \<open>Opening a connection\<close>

text \<open>
  \<open>connect\<close> on a closed connection without data and without SACK blocks, then segments of any kind,
  timeouts, the lock, and a close by another thread.
\<close>

inductive connecting :: "u32 \<Rightarrow> tcpctx \<Rightarrow> bool" for isn where
  connect: "heap_ok c \<Longrightarrow> devs_ok c \<Longrightarrow> sk_receive_queue (c_sk c) = [] \<Longrightarrow> tk_ofo_queue (c_sk c) = [] \<Longrightarrow>
    sk_write_queue (c_sk c) = [] \<Longrightarrow> tk_inflight (c_sk c) = 0 \<Longrightarrow> state_of c = TCP_CLOSE \<Longrightarrow>
    tk_sackok (c_sk c) = 0 \<or> fst (tk_sacks (c_sk c) ! 0) = 0 \<Longrightarrow> connecting isn (snd (tcp_connect isn c))"
| segment: "connecting isn c \<Longrightarrow> connecting isn (snd (tcp_input_state (s_bnext c) th (arrive k c)))"
| timeout: "connecting isn c \<Longrightarrow> connecting isn (tcp_connect_rto c)"
| lock: "connecting isn c \<Longrightarrow> connecting isn (snd (socket_wr_acquire c))"
| release: "connecting isn c \<Longrightarrow> connecting isn (socket_release c)"
| close: "connecting isn c \<Longrightarrow> connecting isn (snd (tcp_close c))"

lemma close_leaves_syn_sent: "state_of (snd (tcp_close c)) \<noteq> TCP_SYN_SENT"
  by (simp add: tcp_close_def tcp_queue_fin_def Let_def split_beta)

lemma opening_syn_sent: "connecting isn c \<Longrightarrow> state_of c = TCP_SYN_SENT \<Longrightarrow> syn_sent isn c"
proof (induction rule: connecting.induct)
  case (connect c)
  then show ?case using connect_syn_sent by blast
next
  case (segment c th k)
  have "state_of (arrive k c) = TCP_SYN_SENT"
    using input_state_arrives [of "s_bnext c" th "arrive k c"] segment.prems by (cases "state_of (arrive k c)") auto
  then show ?case using segment by (intro input_syn_sent) (simp_all add: arrive_def)
next
  case (timeout c)
  then have "state_of c = TCP_SYN_SENT" using connect_rto_other(2) [of c] by metis
  with timeout show ?case by (intro connect_rto_syn_sent) simp_all
qed (simp_all add: close_leaves_syn_sent)

lemma parse_opts_sel [simp]:
  "sk_write_queue (tcp_parse_opts th bs k) = sk_write_queue k" "sk_receive_queue (tcp_parse_opts th bs k) = sk_receive_queue k"
  "tk_ofo_queue (tcp_parse_opts th bs k) = tk_ofo_queue k" "tk_inflight (tcp_parse_opts th bs k) = tk_inflight k"
  "tk_retransmit (tcp_parse_opts th bs k) = tk_retransmit k"
  by (simp_all add: tcp_parse_opts_def Let_def split_beta)

lemma rearm_user_retransmit [simp]: "tk_retransmit (c_sk (tcp_rearm_user_timeout c)) = tk_retransmit (c_sk c)"
  by (simp add: tcp_rearm_user_timeout_def Let_def split_beta)

text \<open>The acknowledgement of the SYN empties the retransmission queue and stops its timer.\<close>

lemma clean_syn:
  assumes "heap_ok c" "devs_ok c" "sk_receive_queue (c_sk c) = []" "tk_ofo_queue (c_sk c) = []"
    and "sk_write_queue (c_sk c) = [b]" "tk_inflight (c_sk c) = 1"
    and "0 < b_seq (deref b c)" "b_end_seq (deref b c) \<le> una"
  defines "c' \<equiv> snd (tcp_clean_rto_queue una c)"
  shows "heap_ok c'" "devs_ok c'" "sk_receive_queue (c_sk c') = []" "tk_ofo_queue (c_sk c') = []"
    "sk_write_queue (c_sk c') = []" "tk_inflight (c_sk c') = 0" "tk_retransmit (c_sk c') = None"
proof -
  let ?c1 = "upd_skb b (\<lambda>k. k\<lparr>b_refcnt := b_refcnt k - 1\<rparr>) (upd_sk (\<lambda>t. t\<lparr>sk_write_queue := []\<rparr>) (touch b c))"
  define c2 where "c2 = upd_sk (\<lambda>t. t\<lparr>tk_inflight := tk_inflight t - 1\<rparr>) (free_skb b ?c1)"
  have c': "c' = tcp_stop_rto_timer c2"
    using assms(5-8) by (simp add: c'_def tcp_clean_rto_queue_def Let_def c2_def)
  have h1: "heap_ok ?c1" "devs_ok ?c1" using assms(1,2) by (simp_all add: devs_ok_def touch_def)
  then have c2: "heap_ok c2" "devs_ok c2" "sk_receive_queue (c_sk c2) = []" "tk_ofo_queue (c_sk c2) = []"
    "sk_write_queue (c_sk c2) = []" "tk_inflight (c_sk c2) = 0"
    using assms(3,4,6) heap_ok_free_skb [OF h1(1), of b] by (simp_all add: c2_def devs_ok_def)
  have v: "conn_view c' = conn_view c2" by (simp add: c')
  then show "heap_ok c'" "devs_ok c'" "sk_receive_queue (c_sk c') = []" "tk_ofo_queue (c_sk c') = []"
    "sk_write_queue (c_sk c') = []" "tk_inflight (c_sk c') = 0"
    using c2 by (simp_all add: conn_view_def heap_ok_def devs_ok_def live_def)
  show "tk_retransmit (c_sk c') = None" by (simp add: c' timers_keep)
qed

text \<open>
  C7: whatever happened since \<open>connect\<close>, timeouts, stray segments and all, the answer to the SYN
  leaves an established connection with nothing in flight and no retransmission timer, numbered
  from the two initial sequence numbers: the sender's and the receiver's transfer of any data start
  there.  It is so for every initial number of this end but 0 and the last.
\<close>

theorem handshake_starts_transfer:
  fixes c :: tcpctx and k :: sk_buff and th :: tcphdr
  defines "c' \<equiv> snd (tcp_input_state (s_bnext c) th (arrive k c))"
  assumes "connecting isn c" "state_of c = TCP_SYN_SENT" "0 < isn" "isn + 1 \<noteq> 0"
    and "th_syn th" "th_ack th" "\<not> th_rst th" "th_ack_seq th = isn + 1"
  shows "state_of c' = TCP_ESTABLISHED \<and> tk_retransmit (c_sk c') = None
    \<and> sending (isn + 1) [] c' \<and> transfer css (th_seq th + 1) [] c'"
proof -
  let ?a = "arrive k c" and ?b = "s_bnext c"
  have inv: "syn_sent isn ?a" using arrive_syn_sent(1) opening_syn_sent assms(2,3) by blast
  then obtain w where w: "heap_ok ?a" "devs_ok ?a" "sk_receive_queue (c_sk ?a) = []" "tk_ofo_queue (c_sk ?a) = []"
    "sk_write_queue (c_sk ?a) = [w]" "tk_inflight (c_sk ?a) = 1" "b_seq (deref w ?a) = isn" "b_end_seq (deref w ?a) = isn"
    and t: "snd_nxt (tcb_of ?a) = isn + 1" "snd_una (tcb_of ?a) = isn" "iss (tcb_of ?a) = isn"
    by (auto simp: syn_sent_def)
  have lt: "isn < isn + 1" 
  proof -
    have "unat (isn + 1) \<noteq> 0" using assms(5) by (simp only: unat_eq_zero not_False_eq_True)
    then have "unat isn + 1 < 2 ^ 32"
      using unsigned_less [of isn, where 'a = nat] by (cases "unat isn + 1 = 2 ^ 32") (simp_all add: unat_word_ariths)
    then show ?thesis by (simp add: word_less_nat_alt unat_word_ariths)
  qed
  let ?a1 = "upd_tcb (\<lambda>t. t\<lparr>snd_una := isn + 1\<rparr>) (upd_tcb (\<lambda>t. t\<lparr>rcv_nxt := th_seq th + 1, irs := th_seq th\<rparr>) ?a)"
  define c1 where "c1 = snd (tcp_clean_rto_queue (isn + 1) ?a1)"
  have ready: "heap_ok c1" "devs_ok c1" "sk_receive_queue (c_sk c1) = []" "tk_ofo_queue (c_sk c1) = []"
    "sk_write_queue (c_sk c1) = []" "tk_inflight (c_sk c1) = 0" "tk_retransmit (c_sk c1) = None"
    using clean_syn [of ?a1 w "isn + 1"] w assms(4) lt by (simp_all add: c1_def devs_ok_def)
  have tcb: "snd_nxt (tcb_of c1) = isn + 1" "snd_una (tcb_of c1) = isn + 1" "rcv_nxt (tcb_of c1) = th_seq th + 1" "iss (tcb_of c1) = isn"
    using t by (simp_all add: c1_def)
  let ?c2 = "upd_sk (\<lambda>k. k\<lparr>tk_backoff := 0, tk_rto := 1000\<rparr>)
     (upd_tcb (\<lambda>t. t\<lparr>snd_una := snd_nxt t\<rparr>) (tcp_set_state TCP_ESTABLISHED c1))"
  let ?c3 = "tcp_rearm_user_timeout (snd (tcp_send_ack ?c2))"
  have acc: "\<not> synsent_unacceptable th (tcb_of ?a)" using assms(9) t lt by (auto simp: synsent_unacceptable_def)
  have st: "state_of ?a = TCP_SYN_SENT" using assms(3) by (simp add: arrive_def)
  have c': "c' = free_skb ?b (sock_connected (upd_sk (tcp_parse_opts th (drop 54 (b_mem (deref ?b ?c3)))) ?c3))"
    using acc assms(6-9) st tcb lt
    by (simp add: c'_def tcp_input_state_def tcp_synsent_def Let_def tcp_drop_def c1_def)
  have c2: "sd_ok {} ?c2" "rx_ok {} ?c2" "sk_receive_queue (c_sk ?c2) = []" "tk_ofo_queue (c_sk ?c2) = []"
    "sk_write_queue (c_sk ?c2) = []" "tk_inflight (c_sk ?c2) = 0" "tcb_of ?c2 = tcb_of c1"
    using ready tcb by (simp_all add: sd_ok_def rx_ok_def devs_ok_def tcp_set_state_def)
  have "sd_frame {} ?c2 ?c3"  "rx_frame {} ?c2 ?c3"
    by (simp_all add: sd_frame_ack rx_frame_ack del: sd_frame_upd rx_frame_upd)
  then have "sd_frame {} ?c2 c'" "rx_frame {} ?c2 c'"
    unfolding c' sock_connected_def Let_def by (auto intro!: sd_frame_then rx_frame_then simp del: sd_frame_upd(2) rx_frame_upd(2))
  then have f: "sd_ok {} c'" "rx_ok {} c'" "sk_receive_queue (c_sk c') = []" "tk_ofo_queue (c_sk c') = []"
    "sk_write_queue (c_sk c') = []" "tk_inflight (c_sk c') = 0" "snd_nxt (tcb_of c') = isn + 1" "snd_una (tcb_of c') = isn + 1"
    "rcv_nxt (tcb_of c') = th_seq th + 1"
    using c2 tcb by (simp_all add: sd_frame_def rx_frame_def)
  have r: "state_of c' = TCP_ESTABLISHED" "tk_retransmit (c_sk c') = None"
    using ready(7) by (simp_all add: c')
  show ?thesis
    using sending.start [of "isn + 1" c'] transfer.start [of c' "th_seq th + 1" css] f r assms(5)
    by (simp add: word_neq_0_conv)
qed

definition connect_demo :: tcpctx where
  "connect_demo = snd (tcp_connect 1000 (unsent_demo TCP_CLOSE))"

definition synack_demo :: tcphdr where
  "synack_demo = demo_th\<lparr>th_syn := True, th_seq := 499, th_ack_seq := 1001\<rparr>"

theorem handshake_starts_transfer_witness:
  "sending 1001 [] (snd (tcp_input_state (s_bnext connect_demo) synack_demo (arrive (chunk_demo 499 []) connect_demo)))
    \<and> transfer [[1, 2], [3]] 500 []
        (snd (tcp_input_state (s_bnext connect_demo) synack_demo (arrive (chunk_demo 499 []) connect_demo)))"
proof -
  have s: "tk_sackok (c_sk (unsent_demo TCP_CLOSE)) = 0 \<or> fst (tk_sacks (c_sk (unsent_demo TCP_CLOSE)) ! 0) = 0"
    by (simp add: unsent_demo_def start_demo_def) (simp add: demo_ctx_def stack.defs tcpctx.defs tcp_alloc_sock_def tcp_sock.defs sock.defs)
  have c: "connecting 1000 connect_demo" "state_of connect_demo = TCP_SYN_SENT"
    using connecting.connect [of "unsent_demo TCP_CLOSE" 1000] connect_syn_sent [of "unsent_demo TCP_CLOSE" 1000] s
    by (simp_all add: unsent_demo_sel connect_demo_def)
  show ?thesis
    using handshake_starts_transfer [OF c, of synack_demo "chunk_demo 499 []" "[[1, 2], [3]]"]
    by (simp add: synack_demo_def demo_th_def)
qed

end
