(* ===== verification/Socket.thy ===== *)
theory Socket
  imports Tcp
begin

unbundle bit_operations_syntax

text \<open>
  The socket layer: \<open>src/socket.c\<close>, \<open>src/inet.c\<close> and \<open>src/sock.c\<close>.  The process is a \<open>world\<close>: the
  shared stack, the static counters, the list \<open>sockets\<close> (\<open>w_sockets\<close>, the names of the sockets in
  it, in order) and the sockets allocated, each with the \<open>struct tcp_sock\<close> it owns.  A call on a
  socket works on the connection in focus: \<open>focus\<close> builds its \<open>tcpctx\<close>, \<open>unfocus\<close> writes it back.
  A socket whose count reached 0 in \<open>socket_release\<close> is freed.
\<close>

record conn =
  cn_sock :: socket
  cn_sk :: "tcp_sock option"

record world = stack +
  w_port :: int
  w_fd :: int
  w_sock_amount :: int
  w_sockets :: "nat list"
  w_conns :: "nat \<Rightarrow> conn option"
  w_next :: nat

definition focus :: "nat \<Rightarrow> world \<Rightarrow> tcpctx option" where
  "focus i w =
     Option.bind (w_conns w i) (\<lambda>cn. Option.bind (cn_sk cn) (\<lambda>k.
       Some (stack.extend (stack.truncate w) (tcpctx.fields i (w_port w) k (cn_sock cn)))))"

definition unfocus :: "tcpctx \<Rightarrow> world \<Rightarrow> world" where
  "unfocus c w =
     (let cn = (if so_refcnt (c_sock c) = 0 then None
                else Some \<lparr>cn_sock = c_sock c, cn_sk = Some (c_sk c)\<rparr>)
      in stack.extend (stack.truncate c)
           (world.fields (c_port c) (w_fd w) (w_sock_amount w) (w_sockets w)
              ((w_conns w)(c_sid c := cn)) (w_next w)))"

text \<open>A call through a pointer to a socket that is gone, or has no \<open>sk\<close>, is undefined.\<close>

definition on_conn :: "nat \<Rightarrow> 'r \<Rightarrow> (tcpctx \<Rightarrow> 'r \<times> tcpctx) \<Rightarrow> world \<Rightarrow> 'r \<times> world" where
  "on_conn i dflt f w =
     (case focus i w of None \<Rightarrow> (dflt, check False w)
      | Some c \<Rightarrow> (case f c of (r, c) \<Rightarrow> (r, unfocus c w)))"

subsection \<open>\<open>inet.c\<close>\<close>

record sockaddr =
  sa_family :: u16
  sin_port :: u16
  s_addr :: u32

definition AF_UNSPEC :: u16 where "AF_UNSPEC = 0"
definition AF_INET :: u16 where "AF_INET = 2"
definition SOCK_STREAM :: int where "SOCK_STREAM = 1"
definition O_RDWR :: u32 where "O_RDWR = 2"

text \<open>\<open>sk_alloc\<close> and \<open>sock_init_data\<close> of \<open>src/sock.c\<close>, for the one family of operations.\<close>

definition sk_alloc :: "int \<Rightarrow> tcp_sock" where
  "sk_alloc protocol = tcp_alloc_sock"

definition sock_init_data :: "tcp_sock \<Rightarrow> tcp_sock" where
  "sock_init_data k =
     snd (tcp_v4_init_sock (k\<lparr>sk_recv_sleeping := False, sk_receive_queue := [], sk_write_queue := [],
        sk_poll_events := 0\<rparr>))"

definition inet_create :: "int \<Rightarrow> conn \<Rightarrow> int \<times> conn" where
  "inet_create protocol cn =
     (if odd (so_type (cn_sock cn))
      then let sk = (sk_alloc protocol)\<lparr>sk_protocol := protocol\<rparr>
           in (0, cn\<lparr>cn_sock := (cn_sock cn)\<lparr>so_ops := True\<rparr>, cn_sk := Some (sock_init_data sk)\<rparr>)
      else (1, cn))"

datatype connect_result = Connect_ret int tcpctx | Connect_sleep tcpctx

text \<open>From the end of the waiting loop on; the lock is taken once more.\<close>

definition connect_finish :: "tcpctx \<Rightarrow> connect_result" where
  "connect_finish c =
     (let c = snd (socket_wr_acquire c);
          e = sk_err (c_sk c) in
      if e = - ETIMEDOUT \<or> e = - ECONNREFUSED then Connect_ret e c
      else if e \<noteq> 0 then Connect_ret e c
      else Connect_ret e (upd_sock (\<lambda>k. k\<lparr>so_state := SS_CONNECTED\<rparr>) c))"

definition connect_wait :: "tcpctx \<Rightarrow> connect_result" where
  "connect_wait c =
     (if so_state (c_sock c) = SS_CONNECTING \<and> sk_err (c_sk c) = - EINPROGRESS
      then Connect_sleep (sleep_sock (socket_release c)) else connect_finish c)"

definition connect_resume :: "tcpctx \<Rightarrow> connect_result" where
  "connect_resume c = connect_wait (snd (socket_wr_acquire c))"

definition inet_stream_connect :: "u32 \<Rightarrow> sockaddr \<Rightarrow> int \<Rightarrow> tcpctx \<Rightarrow> connect_result" where
  "inet_stream_connect generate_iss addr addr_len c =
     (if 0 \<le> addr_len \<and> addr_len < 2 then Connect_ret (- EINVAL) c
      else if sa_family addr = AF_UNSPEC then Connect_ret (- EAFNOSUPPORT) (snd (tcp_disconnect c))
      else
        let fail = (\<lambda>e c. Connect_ret (- e) (upd_sk (\<lambda>k. k\<lparr>sk_err := - e\<rparr>) c)) in
        case so_state (c_sock c) of
          SS_CONNECTED \<Rightarrow> fail EISCONN c
        | SS_CONNECTING \<Rightarrow> fail EALREADY c
        | SS_UNCONNECTED \<Rightarrow>
            if state_of c \<noteq> TCP_CLOSE then fail EISCONN c
            else
              let c = upd_sk (\<lambda>k. k\<lparr>sk_err := - EISCONN\<rparr>) c;
                  c = snd (tcp_v4_connect generate_iss (sin_port addr) (s_addr addr) c);
                  c = upd_sock (\<lambda>k. k\<lparr>so_state := SS_CONNECTING\<rparr>) c;
                  c = upd_sk (\<lambda>k. k\<lparr>sk_err := - EINPROGRESS\<rparr>) c
              in if so_flags (c_sock c) AND O_NONBLOCK \<noteq> 0 then Connect_ret (sk_err (c_sk c)) c
                 else connect_wait c
        | _ \<Rightarrow> fail EINVAL c)"

definition inet_write :: "bytes \<Rightarrow> tcpctx \<Rightarrow> (int \<times> tcpctx) option" where
  "inet_write = tcp_write"

definition inet_read :: "int \<Rightarrow> tcpctx \<Rightarrow> receive_result" where
  "inet_read = tcp_read"

definition inet_close :: "tcpctx \<Rightarrow> int \<times> tcpctx" where
  "inet_close = tcp_close"

definition inet_abort :: "tcpctx \<Rightarrow> int \<times> tcpctx" where
  "inet_abort c = (0, snd (tcp_abort c))"

definition inet_getpeername :: "tcpctx \<Rightarrow> sockaddr" where
  "inet_getpeername c =
     \<lparr>sa_family = AF_INET, sin_port = htons (sk_dport (c_sk c)), s_addr = htonl (sk_daddr (c_sk c))\<rparr>"

definition inet_getsockname :: "tcpctx \<Rightarrow> sockaddr" where
  "inet_getsockname c =
     \<lparr>sa_family = AF_INET, sin_port = htons (sk_sport (c_sk c)), s_addr = htonl (sk_saddr (c_sk c))\<rparr>"

text \<open>\<open>sock_free\<close>; \<open>inet_free\<close> then frees the \<open>sk\<close>.\<close>

definition sock_free :: "tcpctx \<Rightarrow> tcpctx" where
  "sock_free c =
     (let c = skb_queue_free (sk_receive_queue (c_sk c)) c;
          c = upd_sk (\<lambda>k. k\<lparr>sk_receive_queue := []\<rparr>) c;
          c = skb_queue_free (sk_write_queue (c_sk c)) c
      in upd_sk (\<lambda>k. k\<lparr>sk_write_queue := []\<rparr>) c)"

definition inet_free :: "nat \<Rightarrow> world \<Rightarrow> world" where
  "inet_free i w =
     (let w = snd (on_conn i () (\<lambda>c. ((), sock_free c)) w)
      in w\<lparr>w_conns := (w_conns w)(i := map_option (\<lambda>cn. cn\<lparr>cn_sk := None\<rparr>) (w_conns w i))\<rparr>)"

subsection \<open>\<open>socket.c\<close>\<close>

text \<open>The lock and count operations on a socket that may have lost its \<open>sk\<close>.\<close>

definition upd_conn :: "nat \<Rightarrow> (socket \<Rightarrow> socket) \<Rightarrow> world \<Rightarrow> world" where
  "upd_conn i f w =
     (case w_conns w i of None \<Rightarrow> check False w
      | Some cn \<Rightarrow>
          let k = f (cn_sock cn)
          in w\<lparr>w_conns := (w_conns w)(i := if so_refcnt k = 0 then None else Some (cn\<lparr>cn_sock := k\<rparr>))\<rparr>)"

definition acquire :: "nat \<Rightarrow> world \<Rightarrow> world" where
  "acquire i = upd_conn i (\<lambda>k. k\<lparr>so_locked := True, so_refcnt := so_refcnt k + 1\<rparr>)"

definition release :: "nat \<Rightarrow> world \<Rightarrow> world" where
  "release i = upd_conn i (\<lambda>k. k\<lparr>so_refcnt := so_refcnt k - 1, so_locked := False\<rparr>)"

definition alloc_socket :: "int \<Rightarrow> world \<Rightarrow> nat \<times> world" where
  "alloc_socket pid w =
     (let so = \<lparr>so_fd = w_fd w, so_pid = pid, so_refcnt = 1, so_state = SS_UNCONNECTED, so_type = 0,
                so_flags = O_RDWR, so_ops = False, so_sleeping = False, so_locked = False\<rparr>;
          i = w_next w
      in (i, w\<lparr>w_conns := (w_conns w)(i \<mapsto> \<lparr>cn_sock = so, cn_sk = None\<rparr>), w_next := Suc i,
               w_fd := w_fd w + 1\<rparr>))"

definition socket_free :: "nat \<Rightarrow> world \<Rightarrow> int \<times> world" where
  "socket_free i w =
     (let w = acquire i w;
          w = w\<lparr>w_sockets := removeAll i (w_sockets w), w_sock_amount := w_sock_amount w - 1\<rparr>;
          w = (case w_conns w i of Some cn \<Rightarrow> if so_ops (cn_sock cn) then inet_free i w else w
               | None \<Rightarrow> w);
          w = upd_conn i (\<lambda>k. k\<lparr>so_sleeping := False\<rparr>) w
      in (0, release i w))"

definition socket_find :: "nat \<Rightarrow> world \<Rightarrow> nat option" where
  "socket_find i w = find (\<lambda>j. j = i) (w_sockets w)"

definition socket_garbage_collect :: "nat \<Rightarrow> world \<Rightarrow> world" where
  "socket_garbage_collect i w =
     (case socket_find i w of None \<Rightarrow> w | Some i \<Rightarrow> snd (socket_free i w))"

definition abort_sockets :: "world \<Rightarrow> world" where
  "abort_sockets w = fold (\<lambda>i w. snd (on_conn i 0 inet_abort w)) (w_sockets w) w"

definition get_socket :: "int \<Rightarrow> int \<Rightarrow> world \<Rightarrow> nat option" where
  "get_socket pid fd w =
     find (\<lambda>i. case w_conns w i of None \<Rightarrow> False
             | Some cn \<Rightarrow> so_pid (cn_sock cn) = pid \<and> (of_int (so_fd (cn_sock cn)) :: u32) = of_int fd)
       (w_sockets w)"

definition socket_lookup :: "u16 \<Rightarrow> u16 \<Rightarrow> world \<Rightarrow> nat option" where
  "socket_lookup remoteport localport w =
     find (\<lambda>i. case Option.bind (w_conns w i) cn_sk of None \<Rightarrow> False
             | Some k \<Rightarrow> sk_sport k = localport \<and> sk_dport k = remoteport)
       (w_sockets w)"

definition inet_lookup :: "u16 \<Rightarrow> u16 \<Rightarrow> world \<Rightarrow> nat option" where
  "inet_lookup sport dport w = socket_lookup sport dport w"

text \<open>
  \<open>families[domain]\<close> has 128 entries, all NULL but \<open>AF_INET\<close>; an index outside is undefined.
\<close>

definition socket_call :: "int \<Rightarrow> int \<Rightarrow> int \<Rightarrow> int \<Rightarrow> world \<Rightarrow> int \<times> world" where
  "socket_call pid domain type protocol w =
     (let (i, w) = alloc_socket pid w;
          w = upd_conn i (\<lambda>k. k\<lparr>so_type := sint (of_int type :: u16)\<rparr>) w;
          w = check (0 \<le> domain \<and> domain < 128) w
      in if domain \<noteq> 2 then (- 1, snd (socket_free i w))
         else
           (case inet_create protocol (the (w_conns w i)) of
              (rc, cn) \<Rightarrow>
                let w = w\<lparr>w_conns := (w_conns w)(i \<mapsto> cn)\<rparr>
                in if rc \<noteq> 0 then (- 1, snd (socket_free i w))
                   else
                     let w = w\<lparr>w_sockets := w_sockets w @ [i], w_sock_amount := w_sock_amount w + 1\<rparr>;
                         w = acquire i w;
                         rc = so_fd (cn_sock (the (w_conns w i)))
                     in (rc, release i w)))"

text \<open>
  The calls below end with the value to return, or block.  \<open>lock\<close> and \<open>unlock\<close> are the
  \<open>socket_wr_acquire\<close> and \<open>socket_release\<close> around each.
\<close>

datatype call_result = Ret int bytes world | Block_connect nat world | Block_read nat int int bytes world

definition connect_result :: "nat \<Rightarrow> world \<Rightarrow> connect_result \<Rightarrow> call_result" where
  "connect_result i w r =
     (case r of
        Connect_sleep c \<Rightarrow> Block_connect i (unfocus c w)
      | Connect_ret rc c \<Rightarrow>
          let w = unfocus (socket_release c) w
          in if rc \<in> {- EINVAL, - EAFNOSUPPORT, - ECONNREFUSED, - ETIMEDOUT}
             then Ret rc [] (snd (socket_free i w)) else Ret rc [] w)"

definition connect_call :: "int \<Rightarrow> int \<Rightarrow> u32 \<Rightarrow> sockaddr \<Rightarrow> int \<Rightarrow> world \<Rightarrow> call_result" where
  "connect_call pid sockfd generate_iss addr addrlen w =
     (case get_socket pid sockfd w of None \<Rightarrow> Ret (- EBADF) [] w
      | Some i \<Rightarrow>
          (case focus i w of None \<Rightarrow> Ret (- 1) [] (check False w)
           | Some c \<Rightarrow>
               connect_result i w (inet_stream_connect generate_iss addr addrlen (snd (socket_wr_acquire c)))))"

definition connect_wake :: "nat \<Rightarrow> world \<Rightarrow> call_result" where
  "connect_wake i w =
     (case focus i w of None \<Rightarrow> Ret (- 1) [] (check False w)
      | Some c \<Rightarrow> connect_result i w (connect_resume c))"

text \<open>\<open>None\<close>: the loop of \<open>tcp_send\<close> does not end.\<close>

definition write_call :: "int \<Rightarrow> int \<Rightarrow> bytes \<Rightarrow> world \<Rightarrow> (int \<times> world) option" where
  "write_call pid sockfd buf w =
     (case get_socket pid sockfd w of None \<Rightarrow> Some (- EBADF, w)
      | Some i \<Rightarrow>
          (case focus i w of None \<Rightarrow> Some (- 1, check False w)
           | Some c \<Rightarrow>
               map_option (\<lambda>(rc, c). (rc, unfocus (socket_release c) w))
                 (inet_write buf (snd (socket_wr_acquire c)))))"

definition read_result :: "nat \<Rightarrow> int \<Rightarrow> world \<Rightarrow> receive_result \<Rightarrow> call_result" where
  "read_result i len w r =
     (case r of
        Received rc buf c \<Rightarrow> Ret rc buf (unfocus (socket_release c) w)
      | Sleep rlen buf c \<Rightarrow> Block_read i len rlen buf (unfocus c w))"

definition read_call :: "int \<Rightarrow> int \<Rightarrow> int \<Rightarrow> world \<Rightarrow> call_result" where
  "read_call pid sockfd len w =
     (case get_socket pid sockfd w of None \<Rightarrow> Ret (- EBADF) [] w
      | Some i \<Rightarrow>
          (case focus i w of None \<Rightarrow> Ret (- 1) [] (check False w)
           | Some c \<Rightarrow> read_result i len w (inet_read len (snd (socket_wr_acquire c)))))"

definition read_wake :: "nat \<Rightarrow> int \<Rightarrow> int \<Rightarrow> bytes \<Rightarrow> world \<Rightarrow> call_result" where
  "read_wake i len rlen buf w =
     (case focus i w of None \<Rightarrow> Ret (- 1) [] (check False w)
      | Some c \<Rightarrow> read_result i len w (tcp_receive_resume len rlen buf c))"

text \<open>A call that takes the lock, runs and releases it.\<close>

definition locked :: "(tcpctx \<Rightarrow> 'r \<times> tcpctx) \<Rightarrow> tcpctx \<Rightarrow> 'r \<times> tcpctx" where
  "locked f c = (case f (snd (socket_wr_acquire c)) of (r, c) \<Rightarrow> (r, socket_release c))"

definition close_call :: "int \<Rightarrow> int \<Rightarrow> world \<Rightarrow> int \<times> world" where
  "close_call pid sockfd w =
     (case get_socket pid sockfd w of None \<Rightarrow> (- EBADF, w)
      | Some i \<Rightarrow> on_conn i (- 1) (locked inet_close) w)"

record pollfd =
  pf_fd :: int
  pf_events :: u16
  pf_revents :: u16

text \<open>One pass over \<open>fds\<close>: the count of ready ones, or \<open>Inl\<close> when a descriptor is bad.\<close>

fun poll_pass :: "int \<Rightarrow> pollfd list \<Rightarrow> world \<Rightarrow> (int + int) \<times> pollfd list \<times> world" where
  "poll_pass pid [] w = (Inr 0, [], w)"
| "poll_pass pid (p # ps) w =
     (case get_socket pid (pf_fd p) w of None \<Rightarrow> (Inl (- EBADF), p # ps, w)
      | Some i \<Rightarrow>
          let (ev, w) = on_conn i 0 (locked (\<lambda>c. (sk_poll_events (c_sk c), c))) w;
              p = p\<lparr>pf_revents := ev AND (pf_events p OR POLLHUP OR POLLERR OR POLLNVAL)\<rparr>;
              hit = (if sint (pf_revents p) > 0 then 1 else 0);
              (r, ps, w) = poll_pass pid ps w
          in (map_sum (\<lambda>e. e) (\<lambda>n. hit + n) r, p # ps, w))"

text \<open>One round of \<open>_poll\<close>: \<open>Inl\<close> the result, or \<open>Inr\<close> the timeout left, to be tried again.\<close>

definition poll_round :: "int \<Rightarrow> pollfd list \<Rightarrow> int \<Rightarrow> world \<Rightarrow> (int + int) \<times> pollfd list \<times> world" where
  "poll_round pid fds timeout w =
     (case poll_pass pid fds w of
        (Inl e, fds, w) \<Rightarrow> (Inl e, fds, w)
      | (Inr polled, fds, w) \<Rightarrow>
          if polled > 0 \<or> timeout = 0 then (Inl polled, fds, w)
          else (Inr (if timeout > 0 then if timeout > 10 then timeout - 10 else 0 else timeout), fds, w))"

definition fcntl_call :: "int \<Rightarrow> int \<Rightarrow> int \<Rightarrow> int \<Rightarrow> world \<Rightarrow> int \<times> world" where
  "fcntl_call pid fildes cmd arg w =
     (case get_socket pid fildes w of None \<Rightarrow> (- EBADF, w)
      | Some i \<Rightarrow>
          on_conn i (- 1) (locked (\<lambda>c.
            if cmd = 3 then (sint (so_flags (c_sock c)), c)
            else if cmd = 4 then (0, upd_sock (\<lambda>k. k\<lparr>so_flags := of_int arg\<rparr>) c)
            else (- 1, c))) w)"

text \<open>The value stored through \<open>optval\<close>, if any, beside the result.\<close>

definition getsockopt_call :: "int \<Rightarrow> int \<Rightarrow> int \<Rightarrow> int \<Rightarrow> world \<Rightarrow> (int \<times> int option) \<times> world" where
  "getsockopt_call pid fd level optname w =
     (case get_socket pid fd w of None \<Rightarrow> ((- EBADF, None), w)
      | Some i \<Rightarrow>
          on_conn i (- 1, None) (locked (\<lambda>c.
            (if level = 1 then
               if optname = 4 then (0, Some (sk_err (c_sk c))) else (- ENOPROTOOPT, None)
             else (- EINVAL, None), c))) w)"

definition getpeername_call :: "int \<Rightarrow> int \<Rightarrow> world \<Rightarrow> (int \<times> sockaddr option) \<times> world" where
  "getpeername_call pid fd w =
     (case get_socket pid fd w of None \<Rightarrow> ((- EBADF, None), w)
      | Some i \<Rightarrow> on_conn i (- 1, None) (locked (\<lambda>c. ((0, Some (inet_getpeername c)), c))) w)"

definition getsockname_call :: "int \<Rightarrow> int \<Rightarrow> world \<Rightarrow> (int \<times> sockaddr option) \<times> world" where
  "getsockname_call pid fd w =
     (case get_socket pid fd w of None \<Rightarrow> ((- EBADF, None), w)
      | Some i \<Rightarrow> on_conn i (- 1, None) (locked (\<lambda>c. ((0, Some (inet_getsockname c)), c))) w)"

end
