(* ===== verification/Rx.thy ===== *)
theory Rx
  imports Socket
begin

unbundle bit_operations_syntax

text \<open>
  Receiving: \<open>netdev_receive\<close> and a round of \<open>netdev_rx_loop\<close> (\<open>src/netdev.c\<close>), \<open>src/ip_input.c\<close>,
  \<open>src/icmpv4.c\<close>, and \<open>tcp_in\<close> of \<open>src/tcp.c\<close>; and what a thread started by a timer runs.
\<close>

subsection \<open>ICMP\<close>

definition icmp_hdr :: "nat \<Rightarrow> sk_buff \<Rightarrow> icmp_v4" where
  "icmp_hdr off k = dec_icmp_v4 (mread (b_mem k) off 4)"

definition icmpv4_reply :: "nat \<Rightarrow> 'a stack_scheme \<Rightarrow> 'a stack_scheme" where
  "icmpv4_reply b s =
     (let s = touch b s;
          k = deref b s;
          iphdr = ip_hdr k;
          icmp_len = unat (of_int (ip_payload_len iphdr) :: u16);
          k = skb_push icmp_len (skb_reserve (ETH_HDR_LEN + IP_HDR_LEN + icmp_len) k);
          off = nat (b_data k);
          s = check (in_region (b_mem k) (b_data k) 4) s;
          icmp = (icmp_hdr off k)\<lparr>icmp_type := ICMP_V4_REPLY, icmp_csum := 0\<rparr>;
          k = put_bytes off (enc_icmp_v4 icmp) k;
          s = check (in_region (b_mem k) (b_data k) icmp_len) s;
          csum = checksum (mread (b_mem k) off icmp_len) 0;
          k = put_bytes off (enc_icmp_v4 (icmp\<lparr>icmp_csum := csum\<rparr>)) k;
          k = k\<lparr>b_protocol := ucast ICMPV4\<rparr>;
          s = put_skb b k s;
          sk = zero_sock\<lparr>sk_daddr := ip_saddr iphdr\<rparr>;
          (rc, s) = ip_output sk b s
      in free_skb b s)"

definition icmpv4_incoming :: "nat \<Rightarrow> 'a stack_scheme \<Rightarrow> 'a stack_scheme" where
  "icmpv4_incoming b s =
     (let icmp = icmp_hdr (ETH_HDR_LEN + IP_HDR_LEN) (deref b s)
      in if icmp_type icmp = ICMP_V4_ECHO then icmpv4_reply b s else free_skb b s)"

subsection \<open>Segments and datagrams\<close>

definition tcp_in :: "nat \<Rightarrow> world \<Rightarrow> world" where
  "tcp_in b w =
     (let w = touch b w;
          k = tcp_init_segment (ip_hdr (deref b w)) (deref b w);
          w = put_skb b k w;
          th = tcp_hdr k
      in case inet_lookup (th_sport th) (th_dport th) w of
           None \<Rightarrow> free_skb b w
         | Some i \<Rightarrow> snd (on_conn i 0 (locked (tcp_input_state b th)) w))"

definition ip_init_pkt :: "iphdr \<Rightarrow> iphdr" where
  "ip_init_pkt ih =
     ih\<lparr>ip_saddr := ntohl (ip_saddr ih), ip_daddr := ntohl (ip_daddr ih), ip_len := ntohs (ip_len ih),
       ip_id := ntohs (ip_id ih)\<rparr>"

definition ip_accepts :: "sk_buff \<Rightarrow> bool" where
  "ip_accepts k =
     (let ih = ip_hdr k in
      if ip_version ih \<noteq> IPV4 then False
      else if ip_ihl ih < 5 then False
      else if ip_ttl ih = 0 then False
      else checksum (mread (b_mem k) ETH_HDR_LEN (unat (ip_ihl ih) * 4)) 0 = 0)"

definition ip_rcv :: "nat \<Rightarrow> world \<Rightarrow> world" where
  "ip_rcv b w =
     (let w = touch b w; k = deref b w; ih = ip_hdr k in
      if \<not> ip_accepts k then free_skb b w
      else
        let w = put_skb b (put_ip_hdr (ip_init_pkt ih) k) w
        in if ip_proto ih = ICMPV4 then icmpv4_incoming b w
           else if ip_proto ih = IP_TCP then tcp_in b w
           else free_skb b w)"

subsection \<open>Frames\<close>

definition BUFLEN :: nat where "BUFLEN = 1600"

text \<open>\<open>eth_hdr\<close> swaps the ethertype in the buffer.\<close>

definition netdev_receive :: "nat \<Rightarrow> world \<Rightarrow> world" where
  "netdev_receive b w =
     (let k = deref b w;
          ethertype = ntohs (of_le16 (rd8 (b_mem k) 12) (rd8 (b_mem k) 13));
          w = put_skb b (put_bytes 12 (le16 ethertype) k) w
      in if ethertype = ETH_P_ARP then arp_rcv b w
         else if ethertype = ETH_P_IP then ip_rcv b w
         else free_skb b w)"

text \<open>
  One round of \<open>netdev_rx_loop\<close>: \<open>Some frame\<close> is what \<open>tun_read\<close> stored (it stores at most
  \<open>BUFLEN\<close> bytes), \<open>None\<close> a failed read, which ends the loop.
\<close>

definition netdev_rx :: "bytes option \<Rightarrow> world \<Rightarrow> world" where
  "netdev_rx frame w =
     (let (b, w) = alloc_skb BUFLEN w in
      case frame of None \<Rightarrow> free_skb b w
      | Some bs \<Rightarrow> netdev_receive b (put_skb b (put_bytes 0 (take BUFLEN bs) (deref b w)) w))"

subsection \<open>Threads\<close>

definition run_handler :: "handler \<Rightarrow> nat \<Rightarrow> world \<Rightarrow> world" where
  "run_handler h i w =
     (case h of
        H_garbage_collect \<Rightarrow> socket_garbage_collect i w
      | H_connect_rto \<Rightarrow> snd (on_conn i () (\<lambda>c. ((), tcp_connect_rto c)) w)
      | H_retransmission_timeout \<Rightarrow> snd (on_conn i () (\<lambda>c. ((), tcp_retransmission_timeout c)) w)
      | H_send_delack \<Rightarrow> snd (on_conn i () (\<lambda>c. ((), tcp_send_delack c)) w)
      | H_linger \<Rightarrow> snd (on_conn i () (\<lambda>c. ((), tcp_linger c)) w)
      | H_user_timeout \<Rightarrow> snd (on_conn i () (\<lambda>c. ((), tcp_user_timeout c)) w))"

text \<open>The first thread in the queue runs.\<close>

definition run_thread :: "world \<Rightarrow> world" where
  "run_thread w =
     (case s_threads w of [] \<Rightarrow> w
      | (h, i) # ths \<Rightarrow> run_handler h i (w\<lparr>s_threads := ths\<rparr>))"

end
