(* ===== verification/Rx_Icmp.thy ===== *)
theory Rx_Icmp
  imports Rx Ip_Output
begin

unbundle bit_operations_syntax

text \<open>
  The receive path from the tap device: which frames are dropped, and the reply to an ICMP echo
  request, from the frame read to the frame written.
\<close>

lemma mwrite_mid:
  "length ys' = length ys \<Longrightarrow> n = length xs \<Longrightarrow> mwrite (xs @ ys @ zs) n ys' = xs @ ys' @ zs"
  by (simp add: mwrite_def)

lemma mread_mid: "n = length xs \<Longrightarrow> m = length ys \<Longrightarrow> mread (xs @ ys @ zs) n m = ys"
  by (simp add: mread_def)

text \<open>The buffer \<open>netdev_rx\<close> allocates, its bytes being \<open>m\<close>.\<close>

definition rx_skb :: "bytes \<Rightarrow> sk_buff" where
  "rx_skb m = (new_skb BUFLEN)\<lparr>b_mem := m\<rparr>"

definition with_rx :: "bytes \<Rightarrow> world \<Rightarrow> world" where
  "with_rx m w = put_skb (s_bnext w) (rx_skb m) (snd (alloc_skb BUFLEN w))"

lemma with_rx_sel [simp]:
  "live (s_bnext w) (with_rx m w)" "deref (s_bnext w) (with_rx m w) = rx_skb m"
  "put_skb (s_bnext w) (rx_skb m') (with_rx m w) = with_rx m' w"
  "touch (s_bnext w) (with_rx m w) = with_rx m w"
  by (simp_all add: with_rx_def alloc_skb_def put_skb_def live_def deref_def touch_def)

lemma put_bytes_rx [simp]: "put_bytes off bs (rx_skb m) = rx_skb (mwrite m off bs)"
  by (simp add: put_bytes_def rx_skb_def)

lemma b_mem_rx [simp]: "b_mem (rx_skb m) = m" "b_data (rx_skb m) = 0" "b_len (rx_skb m) = 0"
  "b_refcnt (rx_skb m) = 0" "b_protocol (rx_skb m) = 0"
  by (simp_all add: rx_skb_def new_skb_def)

lemma netdev_rx_with:
  assumes "length frame \<le> BUFLEN"
  shows "netdev_rx (Some frame) w =
    netdev_receive (s_bnext w) (with_rx (frame @ replicate (BUFLEN - length frame) 0) w)"
proof -
  have "put_bytes 0 frame (new_skb BUFLEN) = rx_skb (frame @ replicate (BUFLEN - length frame) 0)"
    using assms by (simp add: put_bytes_def rx_skb_def mwrite_def new_skb_def)
  then show ?thesis
    using assms by (simp add: netdev_rx_def Let_def split_beta with_rx_def)
      (simp add: alloc_skb_def deref_def)
qed

lemma receive_ip:
  assumes "length macs = 12"
  shows "netdev_receive (s_bnext w) (with_rx (macs @ be16 ETH_P_IP @ rest) w) =
    ip_rcv (s_bnext w) (with_rx (macs @ le16 ETH_P_IP @ rest) w)"
proof -
  have t: "ntohs (of_le16 (rd8 (macs @ be16 ETH_P_IP @ rest) 12) (rd8 (macs @ be16 ETH_P_IP @ rest) 13)) = ETH_P_IP"
    using assms by (simp add: rd8_append be16_def le16_def of_le16_le16)
  have m: "mwrite (macs @ be16 ETH_P_IP @ rest) 12 (le16 ETH_P_IP) = macs @ le16 ETH_P_IP @ rest"
    using assms by (intro mwrite_mid) simp_all
  have "ETH_P_IP \<noteq> ETH_P_ARP" by code_simp
  then show ?thesis by (simp add: netdev_receive_def Let_def t m)
qed

text \<open>
  What \<open>ip_rcv\<close> requires of a header (its \<open>ihl\<close> being 5), and what it does then.
\<close>

lemma ip_rcv_header:
  assumes "length e = 14" and "ip_ihl ih = 5"
  shows "ip_rcv (s_bnext w) (with_rx (e @ enc_iphdr ih @ rest) w) =
    (if ip_version ih = IPV4 \<and> ip_ttl ih \<noteq> 0 \<and> checksum (enc_iphdr ih) 0 = 0
     then let w' = with_rx (e @ enc_iphdr (ip_init_pkt ih) @ rest) w
          in if ip_proto ih = ICMPV4 then icmpv4_incoming (s_bnext w) w'
             else if ip_proto ih = IP_TCP then tcp_in (s_bnext w) w' else free_skb (s_bnext w) w'
     else free_skb (s_bnext w) (with_rx (e @ enc_iphdr ih @ rest) w))"
proof -
  have h: "ip_hdr (rx_skb (e @ enc_iphdr ih @ rest)) = ih"
    using assms by (simp add: ip_hdr_def mread_def enc_simps)
  have r: "mread (e @ enc_iphdr ih @ rest) 14 20 = enc_iphdr ih"
    using assms by (intro mread_mid) simp_all
  have m: "mwrite (e @ enc_iphdr ih @ rest) 14 (enc_iphdr (ip_init_pkt ih)) = e @ enc_iphdr (ip_init_pkt ih) @ rest"
    using assms by (intro mwrite_mid) simp_all
  show ?thesis
    using assms(2) by (simp add: ip_rcv_def Let_def ip_accepts_def h r m)
qed

definition echo_reply :: "u8 \<Rightarrow> bytes \<Rightarrow> bytes" where
  "echo_reply code body =
     [ICMP_V4_REPLY, code] @ le16 (checksum ([ICMP_V4_REPLY, code] @ le16 0 @ body) 0) @ body"

lemma echo_reply_verifies:
  assumes "length body \<le> BUFLEN"
  shows "checksum (echo_reply code body) 0 = 0"
proof -
  let ?S = "[ICMP_V4_REPLY, code] @ le16 0 @ body"
  have "(length ?S + 1) div 2 \<le> 803" using assms by (simp add: BUFLEN_def)
  then have "65535 * ((length ?S + 1) div 2) \<le> 65535 * 803" by (rule mult_le_mono2)
  then have "wsum ?S \<le> 65535 * 803" using order_trans [OF wsum_bound [of ?S]] by blast
  then show ?thesis unfolding echo_reply_def by (intro checksum_fill) simp_all
qed

lemma icmpv4_reply_eq:
  assumes e: "length e = 14" and ih: "ip_ihl ih = 5" "unat (ip_len ih) = 24 + length body" "length body \<le> BUFLEN"
    and M: "M = e @ enc_iphdr ih @ [t, code] @ le16 cs @ body @ pad"
  shows "\<exists>k. icmpv4_reply (s_bnext w) (with_rx M w) =
      free_skb (s_bnext w) (snd (ip_output (zero_sock\<lparr>sk_daddr := ip_saddr ih\<rparr>) (s_bnext w)
         (put_skb (s_bnext w) k (with_rx M w))))
    \<and> b_mem k = e @ enc_iphdr ih @ echo_reply code body @ pad \<and> b_data k = 34
    \<and> unat (b_len k) = 4 + length body \<and> b_refcnt k = 0 \<and> b_protocol k = ucast ICMPV4"
proof -
  let ?m = "4 + length body" and ?b = "s_bnext w"
  have h: "ip_hdr (rx_skb M) = ih" using e by (simp add: M ip_hdr_def mread_def enc_simps)
  have pl: "unat (of_int (ip_payload_len ih) :: u16) = ?m"
  proof -
    have "ip_payload_len ih = int ?m" using ih by (simp add: ip_payload_len_def)
    moreover have "unat (of_nat ?m :: u16) = ?m"
      using ih(3) by (simp add: unat_of_nat BUFLEN_def del: of_nat_add)
    ultimately show ?thesis by simp
  qed
  have un: "unat (of_nat ?m :: u32) = ?m"
    using ih(3) by (simp add: unat_of_nat BUFLEN_def del: of_nat_add)
  define k0 where "k0 = skb_push ?m (skb_reserve (14 + 20 + ?m) (rx_skb M))"
  have k0: "b_mem k0 = M" "b_data k0 = 34" "b_len k0 = of_nat ?m" "b_refcnt k0 = 0"
    by (simp_all add: k0_def skb_reserve_def)
  have rd: "icmp_hdr 34 k0 = \<lparr>icmp_type = t, icmp_code = code, icmp_csum = cs\<rparr>"
    using e by (simp add: icmp_hdr_def k0 M mread_def dec_icmp_v4_def le16_def enc_simps)
  have w1: "mwrite M 34 ([0, code] @ le16 x) = e @ enc_iphdr ih @ [0, code] @ le16 x @ body @ pad" for x
    using e mwrite_mid [of "[0, code] @ le16 x" "[t, code] @ le16 cs" 34 "e @ enc_iphdr ih" "body @ pad"]
    by (simp add: M)
  have w2: "mwrite (e @ enc_iphdr ih @ [0, code] @ le16 y @ body @ pad) 34 ([0, code] @ le16 x) =
      e @ enc_iphdr ih @ [0, code] @ le16 x @ body @ pad" for x y
    using e mwrite_mid [of "[0, code] @ le16 x" "[0, code] @ le16 y" 34 "e @ enc_iphdr ih" "body @ pad"] by simp
  have r1: "mread (e @ enc_iphdr ih @ [0, code] @ le16 0 @ body @ pad) 34 ?m = [0, code] @ le16 0 @ body"
    using e mread_mid [of 34 "e @ enc_iphdr ih" ?m "[0, code] @ le16 0 @ body" pad] by simp
  let ?c = "checksum ([0, code] @ le16 0 @ body) 0"
  let ?k = "(put_bytes 34 ([0, code] @ le16 ?c) (put_bytes 34 ([0, code] @ le16 0) k0))\<lparr>b_protocol := ucast ICMPV4\<rparr>"
  have lenM: "34 + ?m \<le> length M" using e by (simp add: M)
  have "icmpv4_reply ?b (with_rx M w) =
      free_skb ?b (snd (ip_output (zero_sock\<lparr>sk_daddr := ip_saddr ih\<rparr>) ?b (put_skb ?b ?k (with_rx M w))))"
    unfolding icmpv4_reply_def Let_def with_rx_sel h pl k0_def [symmetric] k0(1,2)
    using lenM k0 e
    by (simp add: rd in_region_def split_beta enc_icmp_v4_def ICMP_V4_REPLY_def b_mem_put_bytes w1 r1
        del: append_Cons append_Nil)
  moreover have "b_mem ?k = e @ enc_iphdr ih @ echo_reply code body @ pad"
    by (simp add: b_mem_put_bytes k0 w1 w2 del: append_Cons append_Nil)
      (simp add: echo_reply_def ICMP_V4_REPLY_def)
  ultimately show ?thesis using k0 un by (intro exI [of _ ?k]) simp
qed

definition echo_frame :: "bytes \<Rightarrow> iphdr \<Rightarrow> u8 \<Rightarrow> u16 \<Rightarrow> bytes \<Rightarrow> bytes" where
  "echo_frame macs ih code cs body =
     macs @ be16 ETH_P_IP @ enc_iphdr ih @ [ICMP_V4_ECHO, code] @ le16 cs @ body"

lemma length_echo_frame: "length macs = 12 \<Longrightarrow> length (echo_frame macs ih code cs body) = 38 + length body"
  by (simp add: echo_frame_def)

text \<open>
  C24: An echo request read from the tap device, whose IP header verifies, is answered by one
  frame: to the sender's address, with the code and data of the request, of type echo reply, and
  both the IP and the ICMP checksum verify; afterwards no buffer is left over.
\<close>

theorem icmp_echo_replied:
  assumes "length macs = 12" and "ip_version ih = IPV4" "ip_ihl ih = 5" "ip_ttl ih \<noteq> 0" "ip_proto ih = ICMPV4"
    and "checksum (enc_iphdr ih) 0 = 0" and "unat (ntohs (ip_len ih)) = 24 + length body"
    and "38 + length body \<le> BUFLEN" and "heap_ok w"
    and "route_lookup (ntohl (ip_saddr ih)) w = Some rt" "netdev_ok (rt_dev rt)"
    and "arp_get_hwaddr (next_hop rt (ntohl (ip_saddr ih))) (s_arp_cache w) = Some dmac" "length dmac = 6"
  shows "\<exists>F. let w' = netdev_rx (Some (echo_frame macs ih code cs body)) w in
      s_tap w' = s_tap w @ [F] \<and> mread F 0 6 = dmac
    \<and> checksum (mread F 14 20) 0 = 0 \<and> ip_daddr (dec_iphdr (mread F 14 20)) = ip_saddr ih
    \<and> mread F 34 2 = [ICMP_V4_REPLY, code] \<and> drop 38 F = body \<and> checksum (drop 34 F) 0 = 0
    \<and> s_skbs w' = s_skbs w \<and> s_fault w' = s_fault w"
proof -
  let ?b = "s_bnext w" and ?frame = "echo_frame macs ih code cs body" and ?ih = "ip_init_pkt ih"
  define pad where "pad = replicate (BUFLEN - length ?frame) (0 :: u8)"
  define e where "e = macs @ le16 ETH_P_IP"
  define M where "M = e @ enc_iphdr ?ih @ [ICMP_V4_ECHO, code] @ le16 cs @ body @ pad"
  have lf: "length ?frame \<le> BUFLEN" using assms(1,8) by (simp add: length_echo_frame)
  have le: "length e = 14" using assms(1) by (simp add: e_def)
  have i: "ip_ihl ?ih = 5" "ip_len ?ih = ntohs (ip_len ih)" "ip_saddr ?ih = ntohl (ip_saddr ih)"
    using assms(3) by (simp_all add: ip_init_pkt_def)
  have lb: "length body \<le> BUFLEN" using assms(8) by simp
  have "netdev_rx (Some ?frame) w = ip_rcv ?b (with_rx (e @ enc_iphdr ih @ [ICMP_V4_ECHO, code] @ le16 cs @ body @ pad) w)"
    unfolding netdev_rx_with [OF lf] pad_def [symmetric]
    using receive_ip [OF assms(1), of w "enc_iphdr ih @ [ICMP_V4_ECHO, code] @ le16 cs @ body @ pad"]
    by (simp add: echo_frame_def e_def)
  also have "\<dots> = icmpv4_incoming ?b (with_rx M w)"
    unfolding ip_rcv_header [OF le assms(3)] M_def using assms(2,4-6) by (simp add: Let_def)
  also have "\<dots> = icmpv4_reply ?b (with_rx M w)"
  proof -
    have "icmp_type (icmp_hdr 34 (rx_skb M)) = ICMP_V4_ECHO"
      using le by (simp add: icmp_hdr_def M_def mread_def dec_icmp_v4_def)
    then show ?thesis by (simp add: icmpv4_incoming_def Let_def)
  qed
  finally have rx: "netdev_rx (Some ?frame) w = icmpv4_reply ?b (with_rx M w)" .
  let ?sk = "zero_sock\<lparr>sk_daddr := ip_saddr ?ih\<rparr>"
  obtain k where k: "icmpv4_reply ?b (with_rx M w) = free_skb ?b (snd (ip_output ?sk ?b (put_skb ?b k (with_rx M w))))"
    "b_mem k = e @ enc_iphdr ?ih @ echo_reply code body @ pad" "b_data k = 34" "unat (b_len k) = 4 + length body"
    "b_refcnt k = 0"
    using icmpv4_reply_eq [OF le i(1) _ lb M_def, of w] assms(7) i(2) by auto
  define w2 where "w2 = put_skb ?b k (with_rx M w)"
  have w2: "live ?b w2" "deref ?b w2 = k" by (simp_all add: w2_def)
  have hw: "heap_ok w2" "s_skbs w2 = (s_skbs w)(?b \<mapsto> k)" "s_tap w2 = s_tap w" "s_fault w2 = s_fault w"
    "s_routes w2 = s_routes w" "s_arp_cache w2 = s_arp_cache w" "s_skbs w ?b = None"
    using assms(9) heap_ok_fresh [OF assms(9)]
    by (auto simp: w2_def with_rx_def put_skb_def alloc_skb_def live_def heap_ok_def less_Suc_eq split: if_splits)
  have lm: "34 + (4 + length body) \<le> length (b_mem k)" using le by (simp add: k(2) echo_reply_def)
  have rdy: "ip_ready ?b (4 + length body) w2"
    using w2 k(3,4) lm lb by (simp add: ip_ready_def BUFLEN_def)
  have rt: "route_lookup (sk_daddr ?sk) w2 = Some rt"
    "arp_get_hwaddr (next_hop rt (sk_daddr ?sk)) (s_arp_cache w2) = Some dmac"
    using assms(10,12) by (simp_all add: i(3) route_lookup_def hw(5,6))
  obtain F where F: "s_tap (snd (ip_output ?sk ?b w2)) = s_tap w @ [F]" "length F = 34 + (4 + length body)"
    "mread F 0 14 = dmac @ nd_hwaddr (rt_dev rt) @ be16 ETH_P_IP" "checksum (mread F 14 20) 0 = 0"
    "ntohl (ip_daddr (dec_iphdr (mread F 14 20))) = ip_saddr ?ih"
    "drop 34 F = take (4 + length body) (drop 34 (b_mem k))"
    "s_fault (snd (ip_output ?sk ?b w2)) = s_fault w"
    using ip_output_sends [OF rdy rt(1) assms(11) rt(2) assms(13)] unfolding w2(2) hw(3,4) by auto
  let ?w3 = "snd (ip_output ?sk ?b w2)"
  have d34: "drop 34 F = echo_reply code body"
  proof -
    have lr: "length (echo_reply code body) = 4 + length body" by (simp add: echo_reply_def)
    have "drop 34 (b_mem k) = echo_reply code body @ pad" using le by (simp add: k(2))
    then show ?thesis unfolding F(6) by (simp add: lr)
  qed
  have kp: "live ?b ?w3" "b_refcnt (deref ?b ?w3) = 0"
    using ip_output_keeps [OF hw(1), of ?b ?sk] w2 k(5) by (simp_all add: tx_keeps_def same_skb_def)
  have fr: "b' \<noteq> ?b \<Longrightarrow> s_skbs ?w3 b' = s_skbs w2 b'" for b'
    using ip_output_frame [of ?b "{?b}" w2 ?sk] hw(1) by (simp add: tx_frame_def)
  have sk: "s_skbs (free_skb ?b ?w3) = s_skbs w"
    using kp fr hw(2,7) by (auto simp: free_skb_live fun_eq_iff)
  have dm: "mread F 0 6 = dmac"
  proof -
    have "take 6 (mread F 0 14) = take 6 (dmac @ nd_hwaddr (rt_dev rt) @ be16 ETH_P_IP)" unfolding F(3) ..
    then show ?thesis using assms(13) by (simp add: mread_def)
  qed
  have ic: "mread F 34 2 = [ICMP_V4_REPLY, code]" by (simp add: mread_def d34 echo_reply_def)
  have "drop 4 (drop 34 F) = body" unfolding d34 by (simp add: echo_reply_def)
  then have bd: "drop 38 F = body" by simp
  have da: "ip_daddr (dec_iphdr (mread F 14 20)) = ip_saddr ih" using F(5) unfolding i(3) by simp
  show ?thesis
    unfolding Let_def rx k(1) w2_def [symmetric]
    by (intro exI [of _ F] conjI)
      (use F(1,4,7) dm ic bd da sk kp(1) d34 echo_reply_verifies [OF lb, of code] in simp_all)
qed

text \<open>The stack after start-up, knowing its gateway's hardware address, and a request from there.\<close>

definition world_demo :: world where
  "world_demo = stack.extend
     ((booted (\<lambda>f. int (length f)))
        \<lparr>s_arp_cache := [\<lparr>ae_hwtype = 1, ae_sip = 0x0a000005, ae_smac = [2, 0, 0, 0, 0, 1],
                          ae_state = ARP_RESOLVED\<rparr>]\<rparr>)
     (world.fields 40000 3 0 [] (\<lambda>_. None) 0)"

definition ping_ih :: iphdr where
  "ping_ih = ip_fill \<lparr>ip_ihl = 5, ip_version = IPV4, ip_tos = 0, ip_len = htons 26, ip_id = 7,
     ip_frag_offset = 0, ip_ttl = 64, ip_proto = ICMPV4, ip_csum = 0, ip_saddr = htonl 0x08080808,
     ip_daddr = htonl 0x0a000004\<rparr>"

lemma world_demo_sel [simp]:
  "s_tap world_demo = []" "s_skbs world_demo = (\<lambda>_. None)" "s_bnext world_demo = 0" "s_fault world_demo = False"
  "s_arp_cache world_demo = [\<lparr>ae_hwtype = 1, ae_sip = 0x0a000005, ae_smac = [2, 0, 0, 0, 0, 1], ae_state = ARP_RESOLVED\<rparr>]"
  "s_routes world_demo = s_routes (booted (\<lambda>f. int (length f)))"
  by (simp_all add: world_demo_def stack.defs world.defs)

theorem icmp_echo_replied_witness:
  "\<exists>F. s_tap (netdev_rx (Some (echo_frame (replicate 12 1) ping_ih 0 5 [9, 9])) world_demo) = [F]
    \<and> drop 38 F = [9, 9] \<and> checksum (drop 34 F) 0 = 0"
proof -
  have ih: "ip_version ping_ih = IPV4" "ip_ihl ping_ih = 5" "ip_ttl ping_ih \<noteq> 0" "ip_proto ping_ih = ICMPV4"
    "ip_len ping_ih = htons 26" "ip_saddr ping_ih = htonl 0x08080808" "checksum (enc_iphdr ping_ih) 0 = 0"
    unfolding ping_ih_def ip_fill_verifies by (simp_all add: ip_fill_def)
  have len: "unat (ntohs (ip_len ping_ih)) = 24 + length [9 :: u8, 9]" by (simp add: ih)
  have rt: "route_lookup (ntohl (ip_saddr ping_ih)) world_demo = Some (route_alloc 0 0x0a000005 0 RT_GATEWAY 0 tap_dev)"
    using out_demo_route by (simp add: ih route_lookup_def out_demo_def)
  have arp: "arp_get_hwaddr (next_hop (route_alloc 0 0x0a000005 0 RT_GATEWAY 0 tap_dev) (ntohl (ip_saddr ping_ih)))
      (s_arp_cache world_demo) = Some [2, 0, 0, 0, 0, 1]"
    by (simp add: out_demo_hop)
  have "heap_ok world_demo" by (simp add: heap_ok_def live_def)
  then show ?thesis
    using icmp_echo_replied [OF _ ih(1-4,7) len _ _ rt _ arp, of "replicate 12 1" 0 5]
    unfolding Let_def by (auto simp: route_alloc_def BUFLEN_def)
qed

subsection \<open>Frames that are dropped\<close>

text \<open>The bytes of a frame in the receive buffer, and the frames the stack is not to handle.\<close>

definition rx_mem :: "bytes \<Rightarrow> bytes" where
  "rx_mem frame = frame @ replicate (BUFLEN - length frame) 0"

definition rejected :: "bytes \<Rightarrow> bool" where
  "rejected m \<longleftrightarrow>
     (let et = of_le16 (rd8 m 13) (rd8 m 12); ih = dec_iphdr (mread m 14 20)
      in et \<noteq> ETH_P_ARP \<and> (et = ETH_P_IP \<longrightarrow>
           ip_version ih \<noteq> IPV4 \<or> ip_ihl ih < 5 \<or> ip_ttl ih = 0
           \<or> checksum (mread m 14 (4 * unat (ip_ihl ih))) 0 \<noteq> 0
           \<or> (ip_proto ih \<noteq> ICMPV4 \<and> ip_proto ih \<noteq> IP_TCP)
           \<or> ip_proto ih = ICMPV4 \<and> rd8 m 34 \<noteq> ICMP_V4_ECHO))"

lemma free_with_rx:
  assumes "heap_ok w"
  shows "free_skb (s_bnext w) (with_rx m w) = w\<lparr>s_bnext := Suc (s_bnext w)\<rparr>"
proof -
  have "s_skbs w (s_bnext w) = None" using heap_ok_fresh [OF assms] by (simp add: live_def)
  then have "(s_skbs w)(s_bnext w := None) = s_skbs w" by auto
  then show ?thesis
    by (simp add: free_skb_live) (simp add: with_rx_def put_skb_def alloc_skb_def live_def)
qed

lemma rd8_mread: "i < n \<Longrightarrow> rd8 (mread m k n) i = rd8 m (k + i)"
  by (auto simp: rd8_def mread_def)

text \<open>
  C25: A frame that is neither ARP nor IP, an IP datagram of another version, with a header shorter
  than 20 bytes, an expired TTL or a wrong header checksum, of another protocol than ICMP and TCP,
  or an ICMP message that is no echo request is dropped: the buffer is freed and nothing else of
  the stack, its connections included, changes.
\<close>

theorem invalid_frames_dropped:
  assumes "heap_ok w" and "length frame \<le> BUFLEN" and "rejected (rx_mem frame)"
  shows "netdev_rx (Some frame) w = w\<lparr>s_bnext := Suc (s_bnext w)\<rparr>"
proof -
  let ?b = "s_bnext w"
  define m where "m = rx_mem frame"
  define et where "et = of_le16 (rd8 m 13) (rd8 m 12)"
  define m1 where "m1 = mwrite m 12 (le16 et)"
  define ih where "ih = dec_iphdr (mread m 14 20)"
  have len: "length m = 1600" using assms(2) by (simp add: m_def rx_mem_def BUFLEN_def)
  have rx: "netdev_rx (Some frame) w = netdev_receive ?b (with_rx m w)"
    using netdev_rx_with [OF assms(2)] by (simp add: m_def rx_mem_def)
  have e: "ntohs (of_le16 (rd8 m 12) (rd8 m 13)) = et" by (simp add: et_def bswap16_of_le16)
  have rd: "mread m1 k n = mread m k n" if "14 \<le> k" for k n
    using that by (simp add: m1_def mem_simps)
  have h: "ip_hdr (rx_skb m1) = ih" by (simp add: ip_hdr_def rd ih_def)
  have rej: "et \<noteq> ETH_P_ARP" "et = ETH_P_IP \<Longrightarrow> ip_version ih \<noteq> IPV4 \<or> ip_ihl ih < 5 \<or> ip_ttl ih = 0
      \<or> checksum (mread m 14 (4 * unat (ip_ihl ih))) 0 \<noteq> 0 \<or> (ip_proto ih \<noteq> ICMPV4 \<and> ip_proto ih \<noteq> IP_TCP)
      \<or> ip_proto ih = ICMPV4 \<and> rd8 m 34 \<noteq> ICMP_V4_ECHO"
    using assms(3) unfolding rejected_def Let_def et_def ih_def m_def by auto
  have drop: "free_skb ?b (with_rx x w) = w\<lparr>s_bnext := Suc ?b\<rparr>" for x
    by (rule free_with_rx [OF assms(1)])
  have step: "netdev_receive ?b (with_rx m w) =
      (if et = ETH_P_IP then ip_rcv ?b (with_rx m1 w) else free_skb ?b (with_rx m1 w))"
    using rej(1) by (simp add: netdev_receive_def Let_def e m1_def)
  show ?thesis
  proof (cases "et = ETH_P_IP")
    case False
    then show ?thesis by (simp add: rx step drop)
  next
    case True
    define m2 where "m2 = mwrite m1 14 (enc_iphdr (ip_init_pkt ih))"
    have ty: "icmp_type (icmp_hdr 34 (rx_skb m2)) = rd8 m 34"
      by (simp add: icmp_hdr_def dec_icmp_v4_def m2_def mem_simps rd rd8_mread)
    have "ip_rcv ?b (with_rx m1 w) = w\<lparr>s_bnext := Suc ?b\<rparr>"
    proof (cases "ip_accepts (rx_skb m1)")
      case False
      then show ?thesis by (simp add: ip_rcv_def Let_def drop)
    next
      case acc: True
      then have "(ip_proto ih \<noteq> ICMPV4 \<and> ip_proto ih \<noteq> IP_TCP) \<or> ip_proto ih = ICMPV4 \<and> rd8 m 34 \<noteq> ICMP_V4_ECHO"
        using rej(2) [OF True] by (auto simp: ip_accepts_def Let_def h rd mult.commute split: if_splits)
      moreover have "ip_proto ih = ICMPV4 \<Longrightarrow> rd8 m 34 \<noteq> ICMP_V4_ECHO \<Longrightarrow>
          icmpv4_incoming ?b (with_rx m2 w) = w\<lparr>s_bnext := Suc ?b\<rparr>"
        by (simp add: icmpv4_incoming_def Let_def ty drop)
      ultimately show ?thesis
        using acc by (auto simp: ip_rcv_def Let_def h m2_def [symmetric] drop)
    qed
    then show ?thesis using True by (simp add: rx step)
  qed
qed

theorem invalid_frames_dropped_witness:
  "netdev_rx (Some (replicate 12 1 @ [0x86, 0xdd, 0x60, 0])) world_demo = world_demo\<lparr>s_bnext := 1\<rparr>"
proof -
  have "rejected (rx_mem (replicate 12 1 @ [0x86, 0xdd, 0x60, 0]))"
  proof -
    have "rd8 (rx_mem (replicate 12 1 @ [0x86, 0xdd, 0x60, 0])) 12 = 0x86"
      "rd8 (rx_mem (replicate 12 1 @ [0x86, 0xdd, 0x60, 0])) 13 = 0xdd"
      by (simp_all add: rx_mem_def rd8_append)
    moreover have "of_le16 0xdd 0x86 \<noteq> ETH_P_ARP" "of_le16 0xdd 0x86 \<noteq> ETH_P_IP" by code_simp+
    ultimately show ?thesis by (simp add: rejected_def Let_def)
  qed
  moreover have "heap_ok world_demo" by (simp add: heap_ok_def live_def)
  ultimately show ?thesis using invalid_frames_dropped [of world_demo] by (simp add: BUFLEN_def)
qed

end
