(* ===== verification/Tcp_Wire.thy ===== *)
theory Tcp_Wire
  imports Tcp_Transfer Rx_Icmp
begin

unbundle bit_operations_syntax

text \<open>
  Two hosts: a frame that \<open>tcp_transmit_skb\<close> writes on one is, read from the tap device of the other,
  the segment that was sent, handed to the connection the ports name.
\<close>

subsection \<open>The frame\<close>

text \<open>A segment of \<open>len\<close> bytes in a datagram with the source of the route's device.\<close>

definition wire_ih :: "tcp_sock \<Rightarrow> rtentry \<Rightarrow> nat \<Rightarrow> u16 \<Rightarrow> iphdr" where
  "wire_ih k rt len ident = ip_fill (ip_header k rt IP_TCP (of_nat (20 + len)) ident)"

lemma wire_ih_sel [simp]:
  "ip_version (wire_ih k rt len ident) = IPV4" "ip_ihl (wire_ih k rt len ident) = 5"
  "ip_ttl (wire_ih k rt len ident) \<noteq> 0" "ip_proto (wire_ih k rt len ident) = IP_TCP"
  "ip_len (wire_ih k rt len ident) = htons (of_nat (20 + len))"
  "checksum (enc_iphdr (wire_ih k rt len ident)) 0 = 0"
  unfolding wire_ih_def ip_fill_verifies by (simp_all add: ip_fill_def ip_header_def)

definition wire_frame :: "bytes \<Rightarrow> iphdr \<Rightarrow> bytes \<Rightarrow> bytes" where
  "wire_frame macs ih seg = macs @ be16 ETH_P_IP @ enc_iphdr ih @ seg"

lemma transmit_wire:
  fixes seq :: u32
  assumes "tcp_ready b n c" and "route_lookup (sk_daddr (c_sk c)) c = Some rt" "netdev_ok (rt_dev rt)"
    and "arp_get_hwaddr (next_hop rt (sk_daddr (c_sk c))) (s_arp_cache c) = Some dmac" "length dmac = 6"
    and "b_protocol (deref b c) = ucast IP_TCP"
  defines "seg \<equiv> tcp_segment (c_sk c) seq (tcp_hdr (deref b c)) (seg_body n (deref b c))"
  shows "\<exists>ident. s_tap (snd (tcp_transmit_skb b seq c)) =
      s_tap c @ [wire_frame (dmac @ nd_hwaddr (rt_dev rt)) (wire_ih (c_sk c) rt (length seg) ident) seg]"
proof -
  let ?h = "4 * hdr_words (deref b c)"
  obtain c2 h k' where t: "tcp_transmit_skb b seq c = ip_output (c_sk c) b c2" "ip_ready b (?h + n) c2"
    "take (?h + n) (drop 34 (b_mem (deref b c2))) = seg"
    "deref b c2 = skb_push ?h (put_tcp_hdr h (deref b c))" "c2 = put_skb b k' c"
    using tcp_transmit_ready [OF assms(1), of seq] unfolding seg_def by blast
  have live: "live b c" using assms(1) by (simp add: tcp_ready_def)
  then have c2: "s_arp_cache c2 = s_arp_cache c" "s_tap c2 = s_tap c" "route_lookup d c2 = route_lookup d c" for d
    using t(5) by (simp_all add: route_lookup_def)
  have "(ucast (ucast IP_TCP :: u16) :: u8) = IP_TCP" by code_simp
  then have p: "ucast (b_protocol (deref b c2)) = IP_TCP"
    using assms(6) by (simp add: t(4))
  show ?thesis
    unfolding t(1) ip_output_resolved [OF t(2) assms(2) [folded c2(3)] assms(3) assms(4) [folded c2(1)] assms(5)]
    by (rule exI [of _ "ip_id (ip_hdr (deref b c2))"])
      (simp add: p t(3) c2(2) wire_frame_def wire_ih_def eth_frame_def ip_datagram_def)
qed

subsection \<open>The segment at the other end\<close>

text \<open>What \<open>tcp_in\<close> makes of a segment \<open>seg\<close> behind the link and IP headers.\<close>

definition seg_mem :: "bytes \<Rightarrow> iphdr \<Rightarrow> bytes \<Rightarrow> bytes" where
  "seg_mem macs ih seg =
     macs @ le16 ETH_P_IP @ enc_iphdr (ip_init_pkt ih) @ seg @ replicate (BUFLEN - (34 + length seg)) 0"

lemma with_rx_eq: "with_rx m w = w\<lparr>s_skbs := (s_skbs w)(s_bnext w \<mapsto> rx_skb m), s_bnext := Suc (s_bnext w)\<rparr>"
  by (simp add: with_rx_def alloc_skb_def put_skb_def live_def)

lemma focus_arrive:
  assumes "focus i w = Some d"
  shows "focus i (put_skb (s_bnext w) k (with_rx m w)) = Some (arrive k d)"
    and "inet_lookup p q (put_skb (s_bnext w) k (with_rx m w)) = inet_lookup p q w"
    and "unfocus c (put_skb (s_bnext w) k (with_rx m w)) = unfocus c w" "s_bnext d = s_bnext w"
proof -
  let ?w = "w\<lparr>s_skbs := (s_skbs w)(s_bnext w \<mapsto> k), s_bnext := Suc (s_bnext w)\<rparr>"
  have w: "put_skb (s_bnext w) k (with_rx m w) = ?w" by (simp add: with_rx_eq put_skb_def live_def)
  show "focus i (put_skb (s_bnext w) k (with_rx m w)) = Some (arrive k d)" "s_bnext d = s_bnext w"
    using assms unfolding w
    by (auto simp: focus_def arrive_def stack.defs tcpctx.defs split: Option.bind_splits)
  show "inet_lookup p q (put_skb (s_bnext w) k (with_rx m w)) = inet_lookup p q w"
    unfolding w by (simp add: inet_lookup_def socket_lookup_def)
  show "unfocus c (put_skb (s_bnext w) k (with_rx m w)) = unfocus c w"
    unfolding w by (simp add: unfocus_def Let_def)
qed

lemma netdev_rx_segment:
  fixes seg macs :: bytes and ih :: iphdr
  defines "th \<equiv> tcp_ntoh (dec_tcphdr (take 20 seg))"
    and "k \<equiv> tcp_init_segment (ip_init_pkt ih) (rx_skb (seg_mem macs ih seg))"
  assumes "length macs = 12" and "ip_version ih = IPV4" "ip_ihl ih = 5" "ip_ttl ih \<noteq> 0" "ip_proto ih = IP_TCP"
    and "checksum (enc_iphdr ih) 0 = 0" and "20 \<le> length seg" "34 + length seg \<le> BUFLEN"
    and "inet_lookup (th_sport th) (th_dport th) w = Some i" "focus i w = Some d"
  shows "netdev_rx (Some (wire_frame macs ih seg)) w =
    unfocus (snd (locked (tcp_input_state (s_bnext w) th) (arrive k d))) w"
proof -
  let ?b = "s_bnext w" and ?M = "seg_mem macs ih seg" and ?F = "wire_frame macs ih seg"
  let ?pad = "replicate (BUFLEN - (34 + length seg)) (0 :: u8)"
  have lf: "length ?F = 34 + length seg" using assms(3) by (simp add: wire_frame_def)
  have ip: "ip_hdr (rx_skb ?M) = ip_init_pkt ih"
    using assms(3) by (simp add: ip_hdr_def seg_mem_def mread_def enc_simps)
  have hd: "tcp_hdr (rx_skb ?M) = dec_tcphdr (take 20 seg)"
    using assms(3,9) by (simp add: tcp_hdr_def seg_mem_def mread_def)
  have "54 \<le> length ?M" using assms(3,9) by (simp add: seg_mem_def)
  then have "tcp_hdr (put_tcp_hdr th (rx_skb ?M)) = th" by (intro tcp_hdr_put) simp
  then have th: "tcp_hdr k = th"
    unfolding k_def tcp_init_segment_def Let_def hd th_def [symmetric] by (simp add: tcp_hdr_def)
  have "netdev_rx (Some ?F) w = netdev_receive ?b (with_rx (macs @ be16 ETH_P_IP @ enc_iphdr ih @ seg @ ?pad) w)"
    using assms(10) lf by (subst netdev_rx_with) (simp_all add: wire_frame_def add.assoc)
  also have "\<dots> = ip_rcv ?b (with_rx ((macs @ le16 ETH_P_IP) @ enc_iphdr ih @ seg @ ?pad) w)"
    using receive_ip [OF assms(3), of w "enc_iphdr ih @ seg @ ?pad"] by simp
  also have "\<dots> = tcp_in ?b (with_rx ?M w)"
  proof -
    have "IP_TCP \<noteq> ICMPV4" by code_simp
    with ip_rcv_header [of "macs @ le16 ETH_P_IP" ih w "seg @ ?pad"] assms(3-8) show ?thesis
      by (simp add: seg_mem_def Let_def)
  qed
  also have "\<dots> = snd (on_conn i 0 (locked (tcp_input_state ?b th)) (put_skb ?b k (with_rx ?M w)))"
    using focus_arrive(2) [OF assms(12), where k = k and m = ?M] assms(11)
    by (simp add: tcp_in_def Let_def ip k_def [symmetric] th)
  finally show ?thesis
    by (simp add: on_conn_def focus_arrive [OF assms(12)] split_beta)
qed

text \<open>The fields of the buffer, when the datagram is as long as the segment.\<close>

lemma init_segment_sel:
  fixes seg macs :: bytes and ih :: iphdr
  defines "th \<equiv> tcp_ntoh (dec_tcphdr (take 20 seg))"
    and "k \<equiv> tcp_init_segment (ip_init_pkt ih) (rx_skb (seg_mem macs ih seg))"
  assumes "length macs = 12" and "ip_ihl ih = 5" "ip_len ih = htons (of_nat (20 + length seg))"
    and "length seg = 4 * unat (th_hl th) + n" "5 \<le> unat (th_hl th)" "34 + length seg \<le> BUFLEN"
  shows "b_seq k = th_seq th" "unat (b_dlen k) = n" "b_end_seq k = th_seq th + of_nat n" "b_refcnt k = 0"
    "payload k = take n (drop 20 seg)" "data_ok k"
proof -
  let ?M = "seg_mem macs ih seg"
  have small: "length seg \<le> 1566" using assms(8) by (simp add: BUFLEN_def)
  have hd: "tcp_hdr (rx_skb ?M) = dec_tcphdr (take 20 seg)"
    using assms(3,6,7) by (simp add: tcp_hdr_def seg_mem_def mread_def)
  have ip: "ip_hdr (rx_skb ?M) = ip_init_pkt ih"
    using assms(3) by (simp add: ip_hdr_def seg_mem_def mread_def enc_simps)
  have "unat (of_nat (20 + length seg) :: u16) = 20 + length seg"
    using small by (simp add: unat_of_nat del: of_nat_add)
  then have "ip_payload_len (ip_init_pkt ih) = int (length seg)"
    using assms(4,5) by (simp add: ip_payload_len_def ip_init_pkt_def del: of_nat_add)
  then have "ip_payload_len (ip_init_pkt ih) - int (tcp_hlen th) = int n"
    using assms(6) by (simp add: tcp_hlen_def)
  moreover have "b_dlen k = of_int (ip_payload_len (ip_init_pkt ih) - int (tcp_hlen th))"
    using assms(3) by (simp add: k_def tcp_init_segment_def Let_def hd th_def ip del: of_int_diff)
  ultimately have dl: "b_dlen k = of_nat n" by simp
  have n: "n \<le> 1546" using small assms(6,7) by simp
  then show d: "unat (b_dlen k) = n" by (simp add: dl unat_of_nat)
  show "b_seq k = th_seq th" "b_refcnt k = 0"
    by (simp_all add: k_def tcp_init_segment_def Let_def hd th_def [symmetric])
  have "b_end_seq k = th_seq th + b_dlen k"
    by (simp add: k_def tcp_init_segment_def Let_def hd th_def [symmetric])
  then show "b_end_seq k = th_seq th + of_nat n" by (simp add: dl)
  have pl: "b_payload k = 54" by (simp add: k_def tcp_init_segment_def Let_def)
  have len: "length ?M = 1600" using assms(3,8) by (simp add: seg_mem_def BUFLEN_def)
  have "b_mem k = mwrite ?M 34 (enc_tcphdr th)"
    by (simp add: k_def tcp_init_segment_def Let_def hd th_def [symmetric] b_mem_put_bytes)
  then have m: "drop 54 (b_mem k) = drop 54 ?M" "length (b_mem k) = length ?M" using len
    by (simp_all add: mwrite_def)
  have "drop 54 ?M = drop 20 seg @ replicate (BUFLEN - (34 + length seg)) 0"
    using assms(3,6,7) by (simp add: seg_mem_def)
  then show "payload k = take n (drop 20 seg)"
    using assms(6,7) by (simp add: payload_def pl d mread_def m)
  show "data_ok k"
    using n by (simp add: data_ok_def in_region_def pl d m len word_less_nat_alt)
qed

subsection \<open>From one host to the other\<close>

lemma transfer_locked:
  assumes "transfer css s0 got d" "state_of d \<notin> {TCP_CLOSE, TCP_LISTEN, TCP_SYN_SENT}" "sent_by css s0 k th"
  shows "transfer css s0 got (snd (locked (tcp_input_state (s_bnext d) th) (arrive k d)))"
proof -
  let ?d = "snd (socket_wr_acquire d)"
  have a: "snd (socket_wr_acquire (arrive k d)) = arrive k ?d" "s_bnext ?d = s_bnext d"
    by (simp_all add: socket_wr_acquire_def arrive_def check_def upd_sock_def)
  have "transfer css s0 got (snd (tcp_input_state (s_bnext ?d) th (arrive k ?d)))"
    using assms by (intro transfer.segment transfer.lock) simp_all
  then show ?thesis by (simp add: locked_def split_beta a transfer.release)
qed

text \<open>
  C5: A frame that one host writes for a segment of a connection, read by the other host, is handled
  by its connection with those ports, under its lock, as the segment that was sent: sequence number,
  acknowledgement, window and flags are the sender's, the buffer holds the sender's data.  So a frame
  that carries a chunk of the sender's data at its sequence number is a step of the transfer at the
  receiver.
\<close>

theorem segment_crosses_wire:
  assumes "tcp_ready b n c" and "route_lookup (sk_daddr (c_sk c)) c = Some rt" "netdev_ok (rt_dev rt)"
    and "arp_get_hwaddr (next_hop rt (sk_daddr (c_sk c))) (s_arp_cache c) = Some dmac" "length dmac = 6"
    and "b_protocol (deref b c) = ucast IP_TCP" "hdr_words (deref b c) = 5" "54 + n \<le> BUFLEN"
    and "inet_lookup (sk_sport (c_sk c)) (sk_dport (c_sk c)) w = Some i" "focus i w = Some d"
  shows "\<exists>F th k. s_tap (snd (tcp_transmit_skb b seq c)) = s_tap c @ [F]
    \<and> netdev_rx (Some F) w = unfocus (snd (locked (tcp_input_state (s_bnext w) th) (arrive k d))) w
    \<and> th_seq th = seq \<and> th_ack_seq th = rcv_nxt (tcb_of c) \<and> th_win th = ucast (rcv_wnd (tcb_of c))
    \<and> th_flags th = th_flags (tcp_hdr (deref b c))
    \<and> b_seq k = seq \<and> b_end_seq k = seq + of_nat n \<and> payload k = mread (b_mem (deref b c)) 54 n
    \<and> (\<forall>css s0 got j. transfer css s0 got d \<and> state_of d \<notin> {TCP_CLOSE, TCP_LISTEN, TCP_SYN_SENT}
        \<and> j < length css \<and> mread (b_mem (deref b c)) 54 n = css ! j \<and> seq = seq_at css s0 j \<longrightarrow>
        transfer css s0 got (snd (locked (tcp_input_state (s_bnext w) th) (arrive k d))))"
proof -
  define body where "body = seg_body n (deref b c)"
  define seg where "seg = tcp_segment (c_sk c) seq (tcp_hdr (deref b c)) body"
  obtain ident where tap: "s_tap (snd (tcp_transmit_skb b seq c)) =
      s_tap c @ [wire_frame (dmac @ nd_hwaddr (rt_dev rt)) (wire_ih (c_sk c) rt (length seg) ident) seg]"
    using transmit_wire [OF assms(1-6), of seq] unfolding seg_def body_def by blast
  let ?macs = "dmac @ nd_hwaddr (rt_dev rt)" and ?ih = "wire_ih (c_sk c) rt (length seg) ident"
  let ?th = "tcp_ntoh (dec_tcphdr (take 20 seg))" and ?k = "tcp_init_segment (ip_init_pkt (wire_ih (c_sk c) rt (length seg) ident))
    (rx_skb (seg_mem (dmac @ nd_hwaddr (rt_dev rt)) (wire_ih (c_sk c) rt (length seg) ident) seg))"
  note f = seg_fields [of "c_sk c" seq "tcp_hdr (deref b c)" body, folded seg_def]
  have macs: "length ?macs = 12" using assms(3,5) by (simp add: netdev_ok_def)
  have "54 + n \<le> length (b_mem (deref b c))" using assms(1,7) by (simp add: tcp_ready_def Let_def)
  then have body: "body = mread (b_mem (deref b c)) 54 n" "length body = n"
    using assms(7) by (simp_all add: body_def seg_body_def mread_def)
  have hl: "unat (th_hl ?th) = 5" using f(7) assms(7) by (simp add: hdr_words_def)
  have len: "length seg = 20 + n" by (simp add: seg_def body(2))
  then have lens: "20 \<le> length seg" "34 + length seg \<le> BUFLEN" "length seg = 4 * unat (th_hl ?th) + n"
    using assms(8) hl by simp_all
  have look: "inet_lookup (th_sport ?th) (th_dport ?th) w = Some i" using assms(9) f(1,2) by simp
  note rx = netdev_rx_segment [OF macs _ _ _ _ _ lens(1,2) look assms(10), of ?ih, simplified]
  note k = init_segment_sel [OF macs _ _ lens(3) _ lens(2), of ?ih, simplified hl, simplified]
  have pk: "payload ?k = mread (b_mem (deref b c)) 54 n"
    using k(5) body by (simp add: seg_def tcp_segment_def Let_def)
  have ks: "b_seq ?k = seq" "b_end_seq ?k = seq + of_nat n" using k(1,3) f(3) by simp_all
  have step: "transfer css s0 got (snd (locked (tcp_input_state (s_bnext w) ?th) (arrive ?k d)))"
    if "transfer css s0 got d" "state_of d \<notin> {TCP_CLOSE, TCP_LISTEN, TCP_SYN_SENT}" "j < length css"
      "mread (b_mem (deref b c)) 54 n = css ! j" "seq = seq_at css s0 j" for css s0 got j
  proof -
    have "length (css ! j) = n" using body unfolding that(4) [symmetric] by simp
    then have "seq_at css s0 (Suc j) = seq + of_nat n" using that(3,5) by (simp add: seq_at_def offs_Suc)
    then have "chunk_at css s0 j ?k" using k(6) ks pk that(3-5) by (simp add: chunk_at_def)
    then have "sent_by css s0 ?k ?th" using k(4) ks(1) f(3) by (auto simp: sent_by_def)
    with transfer_locked [OF that(1,2) this] focus_arrive(4) [OF assms(10)] show ?thesis by simp
  qed
  show ?thesis
    by (rule exI [of _ "wire_frame ?macs ?ih seg"], rule exI [of _ ?th], rule exI [of _ ?k])
      (intro conjI allI impI tap rx f(3-6) ks pk, elim conjE, rule step)
qed

text \<open>The host of \<open>seg_demo\<close>, and a second one with the other end of the connection.\<close>

definition peer_sk :: tcp_sock where
  "peer_sk = tcp_alloc_sock\<lparr>sk_state := TCP_ESTABLISHED, tk_tcb := zero_tcb\<lparr>rcv_nxt := 500, rcv_wnd := 44477\<rparr>\<rparr>"

definition peer_demo :: world where
  "peer_demo = stack.extend (booted (\<lambda>f. int (length f)))
     (world.fields 40000 3 1 [0] [0 \<mapsto> \<lparr>cn_sock = demo_socket, cn_sk = Some peer_sk\<rparr>] 1)"

lemma peer_demo_sel:
  "focus 0 peer_demo = Some (stack.extend (booted (\<lambda>f. int (length f))) (tcpctx.fields 0 40000 peer_sk demo_socket))"
  "inet_lookup 0 0 peer_demo = Some 0"
  by (simp_all add: peer_demo_def focus_def inet_lookup_def socket_lookup_def stack.defs world.defs tcpctx.defs
      peer_sk_def tcp_alloc_sock_def tcp_sock.defs sock.defs zero_sock_def booted_def)

theorem segment_crosses_wire_witness:
  "\<exists>F c. s_tap (snd (tcp_transmit_skb 0 500 (seg_demo 0x08080808))) = [F]
    \<and> netdev_rx (Some F) peer_demo = unfocus c peer_demo \<and> transfer [[1, 2, 3, 4]] 500 [] c"
proof -
  let ?c = "seg_demo 0x08080808"
  let ?d = "stack.extend (booted (\<lambda>f. int (length f))) (tcpctx.fields 0 40000 peer_sk demo_socket)"
  have mem: "mread (b_mem (deref 0 ?c)) 54 4 = [1, 2, 3, 4]" "b_protocol (deref 0 ?c) = ucast IP_TCP"
    "hdr_words (deref 0 ?c) = 5"
    by (simp_all add: seg_demo_skb hdr_words_seg_skb) (simp_all add: seg_skb_def mread_def IP_TCP_def)
  have rt: "route_lookup (sk_daddr (c_sk ?c)) ?c = Some demo_rt"
    "arp_get_hwaddr (next_hop demo_rt (sk_daddr (c_sk ?c))) (s_arp_cache ?c) = Some [2, 0, 0, 0, 0, 1]"
    using seg_demo_route seg_demo_arp by (simp_all only: seg_demo_sel(5))
  have ok: "netdev_ok (rt_dev demo_rt)" by (simp add: demo_rt_def route_alloc_def)
  have ports: "inet_lookup (sk_sport (c_sk ?c)) (sk_dport (c_sk ?c)) peer_demo = Some 0"
    by (simp add: seg_demo_sel(1) peer_demo_sel(2) tcp_alloc_sock_def tcp_sock.defs sock.defs zero_sock_def)
  have t: "transfer [[1, 2, 3, 4]] 500 [] ?d" and st: "state_of ?d \<notin> {TCP_CLOSE, TCP_LISTEN, TCP_SYN_SENT}"
    by (auto intro!: transfer.start simp: rx_ok_def heap_ok_def live_def stack.defs tcpctx.defs peer_sk_def
        tcp_alloc_sock_def tcp_sock.defs sock.defs zero_sock_def booted_def static_data_def)
  have num: "(0::nat) < length [[1, 2, 3, 4 :: u8]]" "mread (b_mem (deref 0 ?c)) 54 4 = [[1, 2, 3, 4]] ! 0"
    "(500 :: u32) = seq_at [[1, 2, 3, 4]] 500 0"
    by (simp_all add: mem(1) seq_at_def offs_def)
  obtain F th k where F: "s_tap (snd (tcp_transmit_skb 0 500 ?c)) = s_tap ?c @ [F]"
    "netdev_rx (Some F) peer_demo =
       unfocus (snd (locked (tcp_input_state (s_bnext peer_demo) th) (arrive k ?d))) peer_demo"
    "\<forall>css s0 got j. transfer css s0 got ?d \<and> state_of ?d \<notin> {TCP_CLOSE, TCP_LISTEN, TCP_SYN_SENT}
        \<and> j < length css \<and> mread (b_mem (deref 0 ?c)) 54 4 = css ! j \<and> 500 = seq_at css s0 j \<longrightarrow>
        transfer css s0 got (snd (locked (tcp_input_state (s_bnext peer_demo) th) (arrive k ?d)))"
    using segment_crosses_wire [OF seg_demo_ready rt(1) ok rt(2) _ mem(2,3) _ ports peer_demo_sel(1), of 500]
    unfolding BUFLEN_def by force
  then have "transfer [[1, 2, 3, 4]] 500 [] (snd (locked (tcp_input_state (s_bnext peer_demo) th) (arrive k ?d)))"
    using t st num by blast
  with F(1,2) show ?thesis unfolding seg_demo_sel append_Nil by blast
qed

end
