(* ===== verification/Tcp_Emit.thy ===== *)
theory Tcp_Emit
  imports Tcp_Open Tcp_Wire
begin

unbundle bit_operations_syntax

text \<open>
  What a sending connection puts on the wire: besides ARP requests only segments without data and
  segments that carry one of the chunks written, at its number.
\<close>

subsection \<open>Frames\<close>

definition arp_frame :: "bytes \<Rightarrow> bool" where
  "arp_frame F \<longleftrightarrow> mread F 12 2 = be16 ETH_P_ARP"

text \<open>An Ethernet frame with a valid IP datagram that holds the TCP segment \<open>seg\<close>.\<close>

definition tcp_frame :: "bytes \<Rightarrow> bytes \<Rightarrow> bool" where
  "tcp_frame seg F \<longleftrightarrow> (\<exists>macs ih. F = wire_frame macs ih seg \<and> length macs = 12 \<and> ip_version ih = IPV4
     \<and> ip_ihl ih = 5 \<and> ip_ttl ih \<noteq> 0 \<and> ip_proto ih = IP_TCP \<and> checksum (enc_iphdr ih) 0 = 0
     \<and> ip_len ih = htons (of_nat (20 + length seg)))"

definition seg_th :: "bytes \<Rightarrow> tcphdr" where
  "seg_th seg = tcp_ntoh (dec_tcphdr (take 20 seg))"

text \<open>The segment has no data, or those of chunk \<open>j\<close> behind a header without options.\<close>

definition bare :: "bytes \<Rightarrow> bool" where
  "bare seg \<longleftrightarrow> 5 \<le> unat (th_hl (seg_th seg)) \<and> length seg = 4 * unat (th_hl (seg_th seg)) \<and> \<not> th_psh (seg_th seg)"

definition carries :: "u32 \<Rightarrow> bytes \<Rightarrow> bytes \<Rightarrow> bool" where
  "carries seq chunk seg \<longleftrightarrow> unat (th_hl (seg_th seg)) = 5 \<and> length seg = 20 + length chunk \<and> length chunk \<le> 1460
     \<and> th_seq (seg_th seg) = seq \<and> drop 20 seg = chunk"

definition frame_of :: "bytes list \<Rightarrow> u32 \<Rightarrow> bytes \<Rightarrow> bool" where
  "frame_of css s0 F \<longleftrightarrow> arp_frame F
     \<or> (\<exists>seg. tcp_frame seg F \<and> (bare seg \<or> (\<exists>j < length css. carries (seq_at css s0 j) (css ! j) seg)))"

lemma frame_of_append: "frame_of css s0 F \<Longrightarrow> frame_of (css @ ys) s0 F"
  unfolding frame_of_def by (metis length_append nth_append seq_at_append less_imp_le trans_less_add1)

lemma frame_of_bare: "frame_of [] 0 F \<Longrightarrow> frame_of css s0 F"
  by (auto simp: frame_of_def)

text \<open>A step that adds to the frames sent, keeping the ARP cache.\<close>

definition emits :: "(bytes \<Rightarrow> bool) \<Rightarrow> 'a stack_scheme \<Rightarrow> 'b stack_scheme \<Rightarrow> bool" where
  "emits P s s' \<longleftrightarrow> s_arp_cache s' = s_arp_cache s \<and> (\<exists>fs. s_tap s' = s_tap s @ fs \<and> list_all P fs)"

lemma emits_refl [simp]: "emits P s s"
  by (simp add: emits_def)

lemma emits_trans: "emits P s s' \<Longrightarrow> emits P s' s'' \<Longrightarrow> emits P s s''"
  unfolding emits_def by (metis append.assoc list_all_append)

lemma emits_mono: "emits P s s' \<Longrightarrow> (\<And>F. P F \<Longrightarrow> Q F) \<Longrightarrow> emits Q s s'"
  unfolding emits_def by (metis list.pred_mono_strong)

subsection \<open>IP output\<close>

lemma arp_cache_hw: "arp_ok cache \<Longrightarrow> arp_get_hwaddr ip cache = Some hw \<Longrightarrow> length hw = 6"
proof -
  have "arp_get_hwaddr ip cache = Some hw \<Longrightarrow> \<exists>e\<in>set cache. ae_smac e = hw"
    by (induction ip cache rule: arp_get_hwaddr.induct) (auto split: if_splits)
  then show "arp_ok cache \<Longrightarrow> arp_get_hwaddr ip cache = Some hw \<Longrightarrow> length hw = 6" by (auto simp: arp_ok_def)
qed

lemma output_emits:
  assumes r: "ip_ready b n s" and h: "devs_ok s" "arp_ok (s_arp_cache s)"
    and p: "b_protocol (deref b s) = ucast IP_TCP"
  shows "emits (\<lambda>F. arp_frame F \<or> tcp_frame (take n (drop 34 (b_mem (deref b s)))) F) s (snd (ip_output (sk :: tcp_sock) b s))"
proof (cases "route_lookup (sk_daddr sk) s")
  case None
  then show ?thesis using r by (simp add: ip_output_def ip_ready_def)
next
  case rt: (Some rt)
  let ?seg = "take n (drop 34 (b_mem (deref b s)))" and ?P = "\<lambda>F. arp_frame F \<or> tcp_frame (take n (drop 34 (b_mem (deref b s)))) F"
  have dev: "netdev_ok (rt_dev rt)" by (rule route_lookup_dev [OF h(1) rt])
  have cache: "s_arp_cache (snd (ip_output sk b s)) = s_arp_cache s"
    using ip_output_frame [of b "{b}" s sk] by (simp add: tx_frame_def)
  show ?thesis
  proof (cases "arp_get_hwaddr (next_hop rt (sk_daddr sk)) (s_arp_cache s)")
    case None
    have "length broadcast_hw = 6" by (simp add: broadcast_hw_def)
    then have "arp_frame (eth_frame broadcast_hw (nd_hwaddr (rt_dev rt)) ETH_P_ARP pl)" for pl
      using dev by (simp add: arp_frame_def eth_frame_def mread_def netdev_ok_def)
    then show ?thesis using cache ip_output_unresolved(2) [OF r rt dev None] by (simp add: emits_def)
  next
    case (Some hw)
    have l: "length hw = 6" by (rule arp_cache_hw [OF h(2) Some])
    have u: "(ucast (ucast IP_TCP :: u16) :: u8) = IP_TCP" by code_simp
    have "tcp_frame ?seg (wire_frame (hw @ nd_hwaddr (rt_dev rt)) (wire_ih sk rt (length ?seg) ident) ?seg)" for ident
      unfolding tcp_frame_def using l dev
      by (intro exI [of _ "hw @ nd_hwaddr (rt_dev rt)"] exI [of _ "wire_ih sk rt (length ?seg) ident"]) (simp add: netdev_ok_def)
    then show ?thesis
      using cache unfolding ip_output_resolved [OF r rt dev Some l]
      by (simp add: emits_def p u wire_frame_def wire_ih_def eth_frame_def ip_datagram_def)
  qed
qed

subsection \<open>A segment through \<open>tcp_transmit_skb\<close>\<close>

text \<open>A buffer whose first \<open>m\<close> bytes behind the IP header are the segment, with header \<open>h\<close>.\<close>

definition shaped :: "nat \<Rightarrow> nat \<Rightarrow> tcphdr \<Rightarrow> tcpctx \<Rightarrow> bool" where
  "shaped b m h c \<longleftrightarrow> live b c \<and> b_data (deref b c) = 34 \<and> unat (b_len (deref b c)) = m \<and> 20 \<le> m \<and> m < 65500
     \<and> 34 + m \<le> length (b_mem (deref b c)) \<and> b_protocol (deref b c) = ucast IP_TCP \<and> tcp_hdr (deref b c) = h"

lemma shaped_check [simp]: "shaped b m h (check e c) = shaped b m h c"
  by (simp add: shaped_def)

lemma shaped_upd_th: "shaped b m h c \<Longrightarrow> shaped b m (f h) (upd_skb b (upd_th f) c)"
  by (simp add: shaped_def upd_skb_live)

lemma shaped_options:
  assumes "shaped b m h c"
  shows "shaped b m h (tcp_write_options b c)"
proof -
  have l: "length (mwrite x 54 xs) \<ge> length x" if "54 \<le> length x" for x xs :: bytes
    using that by (simp add: mwrite_def)
  have h: "tcp_hdr (put_bytes 54 xs k) = tcp_hdr k" if "54 \<le> length (b_mem k)" for xs k
    using that by (simp add: tcp_hdr_def b_mem_put_bytes mread_def mwrite_def take_drop)
  have *: "shaped b m h (upd_sk g (upd_skb b (put_bytes 54 xs) c'))" if "shaped b m h c'" for g xs c'
    using that h [of "deref b c'" xs] l [of "b_mem (deref b c')" xs]
    by (simp add: shaped_def upd_skb_live b_mem_put_bytes)
  then show ?thesis using assms unfolding tcp_write_options_def Let_def by simp
qed

lemma seg_th_shaped: "shaped b m h c \<Longrightarrow> seg_th (take m (drop 34 (b_mem (deref b c)))) = tcp_ntoh h"
  by (auto simp: shaped_def seg_th_def tcp_hdr_def mread_def min_def)

lemma transmit_shaped:
  fixes c :: tcpctx
  assumes "live b c" "b_data (deref b c) = int (34 + 4 * hdr_words (deref b c))" "unat (b_len (deref b c)) = n"
    and "34 + 4 * hdr_words (deref b c) + n \<le> length (b_mem (deref b c))" "4 * hdr_words (deref b c) + n < 65500"
    and "5 \<le> hdr_words (deref b c)" "b_protocol (deref b c) = ucast IP_TCP"
  shows "\<exists>c2 h. tcp_transmit_skb b seq c = ip_output (c_sk c2) b c2 \<and> shaped b (4 * hdr_words (deref b c) + n) h c2
    \<and> tcp_tx {b} c c2 \<and> s_tap c2 = s_tap c \<and> th_hl (tcp_ntoh h) = th_hl (tcp_set_hlen (tcp_hdr (deref b c)))
    \<and> th_psh (tcp_ntoh h) = th_psh (tcp_hdr (deref b c)) \<and> th_seq (tcp_ntoh h) = seq"
proof -
  let ?k = "deref b c" and ?m = "4 * hdr_words (deref b c) + n"
  let ?th = "tcp_set_hlen (tcp_hdr (deref b c))"
  have len: "54 \<le> length (b_mem ?k)" using assms(4,6) by simp
  define c1 where "c1 = upd_skb b (upd_th tcp_set_hlen) (check (in_region (b_mem ?k) 34 20) c)"
  define c2 where "c2 = upd_skb b (skb_push (unat (th_hl (tcp_hdr (deref b c1))) * 4)) c1"
  have d1: "live b c1" "deref b c1 = upd_th tcp_set_hlen ?k"
    using assms(1) by (simp_all add: c1_def upd_skb_live)
  have hl: "unat (th_hl (tcp_hdr (deref b c1))) * 4 = 4 * hdr_words ?k"
    using len by (simp add: d1(2) hdr_words_def)
  have "unat (b_len ?k + of_nat (4 * hdr_words ?k)) = ?m"
    using assms(3,5) by (simp add: unat_word_ariths unat_of_nat)
  moreover have hp: "tcp_hdr (skb_push x k) = tcp_hdr k" for x k by (simp add: tcp_hdr_def)
  ultimately have s2: "shaped b ?m ?th c2"
    unfolding c2_def hl using assms d1(1) len by (simp add: shaped_def upd_skb_live hp d1(2) del: of_nat_mult)
  define c4 where "c4 = (let c3 = upd_skb b (upd_th (tcp_fill_hdr (c_sk c2) seq)) c2
    in if th_hl (tcp_hdr (deref b c1)) > 5 then tcp_write_options b c3 else c3)"
  have s4: "shaped b ?m (tcp_fill_hdr (c_sk c2) seq ?th) c4"
    using shaped_upd_th [OF s2] shaped_options by (simp add: c4_def Let_def)
  define c5 where "c5 = upd_skb b (upd_th tcp_hton) c4"
  define cs where "cs = tcp_v4_checksum (deref b c5) (htonl (sk_saddr (c_sk c5))) (htonl (sk_daddr (c_sk c5)))"
  define c6 where "c6 = upd_skb b (upd_th (\<lambda>th. th\<lparr>th_csum := cs\<rparr>))
    (check (in_region (b_mem (deref b c5)) (b_data (deref b c5)) (unat (ucast (b_len (deref b c5)) :: u16))) c5)"
  have s6: "shaped b ?m ((tcp_hton (tcp_fill_hdr (c_sk c2) seq ?th))\<lparr>th_csum := cs\<rparr>) c6"
    unfolding c6_def using shaped_upd_th [OF s4] by (intro shaped_upd_th) (simp add: c5_def)
  have eq: "tcp_transmit_skb b seq c = ip_output (c_sk c6) b c6"
    using assms(1) by (simp add: tcp_transmit_skb_def Let_def touch_def c1_def c2_def c4_def c5_def c6_def cs_def)
  have "tcp_tx {b} c c1" "tcp_tx {b} c1 c2" "tcp_tx {b} c2 c4" "tcp_tx {b} c4 c5" "tcp_tx {b} c5 c6"
    unfolding c1_def c2_def c4_def c5_def c6_def Let_def
    by (auto intro!: tcp_tx_trans [OF _ tcp_tx_upd_skb] tcp_tx_trans [OF _ tcp_tx_check] tcp_tx_trans [OF _ tcp_write_options_tx]
        tcp_tx_upd_skb tcp_tx_check)
  then have "tcp_tx {b} c c6" by (blast intro: tcp_tx_trans)
  moreover have "s_tap (tcp_write_options b d) = s_tap d" for d by (simp add: tcp_write_options_def Let_def)
  then have "s_tap c6 = s_tap c" by (simp add: c1_def c2_def c4_def c5_def c6_def Let_def)
  ultimately show ?thesis
    using eq s6 by (intro exI [of _ c6] exI) (auto simp: tcp_ntoh_def tcp_hton_def tcp_fill_hdr_def tcp_set_hlen_def)
qed

lemma hdr_words_less: "hdr_words k < 16"
  unfolding hdr_words_def using unsigned_less [of "th_hl (tcp_set_hlen (tcp_hdr k))", where 'a = nat] by simp

lemma emits_tx:
  fixes c c2 :: tcpctx
  assumes "emits P c2 c'" "tcp_tx B c c2" "s_tap c2 = s_tap c"
  shows "emits P c c'"
  using assms by (simp add: emits_def tcp_tx_def tx_frame_def)

lemma transmit_bare:
  assumes "live b c" "b_data (deref b c) = int (34 + 4 * hdr_words (deref b c))" "b_len (deref b c) = 0"
    and "34 + 4 * hdr_words (deref b c) \<le> length (b_mem (deref b c))" "5 \<le> hdr_words (deref b c)"
    and "b_protocol (deref b c) = ucast IP_TCP" "\<not> th_psh (tcp_hdr (deref b c))" "devs_ok c" "arp_ok (s_arp_cache c)"
  shows "emits (frame_of [] 0) c (snd (tcp_transmit_skb b seq c))"
proof -
  obtain c2 h where t: "tcp_transmit_skb b seq c = ip_output (c_sk c2) b c2"
    "shaped b (4 * hdr_words (deref b c)) h c2" "tcp_tx {b} c c2" "s_tap c2 = s_tap c"
    "th_hl (tcp_ntoh h) = th_hl (tcp_set_hlen (tcp_hdr (deref b c)))" "\<not> th_psh (tcp_ntoh h)"
    using transmit_shaped [of b c 0 seq] assms(1-7) hdr_words_less [of "deref b c"] by auto
  let ?m = "4 * hdr_words (deref b c)" and ?seg = "take (4 * hdr_words (deref b c)) (drop 34 (b_mem (deref b c2)))"
  have "34 + ?m \<le> length (b_mem (deref b c2))" using t(2) by (simp only: shaped_def)
  then have "length ?seg = ?m" by simp
  then have "bare ?seg"
    using t(5,6) assms(5) unfolding bare_def seg_th_shaped [OF t(2)] by (simp only: hdr_words_def) simp
  moreover have "ip_ready b ?m c2" "devs_ok c2" "arp_ok (s_arp_cache c2)" "b_protocol (deref b c2) = ucast IP_TCP"
    using t(2,3) assms(8,9) by (auto simp: shaped_def ip_ready_def tcp_tx_def tx_frame_def devs_ok_def)
  note output_emits [OF this, of "c_sk c2"]
  ultimately have "emits (frame_of [] 0) c2 (snd (tcp_transmit_skb b seq c))"
    unfolding t(1) by (elim emits_mono) (auto simp: frame_of_def)
  then show ?thesis using t(3,4) by (rule emits_tx)
qed

lemma ready_carries:
  assumes r: "tcp_ready b n c" and "hdr_words (deref b c) = 5" "seg_data b c = chunk" "n = length chunk" "n \<le> 1460"
    and "b_protocol (deref b c) = ucast IP_TCP" "devs_ok c" "arp_ok (s_arp_cache c)"
  shows "emits (\<lambda>F. arp_frame F \<or> (\<exists>seg. tcp_frame seg F \<and> carries seq chunk seg)) c (snd (tcp_transmit_skb b seq c))"
proof -
  obtain c2 h k' where t: "tcp_transmit_skb b seq c = ip_output (c_sk c) b c2" "ip_ready b (20 + n) c2"
    "deref b c2 = skb_push 20 (put_tcp_hdr h (deref b c))" "c2 = put_skb b k' c"
    "take (20 + n) (drop 34 (b_mem (deref b c2))) = tcp_segment (c_sk c) seq (tcp_hdr (deref b c)) (seg_body n (deref b c))"
    using tcp_transmit_ready [OF r, of seq] assms(2) by auto
  define seg where "seg = tcp_segment (c_sk c) seq (tcp_hdr (deref b c)) (seg_body n (deref b c))"
  have live: "live b c" using r by (simp add: tcp_ready_def)
  have body: "seg_body n (deref b c) = chunk"
    using r assms(2-4) by (simp add: seg_body_def tcp_ready_def Let_def mread_def seg_data_def)
  note f = seg_fields [of "c_sk c" seq "tcp_hdr (deref b c)" "seg_body n (deref b c)", folded seg_def seg_th_def]
  have "unat (th_hl (seg_th seg)) = 5" using f(7) assms(2) by (simp add: hdr_words_def)
  moreover have "length seg = 20 + length chunk" "drop 20 seg = chunk"
    by (simp add: seg_def body) (simp add: seg_def body tcp_segment_def Let_def)
  ultimately have "carries seq chunk seg" using f(3) assms(4,5) by (simp add: carries_def)
  moreover have p: "b_protocol (deref b c2) = ucast IP_TCP" unfolding t(3) by (simp add: put_bytes_def assms(6))
  have h2: "devs_ok c2" "arp_ok (s_arp_cache c2)" using assms(7,8) live t(4) by (simp_all add: devs_ok_def)
  note output_emits [OF t(2) h2 p, of "c_sk c", unfolded t(5), folded seg_def]
  ultimately have "emits (\<lambda>F. arp_frame F \<or> (\<exists>seg. tcp_frame seg F \<and> carries seq chunk seg)) c2 (snd (tcp_transmit_skb b seq c))"
    unfolding t(1) by (elim emits_mono) blast
  then show ?thesis using live t(4) by (simp add: emits_def)
qed

subsection \<open>Operations that send no data\<close>

text \<open>
  The array of SACK blocks keeps its length unless the code writes outside it, which sets \<open>s_fault\<close>.
\<close>

definition calm :: "tcpctx \<Rightarrow> bool" where
  "calm c \<longleftrightarrow> heap_ok c \<and> devs_ok c \<and> arp_ok (s_arp_cache c) \<and> length (tk_sacks (c_sk c)) \<le> 4"

definition emit_frame :: "(bytes \<Rightarrow> bool) \<Rightarrow> tcpctx \<Rightarrow> tcpctx \<Rightarrow> bool" where
  "emit_frame P c c' \<longleftrightarrow> (s_fault c \<longrightarrow> s_fault c') \<and> (calm c \<longrightarrow> s_fault c' \<or> calm c' \<and> emits P c c')"

abbreviation quiet :: "tcpctx \<Rightarrow> tcpctx \<Rightarrow> bool" where
  "quiet \<equiv> emit_frame (frame_of [] 0)"

lemma emit_frame_refl [simp]: "emit_frame P c c"
  by (simp add: emit_frame_def)

lemma emit_frame_trans: "emit_frame P c c' \<Longrightarrow> emit_frame P c' c'' \<Longrightarrow> emit_frame P c c''"
  using emits_trans unfolding emit_frame_def by blast

lemma emit_frame_mono: "emit_frame P c c' \<Longrightarrow> (\<And>F. P F \<Longrightarrow> Q F) \<Longrightarrow> emit_frame Q c c'"
  using emits_mono unfolding emit_frame_def by blast

text \<open>What matters of a state here; most operations leave it alone and never clear the flag.\<close>

definition emit_view ::
  "tcpctx \<Rightarrow> (nat \<Rightarrow> sk_buff option) \<times> nat \<times> rtentry list \<times> arp_cache_entry list \<times> bytes list \<times> tcp_sack_block list" where
  "emit_view c = (s_skbs c, s_bnext c, s_routes c, s_arp_cache c, s_tap c, tk_sacks (c_sk c))"

lemma emit_frame_view:
  "emit_view c' = emit_view c \<Longrightarrow> (s_fault c \<Longrightarrow> s_fault c') \<Longrightarrow> emit_frame P c c'"
  by (auto simp: emit_view_def emit_frame_def calm_def heap_ok_def devs_ok_def live_def emits_def)

lemma emit_view_upd [simp]:
  "(\<And>k. tk_sacks (f k) = tk_sacks k) \<Longrightarrow> emit_view (upd_sk f c) = emit_view c"
  "emit_view (upd_tcb g c) = emit_view c" "emit_view (upd_sock h c) = emit_view c"
  "emit_view (check e c) = emit_view c" "emit_view (touch b c) = emit_view c"
  by (simp_all add: emit_view_def touch_def)

lemma fault_touch [simp]: "s_fault c \<Longrightarrow> s_fault (touch b c)"
  by (simp add: touch_def)

lemma emit_view_timer [simp]:
  "emit_view (timer_cancel t c) = emit_view c" "emit_view (timer_release t c) = emit_view c"
  "emit_view (snd (timer_add e h a c)) = emit_view c" "emit_view (timer_oneshot e h a c) = emit_view c"
  "s_fault c \<Longrightarrow> s_fault (timer_cancel t c)" "s_fault c \<Longrightarrow> s_fault (timer_release t c)"
  "s_fault (snd (timer_add e h a c)) = s_fault c" "s_fault (timer_oneshot e h a c) = s_fault c"
  by (simp_all add: emit_view_def)
    (simp_all add: timer_cancel_def timer_release_def timer_add_def timer_oneshot_def split: option.split)

lemma emit_view_state [simp]:
  "emit_view (tcp_set_state st c) = emit_view c" "emit_view (wakeup_recv c) = emit_view c"
  "emit_view (wakeup_sock c) = emit_view c" "emit_view (snd (tcp_recv_notify c)) = emit_view c"
  "emit_view (tcp_stop_rto_timer c) = emit_view c" "emit_view (tcp_release_rto_timer c) = emit_view c"
  "emit_view (tcp_stop_delack_timer c) = emit_view c" "emit_view (tcp_release_delack_timer c) = emit_view c"
  "emit_view (snd (socket_wr_acquire c)) = emit_view c" "emit_view (socket_release c) = emit_view c"
  by (simp_all add: tcp_set_state_def wakeup_recv_def wakeup_sock_def tcp_recv_notify_def tcp_stop_rto_timer_def
      tcp_release_rto_timer_def tcp_stop_delack_timer_def tcp_release_delack_timer_def socket_wr_acquire_def
      socket_release_def Let_def)

lemma fault_state [simp]:
  "s_fault (tcp_set_state st c) = s_fault c" "s_fault (wakeup_recv c) = s_fault c"
  "s_fault (wakeup_sock c) = s_fault c" "s_fault (snd (tcp_recv_notify c)) = s_fault c"
  "s_fault c \<Longrightarrow> s_fault (tcp_stop_rto_timer c)" "s_fault c \<Longrightarrow> s_fault (tcp_release_rto_timer c)"
  "s_fault c \<Longrightarrow> s_fault (tcp_stop_delack_timer c)" "s_fault c \<Longrightarrow> s_fault (tcp_release_delack_timer c)"
  "s_fault c \<Longrightarrow> s_fault (snd (socket_wr_acquire c))" "s_fault c \<Longrightarrow> s_fault (socket_release c)"
  by (simp_all add: tcp_set_state_def wakeup_recv_def wakeup_sock_def tcp_recv_notify_def tcp_stop_rto_timer_def
      tcp_release_rto_timer_def tcp_stop_delack_timer_def tcp_release_delack_timer_def socket_wr_acquire_def
      socket_release_def Let_def)

lemma emit_view_clear_timers [simp]:
  "emit_view (tcp_clear_timers c) = emit_view c" "s_fault c \<Longrightarrow> s_fault (tcp_clear_timers c)"
  by (simp_all add: tcp_clear_timers_def Let_def)

lemma emit_view_more [simp]:
  "emit_view (tcp_enter_time_wait c) = emit_view c" "emit_view (tcp_rearm_rto_timer c) = emit_view c"
  "emit_view (tcp_rearm_user_timeout c) = emit_view c" "emit_view (tcp_rtt c) = emit_view c"
  "emit_view (tcp_handle_fin_state c) = emit_view c" "emit_view (rto_enter c) = emit_view c"
  by (simp_all add: tcp_enter_time_wait_def tcp_rearm_rto_timer_def tcp_rearm_user_timeout_def tcp_rtt_def
      rtt_update_def tcp_handle_fin_state_def rto_enter_def Let_def case_prod_beta
      split: option.split tcp_states.split)

lemma fault_more [simp]:
  "s_fault c \<Longrightarrow> s_fault (tcp_enter_time_wait c)" "s_fault c \<Longrightarrow> s_fault (tcp_rearm_rto_timer c)"
  "s_fault c \<Longrightarrow> s_fault (tcp_rearm_user_timeout c)" "s_fault c \<Longrightarrow> s_fault (tcp_rtt c)"
  "s_fault c \<Longrightarrow> s_fault (tcp_handle_fin_state c)" "s_fault c \<Longrightarrow> s_fault (rto_enter c)"
  by (simp_all add: tcp_enter_time_wait_def tcp_rearm_rto_timer_def tcp_rearm_user_timeout_def tcp_rtt_def
      rtt_update_def tcp_handle_fin_state_def rto_enter_def Let_def case_prod_beta
      split: option.split tcp_states.split)

lemma fault_skb [simp]:
  "s_fault s \<Longrightarrow> s_fault (put_skb b k s)" "s_fault s \<Longrightarrow> s_fault (free_skb b s)" "s_fault (snd (alloc_skb n s)) = s_fault s"
  by (simp_all add: put_skb_def free_skb_def touch_def alloc_skb_def Let_def)

lemma fault_output:
  "s_fault s \<Longrightarrow> s_fault (snd (netdev_transmit b d e s))" "s_fault s \<Longrightarrow> s_fault (snd (arp_request x y dev s))"
  "s_fault s \<Longrightarrow> s_fault (snd (ip_output sk b s))"
proof -
  show nd: "s_fault (snd (netdev_transmit b d e s))" if "s_fault s" for b d e and s :: "'a stack_scheme"
    using that by (simp add: netdev_transmit_def tun_write_def Let_def split: option.split)
  show arp: "s_fault (snd (arp_request x y dev s))" if "s_fault s" for x y dev and s :: "'a stack_scheme"
    using that by (simp add: arp_request_def arp_alloc_skb_def Let_def split_beta nd)
  have "s_fault (snd (dst_neigh_output b s))" if "s_fault s" for b and s :: "'a stack_scheme"
    using that by (simp add: dst_neigh_output_def Let_def split_beta nd arp split: option.split)
  moreover have "s_fault (ip_send_check b s)" if "s_fault s" for b and s :: "'a stack_scheme"
    using that by (simp add: ip_send_check_def Let_def)
  ultimately show "s_fault s \<Longrightarrow> s_fault (snd (ip_output sk b s))"
    by (simp add: ip_output_def Let_def touch_def split: option.split)
qed

text \<open>The number of SACK blocks stays, or the flag is set.\<close>

definition sacks_kept :: "tcpctx \<Rightarrow> tcpctx \<Rightarrow> bool" where
  "sacks_kept c d \<longleftrightarrow> s_fault d \<or> \<not> s_fault c \<and> length (tk_sacks (c_sk d)) = length (tk_sacks (c_sk c))"

lemma sacks_kept_refl: "sacks_kept c c"
  by (simp add: sacks_kept_def)

lemma sacks_kept_step:
  "sacks_kept c d \<Longrightarrow> sacks_kept c (upd_skb b f d)" "sacks_kept c d \<Longrightarrow> sacks_kept c (check e d)"
  "sacks_kept c d \<Longrightarrow> sacks_kept c (touch b d)" "sacks_kept c d \<Longrightarrow> sacks_kept c (tcp_write_options b d)"
  by (auto simp: sacks_kept_def touch_def tcp_write_options_def Let_def)

lemma sacks_kept_output:
  assumes "sacks_kept c d"
  shows "sacks_kept c (snd (ip_output (sk :: tcp_sock) b d))"
proof -
  have "stack.more (snd (ip_output sk b d)) = stack.more d"
    using ip_output_frame [of b "{b}" d sk] by (simp add: tx_frame_def)
  then have "c_sk (snd (ip_output sk b d)) = c_sk d" by (rule c_more(1))
  then show ?thesis using assms fault_output(3) [of d sk b] by (auto simp: sacks_kept_def)
qed

lemma sacks_kept_if: "sacks_kept c d \<Longrightarrow> sacks_kept c d' \<Longrightarrow> sacks_kept c (if e then d else d')"
  by simp

lemma transmit_sacks: "sacks_kept c (snd (tcp_transmit_skb b seq c))"
  unfolding tcp_transmit_skb_def Let_def
  by (intro sacks_kept_output sacks_kept_step sacks_kept_refl sacks_kept_if)

lemma emit_frame_transmit:
  assumes "calm c \<Longrightarrow> emits P c (snd (tcp_transmit_skb b seq c))"
  shows "emit_frame P c (snd (tcp_transmit_skb b seq c))"
  using assms transmit_sacks [of c b seq] tcp_transmit_tx [of b "{b}" c seq]
  by (auto simp: emit_frame_def sacks_kept_def calm_def tcp_tx_def tx_frame_def devs_ok_def heap_ok_def live_def)

lemma emit_frame_upd_skb: "emit_frame P c (upd_skb b f c)"
  by (simp add: emit_frame_def calm_def devs_ok_def emits_def)

lemma emit_frame_free: "emit_frame P c (free_skb b c)"
  by (simp add: emit_frame_def calm_def devs_ok_def emits_def heap_ok_free_skb)

lemma emit_frame_alloc: "emit_frame P c (snd (alloc_skb n c))"
  by (simp add: emit_frame_def calm_def devs_ok_def emits_def) (simp add: alloc_skb_def)

lemmas emit_frame_then = emit_frame_trans [OF _ emit_frame_upd_skb] emit_frame_trans [OF _ emit_frame_free]

lemma options_len_le: "length (tk_sacks k) \<le> 4 \<Longrightarrow> tcp_options_len k \<le> 36 \<and> 4 dvd tcp_options_len k"
proof -
  assume l: "length (tk_sacks k) \<le> 4"
  have "length (filter (\<lambda>sb. fst sb \<noteq> 0) (take (unat (tk_sacklen k)) (tk_sacks k))) \<le> 4"
    by (rule order_trans [OF length_filter_le]) (use l in simp)
  then show ?thesis by (auto simp: tcp_options_len_def Let_def)
qed

lemma send_ack_quiet: "quiet c (snd (tcp_send_ack c))"
proof (cases "state_of c = TCP_CLOSE")
  case False
  define n where "n = tcp_options_len (c_sk c)"
  let ?b = "s_bnext c" and ?h = "TCP_DOFFSET + of_nat (n div 4) :: 4 word"
  define k0 where "k0 = (skb_reserve (54 + n) (new_skb (54 + n)))\<lparr>b_protocol := ucast IP_TCP, b_dlen := 0, b_seq := 0\<rparr>"
  define k where "k = upd_th (\<lambda>th. th\<lparr>th_ack := True, th_hl := ?h\<rparr>) k0"
  let ?c1 = "put_skb ?b k (snd (alloc_skb (54 + n) c))"
  have a: "live ?b (snd (alloc_skb (54 + n) c))" "deref ?b (snd (alloc_skb (54 + n) c)) = new_skb (54 + n)"
    by simp (simp add: alloc_skb_def deref_def)
  then have ack: "snd (tcp_send_ack c) = free_skb ?b (snd (tcp_transmit_skb ?b (snd_nxt (tcb_of ?c1)) ?c1))"
    using False by (simp add: tcp_send_ack_def tcp_alloc_skb_eq Let_def split_beta upd_skb_upd_skb upd_skb_live n_def [symmetric] k_def k0_def)
  have m: "b_mem k0 = replicate 54 0 @ replicate n 0" by (simp add: k0_def skb_reserve_def new_skb_def replicate_add)
  have th: "tcp_hdr k = (dec_tcphdr (replicate 20 0))\<lparr>th_ack := True, th_hl := ?h\<rparr>"
    using m by (simp add: k_def tcp_hdr_zero [OF m])
  have "emits (frame_of [] 0) ?c1 (snd (tcp_transmit_skb ?b (snd_nxt (tcb_of ?c1)) ?c1))" if "calm ?c1"
  proof -
    have n4: "n \<le> 36" "4 dvd n" using options_len_le [of "c_sk c"] that by (simp_all add: calm_def n_def)
    then have "unat ?h = 5 + n div 4" by (auto simp: unat_word_ariths unat_of_nat)
    then have w: "hdr_words (deref ?b ?c1) = 5 + n div 4"
      using a by (auto simp: hdr_words_def th tcp_set_hlen_def)
    have k: "b_data k = int (54 + n)" "b_len k = 0" "length (b_mem k) = 54 + n" "b_protocol k = ucast IP_TCP"
      by (simp_all add: k_def k0_def skb_reserve_def new_skb_def)
    have d: "live ?b ?c1" "deref ?b ?c1 = k" using a by simp_all
    show ?thesis
      using k n4(2) that by (intro transmit_bare) (auto simp: d w [unfolded d] th dec_zero calm_def)
  qed
  then have "quiet ?c1 (snd (tcp_transmit_skb ?b (snd_nxt (tcb_of ?c1)) ?c1))" by (rule emit_frame_transmit)
  moreover have "quiet c ?c1"
    using emit_frame_trans [OF emit_frame_alloc emit_frame_upd_skb [of _ _ ?b "\<lambda>_. k"]] by (simp add: upd_skb_def)
  ultimately show ?thesis unfolding ack by (intro emit_frame_then) (rule emit_frame_trans)
qed (simp add: tcp_send_ack_def)

text \<open>Rules that take an operation off the end of a sequence.\<close>

lemma emit_frame_on:
  "emit_view c'' = emit_view c' \<Longrightarrow> (s_fault c' \<Longrightarrow> s_fault c'') \<Longrightarrow> emit_frame P c c' \<Longrightarrow> emit_frame P c c''"
  using emit_frame_trans emit_frame_view by blast

lemma emit_frame_ops:
  assumes "emit_frame P c c'"
  shows "(\<And>k. tk_sacks (f k) = tk_sacks k) \<Longrightarrow> emit_frame P c (upd_sk f c')" "emit_frame P c (upd_tcb g c')"
    "emit_frame P c (upd_sock h c')" "emit_frame P c (check e c')" "emit_frame P c (touch b c')"
    "emit_frame P c (timer_cancel t c')" "emit_frame P c (timer_release t c')" "emit_frame P c (snd (timer_add x y a c'))"
    "emit_frame P c (timer_oneshot x y a c')" "emit_frame P c (tcp_set_state st c')" "emit_frame P c (wakeup_recv c')"
    "emit_frame P c (wakeup_sock c')" "emit_frame P c (snd (tcp_recv_notify c'))" "emit_frame P c (tcp_stop_rto_timer c')"
    "emit_frame P c (tcp_release_rto_timer c')" "emit_frame P c (tcp_stop_delack_timer c')"
    "emit_frame P c (tcp_release_delack_timer c')" "emit_frame P c (snd (socket_wr_acquire c'))"
    "emit_frame P c (socket_release c')" "emit_frame P c (tcp_clear_timers c')" "emit_frame P c (tcp_enter_time_wait c')"
    "emit_frame P c (tcp_rearm_rto_timer c')" "emit_frame P c (tcp_rearm_user_timeout c')" "emit_frame P c (tcp_rtt c')"
    "emit_frame P c (tcp_handle_fin_state c')" "emit_frame P c (rto_enter c')"
    "emit_frame P c (upd_skb b j c')" "emit_frame P c (free_skb b c')" "emit_frame P c (put_skb b k c')"
  by (rule emit_frame_on [OF _ _ assms]; simp; fail)+
    (rule emit_frame_trans [OF assms emit_frame_upd_skb] emit_frame_trans [OF assms emit_frame_free]
      emit_frame_trans [OF assms emit_frame_upd_skb [of _ _ b "\<lambda>_. k", unfolded upd_skb_def]])+

lemma quiet_ack: "quiet c c' \<Longrightarrow> quiet c (snd (tcp_send_ack c'))"
  by (rule emit_frame_trans [OF _ send_ack_quiet])

lemmas quiet_ops = emit_frame_ops quiet_ack emit_frame_refl

subsection \<open>The steps that send no data\<close>

lemma set_sack_length: "set_sack i sb (sacks, n, ok) = (sacks', n', ok') \<Longrightarrow> length sacks' = length sacks"
  by (auto simp: set_sack_def)

lemma sack_loop_length: "length (fst (sack_loop allowed i q st)) = length (fst st)"
  by (induction allowed i q st rule: sack_loop.induct) (auto simp: set_sack_def Let_def split: prod.splits)

lemma calculate_sacks_quiet: "quiet c (snd (tcp_calculate_sacks c))"
proof -
  let ?st = "sack_loop (tk_sacks_allowed (c_sk c)) (unat (tk_sacklen (c_sk c)))
    (map (\<lambda>b. (b_seq (deref b c), b_end_seq (deref b c))) (tk_ofo_queue (c_sk c)))
    (set_sack (unat (tk_sacklen (c_sk c))) (0, 0) (tk_sacks (c_sk c), tk_sacklen (c_sk c), True))"
  have "length (fst ?st) = length (tk_sacks (c_sk c))" by (simp add: sack_loop_length set_sack_def)
  then show ?thesis
    by (auto simp: tcp_calculate_sacks_def Let_def emit_frame_def calm_def emits_def devs_ok_def split: prod.splits)
qed

lemma consume_ofo_quiet: "quiet c (consume_ofo q c)"
proof (induction q arbitrary: c)
  case (Cons b q)
  show ?case
    by (auto simp: Let_def intro!: emit_frame_trans [OF _ Cons.IH] quiet_ops)
qed simp

lemma data_queue_quiet: "quiet c (snd (tcp_data_queue b c))"
proof -
  have ins: "quiet c (tcp_data_insert_ordered b c)"
    by (auto simp: tcp_data_insert_ordered_def Let_def split: insert_at.split intro!: quiet_ops)
  then have "quiet c (snd (tcp_calculate_sacks (tcp_data_insert_ordered b c)))"
    using calculate_sacks_quiet by (rule emit_frame_trans)
  with ins show ?thesis
    by (auto simp: tcp_data_queue_def tcp_consume_ofo_queue_def Let_def
        intro!: quiet_ops emit_frame_trans [OF _ consume_ofo_quiet])
qed

lemma queue_free_quiet: "quiet c (skb_queue_free q c)"
proof (induction q arbitrary: c)
  case (Cons b q)
  show ?case by (auto simp: Let_def intro!: emit_frame_trans [OF _ Cons.IH] quiet_ops)
qed simp

lemma done_quiet: "quiet c (snd (tcp_done c))"
  unfolding tcp_done_def tcp_free_def tcp_clear_queues_def socket_delete_def Let_def
  by (auto intro!: quiet_ops emit_frame_trans [OF _ queue_free_quiet])

lemma clean_rto_quiet: "quiet c (snd (tcp_clean_rto_queue una c))"
proof -
  have "quiet c (clean_rto q una c)" for q
  proof (induction q arbitrary: c)
    case (Cons b q)
    show ?case by (auto simp: Let_def intro!: emit_frame_trans [OF _ Cons.IH] quiet_ops)
  qed simp
  then show ?thesis by (auto simp: tcp_clean_rto_queue_def Let_def intro!: quiet_ops)
qed

lemma input_check_quiet: "input_check b th c = Inl r \<Longrightarrow> quiet c (snd r)"
  by (auto simp: input_check_def tcp_drop_def tcp_send_challenge_ack_def Let_def split: if_splits
      intro!: quiet_ops)

lemma input_ack_field_quiet:
  "input_ack_field b th c = Inl r \<Longrightarrow> quiet c (snd r)" "input_ack_field b th c = Inr c' \<Longrightarrow> quiet c c'"
  by (auto simp: input_ack_field_def tcp_drop_def Let_def split: if_splits
      intro!: quiet_ops emit_frame_trans [OF _ clean_rto_quiet])

lemma input_data_quiet: "quiet c (input_data b th (touch b c))"
  by (auto simp: input_data_def intro!: quiet_ops emit_frame_trans [OF _ data_queue_quiet])

lemma input_fin_quiet:
  "input_fin b th e c = Inl r \<Longrightarrow> quiet c (snd r)" "input_fin b th e c = Inr c' \<Longrightarrow> quiet c c'"
  by (auto simp: input_fin_def tcp_drop_def Let_def split: if_splits tcp_states.splits intro!: quiet_ops)

lemma delack_quiet: "quiet c (tcp_send_delack c)"
  unfolding tcp_send_delack_def Let_def by (auto intro!: quiet_ops)

lemma dequeue_quiet: "dequeue_loop q rlen userlen buf c = (r, buf', c') \<Longrightarrow> quiet c c'"
proof (induction q arbitrary: rlen buf c)
  case (Cons b q)
  from Cons.prems show ?case
    by (auto simp: Let_def split: if_splits dest!: Cons.IH intro!: quiet_ops elim!: emit_frame_trans [rotated])
qed simp

lemma read_quiet:
  "tcp_receive_round len rlen buf c = Received r buf' c' \<or> tcp_receive_round len rlen buf c = Sleep r buf' c' \<Longrightarrow> quiet c c'"
proof -
  have d: "quiet c c2" if "tcp_data_dequeue n c = (x, new, c2)" for n x new c2
    using that dequeue_quiet
    by (auto simp: tcp_data_dequeue_def split: prod.splits if_splits intro!: quiet_ops)
  show "tcp_receive_round len rlen buf c = Received r buf' c' \<or> tcp_receive_round len rlen buf c = Sleep r buf' c' \<Longrightarrow> quiet c c'"
    by (auto simp: tcp_receive_round_def receive_done_def sleep_recv_def Let_def split: if_splits prod.splits
        dest!: d intro!: quiet_ops)
qed

subsection \<open>The steps that send data\<close>

lemma emit_frame_quiet: "quiet c c' \<Longrightarrow> emit_frame (frame_of css s0) c c'"
  by (erule emit_frame_mono) (rule frame_of_bare)

lemma segment_emits:
  assumes "segment_of psh chunk b c" "0 < length chunk" "length chunk \<le> 1460"
    and "j < length css" "chunk = css ! j" "seq = seq_at css s0 j"
  shows "emit_frame (frame_of css s0) c (snd (tcp_transmit_skb b seq (upd_skb b skb_reset_header c)))"
proof -
  let ?c1 = "upd_skb b skb_reset_header c"
  note r = segment_ready [OF assms(1-3)]
  have s: "hdr_words (deref b ?c1) = 5" "seg_data b ?c1 = chunk" "b_protocol (deref b ?c1) = ucast IP_TCP"
    using r(2) unfolding segment_of_def by blast+
  have "emits (frame_of css s0) ?c1 (snd (tcp_transmit_skb b seq ?c1))" if "calm ?c1"
    by (rule emits_mono [OF ready_carries [OF r(1) s(1,2) refl assms(3) s(3)]])
      (use that assms(4-6) in \<open>auto simp: calm_def frame_of_def\<close>)
  then have "emit_frame (frame_of css s0) ?c1 (snd (tcp_transmit_skb b seq ?c1))" by (rule emit_frame_transmit)
  with emit_frame_upd_skb show ?thesis by (rule emit_frame_trans)
qed

lemma store_seq_emits: "emit_frame P c c' \<Longrightarrow> emit_frame P c (tcp_store_seq b c')"
  by (auto simp: tcp_store_seq_def Let_def intro!: emit_frame_ops)

lemma send_each_emits:
  assumes "queued css s0 a n c" "bs = take (length bs) (drop (n - a) (sk_write_queue (c_sk c)))"
    and "numbered css s0" "\<forall>chunk\<in>set css. length chunk \<le> 1460"
  shows "emit_frame (frame_of css s0) c (send_each bs c)"
  using assms(1,2)
proof (induction bs arbitrary: n c)
  case (Cons b bs)
  let ?q = "sk_write_queue (c_sk c)"
  let ?c1 = "snd (tcp_transmit_skb b (snd_nxt (tcb_of c)) (upd_skb b skb_reset_header c))"
  have ne: "drop (n - a) ?q \<noteq> []" using Cons.prems(2) by auto
  then have d: "n - a < length ?q" "drop (n - a) ?q = ?q ! (n - a) # drop (Suc (n - a)) ?q"
    by (simp_all add: Cons_nth_drop_Suc)
  have b: "b = ?q ! (n - a)" "bs = take (length bs) (drop (Suc (n - a)) ?q)"
    using Cons.prems(2) d(2) by simp_all
  have n: "n < length css" "a \<le> n" "snd_nxt (tcb_of c) = seq_at css s0 n"
    using Cons.prems(1) d(1) by (auto simp: queued_def Let_def)
  have "entry css s0 n (a + (n - a)) b c" using Cons.prems(1) d(1) unfolding b queued_def Let_def by blast
  then obtain psh where psh: "segment_of psh (css ! n) b c" using n(2) by (auto simp: entry_def)
  have e: "emit_frame (frame_of css s0) c ?c1"
    by (rule segment_emits [OF psh chunk_size [OF assms(3,4) n(1)] n(1) refl n(3)])
  note one = send_one [OF Cons.prems(1) n(1) b(1) assms(3,4)]
  have "bs = take (length bs) (drop (Suc n - a) (sk_write_queue (c_sk (tcp_store_seq b ?c1))))"
    using b(2) n(2) unfolding one(2) by (simp add: Suc_diff_le)
  from Cons.IH [OF one(1) this] store_seq_emits [OF e, of b] show ?case
    by (simp add: Let_def) (rule emit_frame_trans)
qed simp

lemma send_next_emits:
  assumes "snd_inv css s0 c" "tk_inflight (c_sk c) = 0" "m \<le> length (sk_write_queue (c_sk c))"
  shows "emit_frame (frame_of css s0) c (snd (tcp_send_next m c))"
proof -
  from assms(1) obtain a n where q: "queued css s0 a n c" "unat (tk_inflight (c_sk c)) = n - a"
    and num: "numbered css s0" "\<forall>chunk\<in>set css. length chunk \<le> 1460" by (auto simp: snd_inv_def)
  have "n = a" using q assms(2) by (simp add: queued_def Let_def)
  then have "take m (sk_write_queue (c_sk c)) =
      take (length (take m (sk_write_queue (c_sk c)))) (drop (n - a) (sk_write_queue (c_sk c)))"
    using assms(3) by simp
  from send_each_emits [OF q(1) this num] show ?thesis by (simp add: tcp_send_next_def)
qed

lemma input_delack_emits:
  assumes "arrived css s0 b c"
  shows "emit_frame (frame_of css s0) c (input_delack b th e c)"
proof -
  let ?c1 = "tcp_stop_delack_timer c" and ?m = "min (length (sk_write_queue (c_sk (tcp_stop_delack_timer c)))) 3"
  let ?send = "(state_of c = TCP_ESTABLISHED \<or> state_of c = TCP_FIN_WAIT_1 \<or> state_of c = TCP_FIN_WAIT_2) \<and> e
    \<and> tk_inflight (c_sk ?c1) = 0 \<and> ?m > 0"
  show ?thesis
  proof (cases ?send)
    case True
    have "arrived css s0 b ?c1" by (rule arrived_frame [OF assms]) simp
    then have i1: "snd_inv css s0 ?c1" by (simp add: arrived_def)
    have "emit_frame (frame_of css s0) c (snd (tcp_send_next ?m ?c1))"
      by (rule emit_frame_trans [OF _ send_next_emits [OF i1]]) (use True in \<open>auto intro!: emit_frame_ops\<close>)
    then have "emit_frame (frame_of css s0) c (tcp_rearm_rto_timer
        (upd_sk (\<lambda>k. k\<lparr>tk_inflight := tk_inflight k + of_nat ?m\<rparr>) (snd (tcp_send_next ?m ?c1))))"
      by (intro emit_frame_ops) simp_all
    with True show ?thesis by (simp add: input_delack_def Let_def)
  next
    case False
    then have "quiet c (input_delack b th e c)"
      unfolding input_delack_def Let_def case_prod_beta
      by (auto intro!: quiet_ops)
    then show ?thesis by (rule emit_frame_quiet)
  qed
qed

lemma input_text_emits:
  assumes "arrived css s0 b c"
  shows "emit_frame (frame_of css s0) c (snd (input_text b th c))"
proof -
  let ?e = "b_seq (deref b c) = rcv_nxt (tcb_of c)"
  have "arrived css s0 b (touch b c)" by (rule arrived_frame [OF assms(1)]) simp
  moreover have "b < s_bnext (touch b c)" using assms(1) by (simp add: arrived_def touch_def)
  ultimately have d: "arrived css s0 b (input_data b th (touch b c))"
    by (auto intro: arrived_frame input_data_sd)
  have q: "emit_frame (frame_of css s0) c (input_data b th (touch b c))"
    by (rule emit_frame_quiet [OF input_data_quiet])
  show ?thesis
  proof (cases "input_fin b th ?e (input_data b th (touch b c))")
    case (Inl r)
    then show ?thesis
      using emit_frame_trans [OF q emit_frame_quiet [OF input_fin_quiet(1) [OF Inl]]] by (simp add: input_text_def)
  next
    case (Inr c')
    have a: "arrived css s0 b c'" using d input_fin_sd(2) [OF Inr] by (rule arrived_frame)
    have "emit_frame (frame_of css s0) c (input_delack b th ?e c')"
      by (rule emit_frame_trans [OF emit_frame_trans [OF q emit_frame_quiet [OF input_fin_quiet(2) [OF Inr]]] input_delack_emits [OF a]])
    then have "emit_frame (frame_of css s0) c (free_skb b (input_delack b th ?e c'))" by (rule emit_frame_ops)
    then show ?thesis using Inr by (simp add: input_text_def)
  qed
qed

lemma input_state_emits:
  assumes "arrived css s0 b c" "state_of c \<in> open_states"
  shows "emit_frame (frame_of css s0) c (snd (tcp_input_state b th c))"
proof -
  have st: "state_of c \<notin> {TCP_CLOSE, TCP_LISTEN, TCP_SYN_SENT}" using assms(2) by (auto simp: open_states_def)
  have ack: "input_ack b th c = input_ack_field b th c" using assms(2) by (auto simp: input_ack_def open_states_def)
  show ?thesis
  proof (cases "input_check b th c")
    case (Inl r)
    then show ?thesis
      using emit_frame_quiet [OF input_check_quiet [OF Inl]] by (simp add: input_state_other [OF st])
  next
    case check: (Inr c0)
    have c0: "c0 = c" by (rule input_check_state(2) [OF check])
    show ?thesis
    proof (cases "input_ack_field b th c")
      case (Inl r)
      then show ?thesis
        using emit_frame_quiet [OF input_ack_field_quiet(1) [OF Inl]] check c0 ack by (simp add: input_state_other [OF st])
    next
      case (Inr c1)
      have st1: "state_of c1 = state_of c" by (rule input_ack_field_state(2) [OF Inr])
      then have "input_fin_acked b th c1 = Inr c1" using assms(2) by (auto simp: input_fin_acked_def open_states_def)
      moreover have "emit_frame (frame_of css s0) c (snd (input_text b th c1))"
        by (rule emit_frame_trans [OF emit_frame_quiet [OF input_ack_field_quiet(2) [OF Inr]]
              input_text_emits [OF input_ack_field_arrived(2) [OF assms(1) Inr]]])
      ultimately show ?thesis using Inr check c0 ack by (simp add: input_state_other [OF st])
    qed
  qed
qed

subsection \<open>Timeouts and writes\<close>

text \<open>Acknowledged up to the end of a chunk, as a peer that takes whole segments does.\<close>

definition whole_acked :: "bytes list \<Rightarrow> u32 \<Rightarrow> tcpctx \<Rightarrow> bool" where
  "whole_acked css s0 c \<longleftrightarrow> snd_una (tcb_of c) \<in> seq_at css s0 ` {..length css}"

lemma whole_acked_at:
  assumes "queued css s0 a n c" "numbered css s0" "whole_acked css s0 c"
  shows "snd_una (tcb_of c) = seq_at css s0 a"
proof -
  from assms(3) obtain j where j: "j \<le> length css" "snd_una (tcb_of c) = seq_at css s0 j"
    by (auto simp: whole_acked_def)
  have q: "a \<le> n" "n \<le> length css" "seq_at css s0 a \<le> seq_at css s0 j" "seq_at css s0 j \<le> seq_at css s0 n"
    "a < n \<longrightarrow> seq_at css s0 j < seq_at css s0 (Suc a)"
    using assms(1) unfolding queued_def Let_def j(2) by blast+
  have "a \<le> j" "j \<le> n" "a < n \<longrightarrow> j < Suc a"
    using q j(1) seq_at_cmp [OF assms(2), of a j] seq_at_cmp [OF assms(2), of j n] seq_at_cmp [OF assms(2), of j "Suc a"]
    by simp_all
  then have "j = a" by linarith
  then show ?thesis using j(2) by simp
qed

lemma retransmit_emits:
  assumes "snd_inv css s0 c" "whole_acked css s0 c" "sk_write_queue (c_sk c) = b # q"
  shows "emit_frame (frame_of css s0) c (retransmit_head b c)"
proof -
  from assms(1) obtain a n where q: "queued css s0 a n c"
    and num: "numbered css s0" "\<forall>chunk\<in>set css. length chunk \<le> 1460" by (auto simp: snd_inv_def)
  have "sd_frame S c (rto_enter c)" for S by (simp add: rto_enter_def)
  then have d: "queued css s0 a n (rto_enter c)" "sk_write_queue (c_sk (rto_enter c)) = b # q"
    using queued_frame [OF _ q] assms(3) by simp_all
  then have a: "a < length css" "entry css s0 n (a + 0) b (rto_enter c)"
    unfolding queued_def Let_def by fastforce+
  then obtain psh where psh: "segment_of psh (css ! a) b (rto_enter c)" by (auto simp: entry_def)
  have "quiet c (rto_enter c)" by (intro emit_frame_ops emit_frame_refl)
  from emit_frame_trans [OF emit_frame_quiet [OF this]
      segment_emits [OF psh chunk_size [OF num a(1)] a(1) refl whole_acked_at [OF q num(1) assms(2)]]]
  show ?thesis by (simp add: retransmit_head_def)
qed

lemma timeout_emits:
  assumes "snd_inv css s0 c" "whole_acked css s0 c"
  shows "emit_frame (frame_of css s0) c (tcp_retransmission_timeout c)"
proof (cases "sk_write_queue (c_sk c)")
  case Nil
  then have "write_queue_head (rto_enter c) = None" by (simp add: write_queue_head_def q_peek_def)
  then have "quiet c (tcp_retransmission_timeout c)"
    unfolding tcp_retransmission_timeout_def Let_def rto_enter_def [symmetric]
    by (auto intro!: quiet_ops simp: tcp_notify_user_def split: tcp_states.splits)
  then show ?thesis by (rule emit_frame_quiet)
next
  case (Cons b q)
  have "quiet (retransmit_head b c) (tcp_retransmission_timeout c)"
    unfolding retransmission_timeout_eq [OF Cons] Let_def case_prod_beta
    by (auto intro!: quiet_ops done_quiet)
  from emit_frame_trans [OF retransmit_emits [OF assms Cons] emit_frame_quiet [OF this]] show ?thesis .
qed

lemma send_chunk_steps:
  assumes len: "length chunk \<le> 1460"
  obtains c3 where "send_chunk psh chunk c = upd_sk (\<lambda>k. k\<lparr>sk_write_queue := q_tail (s_bnext c) (sk_write_queue k)\<rparr>)
      (if tk_inflight (c_sk c) = 0
       then tcp_store_seq (s_bnext c) (upd_sk (\<lambda>k. k\<lparr>tk_inflight := tk_inflight k + 1\<rparr>)
         (snd (tcp_transmit_skb (s_bnext c) (snd_nxt (tcb_of c)) c3))) else c3)"
    "tcp_ready (s_bnext c) (length chunk) c3" "hdr_words (deref (s_bnext c) c3) = 5" "seg_data (s_bnext c) c3 = chunk"
    "b_protocol (deref (s_bnext c) c3) = ucast IP_TCP" "\<And>P. emit_frame P c c3" "emit_view c3 = (s_skbs c3, s_bnext c3,
      s_routes c, s_arp_cache c, s_tap c, tk_sacks (c_sk c))"
    "sk_sport (c_sk c3) = sk_sport (c_sk c)" "sk_dport (c_sk c3) = sk_dport (c_sk c)" "sk_daddr (c_sk c3) = sk_daddr (c_sk c)"
    "tk_retransmit (c_sk c) = None \<Longrightarrow> s_fault c3 = s_fault c" "heap_ok c \<Longrightarrow> heap_ok c3"
proof -
  let ?b = "s_bnext c" and ?c1 = "snd (alloc_skb (54 + length chunk) c)"
  obtain k where k: "send_chunk psh chunk c = snd (tcp_queue_transmit_skb ?b (put_skb ?b k ?c1))"
    "tcp_ready ?b (length chunk) (put_skb ?b k ?c1)" "hdr_words k = 5" "drop 54 (b_mem k) = chunk"
    "b_protocol k = ucast IP_TCP"
    using send_chunk_buffer [OF len] by metis
  let ?c2 = "put_skb ?b k ?c1"
  define c3 where "c3 = (if sk_write_queue (c_sk ?c2) = [] then tcp_rearm_rto_timer ?c2 else ?c2)"
  have l: "live ?b ?c1" by simp
  have e2: "emit_frame P c ?c2" for P by (rule emit_frame_ops(29) [OF emit_frame_alloc])
  have e3: "emit_frame P c c3" for P using e2 emit_frame_ops(22) [OF e2] by (simp add: c3_def)
  have s3: "s_skbs c3 = s_skbs ?c2" "tcb_of c3 = tcb_of c" "tk_inflight (c_sk c3) = tk_inflight (c_sk c)"
    "tk_sackok (c_sk c3) = tk_sackok (c_sk ?c2)" "tk_sacks (c_sk c3) = tk_sacks (c_sk ?c2)"
    by (simp_all add: c3_def)
  note d3 = heap_of_skbs [OF s3(1)]
  have r3: "tcp_ready ?b (length chunk) c3" using k(2) s3(4,5) by (simp add: tcp_ready_def d3 Let_def)
  have "deref ?b c3 = k" using l d3(2) by simp
  then have s: "hdr_words (deref ?b c3) = 5" "seg_data ?b c3 = chunk" "b_protocol (deref ?b c3) = ucast IP_TCP"
    using k(3-5) by (simp_all add: seg_data_def)
  have eq: "send_chunk psh chunk c = upd_sk (\<lambda>k. k\<lparr>sk_write_queue := q_tail ?b (sk_write_queue k)\<rparr>)
      (if tk_inflight (c_sk c) = 0 then tcp_store_seq ?b (upd_sk (\<lambda>k. k\<lparr>tk_inflight := tk_inflight k + 1\<rparr>)
        (snd (tcp_transmit_skb ?b (snd_nxt (tcb_of c)) c3))) else c3)"
    unfolding k(1) tcp_queue_transmit_skb_def Let_def case_prod_beta c3_def [symmetric] s3(2,3) by simp
  have "emit_view c3 = emit_view ?c2" by (simp add: c3_def)
  then have v: "emit_view c3 = (s_skbs c3, s_bnext c3, s_routes c, s_arp_cache c, s_tap c, tk_sacks (c_sk c))"
    using l by (auto simp: emit_view_def alloc_skb_def put_skb_def live_def)
  have f: "s_fault c3 = s_fault c" if "tk_retransmit (c_sk c) = None"
    using that l by (simp add: c3_def tcp_rearm_rto_timer_def tcp_release_rto_timer_def timer_release_def Let_def
        split_beta put_skb_def)
  have a: "sk_sport (c_sk c3) = sk_sport (c_sk c)" "sk_dport (c_sk c3) = sk_dport (c_sk c)" "sk_daddr (c_sk c3) = sk_daddr (c_sk c)"
    by (simp_all add: c3_def tcp_rearm_rto_timer_def tcp_release_rto_timer_def Let_def split_beta)
  have "s_bnext c3 = s_bnext ?c2" by (simp add: c3_def)
  then have h: "heap_ok c3" if "heap_ok c"
    using that l s3(1) by (auto simp: heap_ok_def live_def alloc_skb_def put_skb_def split: if_splits)
  show thesis by (rule that [OF eq r3 s e3 v a f h])
qed

lemma send_chunk_emits:
  assumes q: "queued css s0 a n c" and inf: "unat (tk_inflight (c_sk c)) = n - a" and st: "\<not> stalled c"
    and len: "length chunk \<le> 1460"
  shows "emit_frame (frame_of (css @ [chunk]) s0) c (send_chunk psh chunk c)"
proof -
  let ?P = "frame_of (css @ [chunk]) s0"
  obtain c3 where c3: "send_chunk psh chunk c = upd_sk (\<lambda>k. k\<lparr>sk_write_queue := q_tail (s_bnext c) (sk_write_queue k)\<rparr>)
      (if tk_inflight (c_sk c) = 0
       then tcp_store_seq (s_bnext c) (upd_sk (\<lambda>k. k\<lparr>tk_inflight := tk_inflight k + 1\<rparr>)
         (snd (tcp_transmit_skb (s_bnext c) (snd_nxt (tcb_of c)) c3))) else c3)"
    "tcp_ready (s_bnext c) (length chunk) c3" "hdr_words (deref (s_bnext c) c3) = 5" "seg_data (s_bnext c) c3 = chunk"
    "b_protocol (deref (s_bnext c) c3) = ucast IP_TCP" "emit_frame ?P c c3"
    by (rule send_chunk_steps [OF len, of psh c]) blast
  have "emit_frame ?P c3 (snd (tcp_transmit_skb (s_bnext c) (snd_nxt (tcb_of c)) c3))" if "tk_inflight (c_sk c) = 0"
  proof (rule emit_frame_transmit)
    have n: "n = length css" "snd_nxt (tcb_of c) = seq_at css s0 n"
      using that st inf q by (auto simp: stalled_def queued_def Let_def)
    then have "carries (seq_at css s0 (length css)) chunk seg \<Longrightarrow> \<exists>j < length (css @ [chunk]).
        carries (seq_at (css @ [chunk]) s0 j) ((css @ [chunk]) ! j) seg" for seg
      by (intro exI [of _ "length css"]) (simp add: seq_at_append)
    then show "emits ?P c3 (snd (tcp_transmit_skb (s_bnext c) (snd_nxt (tcb_of c)) c3))" if "calm c3"
      by (intro emits_mono [OF ready_carries [OF c3(2-4) refl len c3(5)]])
        (use that n in \<open>auto simp: calm_def frame_of_def\<close>)
  qed
  then have "tk_inflight (c_sk c) = 0 \<Longrightarrow> emit_frame ?P c (snd (tcp_transmit_skb (s_bnext c) (snd_nxt (tcb_of c)) c3))"
    using c3(6) by (rule_tac emit_frame_trans)
  then show ?thesis unfolding c3(1) using c3(6) by (auto intro!: emit_frame_ops store_seq_emits)
qed

text \<open>A first chunk to a reachable peer is one IP frame.\<close>

lemma send_chunk_wire:
  assumes "length chunk \<le> 1460" "tk_inflight (c_sk c) = 0" "tk_retransmit (c_sk c) = None" "heap_ok c"
    and "route_lookup (sk_daddr (c_sk c)) c = Some rt" "netdev_ok (rt_dev rt)"
    and "arp_get_hwaddr (next_hop rt (sk_daddr (c_sk c))) (s_arp_cache c) = Some dmac" "length dmac = 6"
  shows "\<exists>F. s_tap (send_chunk psh chunk c) = s_tap c @ [F] \<and> mread F 12 2 = be16 ETH_P_IP
    \<and> th_sport (tcp_ntoh (dec_tcphdr (mread F 34 20))) = sk_sport (c_sk c)
    \<and> th_dport (tcp_ntoh (dec_tcphdr (mread F 34 20))) = sk_dport (c_sk c)
    \<and> s_fault (send_chunk psh chunk c) = s_fault c"
proof -
  let ?b = "s_bnext c"
  obtain c3 where c3: "send_chunk psh chunk c = upd_sk (\<lambda>k. k\<lparr>sk_write_queue := q_tail ?b (sk_write_queue k)\<rparr>)
      (if tk_inflight (c_sk c) = 0
       then tcp_store_seq ?b (upd_sk (\<lambda>k. k\<lparr>tk_inflight := tk_inflight k + 1\<rparr>)
         (snd (tcp_transmit_skb ?b (snd_nxt (tcb_of c)) c3))) else c3)"
    "tcp_ready ?b (length chunk) c3" "b_protocol (deref ?b c3) = ucast IP_TCP"
    "emit_view c3 = (s_skbs c3, s_bnext c3, s_routes c, s_arp_cache c, s_tap c, tk_sacks (c_sk c))"
    "sk_sport (c_sk c3) = sk_sport (c_sk c)" "sk_dport (c_sk c3) = sk_dport (c_sk c)" "sk_daddr (c_sk c3) = sk_daddr (c_sk c)"
    "s_fault c3 = s_fault c" "heap_ok c3"
    by (rule send_chunk_steps [OF assms(1), of psh c]) (use assms(3,4) in blast)
  have v: "s_routes c3 = s_routes c" "s_arp_cache c3 = s_arp_cache c" "s_tap c3 = s_tap c"
    using c3(4) by (simp_all add: emit_view_def)
  let ?t = "snd (tcp_transmit_skb ?b (snd_nxt (tcb_of c)) c3)"
  have rt: "route_lookup (sk_daddr (c_sk c3)) c3 = Some rt"
    "arp_get_hwaddr (next_hop rt (sk_daddr (c_sk c3))) (s_arp_cache c3) = Some dmac"
    using assms(5,7) v by (simp_all add: c3(7) route_lookup_def)
  note to = rt(1) assms(6) rt(2) assms(8)
  obtain macs ih seg where F: "s_tap ?t = s_tap c @ [wire_frame macs ih seg]" "length macs = 12"
    "seg = tcp_segment (c_sk c3) (snd_nxt (tcb_of c)) (tcp_hdr (deref ?b c3)) (seg_body (length chunk) (deref ?b c3))"
    using transmit_wire [OF c3(2) to c3(3), of "snd_nxt (tcb_of c)"] assms(6,8) v(3) by (fastforce simp: netdev_ok_def)
  let ?F = "wire_frame macs ih seg"
  have h: "mread ?F 12 2 = be16 ETH_P_IP" "mread ?F 34 20 = take 20 seg"
    using F(2) by (simp_all add: wire_frame_def mread_def)
  have "live ?b c3" using c3(2) by (simp add: tcp_ready_def)
  then have fault: "s_fault ?t = s_fault c" "live ?b ?t"
    using tcp_transmit_frame [OF c3(2) to, of "snd_nxt (tcb_of c)"] c3(8) tcp_transmit_keeps [OF c3(9), of ?b]
    by (auto simp: tx_keeps_def)
  then have "s_fault (send_chunk psh chunk c) = s_fault c" "s_tap (send_chunk psh chunk c) = s_tap ?t"
    by (simp_all add: c3(1) assms(2) tcp_store_seq_def Let_def)
  with F(1) h fault show ?thesis
    using seg_fields(1,2) [of "c_sk c3" "snd_nxt (tcb_of c)" "tcp_hdr (deref ?b c3)" "seg_body (length chunk) (deref ?b c3)", folded F(3)]
    by (intro exI [of _ ?F]) (simp add: c3(5,6))
qed

lemma send_loop_emits:
  assumes "tcp_send_loop fuel mss data c = Some c'" "0 < mss" "mss \<le> 1460"
    and "snd_inv css s0 c" "\<not> stalled c" "numbered (css @ chunks mss data) s0"
  shows "emit_frame (frame_of (css @ chunks mss data) s0) c c'"
  using assms(1,4-6)
proof (induction fuel arbitrary: data c css)
  case 0
  then show ?case by (cases data) simp_all
next
  case (Suc fuel)
  show ?case
  proof (cases "data = []")
    case True
    then show ?thesis using Suc.prems by simp
  next
    case False
    let ?chunk = "take mss data" and ?c1 = "send_chunk (length data \<le> mss) (take mss data) c"
    have ch: "css @ chunks mss data = (css @ [?chunk]) @ chunks mss (drop mss data)"
      using chunks_step [OF False assms(2)] by simp
    have num: "numbered (css @ [?chunk]) s0" using Suc.prems(4) unfolding ch by (rule numbered_append)
    have len: "length ?chunk \<le> 1460" using assms(3) by simp
    from Suc.prems(2) obtain a n where q: "queued css s0 a n c" "unat (tk_inflight (c_sk c)) = n - a"
      and s0: "0 < s0" "\<forall>chunk\<in>set css. length chunk \<le> 1460" by (auto simp: snd_inv_def)
    note one = send_chunk_queued [OF q(1) num len q(2) Suc.prems(3), of "length data \<le> mss"]
    have inv: "snd_inv (css @ [?chunk]) s0 ?c1" using one(1) num s0 len by (auto simp: snd_inv_def)
    have "emit_frame (frame_of (css @ [?chunk]) s0) c ?c1" by (rule send_chunk_emits [OF q Suc.prems(3) len])
    then have "emit_frame (frame_of (css @ chunks mss data) s0) c ?c1"
      unfolding ch by (rule emit_frame_mono) (rule frame_of_append)
    moreover have "tcp_send_loop fuel mss (drop mss data) ?c1 = Some c'"
      using Suc.prems(1) by (simp add: tcp_send_loop_step [OF False])
    from Suc.IH [OF this inv one(2) Suc.prems(4) [unfolded ch]]
    have "emit_frame (frame_of (css @ chunks mss data) s0) ?c1 c'" unfolding ch .
    ultimately show ?thesis by (rule emit_frame_trans)
  qed
qed

lemma send_emits:
  assumes "snd_inv css s0 c" "\<not> stalled c" "0 < tk_smss (c_sk c)" "tk_smss (c_sk c) \<le> 1460"
    and "numbered (css @ chunks (unat (tk_smss (c_sk c))) data) s0" "tcp_send data c = Some (rc, c')"
  shows "emit_frame (frame_of (css @ chunks (unat (tk_smss (c_sk c))) data) s0) c c'"
proof -
  let ?m = "unat (tk_smss (c_sk c))"
  obtain c1 where c1: "tcp_send_loop (length data) ?m data c = Some c1" "c' = tcp_rearm_user_timeout c1"
    using assms(6) by (auto simp: tcp_send_def)
  have m: "0 < ?m" "?m \<le> 1460" using assms(3,4) by (simp_all add: word_less_nat_alt word_le_nat_alt)
  show ?thesis using send_loop_emits [OF c1(1) m assms(1,2,5)] by (auto simp: c1(2) intro!: emit_frame_ops)
qed

subsection \<open>What the number acknowledged does\<close>

lemma send_loop_una: "tcp_send_loop fuel mss data c = Some c' \<Longrightarrow> snd_una (tcb_of c') = snd_una (tcb_of c)"
proof (induction fuel arbitrary: data c)
  case (Suc fuel)
  then show ?case by (cases "data = []") (auto simp: tcp_send_loop_step simp del: tcp_send_loop.simps(3))
qed (case_tac data; simp)

lemma send_una: "tcp_send data c = Some (rc, c') \<Longrightarrow> snd_una (tcb_of c') = snd_una (tcb_of c)"
  by (auto simp: tcp_send_def tcp_rearm_user_timeout_def Let_def split_beta dest: send_loop_una split: option.splits)

lemma sd_una:
  assumes "snd_inv css s0 c" "sd_frame (set (sk_write_queue (c_sk c))) c c'"
  shows "snd_una (tcb_of c') = snd_una (tcb_of c)"
proof -
  have "sd_ok (set (sk_write_queue (c_sk c))) c"
    using assms(1) unfolding snd_inv_def queued_def Let_def by blast
  then show ?thesis using assms(2) unfolding sd_frame_def by blast
qed

lemma arrived_una:
  assumes "arrived css s0 b c" "\<And>S. b \<notin> S \<Longrightarrow> sd_frame S c c'"
  shows "snd_una (tcb_of c') = snd_una (tcb_of c)"
proof (rule sd_una)
  show "snd_inv css s0 c" using assms(1) by (simp add: arrived_def)
  show "sd_frame (set (sk_write_queue (c_sk c))) c c'" by (rule assms(2)) (use assms(1) in \<open>simp add: arrived_def\<close>)
qed

lemma send_each_una: "snd_una (tcb_of (send_each bs c)) = snd_una (tcb_of c)"
proof (induction bs arbitrary: c)
  case (Cons b bs)
  have "snd_una (tcb_of (tcp_store_seq b d)) = snd_una (tcb_of d)" for d
    by (simp add: tcp_store_seq_def Let_def)
  with Cons.IH show ?case by (simp add: Let_def)
qed simp

lemma input_delack_una: "snd_una (tcb_of (input_delack b th e c)) = snd_una (tcb_of c)"
proof -
  have "tcb_of (tcp_stop_delack_timer c) = tcb_of c" by (simp add: tcp_stop_delack_timer_def Let_def)
  then show ?thesis
    by (simp add: input_delack_def Let_def split_beta tcp_send_next_def send_each_una)
qed

lemma input_text_una:
  assumes "arrived css s0 b c"
  shows "snd_una (tcb_of (snd (input_text b th c))) = snd_una (tcb_of c)"
proof -
  let ?e = "b_seq (deref b c) = rcv_nxt (tcb_of c)"
  have t: "arrived css s0 b (touch b c)" by (rule arrived_frame [OF assms(1)]) simp
  have b: "b < s_bnext (touch b c)" using assms(1) by (simp add: arrived_def touch_def)
  have d: "arrived css s0 b (input_data b th (touch b c))"
    using t b by (auto intro: arrived_frame input_data_sd)
  have u: "snd_una (tcb_of (input_data b th (touch b c))) = snd_una (tcb_of c)"
    using arrived_una [OF t input_data_sd [OF _ b]] by (simp add: touch_def)
  show ?thesis
  proof (cases "input_fin b th ?e (input_data b th (touch b c))")
    case (Inl r)
    with arrived_una [OF d input_fin_sd(1) [OF Inl]] u show ?thesis by (simp add: input_text_def)
  next
    case (Inr c')
    with arrived_una [OF d input_fin_sd(2) [OF Inr]] u show ?thesis
      by (simp add: input_text_def input_delack_una)
  qed
qed

lemma input_state_una:
  assumes "arrived css s0 b c" "state_of c \<in> open_states"
  shows "snd_una (tcb_of (snd (tcp_input_state b th c))) = snd_una (tcb_of c)
    \<or> snd_una (tcb_of c) < th_ack_seq th \<and> th_ack_seq th \<le> snd_nxt (tcb_of c)
      \<and> snd_una (tcb_of (snd (tcp_input_state b th c))) = th_ack_seq th"
proof -
  have st: "state_of c \<notin> {TCP_CLOSE, TCP_LISTEN, TCP_SYN_SENT}" using assms(2) by (auto simp: open_states_def)
  have ack: "input_ack b th c = input_ack_field b th c" using assms(2) by (auto simp: input_ack_def open_states_def)
  show ?thesis
  proof (cases "input_check b th c")
    case (Inl r)
    then show ?thesis
      using arrived_una [OF assms(1) input_check_sd [OF Inl]] by (simp add: input_state_other [OF st])
  next
    case check: (Inr c0)
    have c0: "c0 = c" by (rule input_check_state(2) [OF check])
    show ?thesis
    proof (cases "input_ack_field b th c")
      case (Inl r)
      then have "snd_una (tcb_of (snd r)) = snd_una (tcb_of c)
          \<or> snd_una (tcb_of c) < th_ack_seq th \<and> th_ack_seq th \<le> snd_nxt (tcb_of c) \<and> snd_una (tcb_of (snd r)) = th_ack_seq th"
        by (auto simp: input_ack_field_def tcp_drop_def Let_def split: if_splits)
      then show ?thesis using Inl check c0 ack by (simp add: input_state_other [OF st])
    next
      case (Inr c1)
      then have "snd_una (tcb_of c1) = snd_una (tcb_of c)
          \<or> snd_una (tcb_of c) < th_ack_seq th \<and> th_ack_seq th \<le> snd_nxt (tcb_of c) \<and> snd_una (tcb_of c1) = th_ack_seq th"
        by (auto simp: input_ack_field_def tcp_drop_def Let_def split: if_splits)
      moreover have st1: "state_of c1 = state_of c" by (rule input_ack_field_state(2) [OF Inr])
      then have "input_fin_acked b th c1 = Inr c1" using assms(2) by (auto simp: input_fin_acked_def open_states_def)
      moreover note input_text_una [OF input_ack_field_arrived(2) [OF assms(1) Inr], of th]
      ultimately show ?thesis using Inr check c0 ack by (simp add: input_state_other [OF st])
    qed
  qed
qed

end
