(* ===== verification/Sock_Frame.thy ===== *)
theory Sock_Frame
  imports Tcp_Frame Rx
begin

unbundle bit_operations_syntax

text \<open>
  No operation of a connection changes which socket it is: its name, descriptor and owner stay, and
  it gives back the references it takes.  One lemma per operation, all rewrite rules.
\<close>

definition ident :: "tcpctx \<Rightarrow> nat \<times> int \<times> int \<times> int" where
  "ident c = (c_sid c, so_fd (c_sock c), so_pid (c_sock c), so_refcnt (c_sock c))"

lemma ident_more: "stack.more c' = stack.more (c :: tcpctx) \<Longrightarrow> ident c' = ident c"
  using c_more [of c' c] by (simp add: ident_def)

lemma ident_base [simp]:
  "ident (check b c) = ident c" "ident (touch n c) = ident c" "ident (put_skb n k c) = ident c"
  "ident (upd_skb n f c) = ident c" "ident (free_skb n c) = ident c" "ident (snd (alloc_skb m c)) = ident c"
  "ident (timer_cancel t c) = ident c" "ident (timer_release t c) = ident c"
  "ident (snd (timer_add e h a c)) = ident c" "ident (timer_oneshot e h a c) = ident c"
  "ident (upd_sk g c) = ident c" "ident (upd_tcb u c) = ident c"
  by (simp_all add: ident_def)

lemma ident_pair:
  "alloc_skb m c = (n, c') \<Longrightarrow> ident c' = ident c" "timer_add e h a c = (t, c') \<Longrightarrow> ident c' = ident c"
  using ident_base(6) [of m c] ident_base(9) [of e h a c] by simp_all

lemma ident_ip_output [simp]: "ident (snd (ip_output sk b c)) = ident c"
  using ip_output_frame [where b = b and B = UNIV and sk = sk and s = c] by (intro ident_more) (simp add: tx_frame_def)

lemma ident_skb_queue_free [simp]: "ident (skb_queue_free q c) = ident c"
  by (induction q c rule: skb_queue_free.induct) (simp_all add: Let_def)

subsection \<open>The connection\<close>

lemma ident_wait [simp]:
  "ident (wakeup_recv c) = ident c" "ident (sleep_recv c) = ident c"
  "ident (wakeup_sock c) = ident c" "ident (sleep_sock c) = ident c"
  by (simp_all add: wakeup_recv_def sleep_recv_def wakeup_sock_def sleep_sock_def) (simp_all add: ident_def)

lemma ident_sock [simp]:
  "ident (snd (socket_delete c)) = ident c" "ident (sock_connected c) = ident c"
  by (simp_all add: socket_delete_def sock_connected_def Let_def) (simp_all add: ident_def)

lemma ident_conn [simp]:
  "ident (tcp_set_state st c) = ident c" "ident (tcp_clear_queues c) = ident c"
  "ident (tcp_stop_rto_timer c) = ident c" "ident (tcp_release_rto_timer c) = ident c"
  "ident (tcp_stop_delack_timer c) = ident c" "ident (tcp_release_delack_timer c) = ident c"
  by (simp_all add: tcp_set_state_def tcp_clear_queues_def tcp_stop_rto_timer_def tcp_release_rto_timer_def
      tcp_stop_delack_timer_def tcp_release_delack_timer_def)

lemma ident_clear_timers [simp]: "ident (tcp_clear_timers c) = ident c"
  by (simp add: tcp_clear_timers_def Let_def)

lemma ident_done [simp]: "ident (tcp_free c) = ident c" "ident (snd (tcp_done c)) = ident c"
  by (simp_all add: tcp_free_def tcp_done_def)

lemma ident_handle_fin [simp]: "ident (tcp_handle_fin_state c) = ident c"
  by (simp add: tcp_handle_fin_state_def split: tcp_states.split)

lemma ident_timers [simp]:
  "ident (tcp_enter_time_wait c) = ident c" "ident (tcp_rearm_user_timeout c) = ident c"
  by (simp_all add: tcp_enter_time_wait_def tcp_rearm_user_timeout_def Let_def split: prod.split)
    (auto dest!: ident_pair)

lemma ident_rtt [simp]: "ident (tcp_rtt c) = ident c"
  by (simp add: tcp_rtt_def Let_def split: option.split)

subsection \<open>Sending\<close>

lemma ident_write_options [simp]: "ident (tcp_write_options b c) = ident c"
  by (simp add: tcp_write_options_def Let_def)

lemma ident_transmit [simp]: "ident (snd (tcp_transmit_skb b seq c)) = ident c"
  by (simp add: tcp_transmit_skb_def Let_def)

lemma ident_tcp_alloc [simp]: "ident (snd (tcp_alloc_skb optlen sz c)) = ident c"
  by (simp add: tcp_alloc_skb_def Let_def split: prod.split) (auto dest!: ident_pair)

lemma ident_send [simp]:
  "ident (snd (tcp_send_ack c)) = ident c" "ident (snd (tcp_send_synack c)) = ident c"
  "ident (snd (tcp_send_reset c)) = ident c" "ident (snd (tcp_send_challenge_ack b c)) = ident c"
  by (simp_all add: tcp_send_ack_def tcp_send_synack_def tcp_send_reset_def tcp_send_challenge_ack_def
      Let_def case_prod_beta)

lemma ident_rearm [simp]: "ident (tcp_rearm_rto_timer c) = ident c"
  by (simp add: tcp_rearm_rto_timer_def Let_def case_prod_beta)

lemma ident_store_seq [simp]: "ident (tcp_store_seq b c) = ident c"
  by (simp add: tcp_store_seq_def Let_def)

lemma ident_queue_transmit [simp]: "ident (snd (tcp_queue_transmit_skb b c)) = ident c"
  by (simp add: tcp_queue_transmit_skb_def Let_def case_prod_beta)

lemma ident_send_each [simp]: "ident (send_each bs c) = ident c"
  by (induction bs c rule: send_each.induct) (simp_all add: Let_def)

lemma ident_send_next [simp]: "ident (snd (tcp_send_next n c)) = ident c"
  by (simp add: tcp_send_next_def)

lemma ident_syn_options [simp]: "ident (tcp_write_syn_options b opts n c) = ident c"
  by (simp add: tcp_write_syn_options_def Let_def)

lemma ident_send_syn [simp]: "ident (snd (tcp_send_syn c)) = ident c"
  by (simp add: tcp_send_syn_def Let_def case_prod_beta)

lemma ident_fin [simp]: "ident (snd (tcp_queue_fin c)) = ident c" "ident (snd (tcp_send_fin c)) = ident c"
  by (simp_all add: tcp_queue_fin_def tcp_send_fin_def Let_def case_prod_beta)

lemma ident_connect [simp]: "ident (snd (tcp_connect isn c)) = ident c"
  by (simp add: tcp_connect_def Let_def case_prod_beta)

lemma ident_send_loop: "tcp_send_loop fuel mss data c = Some c' \<Longrightarrow> ident c' = ident c"
proof (induction fuel arbitrary: data c)
  case 0
  then show ?case by (cases data) simp_all
next
  case (Suc fuel)
  show ?case
  proof (cases data)
    case Nil
    with Suc.prems show ?thesis by simp
  next
    case (Cons x xs)
    obtain b c1 where a: "tcp_alloc_skb 0 (if Suc (length xs) > mss then mss else Suc (length xs)) c = (b, c1)"
      by (meson surj_pair)
    then have c1: "ident c1 = ident c" using ident_tcp_alloc [of 0 _ c] by (metis snd_conv)
    show ?thesis
      using Suc.prems unfolding Cons tcp_send_loop.simps Let_def length_Cons a prod.case
      by (auto dest!: Suc.IH simp: c1)
  qed
qed

lemma ident_tcp_send: "tcp_send data c = Some (rc, c') \<Longrightarrow> ident c' = ident c"
  by (auto simp: tcp_send_def dest: ident_send_loop)

subsection \<open>Receiving\<close>

lemma ident_insert [simp]: "ident (tcp_data_insert_ordered b c) = ident c"
  by (simp add: tcp_data_insert_ordered_def Let_def split: insert_at.split)

lemma ident_consume [simp]: "ident (consume_ofo q c) = ident c" "ident (tcp_consume_ofo_queue c) = ident c"
proof -
  show "ident (consume_ofo q c) = ident c" for q c
    by (induction q c rule: consume_ofo.induct) (simp_all add: Let_def)
  then show "ident (tcp_consume_ofo_queue c) = ident c" by (simp add: tcp_consume_ofo_queue_def)
qed

lemma ident_sacks [simp]: "ident (snd (tcp_calculate_sacks c)) = ident c"
  by (simp add: tcp_calculate_sacks_def Let_def case_prod_beta)

lemma ident_notify [simp]: "ident (snd (tcp_recv_notify c)) = ident c"
  by (simp add: tcp_recv_notify_def)

lemma ident_data_queue [simp]: "ident (snd (tcp_data_queue b c)) = ident c"
  by (simp add: tcp_data_queue_def Let_def)

lemma ident_dequeue_loop: "ident (snd (snd (dequeue_loop q rlen n buf c))) = ident c"
proof (induction q arbitrary: rlen buf c)
  case (Cons b q)
  show ?case by (simp add: Let_def Cons.IH)
qed simp

lemma ident_dequeue [simp]: "ident (snd (snd (tcp_data_dequeue n c))) = ident c"
  using ident_dequeue_loop [of "sk_receive_queue (c_sk c)" 0 n "[]" c]
  by (simp add: tcp_data_dequeue_def Let_def case_prod_beta)

lemma ident_clean_rto: "ident (clean_rto q una c) = ident c"
proof (induction q arbitrary: c)
  case (Cons b q)
  show ?case by (simp add: Let_def Cons.IH)
qed simp

lemma ident_clean [simp]: "ident (snd (tcp_clean_rto_queue una c)) = ident c"
  by (simp add: tcp_clean_rto_queue_def Let_def ident_clean_rto)

lemma ident_drop [simp]: "ident (snd (tcp_drop b c)) = ident c" "ident (snd (tcp_discard b c)) = ident c"
  "ident (snd (tcp_listen b c)) = ident c"
  by (simp_all add: tcp_drop_def tcp_discard_def tcp_listen_def)

lemma ident_reset [simp]: "ident (tcp_reset c) = ident c"
  by (simp add: tcp_reset_def Let_def split: tcp_states.split)

lemma ident_synsent [simp]: "ident (snd (tcp_synsent b th c)) = ident c"
  by (simp add: tcp_synsent_def Let_def)

lemma ident_closed [simp]: "ident (snd (tcp_closed b th c)) = ident c"
  by (simp add: tcp_closed_def Let_def case_prod_beta)

definition phase_ctx :: "phase \<Rightarrow> tcpctx" where
  "phase_ctx p = (case p of Inl r \<Rightarrow> snd r | Inr c \<Rightarrow> c)"

lemma phase_ctx_simps [simp]: "phase_ctx (Inl r) = snd r" "phase_ctx (Inr c) = c"
  by (simp_all add: phase_ctx_def)

lemma ident_input_check [simp]: "ident (phase_ctx (input_check b th c)) = ident c"
  by (simp add: input_check_def Let_def)

lemma ident_ack_field [simp]: "ident (phase_ctx (input_ack_field b th c)) = ident c"
  by (simp add: input_ack_field_def Let_def)

lemma ident_input_ack [simp]: "ident (phase_ctx (input_ack b th c)) = ident c"
  by (simp add: input_ack_def split: tcp_states.split)

lemma ident_fin_acked [simp]: "ident (phase_ctx (input_fin_acked b th c)) = ident c"
  by (simp add: input_fin_acked_def Let_def split: tcp_states.split)

lemma ident_input_data [simp]: "ident (input_data b th c) = ident c"
  by (simp add: input_data_def)

lemma ident_input_fin [simp]: "ident (phase_ctx (input_fin b th e c)) = ident c"
  by (simp add: input_fin_def Let_def split: tcp_states.split)

lemma ident_delack [simp]: "ident (input_delack b th e c) = ident c"
  by (simp add: input_delack_def Let_def case_prod_beta)

lemma ident_phase: "input_check b th c = Inl r \<Longrightarrow> ident (snd r) = ident c"
  "input_check b th c = Inr d \<Longrightarrow> ident d = ident c"
  "input_ack b th c = Inl r \<Longrightarrow> ident (snd r) = ident c" "input_ack b th c = Inr d \<Longrightarrow> ident d = ident c"
  "input_fin_acked b th c = Inl r \<Longrightarrow> ident (snd r) = ident c"
  "input_fin_acked b th c = Inr d \<Longrightarrow> ident d = ident c"
  "input_fin b th e c = Inl r \<Longrightarrow> ident (snd r) = ident c" "input_fin b th e c = Inr d \<Longrightarrow> ident d = ident c"
  using ident_input_check [of b th c] ident_input_ack [of b th c] ident_fin_acked [of b th c]
    ident_input_fin [of b th e c] by simp_all

lemma ident_text [simp]: "ident (snd (input_text b th c)) = ident c"
  by (auto simp: input_text_def Let_def split: sum.split dest!: ident_phase)

lemma ident_input [simp]: "ident (snd (tcp_input_state b th c)) = ident c"
  by (auto simp: tcp_input_state_def split: sum.split tcp_states.split dest!: ident_phase)

end
