(* ===== verification/Tcp_Link.thy ===== *)
theory Tcp_Link
  imports Tcp_Emit Sock_Frame
begin

unbundle bit_operations_syntax

text \<open>
  Two hosts and a network that loses, repeats and reorders frames: what the writer's end puts on the
  wire, read by the reader's host, hands the reader a prefix of what was written; and what the reader
  has not got yet is still in the writer's retransmission queue.
\<close>

subsection \<open>The steps\<close>

text \<open>
  The writer's end: the steps of \<open>sending\<close>, and a change of the ARP cache by the host.  A segment that
  comes in may carry anything, but an acknowledgement that the code accepts is one of \<open>acks\<close>.
\<close>

inductive writer_step :: "u32 \<Rightarrow> u32 set \<Rightarrow> bytes list \<Rightarrow> tcpctx \<Rightarrow> bytes \<Rightarrow> bytes list \<Rightarrow> tcpctx \<Rightarrow> bool"
  for s0 acks css c where
  send: "\<not> stalled c \<Longrightarrow> 0 < tk_smss (c_sk c) \<Longrightarrow> tk_smss (c_sk c) \<le> 1460 \<Longrightarrow>
    numbered (css @ chunks (unat (tk_smss (c_sk c))) data) s0 \<Longrightarrow> tcp_send data c = Some (rc, c') \<Longrightarrow>
    writer_step s0 acks css c data (css @ chunks (unat (tk_smss (c_sk c))) data) c'"
| segment: "state_of c \<in> open_states \<Longrightarrow>
    snd_una (tcb_of c) < th_ack_seq th \<and> th_ack_seq th \<le> snd_nxt (tcb_of c) \<longrightarrow> th_ack_seq th \<in> acks \<Longrightarrow>
    writer_step s0 acks css c [] css (snd (tcp_input_state (s_bnext c) th (arrive k c)))"
| read: "tcp_receive_round len rlen buf c = Received r buf' c'
      \<or> tcp_receive_round len rlen buf c = Sleep r buf' c' \<Longrightarrow> writer_step s0 acks css c [] css c'"
| delack: "writer_step s0 acks css c [] css (tcp_send_delack c)"
| timeout: "writer_step s0 acks css c [] css (tcp_retransmission_timeout c)"
| lock: "writer_step s0 acks css c [] css (snd (socket_wr_acquire c))"
| release: "writer_step s0 acks css c [] css (socket_release c)"
| arp: "arp_ok cache \<Longrightarrow> writer_step s0 acks css c [] css (c\<lparr>s_arp_cache := cache\<rparr>)"

text \<open>The reader's end between two frames: the other steps of \<open>transfer\<close>, with the bytes a read hands over.\<close>

inductive reader_step :: "tcpctx \<Rightarrow> bytes \<Rightarrow> tcpctx \<Rightarrow> bool" for d where
  read: "int (length buf) \<le> len \<Longrightarrow> len < 2 ^ 31 \<Longrightarrow>
    tcp_receive_round len (int (length buf)) buf d = Received r buf' d'
      \<or> tcp_receive_round len (int (length buf)) buf d = Sleep r buf' d' \<Longrightarrow>
    reader_step d (drop (length buf) buf') d'"
| send: "tcp_send data d = Some (rc, d') \<Longrightarrow> reader_step d [] d'"
| delack: "reader_step d [] (tcp_send_delack d)"
| timeout: "reader_step d [] (tcp_retransmission_timeout d)"
| close: "reader_step d [] (snd (tcp_close d))"
| linger: "reader_step d [] (tcp_linger d)"
| user_timeout: "reader_step d [] (tcp_user_timeout d)"
| lock: "reader_step d [] (snd (socket_wr_acquire d))"
| release: "reader_step d [] (socket_release d)"

text \<open>The number that a reader who takes data acknowledges.\<close>

definition ack_of :: "tcpctx \<Rightarrow> u32 set" where
  "ack_of d = (if state_of d \<in> receiving then {rcv_nxt (tcb_of d)} else {})"

text \<open>
  \<open>put\<close> are the bytes written, cut into \<open>css\<close>; \<open>net\<close> holds every frame the writer's end ever wrote, and
  any of them may be read by the reader's host, at any time and any number of times, or never;
  \<open>acks\<close> are the numbers the reader has ever acknowledged.  The writer's steps make no access outside
  a buffer.
\<close>

inductive link :: "u32 \<Rightarrow> bytes list \<Rightarrow> bytes \<Rightarrow> tcpctx \<Rightarrow> bytes set \<Rightarrow> u32 set \<Rightarrow> bytes \<Rightarrow> tcpctx \<Rightarrow> bool" for s0 where
  start: "sending s0 [] c \<Longrightarrow> calm c \<Longrightarrow> transfer [] s0 [] d \<Longrightarrow> link s0 [] [] c {} (ack_of d) [] d"
| writer: "link s0 css put c net acks got d \<Longrightarrow> writer_step s0 acks css c data css' c' \<Longrightarrow> \<not> s_fault c' \<Longrightarrow>
    link s0 css' (put @ data) c' (net \<union> set (drop (length (s_tap c)) (s_tap c'))) acks got d"
| reader: "link s0 css put c net acks got d \<Longrightarrow> reader_step d new d' \<Longrightarrow>
    link s0 css put c net (acks \<union> ack_of d') (got @ new) d'"
| deliver: "link s0 css put c net acks got d \<Longrightarrow> F \<in> net \<Longrightarrow> mread F 12 2 = be16 ETH_P_IP \<Longrightarrow>
    th = tcp_ntoh (dec_tcphdr (mread F 34 20)) \<Longrightarrow> inet_lookup (th_sport th) (th_dport th) w = Some i \<Longrightarrow>
    focus i w = Some d \<Longrightarrow> state_of d \<notin> {TCP_CLOSE, TCP_LISTEN, TCP_SYN_SENT} \<Longrightarrow>
    focus i (netdev_rx (Some F) w) = Some d' \<Longrightarrow>
    link s0 css put c net (acks \<union> ack_of d') got d'"

subsection \<open>The writer\<close>

text \<open>Acknowledged up to one of the first \<open>lo\<close> chunks.\<close>

definition writer_ok :: "nat \<Rightarrow> bytes list \<Rightarrow> u32 \<Rightarrow> tcpctx \<Rightarrow> bool" where
  "writer_ok lo css s0 c \<longleftrightarrow> snd_inv css s0 c \<and> calm c \<and> snd_una (tcb_of c) \<in> seq_at css s0 ` {..lo}"

lemma writer_okI:
  assumes "snd_inv css' s0 c'" "snd_una (tcb_of c') \<in> seq_at css' s0 ` {..lo}"
    and "emit_frame (frame_of css' s0) c c'" "calm c" "\<not> s_fault c'"
  shows "writer_ok lo css' s0 c' \<and> (\<exists>fs. s_tap c' = s_tap c @ fs \<and> list_all (frame_of css' s0) fs)"
  using assms by (auto simp: writer_ok_def emit_frame_def emits_def)

lemma seq_at_image_append: "lo \<le> length css \<Longrightarrow> seq_at (css @ ys) s0 ` {..lo} = seq_at css s0 ` {..lo}"
  by (intro image_cong) (auto simp: seq_at_append)

lemma emit_frame_arrive: "emit_frame P c (arrive k c)"
  by (auto simp: emit_frame_def calm_def emits_def arrive_def heap_ok_def devs_ok_def live_def less_Suc_eq)

lemma timeout_una:
  assumes "snd_inv css s0 c"
  shows "snd_una (tcb_of (tcp_retransmission_timeout c)) = snd_una (tcb_of c)"
proof (cases "sk_write_queue (c_sk c)")
  case Nil
  then have "write_queue_head (rto_enter c) = None" by (simp add: write_queue_head_def q_peek_def)
  then have "sd_frame S c (tcp_retransmission_timeout c)" for S
    unfolding tcp_retransmission_timeout_def Let_def rto_enter_def [symmetric]
    by (auto simp: rto_enter_def tcp_notify_user_def split: tcp_states.splits)
  with assms show ?thesis by (rule sd_una)
next
  case (Cons b q)
  have "sd_frame S (retransmit_head b c) (tcp_retransmission_timeout c)" for S
    unfolding retransmission_timeout_eq [OF Cons] Let_def case_prod_beta
    by (auto intro: sd_frame_trans [OF done_sd] done_sd)
  from sd_una [OF retransmit_snd [OF assms Cons] this] show ?thesis by (simp add: retransmit_head_def)
qed

lemma writer_step_ok:
  assumes step: "writer_step s0 acks css c data css' c'" and w: "writer_ok lo css s0 c" and nf: "\<not> s_fault c'"
    and lo: "lo \<le> length css" and acks: "acks \<subseteq> seq_at css s0 ` {..lo}"
  shows "writer_ok lo css' s0 c' \<and> (\<exists>fs. s_tap c' = s_tap c @ fs \<and> list_all (frame_of css' s0) fs)
    \<and> (\<exists>ys. css' = css @ ys \<and> concat ys = data)"
proof -
  let ?ok = "\<lambda>css' d. writer_ok lo css' s0 d \<and> (\<exists>fs. s_tap d = s_tap c @ fs \<and> list_all (frame_of css' s0) fs)"
  have inv: "snd_inv css s0 c" and calm: "calm c" and una: "snd_una (tcb_of c) \<in> seq_at css s0 ` {..lo}"
    using w by (simp_all add: writer_ok_def)
  have whole: "whole_acked css s0 c" using una lo by (auto simp: whole_acked_def)
  have same: "?ok css d" if "\<And>S. sd_frame S c d" "quiet c d" "\<not> s_fault d" for d
    by (rule writer_okI [OF snd_inv_any [OF that(1) inv] _ emit_frame_quiet [OF that(2)] calm that(3)])
      (use sd_una [OF inv that(1)] una in simp)
  from step show ?thesis
  proof cases
    case (send rc)
    let ?m = "unat (tk_smss (c_sk c))"
    have "0 < ?m" using send(3) by (simp add: word_less_nat_alt)
    then have cc: "concat (chunks ?m data) = data" by (rule chunks_concat)
    have "?ok css' c'"
      unfolding send(1)
      by (rule writer_okI [OF send_snd [OF inv send(2-6)] _ send_emits [OF inv send(2-6)] calm nf])
        (use una seq_at_image_append [OF lo] send_una [OF send(6)] in simp)
    with cc show ?thesis unfolding send(1) by blast
  next
    case (segment th k)
    note a = arrive_snd [OF inv, of k]
    have st: "state_of (arrive k c) \<in> open_states" using segment(4) by (simp add: a(4))
    have "snd_una (tcb_of c') \<in> seq_at css s0 ` {..lo}"
      using input_state_una [OF a(1) st, of th] segment(3,5) una acks by (auto simp: a(4))
    then have "?ok css c'"
      using input_state_snd [OF a(1) st, of th] emit_frame_trans [OF emit_frame_arrive input_state_emits [OF a(1) st, of th]]
        calm nf segment(3) by (intro writer_okI) simp_all
    then show ?thesis using segment(1,2) by simp
  next
    case (read len rlen buf r buf')
    have "rd_frame c c'" by (rule conjunct1 [OF receive_round_frame [OF read(3)]])
    then show ?thesis using same [OF read_sd read_quiet [OF read(3)] nf] read(1,2) by simp
  next
    case delack
    have "sd_frame S c (tcp_send_delack c)" for S
      unfolding tcp_send_delack_def Let_def by (simp add: sd_frame_then)
    from same [OF this delack_quiet] nf delack show ?thesis by simp
  next
    case timeout
    have "snd_una (tcb_of c') \<in> seq_at css s0 ` {..lo}" using timeout_una [OF inv] una timeout(3) by simp
    then have "?ok css c'"
      using timeout_snd [OF inv] timeout_emits [OF inv whole] calm nf timeout(3) by (intro writer_okI) simp_all
    then show ?thesis using timeout(1,2) by simp
  next
    case lock
    then show ?thesis using same [of "snd (socket_wr_acquire c)"] nf by (simp add: quiet_ops)
  next
    case release
    then show ?thesis using same [of "socket_release c"] nf by (simp add: quiet_ops)
  next
    case (arp cache)
    have v: "conn_view c' = conn_view c" by (simp add: arp conn_view_def)
    have "sd_frame S c c'" for S using sd_frame_view [OF v] by simp
    from snd_inv_any [OF this inv] sd_una [OF inv this] calm una arp
    have "?ok css c'" by (auto simp: writer_ok_def calm_def heap_ok_def devs_ok_def live_def)
    then show ?thesis using arp(1,2) by simp
  qed
qed

subsection \<open>The reader\<close>

lemma recv_inv_append:
  assumes "recv_inv lo css s0 got d"
  shows "recv_inv lo (css @ ys) s0 got d"
proof -
  have at: "chunk_at (css @ ys) s0 j k" if "chunk_at css s0 j k" for j k
    using that by (auto simp: chunk_at_def nth_append seq_at_append)
  have "recv_base (css @ ys) got d" using assms by (auto simp: recv_inv_def recv_base_def)
  moreover have "recv_open lo (css @ ys) s0 got d" if "recv_open lo css s0 got d"
  proof -
    from that obtain i where i: "i \<le> length css" "lo \<le> i" "rcv_nxt (tcb_of d) = seq_at css s0 i"
      "got @ stream d = concat (take i css)" "ofo_sorted (tk_ofo_queue (c_sk d)) d"
      "\<forall>b\<in>set (tk_ofo_queue (c_sk d)). \<exists>j>i. chunk_at css s0 j (deref b d)"
      by (auto simp: recv_open_def)
    have "\<forall>b\<in>set (tk_ofo_queue (c_sk d)). \<exists>j>i. chunk_at (css @ ys) s0 j (deref b d)"
      using i(6) at by blast
    then show ?thesis
      unfolding recv_open_def using i(1-5) by (intro exI [of _ i]) (simp add: seq_at_append)
  qed
  ultimately show ?thesis using assms by (simp add: recv_inv_def)
qed

lemma recv_inv_ack:
  assumes "recv_inv lo css s0 got d" "lo \<le> length css"
  obtains lo' where "lo \<le> lo'" "lo' \<le> length css" "recv_inv lo' css s0 got d" "ack_of d \<subseteq> seq_at css s0 ` {..lo'}"
proof (cases "state_of d \<in> receiving")
  case True
  then obtain i where "i \<le> length css" "lo \<le> i" "rcv_nxt (tcb_of d) = seq_at css s0 i" "recv_open i css s0 got d"
    using assms(1) by (fastforce simp: recv_inv_def recv_open_def)
  then show ?thesis using that [of i] assms(1) by (auto simp: recv_inv_def ack_of_def)
next
  case False
  then show ?thesis using that [of lo] assms by (simp add: ack_of_def)
qed

lemma reader_step_inv:
  assumes "reader_step d new d'" "recv_inv lo css s0 got d"
  shows "recv_inv lo css s0 (got @ new) d'"
  using assms(1)
proof cases
  case (read buf len r buf')
  then show ?thesis using read_recv [OF assms(2)] by blast
next
  case lock
  then show ?thesis by (simp, intro recv_inv_same [OF _ _ assms(2)]) simp_all
qed (use assms(2) in \<open>auto intro: send_recv delack_recv timeout_recv close_recv linger_recv recv_inv_steps\<close>)

text \<open>A frame of the writer's is one of the segments the reader's invariant speaks of.\<close>

lemma focus_unfocus: "focus (c_sid c) (unfocus c w) = Some d \<Longrightarrow> d = c"
  by (cases c) (auto simp: focus_def unfocus_def stack.defs world.defs tcpctx.defs split: if_splits)

lemma sid_locked: "c_sid (snd (locked (tcp_input_state b th) c)) = c_sid c"
proof -
  have "c_sid (snd (tcp_input_state b th d)) = c_sid d" for d
    using ident_input [of b th d] by (simp add: ident_def)
  then show ?thesis by (simp add: locked_def split_beta socket_release_def socket_wr_acquire_def Let_def)
qed

lemma segment_arrives:
  assumes "tcp_frame seg F" "th = tcp_ntoh (dec_tcphdr (mread F 34 20))"
    and len: "length seg = 4 * unat (th_hl (seg_th seg)) + n" "5 \<le> unat (th_hl (seg_th seg))" "34 + length seg \<le> BUFLEN"
    and "inet_lookup (th_sport th) (th_dport th) w = Some i" "focus i w = Some d"
  obtains k where "th = seg_th seg" "s_bnext w = s_bnext d"
    "b_seq k = th_seq th" "unat (b_dlen k) = n" "b_end_seq k = th_seq th + of_nat n" "b_refcnt k = 0"
    "payload k = take n (drop 20 seg)" "data_ok k"
    "netdev_rx (Some F) w = unfocus (snd (locked (tcp_input_state (s_bnext d) th) (arrive k d))) w"
    "c_sid (snd (locked (tcp_input_state (s_bnext d) th) (arrive k d))) = i"
proof -
  obtain macs ih where ih: "F = wire_frame macs ih seg" "length macs = 12" "ip_version ih = IPV4"
    "ip_ihl ih = 5" "ip_ttl ih \<noteq> 0" "ip_proto ih = IP_TCP" "checksum (enc_iphdr ih) 0 = 0"
    "ip_len ih = htons (of_nat (20 + length seg))"
    using assms(1) by (auto simp: tcp_frame_def)
  have th: "th = tcp_ntoh (dec_tcphdr (take 20 seg))"
    unfolding assms(2) ih(1) using ih(2) by (simp add: wire_frame_def mread_def)
  then have ths: "th = seg_th seg" by (simp add: seg_th_def)
  let ?k = "tcp_init_segment (ip_init_pkt ih) (rx_skb (seg_mem macs ih seg))"
  have l: "length seg = 4 * unat (th_hl th) + n" "5 \<le> unat (th_hl th)" "20 \<le> length seg" using len by (simp_all add: ths)
  note k = init_segment_sel [OF ih(2,4,8) l(1) [unfolded th] l(2) [unfolded th] len(3), folded th]
  have "netdev_rx (Some F) w = unfocus (snd (locked (tcp_input_state (s_bnext w) th) (arrive ?k d))) w"
    unfolding ih(1) th by (rule netdev_rx_segment [OF ih(2-7) l(3) len(3) assms(6) [unfolded th] assms(7)])
  moreover have "s_bnext w = s_bnext d" "c_sid (arrive ?k d) = i"
    using assms(7) by (auto simp: focus_def arrive_def stack.defs tcpctx.defs split: Option.bind_splits)
  ultimately show thesis using that [of ?k] ths k by (simp add: sid_locked)
qed

lemma frame_arrives:
  assumes "frame_of css s0 F" "mread F 12 2 = be16 ETH_P_IP" "th = tcp_ntoh (dec_tcphdr (mread F 34 20))"
    and "inet_lookup (th_sport th) (th_dport th) w = Some i" "focus i w = Some d"
  obtains k where "sent_by css s0 k th"
    "netdev_rx (Some F) w = unfocus (snd (locked (tcp_input_state (s_bnext d) th) (arrive k d))) w"
    "c_sid (snd (locked (tcp_input_state (s_bnext d) th) (arrive k d))) = i"
proof -
  have "be16 ETH_P_IP \<noteq> be16 ETH_P_ARP" by code_simp
  then have "\<not> arp_frame F" using assms(2) by (simp add: arp_frame_def)
  then obtain seg where seg: "tcp_frame seg F" "bare seg \<or> (\<exists>j < length css. carries (seq_at css s0 j) (css ! j) seg)"
    using assms(1) by (auto simp: frame_of_def)
  define n where "n = length seg - 4 * unat (th_hl (seg_th seg))"
  have hl: "unat (th_hl (seg_th seg)) < 16" using unsigned_less [of "th_hl (seg_th seg)", where 'a = nat] by simp
  have len: "length seg = 4 * unat (th_hl (seg_th seg)) + n" "5 \<le> unat (th_hl (seg_th seg))" "34 + length seg \<le> BUFLEN"
    using seg(2) hl by (auto simp: n_def bare_def carries_def BUFLEN_def)
  obtain k where k: "th = seg_th seg" "b_seq k = th_seq th" "unat (b_dlen k) = n" "b_end_seq k = th_seq th + of_nat n"
    "b_refcnt k = 0" "payload k = take n (drop 20 seg)" "data_ok k"
    and rx: "netdev_rx (Some F) w = unfocus (snd (locked (tcp_input_state (s_bnext d) th) (arrive k d))) w"
      "c_sid (snd (locked (tcp_input_state (s_bnext d) th) (arrive k d))) = i"
    by (rule segment_arrives [OF seg(1) assms(3) len assms(4,5)])
  have "sent_by css s0 k th"
  proof (cases "bare seg")
    case True
    then have "n = 0" "\<not> th_psh th" by (simp_all add: n_def k(1) bare_def)
    then show ?thesis using k by (simp add: sent_by_def unat_eq_zero)
  next
    case False
    then obtain j where j: "j < length css" "carries (seq_at css s0 j) (css ! j) seg" using seg(2) by blast
    then have c: "n = length (css ! j)" "th_seq th = seq_at css s0 j" "drop 20 seg = css ! j"
      by (auto simp: n_def k(1) carries_def)
    then have "chunk_at css s0 j k" using j(1) k by (simp add: chunk_at_def seq_at_Suc)
    then show ?thesis using k by (auto simp: sent_by_def)
  qed
  with rx show thesis using that by blast
qed

lemma deliver_frame:
  assumes "frame_of css s0 F" "mread F 12 2 = be16 ETH_P_IP" "th = tcp_ntoh (dec_tcphdr (mread F 34 20))"
    and "inet_lookup (th_sport th) (th_dport th) w = Some i" "focus i w = Some d" "focus i (netdev_rx (Some F) w) = Some d'"
  obtains k where "sent_by css s0 k th" "d' = snd (locked (tcp_input_state (s_bnext d) th) (arrive k d))"
proof -
  obtain k where k: "sent_by css s0 k th"
    "netdev_rx (Some F) w = unfocus (snd (locked (tcp_input_state (s_bnext d) th) (arrive k d))) w"
    "c_sid (snd (locked (tcp_input_state (s_bnext d) th) (arrive k d))) = i"
    by (rule frame_arrives [OF assms(1-5)])
  have "d' = snd (locked (tcp_input_state (s_bnext d) th) (arrive k d))"
    by (rule focus_unfocus [of _ w]) (use assms(6) in \<open>simp only: k(2,3)\<close>)
  with k(1) show thesis by (rule that)
qed

lemma deliver_inv:
  assumes "numbered css s0" "recv_inv lo css s0 got d" "sent_by css s0 k th"
    and "state_of d \<notin> {TCP_CLOSE, TCP_LISTEN, TCP_SYN_SENT}"
  shows "recv_inv lo css s0 got (snd (locked (tcp_input_state (s_bnext d) th) (arrive k d)))"
proof -
  let ?d = "snd (socket_wr_acquire d)"
  have a: "snd (socket_wr_acquire (arrive k d)) = arrive k ?d" "s_bnext ?d = s_bnext d"
    by (simp_all add: socket_wr_acquire_def arrive_def check_def upd_sock_def)
  have d: "recv_inv lo css s0 got ?d" by (rule recv_inv_same [OF _ _ assms(2)]) simp_all
  have "b_refcnt k = 0" using assms(3) by (simp add: sent_by_def)
  note b = arrive_recv [OF d this, unfolded a(2)]
  have st: "state_of (arrive k ?d) \<notin> {TCP_CLOSE, TCP_LISTEN, TCP_SYN_SENT}" using assms(4) b(4) by simp
  have "recv_inv lo css s0 got (snd (tcp_input_state (s_bnext d) th (arrive k ?d)))"
    by (rule input_state_recv [OF assms(1) b(1,2) _ st]) (simp add: b(3) assms(3))
  then show ?thesis by (simp add: locked_def split_beta a recv_inv_steps)
qed

subsection \<open>Both ends\<close>

lemma link_inv:
  assumes "link s0 css put c net acks got d"
  shows "numbered css s0 \<and> concat css = put \<and> (\<forall>F\<in>net. frame_of css s0 F)
    \<and> (\<exists>lo \<le> length css. writer_ok lo css s0 c \<and> recv_inv lo css s0 got d \<and> acks \<subseteq> seq_at css s0 ` {..lo})"
  using assms
proof induction
  case (start c d)
  have inv: "snd_inv [] s0 c" by (rule sending_inv [OF start(1)])
  then have num: "numbered [] s0" by (simp add: snd_inv_def)
  from inv obtain a n where "queued [] s0 a n c" by (auto simp: snd_inv_def)
  then have "a = 0" "n = 0" "seq_at [] s0 a \<le> snd_una (tcb_of c)" "snd_una (tcb_of c) \<le> seq_at [] s0 n"
    unfolding queued_def Let_def by auto
  then have "snd_una (tcb_of c) = seq_at [] s0 0" using order.antisym by blast
  then have "snd_una (tcb_of c) \<in> seq_at [] s0 ` {..0}" by simp
  then have "writer_ok 0 [] s0 c" using inv start(2) by (simp add: writer_ok_def)
  moreover have r: "recv_inv 0 [] s0 [] d" by (rule transfer_inv [OF num start(3)])
  moreover have "ack_of d \<subseteq> seq_at [] s0 ` {..0}" using recv_inv_ack [OF r] by (metis le_zero_eq list.size(3))
  ultimately show ?case using num by auto
next
  case (writer css put c net acks got d data css' c')
  then obtain lo where lo: "lo \<le> length css" "writer_ok lo css s0 c" "recv_inv lo css s0 got d" "acks \<subseteq> seq_at css s0 ` {..lo}"
    by blast
  obtain fs ys where st: "writer_ok lo css' s0 c'" "s_tap c' = s_tap c @ fs" "list_all (frame_of css' s0) fs"
    "css' = css @ ys" "concat ys = data"
    using writer_step_ok [OF writer.hyps(2) lo(2) writer.hyps(3) lo(1,4)] by blast
  have "numbered css' s0" using st(1) by (simp add: writer_ok_def snd_inv_def)
  moreover have "frame_of css' s0 F" if "F \<in> net \<union> set (drop (length (s_tap c)) (s_tap c'))" for F
    using that writer.IH st(2,3) frame_of_append unfolding st(4) by (auto simp: list_all_iff)
  moreover have "recv_inv lo css' s0 got d" unfolding st(4) by (rule recv_inv_append [OF lo(3)])
  moreover have "lo \<le> length css'" "concat css' = put @ data" "acks \<subseteq> seq_at css' s0 ` {..lo}"
    using writer.IH lo(1,4) seq_at_image_append [OF lo(1)] by (simp_all add: st(4,5))
  ultimately show ?case using st(1) by blast
next
  case (reader css put c net acks got d new d')
  then obtain lo where lo: "lo \<le> length css" "writer_ok lo css s0 c" "recv_inv lo css s0 got d" "acks \<subseteq> seq_at css s0 ` {..lo}"
    by blast
  obtain lo' where "lo \<le> lo'" "lo' \<le> length css" "recv_inv lo' css s0 (got @ new) d'" "ack_of d' \<subseteq> seq_at css s0 ` {..lo'}"
    using recv_inv_ack [OF reader_step_inv [OF reader.hyps(2) lo(3)] lo(1)] by blast
  moreover have "seq_at css s0 ` {..lo} \<subseteq> seq_at css s0 ` {..lo'}" using \<open>lo \<le> lo'\<close> by (intro image_mono) simp
  ultimately show ?case using reader.IH lo by (auto simp: writer_ok_def intro!: exI [of _ lo'])
next
  case (deliver css put c net acks got d F th w i d')
  then obtain lo where lo: "lo \<le> length css" "writer_ok lo css s0 c" "recv_inv lo css s0 got d" "acks \<subseteq> seq_at css s0 ` {..lo}"
    and num: "numbered css s0" and F: "frame_of css s0 F"
    by blast
  obtain k where k: "sent_by css s0 k th" "d' = snd (locked (tcp_input_state (s_bnext d) th) (arrive k d))"
    by (rule deliver_frame [OF F deliver.hyps(3-6,8)])
  have "recv_inv lo css s0 got d'" unfolding k(2) by (rule deliver_inv [OF num lo(3) k(1) deliver.hyps(7)])
  from recv_inv_ack [OF this lo(1)] obtain lo' where
    "lo \<le> lo'" "lo' \<le> length css" "recv_inv lo' css s0 got d'" "ack_of d' \<subseteq> seq_at css s0 ` {..lo'}" by blast
  moreover have "seq_at css s0 ` {..lo} \<subseteq> seq_at css s0 ` {..lo'}" using \<open>lo \<le> lo'\<close> by (intro image_mono) simp
  ultimately show ?case using deliver.IH lo by (auto simp: writer_ok_def intro!: exI [of _ lo'])
qed

text \<open>
  C1: a connection over a network that loses, repeats and reorders frames.  Whatever the writer's
  program writes, however its frames, first transmissions and retransmissions, reach the reader's
  host or do not, and whatever the two ends do in between, the reader gets a prefix of the bytes
  written; and every byte written that the reader's end does not have yet is still in the
  retransmission queue of the writer's end, whatever acknowledgements of the reader have arrived
  there.
\<close>

theorem data_crosses_network:
  assumes "link s0 css put c net acks got d"
  shows "prefix got put \<and> (state_of d \<in> receiving \<longrightarrow> (\<exists>n \<le> length put. rcv_nxt (tcb_of d) = s0 + of_nat n
    \<and> got @ stream d = take n put
    \<and> suffix (drop n put) (concat (map (\<lambda>b. seg_data b c) (sk_write_queue (c_sk c))))))"
proof -
  from link_inv [OF assms] obtain lo where num: "numbered css s0" and put: "concat css = put"
    and lo: "lo \<le> length css" "writer_ok lo css s0 c" "recv_inv lo css s0 got d" by blast
  let ?q = "sk_write_queue (c_sk c)"
  from lo(2) obtain a n where q: "queued css s0 a n c" and una: "snd_una (tcb_of c) \<in> seq_at css s0 ` {..lo}"
    by (auto simp: writer_ok_def snd_inv_def)
  have l: "a \<le> length css" "length ?q = length css - a"
    and e: "\<And>i. i < length ?q \<Longrightarrow> entry css s0 n (a + i) (?q ! i) c"
    using q by (auto simp: queued_def Let_def)
  have data: "map (\<lambda>b. seg_data b c) ?q = drop a css"
    using l e by (intro nth_equalityI) (auto simp: entry_def segment_of_def)
  have "whole_acked css s0 c" using una lo(1) by (auto simp: whole_acked_def)
  then have "seq_at css s0 a \<in> seq_at css s0 ` {..lo}" using whole_acked_at [OF q num] una by simp
  then have a: "a \<le> lo" using seq_at_cmp(3) [OF num l(1)] lo(1) by (auto dest: order.trans)
  have "prefix got put" using lo(3) put by (auto simp: recv_inv_def recv_base_def dest: append_prefixD)
  moreover have "\<exists>n \<le> length put. rcv_nxt (tcb_of d) = s0 + of_nat n \<and> got @ stream d = take n put
      \<and> suffix (drop n put) (concat (map (\<lambda>b. seg_data b c) ?q))" if "state_of d \<in> receiving"
  proof -
    from that lo(3) obtain i where i: "i \<le> length css" "lo \<le> i" "rcv_nxt (tcb_of d) = seq_at css s0 i"
      "got @ stream d = concat (take i css)"
      by (auto simp: recv_inv_def recv_open_def)
    have split: "put = concat (take i css) @ concat (drop i css)"
      unfolding put [symmetric] by (metis append_take_drop_id concat_append)
    have "drop a css = take (i - a) (drop a css) @ drop i css"
      using a i(2) append_take_drop_id [of "i - a" "drop a css"] by simp
    then have "suffix (concat (drop i css)) (concat (drop a css))"
      by (metis concat_append suffixI)
    then show ?thesis
      using i split unfolding data
      by (intro exI [of _ "offs css i"]) (simp add: seq_at_def offs_def)
  qed
  ultimately show ?thesis by blast
qed

text \<open>
  The writer's end of \<open>send_demo\<close>, and the host of \<open>peer_demo\<close> with the reader's: two bytes are
  written, are in the writer's queue while their frame is under way, and the frame is delivered.
\<close>

definition link_demo :: tcpctx where
  "link_demo = upd_tcb (\<lambda>t. t\<lparr>snd_nxt := 500, snd_una := 500\<rparr>) send_demo"

definition sent_demo :: tcpctx where
  "sent_demo = snd (the (tcp_send [1, 2] link_demo))"

lemma link_demo_sel:
  "sk_write_queue (c_sk link_demo) = []" "tk_inflight (c_sk link_demo) = 0" "tk_smss (c_sk link_demo) = 2"
  "tk_retransmit (c_sk link_demo) = None" "tk_linger (c_sk link_demo) = None" "sk_sport (c_sk link_demo) = 0"
  "sk_dport (c_sk link_demo) = 0" "sk_daddr (c_sk link_demo) = 0x08080808" "s_tap link_demo = []" "\<not> s_fault link_demo"
  "snd_nxt (tcb_of link_demo) = 500" "snd_una (tcb_of link_demo) = 500" "calm link_demo" "sd_ok {} link_demo"
proof -
  have h: "heap_ok (seg_demo 0x08080808)" "\<not> s_fault (seg_demo 0x08080808)"
    by (simp_all add: heap_ok_def live_def seg_demo_def stack.defs tcpctx.defs booted_def static_data_def)
  have "devs_ok (seg_demo 0x08080808)" "arp_ok (s_arp_cache (seg_demo 0x08080808))"
    by (simp_all add: devs_ok_def arp_ok_def ARP_ETHERNET_def seg_demo_def stack.defs tcpctx.defs booted_def route_alloc_def netdev_ok_def
        tap_dev_def loop_dev_def)
  with h show "sk_write_queue (c_sk link_demo) = []" "tk_inflight (c_sk link_demo) = 0" "tk_smss (c_sk link_demo) = 2"
    "tk_retransmit (c_sk link_demo) = None" "tk_linger (c_sk link_demo) = None" "sk_sport (c_sk link_demo) = 0"
    "sk_dport (c_sk link_demo) = 0" "sk_daddr (c_sk link_demo) = 0x08080808" "s_tap link_demo = []" "\<not> s_fault link_demo"
    "snd_nxt (tcb_of link_demo) = 500" "snd_una (tcb_of link_demo) = 500" "calm link_demo" "sd_ok {} link_demo"
    by (simp_all add: link_demo_def send_demo_def calm_def sd_ok_def devs_ok_def seg_demo_sel tcp_alloc_sock_def
        tcp_sock.defs sock.defs zero_sock_def)
qed

lemma sent_demo_eq:
  "tcp_send [1, 2] link_demo = Some (2, sent_demo)"
  "sent_demo = tcp_rearm_user_timeout (send_chunk True [1, 2] link_demo)"
proof -
  have "tcp_send_loop (Suc (Suc 0)) 2 [1, 2] link_demo = Some (send_chunk True [1, 2] link_demo)"
    by (simp only: tcp_send_loop_step list.distinct simp_thms) simp
  then have "tcp_send [1, 2] link_demo = Some (2, tcp_rearm_user_timeout (send_chunk True [1, 2] link_demo))"
    by (simp add: tcp_send_def link_demo_sel)
  then show "tcp_send [1, 2] link_demo = Some (2, sent_demo)"
    "sent_demo = tcp_rearm_user_timeout (send_chunk True [1, 2] link_demo)"
    by (simp_all add: sent_demo_def)
qed

lemma sent_demo:
  "\<not> s_fault sent_demo"
  "\<exists>F. s_tap sent_demo = [F] \<and> mread F 12 2 = be16 ETH_P_IP
    \<and> th_sport (tcp_ntoh (dec_tcphdr (mread F 34 20))) = 0 \<and> th_dport (tcp_ntoh (dec_tcphdr (mread F 34 20))) = 0"
proof -
  let ?c1 = "send_chunk True [1, 2] link_demo"
  have "route_lookup (sk_daddr (c_sk link_demo)) link_demo = Some demo_rt"
    "arp_get_hwaddr (next_hop demo_rt (sk_daddr (c_sk link_demo))) (s_arp_cache link_demo) = Some [2, 0, 0, 0, 0, 1]"
    unfolding link_demo_sel using seg_demo_route(1) seg_demo_arp
    by (simp_all add: link_demo_def send_demo_def route_lookup_def)
  moreover have "netdev_ok (rt_dev demo_rt)" by (simp add: demo_rt_def route_alloc_def)
  moreover have "heap_ok link_demo" using link_demo_sel(13) by (simp add: calm_def)
  ultimately obtain F where F: "s_tap ?c1 = s_tap link_demo @ [F]" "mread F 12 2 = be16 ETH_P_IP"
    "th_sport (tcp_ntoh (dec_tcphdr (mread F 34 20))) = 0" "th_dport (tcp_ntoh (dec_tcphdr (mread F 34 20))) = 0"
    "s_fault ?c1 = s_fault link_demo"
    using send_chunk_wire [of "[1, 2]" link_demo demo_rt "[2, 0, 0, 0, 0, 1]" True] link_demo_sel by auto
  have "tk_linger (c_sk ?c1) = None"
    using link_demo_sel(5)
    by (simp add: send_chunk_def Let_def tcp_queue_transmit_skb_def tcp_store_seq_def tcp_rearm_rto_timer_def
        tcp_release_rto_timer_def split_beta)
  with F(5) show "\<not> s_fault sent_demo"
    using link_demo_sel(10) by (simp add: sent_demo_eq(2) tcp_rearm_user_timeout_def Let_def split_beta timer_cancel_def)
  have "emit_view sent_demo = emit_view ?c1" by (simp add: sent_demo_eq(2))
  with F(1-4) show "\<exists>F. s_tap sent_demo = [F] \<and> mread F 12 2 = be16 ETH_P_IP
      \<and> th_sport (tcp_ntoh (dec_tcphdr (mread F 34 20))) = 0 \<and> th_dport (tcp_ntoh (dec_tcphdr (mread F 34 20))) = 0"
    by (simp add: emit_view_def link_demo_sel)
qed

lemma refcnt_locked:
  "so_refcnt (c_sock (snd (locked (tcp_input_state b th) c))) = so_refcnt (c_sock c)"
proof -
  have "so_refcnt (c_sock (snd (tcp_input_state b th d))) = so_refcnt (c_sock d)" for d
    using ident_input [of b th d] by (simp add: ident_def)
  then show ?thesis by (simp add: locked_def split_beta socket_release_def socket_wr_acquire_def Let_def)
qed

lemma focus_unfocus_same: "so_refcnt (c_sock c) \<noteq> 0 \<Longrightarrow> focus (c_sid c) (unfocus c w) = Some c"
  by (cases c) (auto simp: focus_def unfocus_def stack.defs world.defs tcpctx.defs)

lemma sent_demo_link:
  obtains F d where "s_tap sent_demo = [F]" "mread F 12 2 = be16 ETH_P_IP"
    "th_sport (tcp_ntoh (dec_tcphdr (mread F 34 20))) = 0" "th_dport (tcp_ntoh (dec_tcphdr (mread F 34 20))) = 0"
    "focus 0 peer_demo = Some d" "link 500 [[1, 2]] [1, 2] sent_demo {F} {500} [] d" "state_of d = TCP_ESTABLISHED"
    "stream d = []" "so_refcnt (c_sock d) \<noteq> 0" "rcv_nxt (tcb_of d) = 500" "rcv_wnd (tcb_of d) = 44477"
    "snd_una (tcb_of d) = 0"
proof -
  obtain d where d: "focus 0 peer_demo = Some d" "state_of d = TCP_ESTABLISHED" "transfer [] 500 [] d"
    "rcv_nxt (tcb_of d) = 500" "rcv_wnd (tcb_of d) = 44477" "snd_una (tcb_of d) = 0" "stream d = []" "so_refcnt (c_sock d) \<noteq> 0"
    by (rule that [OF peer_demo_sel(1)])
      (auto intro!: transfer.start simp: rx_ok_def heap_ok_def live_def stack.defs tcpctx.defs peer_sk_def zero_tcb_def
        tcp_alloc_sock_def tcp_sock.defs sock.defs zero_sock_def booted_def static_data_def demo_socket_def)
  have "sending 500 [] link_demo" by (rule sending.start) (simp_all add: link_demo_sel)
  then have l0: "link 500 [] [] link_demo {} {500} [] d"
    using link.start [OF _ link_demo_sel(13) d(3)] d(2,4) by (simp add: ack_of_def receiving_def)
  have cs: "chunks 2 [1, 2 :: u8] = [[1, 2]]" by (simp add: numeral_2_eq_2)
  have st: "writer_step 500 {500} [] link_demo [1, 2] [[1, 2]] sent_demo"
    using writer_step.send [of link_demo "[]" "[1, 2]" 500 2 sent_demo "{500}"] sent_demo_eq(1)
    by (simp add: link_demo_sel stalled_def cs numbered_def)
  obtain F where F: "s_tap sent_demo = [F]" "mread F 12 2 = be16 ETH_P_IP"
    "th_sport (tcp_ntoh (dec_tcphdr (mread F 34 20))) = 0" "th_dport (tcp_ntoh (dec_tcphdr (mread F 34 20))) = 0"
    using sent_demo(2) by blast
  have "link 500 [[1, 2]] [1, 2] sent_demo {F} {500} [] d"
    using link.writer [OF l0 st sent_demo(1)] by (simp add: F(1) link_demo_sel)
  with F d show thesis using that by blast
qed

theorem data_crosses_network_witness:
  "\<exists>F d d'. s_tap sent_demo = [F] \<and> focus 0 peer_demo = Some d
    \<and> link 500 [[1, 2]] [1, 2] sent_demo {F} {500} [] d
    \<and> suffix [1, 2] (concat (map (\<lambda>b. seg_data b sent_demo) (sk_write_queue (c_sk sent_demo))))
    \<and> focus 0 (netdev_rx (Some F) peer_demo) = Some d'
    \<and> link 500 [[1, 2]] [1, 2] sent_demo {F} ({500} \<union> ack_of d') [] d'"
proof -
  obtain F d where F: "s_tap sent_demo = [F]" "mread F 12 2 = be16 ETH_P_IP"
    "th_sport (tcp_ntoh (dec_tcphdr (mread F 34 20))) = 0" "th_dport (tcp_ntoh (dec_tcphdr (mread F 34 20))) = 0"
    and d: "focus 0 peer_demo = Some d" "state_of d = TCP_ESTABLISHED" "stream d = []" "so_refcnt (c_sock d) \<noteq> 0"
    and l1: "link 500 [[1, 2]] [1, 2] sent_demo {F} {500} [] d"
    by (rule sent_demo_link)
  obtain n where n: "n \<le> length [1, 2 :: u8]" "rcv_nxt (tcb_of d) = 500 + of_nat n" "[] @ stream d = take n [1, 2]"
    "suffix (drop n [1, 2]) (concat (map (\<lambda>b. seg_data b sent_demo) (sk_write_queue (c_sk sent_demo))))"
    using data_crosses_network [OF l1] d(2) by (auto simp: receiving_def)
  then have q: "suffix [1, 2] (concat (map (\<lambda>b. seg_data b sent_demo) (sk_write_queue (c_sk sent_demo))))"
    using d(3) by (cases n) simp_all
  have look: "inet_lookup (th_sport (tcp_ntoh (dec_tcphdr (mread F 34 20)))) (th_dport (tcp_ntoh (dec_tcphdr (mread F 34 20))))
      peer_demo = Some 0" by (simp add: F(3,4) peer_demo_sel(2))
  have "frame_of [[1, 2]] 500 F" using link_inv [OF l1] by simp
  from this F(2) refl look d(1) obtain k where
    k: "netdev_rx (Some F) peer_demo = unfocus (snd (locked (tcp_input_state (s_bnext d) (tcp_ntoh (dec_tcphdr (mread F 34 20)))) (arrive k d))) peer_demo"
    "c_sid (snd (locked (tcp_input_state (s_bnext d) (tcp_ntoh (dec_tcphdr (mread F 34 20)))) (arrive k d))) = 0"
    by (rule frame_arrives)
  let ?d' = "snd (locked (tcp_input_state (s_bnext d) (tcp_ntoh (dec_tcphdr (mread F 34 20)))) (arrive k d))"
  have "so_refcnt (c_sock ?d') \<noteq> 0" using d(4) unfolding refcnt_locked by (simp add: arrive_def)
  from focus_unfocus_same [OF this] have f: "focus 0 (netdev_rx (Some F) peer_demo) = Some ?d'" by (simp only: k)
  have "link 500 [[1, 2]] [1, 2] sent_demo {F} ({500} \<union> ack_of ?d') [] ?d'"
    by (rule link.deliver [OF l1 _ F(2) refl look d(1) _ f]) (simp_all add: d(2))
  with F(1) d(1) l1 q f show ?thesis by blast
qed

end
