(* ===== verification/Tcp_Progress.thy ===== *)
theory Tcp_Progress
  imports Tcp_Link
begin

unbundle bit_operations_syntax

text \<open>
  Progress: a retransmission that gets through brings the reader past the writer's oldest segment,
  so no loss is for good; and where the code stops taking segments at all.
\<close>

subsection \<open>The reader takes what it waits for\<close>

lemma in_window_checked:
  assumes "rcv_wnd (tcb_of c) \<noteq> 0" "rcv_nxt (tcb_of c) \<le> rcv_nxt (tcb_of c) + rcv_wnd (tcb_of c)"
    and "th_seq th = rcv_nxt (tcb_of c)" "th_ack th" "\<not> th_rst th" "\<not> th_syn th"
  shows "input_check b th c = Inr c"
  using assms by (simp add: input_check_def tcp_verify_segment_def)

lemma ack_field_passes:
  assumes "snd_una (tcb_of c) \<le> th_ack_seq th" "th_ack_seq th \<le> snd_nxt (tcb_of c)"
  obtains c' where "input_ack_field b th c = Inr c'"
proof -
  let ?d = "snd (tcp_clean_rto_queue (th_ack_seq th) (tcp_rtt (upd_tcb (\<lambda>t. t\<lparr>snd_una := th_ack_seq th\<rparr>) c)))"
  have "snd_una (tcb_of ?d) = th_ack_seq th" "snd_nxt (tcb_of ?d) = snd_nxt (tcb_of c)" by simp_all
  then have "input_ack_field b th c = Inr (if snd_una (tcb_of c) < th_ack_seq th then ?d else c)"
    using assms by (simp add: input_ack_field_def Let_def leD)
  then show thesis by (rule that)
qed

lemma input_state_advances:
  assumes "numbered css s0" "recv_inv lo css s0 got c" "arriving b c" "chunk_at css s0 j (deref b c)"
    and "state_of c = TCP_ESTABLISHED" "rcv_wnd (tcb_of c) \<noteq> 0"
    and "rcv_nxt (tcb_of c) \<le> rcv_nxt (tcb_of c) + rcv_wnd (tcb_of c)"
    and "b_seq (deref b c) = rcv_nxt (tcb_of c)" "th_seq th = rcv_nxt (tcb_of c)"
    and "th_ack th" "\<not> th_rst th" "\<not> th_syn th" "\<not> th_fin th"
    and "snd_una (tcb_of c) \<le> th_ack_seq th" "th_ack_seq th \<le> snd_nxt (tcb_of c)"
  shows "recv_inv (Suc lo) css s0 got (snd (tcp_input_state b th c))"
    "state_of (snd (tcp_input_state b th c)) = TCP_ESTABLISHED"
proof -
  have st: "state_of c \<notin> {TCP_CLOSE, TCP_LISTEN, TCP_SYN_SENT}" using assms(5) by simp
  have check: "input_check b th c = Inr c" by (rule in_window_checked) fact+
  obtain c1 where ack: "input_ack_field b th c = Inr c1" by (rule ack_field_passes [OF assms(14,15)])
  have st1: "state_of c1 = TCP_ESTABLISHED" using input_ack_field_state(2) [OF ack] assms(5) by simp
  have base: "recv_base css got c" using assms(2) by (simp add: recv_inv_def)
  note a = arriving_frame [OF input_ack_field_frame(2) [OF ack] base assms(3)]
  have c1: "recv_inv lo css s0 got c1"
    by (rule recv_inv_frame [OF input_ack_field_frame(2) [OF ack] assms(2,3)]) (simp add: assms(5) receiving_def)
  have "recv_inv (Suc lo) css s0 got (input_data b th c1)"
    by (rule input_data_advances [OF assms(1) c1]) (use a assms(4,6,8) st1 in simp_all)
  then have "recv_inv (Suc lo) css s0 got (snd (input_text b th c1))"
    using a st1 by (intro input_text_rest) simp_all
  moreover have eq: "tcp_input_state b th c = input_text b th c1"
    using check ack st1 assms(5) by (simp add: input_state_other [OF st] input_ack_def input_fin_acked_def)
  ultimately show "recv_inv (Suc lo) css s0 got (snd (tcp_input_state b th c))" by simp
  show "state_of (snd (tcp_input_state b th c)) = TCP_ESTABLISHED"
    using st1 assms(13) by (simp add: eq input_text_def input_fin_def)
qed

text \<open>What it has already is dropped.\<close>

lemma input_state_old:
  assumes "state_of c = TCP_ESTABLISHED" "th_seq th < rcv_nxt (tcb_of c)"
  shows "state_of (snd (tcp_input_state b th c)) = TCP_ESTABLISHED"
proof -
  have st: "state_of c \<notin> {TCP_CLOSE, TCP_LISTEN, TCP_SYN_SENT}" using assms(1) by simp
  have "input_check b th c = Inl (tcp_drop b (if \<not> th_rst th then snd (tcp_send_ack c) else c))"
    using assms(2) by (simp add: input_check_def tcp_verify_segment_def)
  then show ?thesis using assms(1) by (simp add: input_state_other [OF st] tcp_drop_def)
qed

lemma deliver_advances:
  fixes d :: tcpctx
  assumes num: "numbered css s0" and inv: "recv_inv i css s0 got d" and i: "i \<le> length css" "rcv_nxt (tcb_of d) = seq_at css s0 i"
    and k: "chunk_at css s0 a k" "b_refcnt k = 0" "b_seq k = th_seq th" and a: "a \<le> i"
    and d: "state_of d = TCP_ESTABLISHED" "rcv_wnd (tcb_of d) \<noteq> 0" "rcv_nxt (tcb_of d) \<le> rcv_nxt (tcb_of d) + rcv_wnd (tcb_of d)"
    and th: "th_ack th" "\<not> th_rst th" "\<not> th_syn th" "\<not> th_fin th"
      "snd_una (tcb_of d) \<le> th_ack_seq th" "th_ack_seq th \<le> snd_nxt (tcb_of d)"
  defines "d' \<equiv> snd (locked (tcp_input_state (s_bnext d) th) (arrive k d))"
  shows "(\<exists>i' > a. recv_inv i' css s0 got d') \<and> state_of d' = TCP_ESTABLISHED"
proof -
  let ?d = "snd (socket_wr_acquire d)" and ?b = "s_bnext d"
  have w: "snd (socket_wr_acquire (arrive k d)) = arrive k ?d" "s_bnext ?d = ?b"
    by (simp_all add: socket_wr_acquire_def arrive_def check_def upd_sock_def)
  have d1: "recv_inv i css s0 got ?d" by (rule recv_inv_same [OF _ _ inv]) simp_all
  note ar = arrive_recv [OF d1 k(2), unfolded w(2)]
  have sk: "c_sk (arrive k ?d) = c_sk d" by (simp add: arrive_def socket_wr_acquire_def Let_def)
  have eq: "d' = socket_release (snd (tcp_input_state ?b th (arrive k ?d)))"
    by (simp add: d'_def locked_def split_beta w(1))
  have seq: "th_seq th = seq_at css s0 a" "a < length css" using k(1,3) by (simp_all add: chunk_at_def)
  show ?thesis
  proof (cases "a = i")
    case True
    have sq: "th_seq th = rcv_nxt (tcb_of (arrive k ?d))" using seq(1) i(2) True by (simp add: sk)
    have "recv_inv (Suc i) css s0 got (snd (tcp_input_state ?b th (arrive k ?d)))
        \<and> state_of (snd (tcp_input_state ?b th (arrive k ?d))) = TCP_ESTABLISHED"
      using input_state_advances [OF num ar(1,2), of a th] ar(3) k sq d th by (simp add: sk)
    with True show ?thesis by (auto simp: eq intro: recv_inv_steps)
  next
    case False
    then have "th_seq th < rcv_nxt (tcb_of (arrive k ?d))"
      using a seq i seq_at_cmp(1) [OF num, of a i] by (simp add: sk)
    then have "state_of d' = TCP_ESTABLISHED" using input_state_old d(1) by (simp add: eq sk)
    moreover have "sent_by css s0 k th" using k by (auto simp: sent_by_def)
    then have "recv_inv i css s0 got d'" unfolding d'_def using d(1) by (intro deliver_inv [OF num inv]) simp_all
    moreover have "a < i" using a False by simp
    ultimately show ?thesis by blast
  qed
qed

subsection \<open>The retransmitted segment on the wire\<close>

lemma segment_wire:
  fixes c :: tcpctx and seq :: u32
  assumes s: "segment_of psh chunk b c" "0 < length chunk" "length chunk \<le> 1460" and calm: "calm c"
    and rt: "route_lookup (sk_daddr (c_sk c)) c = Some rt"
    and arp: "arp_get_hwaddr (next_hop rt (sk_daddr (c_sk c))) (s_arp_cache c) = Some dmac"
  defines "c' \<equiv> snd (tcp_transmit_skb b seq (upd_skb b skb_reset_header c))"
  shows "\<exists>F seg. s_tap c' = s_tap c @ [F] \<and> mread F 12 2 = be16 ETH_P_IP \<and> mread F 34 20 = take 20 seg
    \<and> tcp_frame seg F \<and> carries seq chunk seg \<and> th_flags (seg_th seg) = [False, False, False, psh, True, False, False, False]
    \<and> th_sport (seg_th seg) = sk_sport (c_sk c) \<and> th_dport (seg_th seg) = sk_dport (c_sk c)
    \<and> th_ack_seq (seg_th seg) = rcv_nxt (tcb_of c) \<and> s_fault c' = s_fault c"
proof -
  let ?c1 = "upd_skb b skb_reset_header c"
  note r = segment_ready [OF s]
  have s1: "hdr_words (deref b ?c1) = 5" "seg_data b ?c1 = chunk" "b_protocol (deref b ?c1) = ucast IP_TCP"
    "seg_flags b ?c1 = [False, False, False, psh, True, False, False, False]"
    using r(2) unfolding segment_of_def by blast+
  have h: "devs_ok ?c1" "arp_ok (s_arp_cache ?c1)" using calm by (simp_all add: calm_def devs_ok_def)
  have to: "route_lookup (sk_daddr (c_sk ?c1)) ?c1 = Some rt" "netdev_ok (rt_dev rt)"
    "arp_get_hwaddr (next_hop rt (sk_daddr (c_sk ?c1))) (s_arp_cache ?c1) = Some dmac" "length dmac = 6"
    using rt arp route_lookup_dev [OF _ rt] arp_cache_hw [OF _ arp] calm by (simp_all add: calm_def route_lookup_def)
  let ?seg = "tcp_segment (c_sk ?c1) seq (tcp_hdr (deref b ?c1)) (seg_body (length chunk) (deref b ?c1))"
  obtain macs ih where F: "s_tap c' = s_tap c @ [wire_frame macs ih ?seg]" "length macs = 12"
    using transmit_wire [OF r(1) to s1(3), of seq] to(2,4) unfolding c'_def by (fastforce simp: netdev_ok_def)
  let ?F = "wire_frame macs ih ?seg"
  have w: "mread ?F 12 2 = be16 ETH_P_IP" "mread ?F 34 20 = take 20 ?seg" "drop 34 ?F = ?seg"
    using F(2) by (simp_all add: wire_frame_def mread_def)
  have "be16 ETH_P_IP \<noteq> be16 ETH_P_ARP" by code_simp
  then have na: "\<not> arp_frame ?F" using w(1) by (simp add: arp_frame_def)
  have "emits (\<lambda>F. arp_frame F \<or> (\<exists>seg. tcp_frame seg F \<and> carries seq chunk seg)) ?c1 c'"
    unfolding c'_def by (rule ready_carries [OF r(1) s1(1,2) refl s(3) s1(3) h])
  then obtain seg where seg: "tcp_frame seg ?F" "carries seq chunk seg"
    using F(1) na by (auto simp: emits_def)
  then obtain macs' ih' where "?F = wire_frame macs' ih' seg" "length macs' = 12" by (auto simp: tcp_frame_def)
  then have "drop 34 ?F = seg" by (simp add: wire_frame_def)
  then have eq: "?seg = seg" using w(3) by simp
  note f = seg_fields [of "c_sk ?c1" seq "tcp_hdr (deref b ?c1)" "seg_body (length chunk) (deref b ?c1)", folded seg_th_def, unfolded eq]
  have "th_flags (seg_th seg) = [False, False, False, psh, True, False, False, False]"
    using f(6) s1(4) by (simp add: seg_flags_def)
  moreover have "live b c" using s(1) by (simp add: segment_of_def)
  then have "s_fault c' = s_fault c" using tcp_transmit_frame [OF r(1) to, of seq] by (auto simp: c'_def)
  ultimately show ?thesis
    using F(1) w(1,2) seg f unfolding eq by (intro exI [of _ "wire_frame macs ih seg"] exI [of _ seg]) simp
qed

text \<open>
  C6: no loss is for good.  As long as the writer's timeout has not passed its bound, a timeout puts
  one frame on the wire to a reachable peer; and if that frame is read by the reader's host, an
  established connection with an open window ends up with all the bytes that were acknowledged and
  those of the writer's oldest segment at least.
\<close>

theorem retransmission_delivers:
  fixes c d :: tcpctx
  defines "c' \<equiv> tcp_retransmission_timeout c"
  assumes "link s0 css put c net acks got d" "sk_write_queue (c_sk c) = b # q" "tk_rto (c_sk c) \<le> 60000" "\<not> s_fault c'"
    and "route_lookup (sk_daddr (c_sk c)) c = Some rt"
    and "arp_get_hwaddr (next_hop rt (sk_daddr (c_sk c))) (s_arp_cache c) = Some dmac"
    and "focus i w = Some d" "inet_lookup (sk_sport (c_sk c)) (sk_dport (c_sk c)) w = Some i" "so_refcnt (c_sock d) \<noteq> 0"
    and "state_of d = TCP_ESTABLISHED" "rcv_wnd (tcb_of d) \<noteq> 0" "rcv_nxt (tcb_of d) \<le> rcv_nxt (tcb_of d) + rcv_wnd (tcb_of d)"
    and "snd_una (tcb_of d) \<le> rcv_nxt (tcb_of c)" "rcv_nxt (tcb_of c) \<le> snd_nxt (tcb_of d)"
  shows "\<exists>F d'. s_tap c' = s_tap c @ [F] \<and> focus i (netdev_rx (Some F) w) = Some d'
    \<and> link s0 css put c' (insert F net) (acks \<union> ack_of d') got d' \<and> state_of d' = TCP_ESTABLISHED
    \<and> unat (snd_una (tcb_of c)) + length (seg_data b c) \<le> unat s0 + length (got @ stream d')"
proof -
  from link_inv [OF assms(2)] obtain lo where num: "numbered css s0"
    and lo: "lo \<le> length css" "writer_ok lo css s0 c" "recv_inv lo css s0 got d" by blast
  have inv: "snd_inv css s0 c" and calm: "calm c" and una: "snd_una (tcb_of c) \<in> seq_at css s0 ` {..lo}"
    using lo(2) by (simp_all add: writer_ok_def)
  from inv obtain a n where qd: "queued css s0 a n c" and sz: "\<forall>chunk\<in>set css. length chunk \<le> 1460" by (auto simp: snd_inv_def)
  have "whole_acked css s0 c" using una lo(1) by (auto simp: whole_acked_def)
  then have ua: "snd_una (tcb_of c) = seq_at css s0 a" by (rule whole_acked_at [OF qd num])
  have a: "a < length css" "entry css s0 n (a + 0) b c"
    using qd assms(3) unfolding queued_def Let_def by fastforce+
  obtain l where l: "l \<le> lo" "seq_at css s0 a = seq_at css s0 l" using una ua by auto
  then have al: "a \<le> lo" using seq_at_cmp(3) [OF num, of a l] a(1) lo(1) by simp
  from a(2) obtain psh where psh: "segment_of psh (css ! a) b c" by (auto simp: entry_def)
  then have psh': "segment_of psh (css ! a) b (rto_enter c)"
    using segment_of_cong [of b "rto_enter c" c] by simp
  have data: "seg_data b c = css ! a" using psh by (simp add: segment_of_def)
  have "emit_view (rto_enter c) = emit_view c" by simp
  then have calm': "calm (rto_enter c)"
    using calm by (simp add: emit_view_def calm_def heap_ok_def devs_ok_def)
  have to: "route_lookup (sk_daddr (c_sk (rto_enter c))) (rto_enter c) = Some rt"
    "arp_get_hwaddr (next_hop rt (sk_daddr (c_sk (rto_enter c)))) (s_arp_cache (rto_enter c)) = Some dmac"
    using assms(6,7) by simp_all
  obtain F seg where F: "s_tap c' = s_tap c @ [F]" "mread F 12 2 = be16 ETH_P_IP" "mread F 34 20 = take 20 seg"
    "tcp_frame seg F" "carries (seq_at css s0 a) (css ! a) seg"
    "th_flags (seg_th seg) = [False, False, False, psh, True, False, False, False]"
    "th_sport (seg_th seg) = sk_sport (c_sk c)" "th_dport (seg_th seg) = sk_dport (c_sk c)"
    "th_ack_seq (seg_th seg) = rcv_nxt (tcb_of c)"
    using segment_wire [OF psh' chunk_size [OF num sz a(1)] calm' to, of "snd_una (tcb_of c)"]
      retransmission_timeout_again(5) [OF assms(3,4)]
    by (auto simp: retransmit_head_def c'_def ua)
  let ?th = "tcp_ntoh (dec_tcphdr (mread F 34 20))"
  have th: "?th = seg_th seg" by (simp add: F(3) seg_th_def)
  have len: "length seg = 4 * unat (th_hl (seg_th seg)) + length (css ! a)" "5 \<le> unat (th_hl (seg_th seg))" "34 + length seg \<le> BUFLEN"
    using F(5) by (simp_all add: carries_def BUFLEN_def)
  have look: "inet_lookup (th_sport ?th) (th_dport ?th) w = Some i" using assms(9) F(7,8) by (simp add: th)
  obtain k where k: "b_seq k = th_seq ?th" "unat (b_dlen k) = length (css ! a)" "b_end_seq k = th_seq ?th + of_nat (length (css ! a))"
    "b_refcnt k = 0" "payload k = take (length (css ! a)) (drop 20 seg)" "data_ok k"
    "netdev_rx (Some F) w = unfocus (snd (locked (tcp_input_state (s_bnext d) ?th) (arrive k d))) w"
    "c_sid (snd (locked (tcp_input_state (s_bnext d) ?th) (arrive k d))) = i"
    by (rule segment_arrives [OF F(4) refl len look assms(8)])
  let ?d' = "snd (locked (tcp_input_state (s_bnext d) ?th) (arrive k d))"
  have "chunk_at css s0 a k" using k F(5) a(1) by (simp add: chunk_at_def carries_def th seq_at_Suc)
  moreover obtain j where j: "j \<le> length css" "lo \<le> j" "rcv_nxt (tcb_of d) = seq_at css s0 j" "recv_inv j css s0 got d"
    using lo(3) assms(11) by (fastforce simp: recv_inv_def recv_open_def receiving_def)
  moreover have "th_ack ?th" "\<not> th_rst ?th" "\<not> th_syn ?th" "\<not> th_fin ?th" using F(6) by (simp_all add: th th_flags_def)
  ultimately obtain j' where j': "a < j'" "recv_inv j' css s0 got ?d'" "state_of ?d' = TCP_ESTABLISHED"
    using deliver_advances [OF num j(4,1,3), of a k ?th] k(1,4) al assms(11-15) F(9) by (auto simp: th)
  then obtain m where m: "m \<le> length css" "j' \<le> m" "got @ stream ?d' = concat (take m css)"
    by (auto simp: recv_inv_def recv_open_def receiving_def)
  have "offs css (Suc a) \<le> offs css m"
    using m(1,2) j'(1) offs_add [of "Suc a" "m - Suc a" css] by simp
  then have "unat (snd_una (tcb_of c)) + length (seg_data b c) \<le> unat s0 + length (got @ stream ?d')"
    unfolding m(3) using a(1) by (simp add: ua unat_seq_at [OF num] data offs_Suc) (simp add: offs_def)
  moreover have "so_refcnt (c_sock ?d') \<noteq> 0" using assms(10) unfolding refcnt_locked by (simp add: arrive_def)
  from focus_unfocus_same [OF this, of w] have f: "focus i (netdev_rx (Some F) w) = Some ?d'" by (simp only: k(7,8))
  moreover have "link s0 css put c' (insert F net) acks got d"
    using link.writer [OF assms(2) writer_step.timeout] assms(5) F(1) by (simp add: c'_def)
  from link.deliver [OF this _ F(2) refl look assms(8) _ f]
  have "link s0 css put c' (insert F net) (acks \<union> ack_of ?d') got ?d'" using assms(11) by simp
  ultimately show ?thesis using F(1) j'(3) by blast
qed

lemma timeout_fault:
  assumes "sk_write_queue (c_sk c) = b # q" "tk_rto (c_sk c) \<le> 60000" "\<not> s_fault (retransmit_head b c)"
    and "so_refcnt (c_sock (retransmit_head b c)) > 0" "\<not> th_fin (tcp_hdr (deref b (retransmit_head b c)))"
  shows "\<not> s_fault (tcp_retransmission_timeout c)"
proof -
  have "\<not> tk_rto (c_sk c) > 60000" using assms(2) by simp
  note eq = retransmission_timeout_eq [OF assms(1), unfolded if_not_P [OF this] Let_def case_prod_beta]
  have d: "deref b (snd (timer_add x h y e)) = deref b e" for x h y and e :: tcpctx by (simp add: deref_def)
  show ?thesis using assms(3-5) unfolding eq by (simp add: d socket_release_def Let_def)
qed

text \<open>The frame of \<open>sent_demo\<close> is lost, and the timeout sends its bytes again.\<close>

lemma transmit_sel:
  "tk_retransmit (c_sk (snd (tcp_transmit_skb b seq c))) = tk_retransmit (c_sk c)"
  "tk_linger (c_sk (snd (tcp_transmit_skb b seq c))) = tk_linger (c_sk c)"
  "tk_rto (c_sk (snd (tcp_transmit_skb b seq c))) = tk_rto (c_sk c)"
  "sk_sport (c_sk (snd (tcp_transmit_skb b seq c))) = sk_sport (c_sk c)"
  "sk_dport (c_sk (snd (tcp_transmit_skb b seq c))) = sk_dport (c_sk c)"
  "sk_daddr (c_sk (snd (tcp_transmit_skb b seq c))) = sk_daddr (c_sk c)"
  "s_timers (snd (tcp_transmit_skb b seq c)) = s_timers c" "s_routes (snd (tcp_transmit_skb b seq c)) = s_routes c"
  "s_arp_cache (snd (tcp_transmit_skb b seq c)) = s_arp_cache c"
  using tcp_transmit_tx [of b "{b}" c seq] by (auto simp: tcp_tx_def tx_frame_def)

lemma store_seq_sels:
  "c_sk (tcp_store_seq b c) = (c_sk c)\<lparr>tk_tcb := tk_tcb (c_sk (tcp_store_seq b c))\<rparr>"
  "s_timers (tcp_store_seq b c) = s_timers c" "rcv_nxt (tcb_of (tcp_store_seq b c)) = rcv_nxt (tcb_of c)"
  "s_routes (tcp_store_seq b c) = s_routes c" "s_arp_cache (tcp_store_seq b c) = s_arp_cache c"
  by (simp_all add: tcp_store_seq_def Let_def)

lemma rearm_sel:
  "c_sk (tcp_rearm_rto_timer c) = (c_sk c)\<lparr>tk_retransmit := Some (s_tnext c)\<rparr>"
  "tk_retransmit (c_sk c) = None \<Longrightarrow> t_id ` set (s_timers (tcp_rearm_rto_timer c)) = insert (s_tnext c) (t_id ` set (s_timers c))"
  "tk_linger (c_sk c) = None \<Longrightarrow> t_id ` set (s_timers c) \<subseteq> t_id ` set (s_timers (tcp_rearm_user_timeout c))"
  "tk_retransmit (c_sk (tcp_rearm_user_timeout c)) = tk_retransmit (c_sk c)"
  "tk_rto (c_sk (tcp_rearm_user_timeout c)) = tk_rto (c_sk c)" "tcb_of (tcp_rearm_user_timeout c) = tcb_of c"
  "sk_sport (c_sk (tcp_rearm_user_timeout c)) = sk_sport (c_sk c)" "sk_dport (c_sk (tcp_rearm_user_timeout c)) = sk_dport (c_sk c)"
  "sk_daddr (c_sk (tcp_rearm_user_timeout c)) = sk_daddr (c_sk c)"
  by (auto simp: tcp_rearm_rto_timer_def tcp_release_rto_timer_def timer_release_def timer_add_def timer_alloc_def
      tcp_rearm_user_timeout_def timer_cancel_def Let_def split: option.split)

lemma sent_demo_sk:
  "\<exists>t. tk_retransmit (c_sk sent_demo) = Some t \<and> timer_live t sent_demo" "tk_rto (c_sk sent_demo) \<le> 60000"
  "sk_sport (c_sk sent_demo) = 0" "sk_dport (c_sk sent_demo) = 0" "sk_daddr (c_sk sent_demo) = 0x08080808"
  "rcv_nxt (tcb_of sent_demo) = 0"
proof -
  let ?c1 = "send_chunk True [1, 2] link_demo"
  have k: "tk_rto (c_sk link_demo) \<le> 60000" "rcv_nxt (tcb_of link_demo) = 0"
    by (simp_all add: link_demo_def send_demo_def seg_demo_sel tcp_alloc_sock_def tcp_sock.defs sock.defs zero_sock_def zero_tcb_def)
  have st: "tk_retransmit (c_sk (tcp_store_seq b c)) = tk_retransmit (c_sk c)" "tk_linger (c_sk (tcp_store_seq b c)) = tk_linger (c_sk c)"
    "tk_rto (c_sk (tcp_store_seq b c)) = tk_rto (c_sk c)" "sk_sport (c_sk (tcp_store_seq b c)) = sk_sport (c_sk c)"
    "sk_dport (c_sk (tcp_store_seq b c)) = sk_dport (c_sk c)" "sk_daddr (c_sk (tcp_store_seq b c)) = sk_daddr (c_sk c)" for b c
    by (subst store_seq_sels(1); simp)+
  have c1: "\<exists>t. tk_retransmit (c_sk ?c1) = Some t \<and> t \<in> t_id ` set (s_timers ?c1) \<and> tk_linger (c_sk ?c1) = None"
    "tk_rto (c_sk ?c1) = tk_rto (c_sk link_demo)" "sk_sport (c_sk ?c1) = 0" "sk_dport (c_sk ?c1) = 0"
    "sk_daddr (c_sk ?c1) = 0x08080808" "rcv_nxt (tcb_of ?c1) = rcv_nxt (tcb_of link_demo)"
    by (simp_all add: send_chunk_def Let_def tcp_queue_transmit_skb_def link_demo_sel split_beta transmit_sel st store_seq_sels(2,3) rearm_sel)
  show "\<exists>t. tk_retransmit (c_sk sent_demo) = Some t \<and> timer_live t sent_demo"
  proof -
    from c1(1) obtain t where t: "tk_retransmit (c_sk ?c1) = Some t" "t \<in> t_id ` set (s_timers ?c1)" "tk_linger (c_sk ?c1) = None"
      by blast
    then have "t \<in> t_id ` set (s_timers sent_demo)" unfolding sent_demo_eq(2) using rearm_sel(3) by blast
    with t(1) show ?thesis by (simp add: sent_demo_eq(2) timer_live_def rearm_sel)
  qed
  show "tk_rto (c_sk sent_demo) \<le> 60000"
    "sk_sport (c_sk sent_demo) = 0" "sk_dport (c_sk sent_demo) = 0" "sk_daddr (c_sk sent_demo) = 0x08080808"
    "rcv_nxt (tcb_of sent_demo) = 0"
    using k c1(2-6) by (simp_all add: sent_demo_eq(2) rearm_sel)
qed

lemma sent_demo_queue:
  "sk_write_queue (c_sk sent_demo) = [s_bnext link_demo]" "segment_of True [1, 2] (s_bnext link_demo) sent_demo"
  "snd_una (tcb_of sent_demo) = 500" "route_lookup (sk_daddr (c_sk sent_demo)) sent_demo = Some demo_rt"
  "arp_get_hwaddr (next_hop demo_rt (sk_daddr (c_sk sent_demo))) (s_arp_cache sent_demo) = Some [2, 0, 0, 0, 0, 1]"
proof -
  let ?c1 = "send_chunk True [1, 2] link_demo"
  have h: "heap_ok link_demo" "devs_ok link_demo" using link_demo_sel(13) by (simp_all add: calm_def)
  have "length [1, 2 :: u8] \<le> 1460" "\<forall>b\<in>set (sk_write_queue (c_sk link_demo)). live b link_demo" by (simp_all add: link_demo_sel)
  note spec = send_chunk_spec [OF h this, of True]
  show "sk_write_queue (c_sk sent_demo) = [s_bnext link_demo]"
    using spec(6) by (simp add: sent_demo_eq(2) link_demo_sel)
  show "segment_of True [1, 2] (s_bnext link_demo) sent_demo"
    using spec(3) segment_of_cong [OF heap_of_skbs(1,2) [OF rearm_user(1)]] by (simp add: sent_demo_eq(2))
  show "snd_una (tcb_of sent_demo) = 500" by (simp add: send_una [OF sent_demo_eq(1)] link_demo_sel)
  have v: "emit_view (tcp_rearm_rto_timer c) = emit_view c" "emit_view (tcp_rearm_user_timeout c) = emit_view c" for c by simp_all
  have al: "s_routes (snd (alloc_skb m c)) = s_routes c" "s_arp_cache (snd (alloc_skb m c)) = s_arp_cache c" for m and c :: tcpctx
    by (simp_all add: alloc_skb_def)
  have "s_routes ?c1 = s_routes link_demo" "s_arp_cache ?c1 = s_arp_cache link_demo"
    using v(1) by (simp_all add: send_chunk_def Let_def tcp_queue_transmit_skb_def link_demo_sel split_beta transmit_sel
        store_seq_sels(4,5) emit_view_def al)
  then have "s_routes sent_demo = s_routes link_demo" "s_arp_cache sent_demo = s_arp_cache link_demo"
    using v(2) by (simp_all add: sent_demo_eq(2) emit_view_def)
  then show "route_lookup (sk_daddr (c_sk sent_demo)) sent_demo = Some demo_rt"
    "arp_get_hwaddr (next_hop demo_rt (sk_daddr (c_sk sent_demo))) (s_arp_cache sent_demo) = Some [2, 0, 0, 0, 0, 1]"
    using seg_demo_route(1) seg_demo_arp
    by (simp_all add: sent_demo_sk(5) link_demo_def send_demo_def route_lookup_def)
qed

lemma sent_demo_timeout:
  assumes "calm sent_demo"
  shows "\<not> s_fault (tcp_retransmission_timeout sent_demo)"
proof -
  let ?b = "s_bnext link_demo" and ?r = "rto_enter sent_demo"
  have id: "ident sent_demo = ident link_demo" by (rule ident_tcp_send [OF sent_demo_eq(1)])
  have "so_refcnt (c_sock link_demo) > 0" by (simp add: link_demo_def send_demo_def seg_demo_sel demo_socket_def)
  then have ref: "so_refcnt (c_sock sent_demo) > 0" using id by (simp add: ident_def)
  obtain t where t: "tk_retransmit (c_sk sent_demo) = Some t" "timer_live t sent_demo" using sent_demo_sk(1) by blast
  have r: "\<not> s_fault ?r" "so_refcnt (c_sock ?r) > 0"
    using ref t sent_demo(1)
    by (simp_all add: rto_enter_def socket_wr_acquire_def tcp_release_rto_timer_def timer_release_def timer_live_def Let_def)
  have calm: "calm ?r" using assms by (simp add: calm_def heap_ok_def devs_ok_def)
  have seg: "segment_of True [1, 2] ?b ?r" using sent_demo_queue(2) segment_of_cong [of ?b ?r sent_demo] by simp
  have to: "route_lookup (sk_daddr (c_sk ?r)) ?r = Some demo_rt"
    "arp_get_hwaddr (next_hop demo_rt (sk_daddr (c_sk ?r))) (s_arp_cache ?r) = Some [2, 0, 0, 0, 0, 1]"
    using sent_demo_queue(4,5) by simp_all
  have "s_fault (retransmit_head ?b sent_demo) = s_fault ?r"
    using segment_wire [OF seg _ _ calm to, of "snd_una (tcb_of sent_demo)"] by (auto simp: retransmit_head_def)
  moreover have "ident (retransmit_head ?b sent_demo) = ident ?r" by (simp add: retransmit_head_def)
  moreover have "segment_of True [1, 2] ?b (retransmit_head ?b sent_demo)"
    using transmit_segment(1) [OF seg, of "snd_una (tcb_of sent_demo)"] calm by (simp add: retransmit_head_def calm_def)
  ultimately show ?thesis
    using r by (intro timeout_fault [OF sent_demo_queue(1) sent_demo_sk(2)]) (simp_all add: ident_def segment_fin)
qed

theorem retransmission_delivers_witness:
  "\<exists>F d d'. s_tap (tcp_retransmission_timeout sent_demo) = s_tap sent_demo @ [F] \<and> focus 0 peer_demo = Some d \<and> stream d = []
    \<and> focus 0 (netdev_rx (Some F) peer_demo) = Some d' \<and> stream d' = [1, 2]"
proof -
  obtain F0 d where d: "focus 0 peer_demo = Some d" "link 500 [[1, 2]] [1, 2] sent_demo {F0} {500} [] d" "state_of d = TCP_ESTABLISHED"
    "stream d = []" "so_refcnt (c_sock d) \<noteq> 0" "rcv_nxt (tcb_of d) = 500" "rcv_wnd (tcb_of d) = 44477" "snd_una (tcb_of d) = 0"
    by (rule sent_demo_link)
  have "calm sent_demo" using link_inv [OF d(2)] by (auto simp: writer_ok_def)
  note nf = sent_demo_timeout [OF this]
  have look: "inet_lookup (sk_sport (c_sk sent_demo)) (sk_dport (c_sk sent_demo)) peer_demo = Some 0"
    by (simp add: sent_demo_sk(3,4) peer_demo_sel(2))
  have data: "seg_data (s_bnext link_demo) sent_demo = [1, 2]" using sent_demo_queue(2) by (simp add: segment_of_def)
  obtain F d' where F: "s_tap (tcp_retransmission_timeout sent_demo) = s_tap sent_demo @ [F]"
    "focus 0 (netdev_rx (Some F) peer_demo) = Some d'"
    "link 500 [[1, 2]] [1, 2] (tcp_retransmission_timeout sent_demo) (insert F {F0}) ({500} \<union> ack_of d') [] d'"
    "unat (500 :: u32) + 2 \<le> unat (500 :: u32) + length (stream d')"
    using retransmission_delivers [OF d(2) sent_demo_queue(1) sent_demo_sk(2) nf sent_demo_queue(4,5) d(1) look d(5,3)] d(6-8)
    unfolding data sent_demo_queue(3) by (auto simp: sent_demo_sk(6))
  have "prefix (stream d') [1, 2]"
    using link_inv [OF F(3)] by (auto simp: recv_inv_def recv_base_def)
  then obtain zs where zs: "[1, 2] = stream d' @ zs" by (auto simp: prefix_def)
  have "length (stream d' @ zs) = 2" by (simp flip: zs)
  with F(4) have "length zs = 0" by (simp only: length_append)
  with zs have "stream d' = [1, 2]" by simp
  with F(1,2) d(1,4) show ?thesis by blast
qed

subsection \<open>The end of the sequence space\<close>

text \<open>
  The comparisons do not wrap around: once the end of the receive window has passed the end of the
  sequence space, no segment is taken any more, not even the one that is expected, and since
  \<open>rcv_nxt\<close> then never moves it stays so.
\<close>

lemma wrapped_window_takes_nothing:
  assumes "rcv_nxt (tcb_of c) + rcv_wnd (tcb_of c) < rcv_nxt (tcb_of c)"
    and "state_of c \<notin> {TCP_CLOSE, TCP_LISTEN, TCP_SYN_SENT}"
  shows "tcp_input_state b th c = tcp_drop b (if \<not> th_rst th then snd (tcp_send_ack c) else c)"
proof -
  have "\<not> tcp_verify_segment th (deref b c) (c_sk c)"
    using assms(1) by (auto simp: tcp_verify_segment_def dest: order.strict_trans1)
  then show ?thesis by (simp add: input_state_other [OF assms(2)] input_check_def)
qed

end
