(* ===== verification/Ipc_Msg.thy ===== *)
theory Ipc_Msg
  imports Socket
begin

unbundle bit_operations_syntax

text \<open>
  The messages of \<open>include/ipc.h\<close>: a client process sends a socket call as an \<open>ipc_msg\<close> header
  and a packed structure, and gets the same header, an \<open>ipc_err\<close> and, for some calls, another
  structure.  Both ends are processes of one x86-64 host: \<open>int\<close>, \<open>pid_t\<close> and \<open>socklen_t\<close> are 32
  bits, \<open>size_t\<close> and \<open>nfds_t\<close> 64, little-endian.  Every structure is a record with its encoder and
  a decoder that reads it from the front of a byte region; the flexible arrays at the end of the
  structures are what follows it there.
\<close>

type_synonym u64 = "64 word"

definition le64 :: "u64 \<Rightarrow> bytes" where
  "le64 v = le32 (ucast v) @ le32 (ucast (drop_bit 32 v))"

definition rd16 :: "bytes \<Rightarrow> nat \<Rightarrow> u16" where
  "rd16 m i = of_le16 (rd8 m i) (rd8 m (i + 1))"

definition rd32 :: "bytes \<Rightarrow> nat \<Rightarrow> u32" where
  "rd32 m i = of_le32 (rd8 m i) (rd8 m (i + 1)) (rd8 m (i + 2)) (rd8 m (i + 3))"

definition rd64 :: "bytes \<Rightarrow> nat \<Rightarrow> u64" where
  "rd64 m i = ucast (rd32 m i) OR push_bit 32 (ucast (rd32 m (i + 4)))"

definition IPC_SOCKET :: u16 where "IPC_SOCKET = 0x0001"
definition IPC_CONNECT :: u16 where "IPC_CONNECT = 0x0002"
definition IPC_WRITE :: u16 where "IPC_WRITE = 0x0003"
definition IPC_READ :: u16 where "IPC_READ = 0x0004"
definition IPC_CLOSE :: u16 where "IPC_CLOSE = 0x0005"
definition IPC_POLL :: u16 where "IPC_POLL = 0x0006"
definition IPC_FCNTL :: u16 where "IPC_FCNTL = 0x0007"
definition IPC_GETSOCKOPT :: u16 where "IPC_GETSOCKOPT = 0x0008"
definition IPC_SETSOCKOPT :: u16 where "IPC_SETSOCKOPT = 0x0009"
definition IPC_GETPEERNAME :: u16 where "IPC_GETPEERNAME = 0x000A"
definition IPC_GETSOCKNAME :: u16 where "IPC_GETSOCKNAME = 0x000B"

lemmas ipc_types = IPC_SOCKET_def IPC_CONNECT_def IPC_WRITE_def IPC_READ_def IPC_CLOSE_def
  IPC_POLL_def IPC_FCNTL_def IPC_GETSOCKOPT_def IPC_SETSOCKOPT_def IPC_GETPEERNAME_def
  IPC_GETSOCKNAME_def

subsection \<open>The structures\<close>

record ipc_msg =
  im_type :: u16
  im_pid :: u32

definition enc_ipc_msg :: "ipc_msg \<Rightarrow> bytes" where
  "enc_ipc_msg m = le16 (im_type m) @ le32 (im_pid m)"

definition dec_ipc_msg :: "bytes \<Rightarrow> ipc_msg" where
  "dec_ipc_msg b = \<lparr>im_type = rd16 b 0, im_pid = rd32 b 2\<rparr>"

record ipc_err =
  ie_rc :: u32
  ie_err :: u32

definition enc_ipc_err :: "ipc_err \<Rightarrow> bytes" where
  "enc_ipc_err e = le32 (ie_rc e) @ le32 (ie_err e)"

definition dec_ipc_err :: "bytes \<Rightarrow> ipc_err" where
  "dec_ipc_err b = \<lparr>ie_rc = rd32 b 0, ie_err = rd32 b 4\<rparr>"

record ipc_socket =
  is_domain :: u32
  is_type :: u32
  is_protocol :: u32

definition enc_ipc_socket :: "ipc_socket \<Rightarrow> bytes" where
  "enc_ipc_socket s = le32 (is_domain s) @ le32 (is_type s) @ le32 (is_protocol s)"

definition dec_ipc_socket :: "bytes \<Rightarrow> ipc_socket" where
  "dec_ipc_socket b = \<lparr>is_domain = rd32 b 0, is_type = rd32 b 4, is_protocol = rd32 b 8\<rparr>"

text \<open>\<open>struct sockaddr\<close> is 16 bytes; the server reads the fields of a \<open>sockaddr_in\<close> there.\<close>

record ipc_connect =
  ic_sockfd :: u32
  ic_addr :: bytes
  ic_addrlen :: u32

definition enc_ipc_connect :: "ipc_connect \<Rightarrow> bytes" where
  "enc_ipc_connect c = le32 (ic_sockfd c) @ ic_addr c @ le32 (ic_addrlen c)"

definition dec_ipc_connect :: "bytes \<Rightarrow> ipc_connect" where
  "dec_ipc_connect b = \<lparr>ic_sockfd = rd32 b 0, ic_addr = mread b 4 16, ic_addrlen = rd32 b 20\<rparr>"

definition enc_sockaddr :: "sockaddr \<Rightarrow> bytes" where
  "enc_sockaddr a = le16 (sa_family a) @ le16 (sin_port a) @ le32 (s_addr a)"

definition dec_sockaddr :: "bytes \<Rightarrow> sockaddr" where
  "dec_sockaddr b = \<lparr>sa_family = rd16 b 0, sin_port = rd16 b 2, s_addr = rd32 b 4\<rparr>"

text \<open>\<open>struct ipc_write\<close> and \<open>struct ipc_read\<close> have the same fields.\<close>

record ipc_write =
  iw_sockfd :: u32
  iw_len :: u64

definition enc_ipc_write :: "ipc_write \<Rightarrow> bytes" where
  "enc_ipc_write p = le32 (iw_sockfd p) @ le64 (iw_len p)"

definition dec_ipc_write :: "bytes \<Rightarrow> ipc_write" where
  "dec_ipc_write b = \<lparr>iw_sockfd = rd32 b 0, iw_len = rd64 b 4\<rparr>"

record ipc_read =
  ir_sockfd :: u32
  ir_len :: u64

definition enc_ipc_read :: "ipc_read \<Rightarrow> bytes" where
  "enc_ipc_read p = le32 (ir_sockfd p) @ le64 (ir_len p)"

definition dec_ipc_read :: "bytes \<Rightarrow> ipc_read" where
  "dec_ipc_read b = \<lparr>ir_sockfd = rd32 b 0, ir_len = rd64 b 4\<rparr>"

record ipc_close =
  icl_sockfd :: u32

definition enc_ipc_close :: "ipc_close \<Rightarrow> bytes" where
  "enc_ipc_close p = le32 (icl_sockfd p)"

definition dec_ipc_close :: "bytes \<Rightarrow> ipc_close" where
  "dec_ipc_close b = \<lparr>icl_sockfd = rd32 b 0\<rparr>"

record ipc_pollfd =
  ipf_fd :: u32
  ipf_events :: u16
  ipf_revents :: u16

definition enc_ipc_pollfd :: "ipc_pollfd \<Rightarrow> bytes" where
  "enc_ipc_pollfd p = le32 (ipf_fd p) @ le16 (ipf_events p) @ le16 (ipf_revents p)"

definition dec_ipc_pollfd :: "bytes \<Rightarrow> ipc_pollfd" where
  "dec_ipc_pollfd b = \<lparr>ipf_fd = rd32 b 0, ipf_events = rd16 b 4, ipf_revents = rd16 b 6\<rparr>"

text \<open>The array \<open>fds\<close>: \<open>n\<close> entries of 8 bytes.\<close>

fun dec_pollfds :: "nat \<Rightarrow> bytes \<Rightarrow> ipc_pollfd list" where
  "dec_pollfds 0 b = []"
| "dec_pollfds (Suc n) b = dec_ipc_pollfd b # dec_pollfds n (drop 8 b)"

definition enc_pollfds :: "ipc_pollfd list \<Rightarrow> bytes" where
  "enc_pollfds ps = concat (map enc_ipc_pollfd ps)"

record ipc_poll =
  ipo_nfds :: u64
  ipo_timeout :: u32

definition enc_ipc_poll :: "ipc_poll \<Rightarrow> bytes" where
  "enc_ipc_poll p = le64 (ipo_nfds p) @ le32 (ipo_timeout p)"

definition dec_ipc_poll :: "bytes \<Rightarrow> ipc_poll" where
  "dec_ipc_poll b = \<lparr>ipo_nfds = rd64 b 0, ipo_timeout = rd32 b 8\<rparr>"

record ipc_fcntl =
  ifc_sockfd :: u32
  ifc_cmd :: u32

definition enc_ipc_fcntl :: "ipc_fcntl \<Rightarrow> bytes" where
  "enc_ipc_fcntl p = le32 (ifc_sockfd p) @ le32 (ifc_cmd p)"

definition dec_ipc_fcntl :: "bytes \<Rightarrow> ipc_fcntl" where
  "dec_ipc_fcntl b = \<lparr>ifc_sockfd = rd32 b 0, ifc_cmd = rd32 b 4\<rparr>"

record ipc_sockopt =
  iso_fd :: u32
  iso_level :: u32
  iso_optname :: u32
  iso_optlen :: u32

definition enc_ipc_sockopt :: "ipc_sockopt \<Rightarrow> bytes" where
  "enc_ipc_sockopt o' =
     le32 (iso_fd o') @ le32 (iso_level o') @ le32 (iso_optname o') @ le32 (iso_optlen o')"

definition dec_ipc_sockopt :: "bytes \<Rightarrow> ipc_sockopt" where
  "dec_ipc_sockopt b =
     \<lparr>iso_fd = rd32 b 0, iso_level = rd32 b 4, iso_optname = rd32 b 8, iso_optlen = rd32 b 12\<rparr>"

record ipc_sockname =
  isn_socket :: u32
  isn_address_len :: u32
  isn_sa_data :: bytes

definition enc_ipc_sockname :: "ipc_sockname \<Rightarrow> bytes" where
  "enc_ipc_sockname n = le32 (isn_socket n) @ le32 (isn_address_len n) @ isn_sa_data n"

definition dec_ipc_sockname :: "bytes \<Rightarrow> ipc_sockname" where
  "dec_ipc_sockname b =
     \<lparr>isn_socket = rd32 b 0, isn_address_len = rd32 b 4, isn_sa_data = mread b 8 128\<rparr>"

subsection \<open>Reading fields\<close>

lemma length_le64 [len_simps, simp]: "length (le64 v) = 8"
  by (simp add: le64_def)

lemma rd8_le16: "rd8 (le16 v @ xs) 0 = ucast v" "rd8 (le16 v @ xs) (Suc 0) = ucast (drop_bit 8 v)"
  by (simp_all add: le16_def)

lemma rd_le [simp]:
  "rd16 (le16 v @ xs) 0 = v" "rd32 (le32 w @ xs) 0 = w" "rd64 (le64 z @ xs) 0 = z"
  "rd16 (le16 v) 0 = v" "rd32 (le32 w) 0 = w" "rd64 (le64 z) 0 = z"
proof -
  have 16: "rd16 (le16 v @ xs) 0 = v" for xs
    by (simp add: rd16_def le16_def enc_simps)
  have 32: "rd32 (le32 w @ xs) 0 = w" for w xs
    by (simp add: rd32_def le32_def enc_simps)
  have shift: "rd32 (le32 a @ ys) 4 = rd32 ys 0" for a ys
    by (simp add: rd32_def le32_def numeral_eq_Suc)
  have 64: "rd64 (le64 z @ xs) 0 = z" for xs
    by (rule bit_word_eqI)
      (auto simp: rd64_def le64_def shift 32 bit_simps dest: bit_imp_le_length)
  show "rd16 (le16 v @ xs) 0 = v" "rd32 (le32 w @ xs) 0 = w" "rd64 (le64 z @ xs) 0 = z"
    by (rule 16 32 64)+
  show "rd16 (le16 v) 0 = v" "rd32 (le32 w) 0 = w" "rd64 (le64 z) 0 = z"
    using 16 [of "[]"] 32 [of w "[]"] 64 [of "[]"] by simp_all
qed

lemma rd8_shift:
  assumes "length xs \<le> i"
  shows "rd8 (xs @ ys) i = rd8 ys (i - length xs)"
    and "rd8 (xs @ ys) (i + k) = rd8 ys (i - length xs + k)"
proof -
  have "i + k - length xs = i - length xs + k"
    using assms by arith
  with assms show "rd8 (xs @ ys) i = rd8 ys (i - length xs)"
    and "rd8 (xs @ ys) (i + k) = rd8 ys (i - length xs + k)"
    by (simp_all add: rd8_append)
qed

lemma rd16_shift [simp]: "length xs \<le> i \<Longrightarrow> rd16 (xs @ ys) i = rd16 ys (i - length xs)"
  by (simp only: rd16_def rd8_shift(2), simp only: rd8_shift(1))

lemma rd32_shift [simp]: "length xs \<le> i \<Longrightarrow> rd32 (xs @ ys) i = rd32 ys (i - length xs)"
  by (simp only: rd32_def rd8_shift(2), simp only: rd8_shift(1))

lemma rd64_shift [simp]:
  assumes "length xs \<le> i"
  shows "rd64 (xs @ ys) i = rd64 ys (i - length xs)"
proof -
  have "i + 4 - length xs = i - length xs + 4" "length xs \<le> i + 4"
    using assms by arith+
  with assms show ?thesis
    by (simp only: rd64_def rd32_shift)
qed

lemma mread_shift [simp]: "length xs \<le> i \<Longrightarrow> mread (xs @ ys) i n = mread ys (i - length xs) n"
  by (simp add: mread_def)

lemma mread_front [simp]: "n = length xs \<Longrightarrow> mread (xs @ ys) 0 n = xs"
  by (simp add: mread_def)

subsection \<open>Lengths and round trips\<close>

lemma length_enc_ipc [simp]:
  "length (enc_ipc_msg m) = 6" "length (enc_ipc_err e) = 8" "length (enc_ipc_socket s) = 12"
  "length (ic_addr c) = 16 \<Longrightarrow> length (enc_ipc_connect c) = 24" "length (enc_sockaddr a) = 8"
  "length (enc_ipc_write w) = 12" "length (enc_ipc_read r) = 12" "length (enc_ipc_close cl) = 4"
  "length (enc_ipc_pollfd p) = 8" "length (enc_ipc_poll po) = 12" "length (enc_ipc_fcntl f) = 8"
  "length (enc_ipc_sockopt so) = 16"
  "length (isn_sa_data n) = 128 \<Longrightarrow> length (enc_ipc_sockname n) = 136"
  by (simp_all add: enc_ipc_msg_def enc_ipc_err_def enc_ipc_socket_def enc_ipc_connect_def
      enc_sockaddr_def enc_ipc_write_def enc_ipc_read_def enc_ipc_close_def enc_ipc_pollfd_def
      enc_ipc_poll_def enc_ipc_fcntl_def enc_ipc_sockopt_def enc_ipc_sockname_def)

lemma length_enc_pollfds [simp]: "length (enc_pollfds ps) = 8 * length ps"
  by (induction ps) (simp_all add: enc_pollfds_def)

lemma dec_enc_ipc [simp]:
  "dec_ipc_msg (enc_ipc_msg m @ xs) = m"
  "dec_ipc_err (enc_ipc_err e @ xs) = e"
  "dec_ipc_socket (enc_ipc_socket s @ xs) = s"
  "dec_sockaddr (enc_sockaddr a @ xs) = a"
  "dec_ipc_write (enc_ipc_write w @ xs) = w"
  "dec_ipc_read (enc_ipc_read r @ xs) = r"
  "dec_ipc_close (enc_ipc_close cl @ xs) = cl"
  "dec_ipc_pollfd (enc_ipc_pollfd p @ xs) = p"
  "dec_ipc_poll (enc_ipc_poll po @ xs) = po"
  "dec_ipc_fcntl (enc_ipc_fcntl f @ xs) = f"
  "dec_ipc_sockopt (enc_ipc_sockopt so @ xs) = so"
  by (simp_all add: dec_ipc_msg_def enc_ipc_msg_def dec_ipc_err_def enc_ipc_err_def
      dec_ipc_socket_def enc_ipc_socket_def dec_sockaddr_def enc_sockaddr_def dec_ipc_write_def
      enc_ipc_write_def dec_ipc_read_def enc_ipc_read_def dec_ipc_close_def enc_ipc_close_def
      dec_ipc_pollfd_def enc_ipc_pollfd_def dec_ipc_poll_def enc_ipc_poll_def dec_ipc_fcntl_def
      enc_ipc_fcntl_def dec_ipc_sockopt_def enc_ipc_sockopt_def)

lemma dec_enc_ipc_connect [simp]:
  "length (ic_addr c) = 16 \<Longrightarrow> dec_ipc_connect (enc_ipc_connect c @ xs) = c"
  by (simp add: dec_ipc_connect_def enc_ipc_connect_def)

lemma dec_enc_ipc_sockname [simp]:
  "length (isn_sa_data n) = 128 \<Longrightarrow> dec_ipc_sockname (enc_ipc_sockname n @ xs) = n"
  by (simp add: dec_ipc_sockname_def enc_ipc_sockname_def)

lemmas dec_enc_ipc_whole [simp] = dec_enc_ipc [where xs = "[]", unfolded append_Nil2]
  dec_enc_ipc_connect [where xs = "[]", unfolded append_Nil2]
  dec_enc_ipc_sockname [where xs = "[]", unfolded append_Nil2]

lemma dec_enc_pollfds [simp]: "dec_pollfds (length ps) (enc_pollfds ps @ xs) = ps"
  by (induction ps) (simp_all add: enc_pollfds_def)

end
