(* ===== verification/Ipc.thy ===== *)
theory Ipc
  imports Ipc_Msg
begin

unbundle bit_operations_syntax

text \<open>
  The IPC server, \<open>src/ipc.c\<close>: one thread per connected client, which reads a message into its
  buffer of \<open>IPC_BUFLEN\<close> bytes, decodes it, makes the call of the socket layer and sends the
  reply.  The buffer is not cleared: a message shorter than the one before leaves the end of that
  one behind it.  A handler ends with its result, the reply it sent, if any, the buffer and the
  world (\<open>Done\<close>); or sleeps inside the call (\<open>Wait\<close>), to go on in \<open>ipc_resume\<close>; or its call does
  not end (\<open>Hang\<close>, the loop of \<open>tcp_send\<close>).  \<open>ipc_env\<close> is what a handler meets besides: the number
  \<open>generate_iss\<close> draws, the bytes its stack has room for, what an \<open>alloca\<close> finds there, and the
  result of the second \<open>read(2)\<close> of \<open>ipc_write\<close>.  Sending the reply may fail; that is only logged.
\<close>

abbreviation (input) IPC_BUFLEN :: nat where "IPC_BUFLEN \<equiv> 8192"
abbreviation (input) F_GETFL :: int where "F_GETFL \<equiv> 3"
abbreviation (input) F_SETFL :: int where "F_SETFL \<equiv> 4"

record ipc_env =
  ev_iss :: u32
  ev_stack :: nat
  ev_junk :: bytes
  ev_more :: "nat \<Rightarrow> bytes option"

datatype ipc_wait = Wait_connect nat | Wait_read nat int int bytes | Wait_poll "pollfd list" int

datatype ipc_outcome = Done int "bytes option" bytes world | Wait ipc_wait bytes world | Hang

text \<open>The header of a message, and the structure behind it.\<close>

abbreviation (input) hdr_of :: "bytes \<Rightarrow> ipc_msg" where "hdr_of \<equiv> dec_ipc_msg"
abbreviation (input) data_of :: "bytes \<Rightarrow> bytes" where "data_of \<equiv> drop 6"

definition msg_pid :: "bytes \<Rightarrow> int" where
  "msg_pid buf = sint (im_pid (hdr_of buf))"

definition reply_hdr :: "u16 \<Rightarrow> bytes \<Rightarrow> bytes" where
  "reply_hdr t buf = enc_ipc_msg \<lparr>im_type = t, im_pid = im_pid (hdr_of buf)\<rparr>"

definition ipc_err_of :: "int \<Rightarrow> ipc_err" where
  "ipc_err_of rc =
     (if rc < 0 then \<lparr>ie_rc = - 1, ie_err = of_int (- rc)\<rparr> else \<lparr>ie_rc = of_int rc, ie_err = 0\<rparr>)"

definition ipc_write_rc :: "bytes \<Rightarrow> u16 \<Rightarrow> int \<Rightarrow> bytes" where
  "ipc_write_rc buf t rc = reply_hdr t buf @ enc_ipc_err (ipc_err_of rc)"

subsection \<open>The handlers\<close>

text \<open>
  \<open>_read\<close> never sleeps in a connect and \<open>_connect\<close> never in a read; the branches for these cases
  of \<open>call_result\<close> are not reached.
\<close>

definition ipc_read_reply :: "bytes \<Rightarrow> int \<Rightarrow> bytes \<Rightarrow> bytes" where
  "ipc_read_reply buf rlen got =
     (let requested = dec_ipc_read (data_of buf);
          rbuf = got @ drop (length got) (replicate (unat (ir_len requested)) 0)
      in reply_hdr IPC_READ buf
         @ enc_ipc_err \<lparr>ie_rc = (if rlen < 0 then - 1 else of_int rlen),
                        ie_err = (if rlen < 0 then of_int (- rlen) else 0)\<rparr>
         @ enc_ipc_read \<lparr>ir_sockfd = ir_sockfd requested, ir_len = of_int rlen\<rparr>
         @ take (nat rlen) rbuf)"

definition ipc_read_done :: "bytes \<Rightarrow> call_result \<Rightarrow> ipc_outcome" where
  "ipc_read_done buf r =
     (case r of
        Ret rlen got w \<Rightarrow> Done 0 (Some (ipc_read_reply buf rlen got)) buf w
      | Block_read i len rlen got w \<Rightarrow> Wait (Wait_read i len rlen got) buf w
      | Block_connect i w \<Rightarrow> Hang)"

definition ipc_read :: "ipc_env \<Rightarrow> bytes \<Rightarrow> world \<Rightarrow> ipc_outcome" where
  "ipc_read e buf w =
     (let requested = dec_ipc_read (data_of buf);
          w = check (unat (ir_len requested) \<le> ev_stack e) w
      in ipc_read_done buf
           (read_call (msg_pid buf) (sint (ir_sockfd requested)) (sint (ucast (ir_len requested) :: u32)) w))"

definition ipc_write :: "ipc_env \<Rightarrow> bytes \<Rightarrow> world \<Rightarrow> ipc_outcome" where
  "ipc_write e buf w =
     (let payload = dec_ipc_write (data_of buf);
          len = unat (iw_len payload);
          head = IPC_BUFLEN - 12 - 6;
          w = check (len \<le> ev_stack e) w;
          front = mread buf 18 (if len > head then head else len);
          tail = len - head;
          rest = (if len > head then ev_more e tail else Some [])
      in case rest of None \<Rightarrow> Done (- 1) None buf w
         | Some got \<Rightarrow>
             let data = front @ take tail got @ replicate (tail - length got) 0
             in (case write_call (msg_pid buf) (sint (iw_sockfd payload)) data w of
                   None \<Rightarrow> Hang
                 | Some (rc, w) \<Rightarrow> Done 0 (Some (ipc_write_rc buf IPC_WRITE rc)) buf w))"

definition ipc_connect_done :: "bytes \<Rightarrow> call_result \<Rightarrow> ipc_outcome" where
  "ipc_connect_done buf r =
     (case r of
        Ret rc got w \<Rightarrow> Done 0 (Some (ipc_write_rc buf IPC_CONNECT rc)) buf w
      | Block_connect i w \<Rightarrow> Wait (Wait_connect i) buf w
      | Block_read i len rlen got w \<Rightarrow> Hang)"

definition ipc_connect :: "ipc_env \<Rightarrow> bytes \<Rightarrow> world \<Rightarrow> ipc_outcome" where
  "ipc_connect e buf w =
     (let payload = dec_ipc_connect (data_of buf)
      in ipc_connect_done buf
           (connect_call (msg_pid buf) (sint (ic_sockfd payload)) (ev_iss e)
              (dec_sockaddr (ic_addr payload)) (sint (ic_addrlen payload)) w))"

definition ipc_socket :: "bytes \<Rightarrow> world \<Rightarrow> ipc_outcome" where
  "ipc_socket buf w =
     (let sock = dec_ipc_socket (data_of buf);
          (rc, w) = socket_call (msg_pid buf) (sint (is_domain sock)) (sint (is_type sock))
                      (sint (is_protocol sock)) w
      in Done 0 (Some (ipc_write_rc buf IPC_SOCKET rc)) buf w)"

definition ipc_close :: "bytes \<Rightarrow> world \<Rightarrow> ipc_outcome" where
  "ipc_close buf w =
     (let payload = dec_ipc_close (data_of buf);
          (rc, w) = close_call (msg_pid buf) (sint (icl_sockfd payload)) w
      in Done 0 (Some (ipc_write_rc buf IPC_CLOSE rc)) buf w)"

definition to_pollfd :: "ipc_pollfd \<Rightarrow> pollfd" where
  "to_pollfd p = \<lparr>pf_fd = sint (ipf_fd p), pf_events = ipf_events p, pf_revents = ipf_revents p\<rparr>"

definition of_pollfd :: "pollfd \<Rightarrow> ipc_pollfd" where
  "of_pollfd p = \<lparr>ipf_fd = of_int (pf_fd p), ipf_events = pf_events p, ipf_revents = pf_revents p\<rparr>"

definition ipc_poll_reply :: "bytes \<Rightarrow> int \<Rightarrow> pollfd list \<Rightarrow> bytes" where
  "ipc_poll_reply buf rc fds =
     reply_hdr IPC_POLL buf @ enc_ipc_err (ipc_err_of rc) @ enc_pollfds (map of_pollfd fds)"

definition ipc_poll_done :: "bytes \<Rightarrow> (int + int) \<times> pollfd list \<times> world \<Rightarrow> ipc_outcome" where
  "ipc_poll_done buf r =
     (case r of
        (Inl rc, fds, w) \<Rightarrow> Done 0 (Some (ipc_poll_reply buf rc fds)) buf w
      | (Inr timeout, fds, w) \<Rightarrow> Wait (Wait_poll fds timeout) buf w)"

text \<open>The entries must lie in the buffer: \<open>nfds\<close> is the client's.\<close>

definition ipc_poll :: "bytes \<Rightarrow> world \<Rightarrow> ipc_outcome" where
  "ipc_poll buf w =
     (let data = dec_ipc_poll (data_of buf);
          nfds = unat (ipo_nfds data);
          w = check (18 + 8 * nfds \<le> length buf) w;
          fds = map to_pollfd (dec_pollfds nfds (drop 18 buf))
      in ipc_poll_done buf (poll_round (msg_pid buf) fds (sint (ipo_timeout data)) w))"

definition ipc_fcntl :: "bytes \<Rightarrow> world \<Rightarrow> ipc_outcome" where
  "ipc_fcntl buf w =
     (let fc = dec_ipc_fcntl (data_of buf);
          pid = msg_pid buf;
          fd = sint (ifc_sockfd fc);
          cmd = sint (ifc_cmd fc);
          (rc, w) = (if cmd = F_GETFL then fcntl_call pid fd cmd 0 w
                     else if cmd = F_SETFL then fcntl_call pid fd cmd (sint (rd32 buf 14)) w
                     else (- EINVAL, w))
      in Done 0 (Some (ipc_write_rc buf IPC_FCNTL rc)) buf w)"

text \<open>\<open>_getsockopt\<close> stores the option's value and length into the message itself.\<close>

definition ipc_getsockopt :: "bytes \<Rightarrow> world \<Rightarrow> ipc_outcome" where
  "ipc_getsockopt buf w =
     (let opts = dec_ipc_sockopt (data_of buf);
          ((rc, optval), w) = getsockopt_call (msg_pid buf) (sint (iso_fd opts)) (sint (iso_level opts))
                                (sint (iso_optname opts)) w;
          buf = (case optval of None \<Rightarrow> buf
                 | Some v \<Rightarrow> mwrite (mwrite buf 18 (le32 4)) 22 (le32 (of_int v)));
          opts = dec_ipc_sockopt (data_of buf);
          optlen = unat (iso_optlen opts);
          w = check (22 + optlen \<le> length buf) w;
          reply = reply_hdr IPC_GETSOCKOPT buf @ enc_ipc_err (ipc_err_of rc) @ enc_ipc_sockopt opts
                    @ mread buf 22 optlen
      in Done rc (Some reply) buf w)"

text \<open>
  \<open>ipc_getpeername\<close> and \<open>ipc_getsockname\<close>: the name is stored into the reply, whose other bytes
  are whatever \<open>alloca\<close> found.
\<close>

definition name_reply :: "ipc_env \<Rightarrow> u16 \<Rightarrow> bytes \<Rightarrow> int \<Rightarrow> sockaddr option \<Rightarrow> bytes" where
  "name_reply e t buf rc addr =
     (let nameres = dec_ipc_sockname (ev_junk e);
          nameres = (case addr of None \<Rightarrow> nameres
                     | Some a \<Rightarrow> nameres\<lparr>isn_sa_data := mwrite (isn_sa_data nameres) 0 (enc_sockaddr a),
                                         isn_address_len := 16\<rparr>);
          nameres = nameres\<lparr>isn_socket := isn_socket (dec_ipc_sockname (data_of buf))\<rparr>
      in reply_hdr t buf @ enc_ipc_err (ipc_err_of rc) @ enc_ipc_sockname nameres)"

definition ipc_getpeername :: "ipc_env \<Rightarrow> bytes \<Rightarrow> world \<Rightarrow> ipc_outcome" where
  "ipc_getpeername e buf w =
     (let name = dec_ipc_sockname (data_of buf);
          ((rc, addr), w) = getpeername_call (msg_pid buf) (sint (isn_socket name)) w
      in Done rc (Some (name_reply e IPC_GETPEERNAME buf rc addr)) buf w)"

definition ipc_getsockname :: "ipc_env \<Rightarrow> bytes \<Rightarrow> world \<Rightarrow> ipc_outcome" where
  "ipc_getsockname e buf w =
     (let name = dec_ipc_sockname (data_of buf);
          ((rc, addr), w) = getsockname_call (msg_pid buf) (sint (isn_socket name)) w
      in Done rc (Some (name_reply e IPC_GETSOCKNAME buf rc addr)) buf w)"

definition demux_ipc_socket_call :: "ipc_env \<Rightarrow> bytes \<Rightarrow> world \<Rightarrow> ipc_outcome" where
  "demux_ipc_socket_call e buf w =
     (let t = im_type (hdr_of buf)
      in if t = IPC_SOCKET then ipc_socket buf w
         else if t = IPC_CONNECT then ipc_connect e buf w
         else if t = IPC_WRITE then ipc_write e buf w
         else if t = IPC_READ then ipc_read e buf w
         else if t = IPC_CLOSE then ipc_close buf w
         else if t = IPC_POLL then ipc_poll buf w
         else if t = IPC_FCNTL then ipc_fcntl buf w
         else if t = IPC_GETSOCKOPT then ipc_getsockopt buf w
         else if t = IPC_GETPEERNAME then ipc_getpeername e buf w
         else if t = IPC_GETSOCKNAME then ipc_getsockname e buf w
         else Done 0 None buf w)"

text \<open>A call that slept goes on: woken, or for \<open>_poll\<close> after its 10 ms.\<close>

definition ipc_resume :: "ipc_wait \<Rightarrow> bytes \<Rightarrow> world \<Rightarrow> ipc_outcome" where
  "ipc_resume wt buf w =
     (case wt of
        Wait_connect i \<Rightarrow> ipc_connect_done buf (connect_wake i w)
      | Wait_read i len rlen got \<Rightarrow> ipc_read_done buf (read_wake i len rlen got w)
      | Wait_poll fds timeout \<Rightarrow> ipc_poll_done buf (poll_round (msg_pid buf) fds timeout w))"

subsection \<open>The threads\<close>

text \<open>
  The server's list of threads and their count, the descriptors it closed, and the world.  A
  thread is at the \<open>read(2)\<close> of its loop with its buffer, asleep in a call, stuck in one, or over.
\<close>

record ipc_thread =
  th_sock :: int

record ipc_server =
  sv_sockets :: "ipc_thread list"
  sv_socket_count :: int
  sv_closed :: "int list"
  sv_world :: world

datatype thread_state = Reading bytes | Asleep ipc_wait bytes | Stuck | Ended

definition ipc_alloc_thread :: "int \<Rightarrow> ipc_server \<Rightarrow> ipc_server" where
  "ipc_alloc_thread sock sv =
     sv\<lparr>sv_sockets := sv_sockets sv @ [\<lparr>th_sock = sock\<rparr>], sv_socket_count := sv_socket_count sv + 1\<rparr>"

text \<open>Removes and closes the first entry for the descriptor.\<close>

fun free_thread :: "int \<Rightarrow> ipc_thread list \<Rightarrow> ipc_thread list option" where
  "free_thread sock [] = None"
| "free_thread sock (th # ths) =
     (if th_sock th = sock then Some ths else map_option ((#) th) (free_thread sock ths))"

definition ipc_free_thread :: "int \<Rightarrow> ipc_server \<Rightarrow> ipc_server" where
  "ipc_free_thread sock sv =
     (case free_thread sock (sv_sockets sv) of
        None \<Rightarrow> sv
      | Some ths \<Rightarrow> sv\<lparr>sv_sockets := ths, sv_closed := sv_closed sv @ [sock],
                      sv_socket_count := sv_socket_count sv - 1\<rparr>)"

text \<open>The body of the loop of \<open>socket_ipc_open\<close> after \<open>demux_ipc_socket_call\<close>.\<close>

definition ipc_next :: "int \<Rightarrow> ipc_outcome \<Rightarrow> ipc_server \<Rightarrow> thread_state \<times> bytes option \<times> ipc_server" where
  "ipc_next sockfd r sv =
     (case r of
        Done rc reply buf w \<Rightarrow>
          if rc = - 1 then (Ended, reply, sv\<lparr>sv_world := w, sv_closed := sv_closed sv @ [sockfd]\<rparr>)
          else (Reading buf, reply, sv\<lparr>sv_world := w\<rparr>)
      | Wait wt buf w \<Rightarrow> (Asleep wt buf, None, sv\<lparr>sv_world := w\<rparr>)
      | Hang \<Rightarrow> (Stuck, None, sv))"

text \<open>One turn: \<open>got\<close> is what \<open>read(2)\<close> gave, \<open>None\<close> for an error, nothing at the end of the stream.\<close>

definition socket_ipc_open ::
  "ipc_env \<Rightarrow> int \<Rightarrow> bytes option \<Rightarrow> bytes \<Rightarrow> ipc_server \<Rightarrow> thread_state \<times> bytes option \<times> ipc_server" where
  "socket_ipc_open e sockfd got buf sv =
     (case got of None \<Rightarrow> (Ended, None, ipc_free_thread sockfd sv)
      | Some d \<Rightarrow>
          if d = [] then (Ended, None, ipc_free_thread sockfd sv)
          else ipc_next sockfd (demux_ipc_socket_call e (d @ drop (length d) buf) (sv_world sv)) sv)"

definition socket_ipc_wake :: "int \<Rightarrow> ipc_wait \<Rightarrow> bytes \<Rightarrow> ipc_server \<Rightarrow> thread_state \<times> bytes option \<times> ipc_server" where
  "socket_ipc_wake sockfd wt buf sv = ipc_next sockfd (ipc_resume wt buf (sv_world sv)) sv"

end
