(* ===== verification/Process.thy ===== *)
theory Process
  imports Main
begin

text \<open>
  Functions that do little but call the system: a process names the calls it makes and goes on with
  what they return, \<open>exec\<close> runs it against anything that answers the calls and records them.  The
  calls (\<open>'c\<close>) and their results (\<open>'r\<close>) are those of the program that is modelled.
\<close>

datatype ('c, 'r, 'a) proc = Finish 'a | Exits int | Os 'c "'r \<Rightarrow> ('c, 'r, 'a) proc"

primrec bind_proc :: "('c, 'r, 'a) proc \<Rightarrow> ('a \<Rightarrow> ('c, 'r, 'b) proc) \<Rightarrow> ('c, 'r, 'b) proc" where
  "bind_proc (Finish x) f = f x"
| "bind_proc (Exits n) f = Exits n"
| "bind_proc (Os c k) f = Os c (\<lambda>r. bind_proc (k r) f)"

definition call :: "'c \<Rightarrow> ('c, 'r, 'r) proc" where
  "call c = Os c Finish"

definition say :: "'c \<Rightarrow> ('c, 'r, 'a) proc \<Rightarrow> ('c, 'r, 'a) proc" where
  "say c p = Os c (\<lambda>_. p)"

datatype 'a outcome = Returned 'a | Exited int

primrec exec ::
  "('c \<Rightarrow> 's \<Rightarrow> 'r \<times> 's) \<Rightarrow> ('c, 'r, 'a) proc \<Rightarrow> 's \<Rightarrow> ('c \<times> 'r) list \<times> 'a outcome \<times> 's" where
  "exec os (Finish x) s = ([], Returned x, s)"
| "exec os (Exits n) s = ([], Exited n, s)"
| "exec os (Os c k) s =
     (case os c s of (r, s) \<Rightarrow> case exec os (k r) s of (t, out, s) \<Rightarrow> ((c, r) # t, out, s))"

lemma exec_bind:
  "exec os (bind_proc p f) s =
    (case exec os p s of (t, out, s') \<Rightarrow>
       (case out of Exited n \<Rightarrow> (t, Exited n, s')
        | Returned x \<Rightarrow> (case exec os (f x) s' of (t', out', s'') \<Rightarrow> (t @ t', out', s''))))"
  by (induction p arbitrary: s) (auto split: prod.splits outcome.splits)

lemma bind_proc_assoc: "bind_proc (bind_proc p f) g = bind_proc p (\<lambda>x. bind_proc (f x) g)"
  by (induction p) simp_all

lemma exec_call [simp]: "exec os (call c) s = (case os c s of (r, s') \<Rightarrow> ([(c, r)], Returned r, s'))"
  by (simp add: call_def split: prod.splits)

lemma exec_say [simp]:
  "exec os (say c p) s = (case os c s of (r, s) \<Rightarrow> case exec os p s of (t, out, s) \<Rightarrow> ((c, r) # t, out, s))"
  by (simp add: say_def)

end
