(* ===== verification/Startup.thy ===== *)
theory Startup
  imports Ipc Process
begin

text \<open>
  Start-up and shutdown: \<open>src/cli.c\<close>, \<open>src/main.c\<close>, the device set-up of \<open>src/tuntap_if.c\<close>,
  \<open>run_cmd\<close> of \<open>src/utils.c\<close> and the listening socket of \<open>src/ipc.c\<close>.  What the kernel and the shell
  do is not the program's: a function is a process (see \<open>Process\<close>) over the system calls it makes.
\<close>

subsection \<open>Processes\<close>

datatype thread = THREAD_CORE | THREAD_TIMERS | THREAD_IPC | THREAD_SIGNAL

datatype capability = CAP_NET_ADMIN | CAP_SETPCAP

datatype oscall =
    O_open string
  | O_tunsetiff int string
  | O_close int
  | O_system string
  | O_printf string "int list"
  | O_print_err string "int list"
  | O_perror string
  | O_block_signals "int set"
  | O_sigwait "int set"
  | O_capbset_drop capability
  | O_create thread
  | O_join thread
  | O_cancel thread
  | O_unlink string
  | O_unix_socket
  | O_bind int string
  | O_listen int int
  | O_chmod string u32
  | O_accept int
  | O_create_ipc int

text \<open>The result, the name \<open>TUNSETIFF\<close> stores in the request, the signal \<open>sigwait\<close> stores.\<close>

record osret =
  os_rc :: int
  os_name :: string
  os_signo :: int

type_synonym 'a os_proc = "(oscall, osret, 'a) proc"

type_synonym os_trace = "(oscall \<times> osret) list"

subsection \<open>Command line\<close>

text \<open>
  The options \<open>getopt\<close> returns for the option string \<open>hd\<close>: the letters of every argument that
  starts with \<open>-\<close>, up to \<open>--\<close>; a letter that is not an option is returned as \<open>?\<close>.
\<close>

fun getopt_letters :: "string list \<Rightarrow> string" where
  "getopt_letters [] = []"
| "getopt_letters (a # as) =
     (if a = ''--'' then []
      else (if a \<noteq> [] \<and> hd a = CHR ''-''
            then map (\<lambda>c. if c \<in> {CHR ''h'', CHR ''d''} then c else CHR ''?'') (tl a) else [])
           @ getopt_letters as)"

definition usage :: "string \<Rightarrow> 'a os_proc" where
  "usage app =
     foldr (\<lambda>line. say (O_print_err (line @ [CHR 0x0A]) []))
       [''Usage: '' @ app, [],
        ''Linux TCP/IP stack implemented with TUN/TAP devices.'',
        ''Requires the CAP_NET_ADMIN capability. See capabilities(7).'',
        ''See https://www.kernel.org/doc/Documentation/networking/tuntap.txt'', [],
        ''Options:'', ''  -d Debug logging and tracing'', ''  -h Print usage'', []]
       (Exits 1)"

fun parse_opt_letters :: "string \<Rightarrow> string \<Rightarrow> bool \<Rightarrow> bool os_proc" where
  "parse_opt_letters app [] debug = Finish debug"
| "parse_opt_letters app (opt # opts) debug =
     (if opt = CHR ''d'' then parse_opt_letters app opts True else usage app)"

text \<open>The value of \<open>debug\<close> afterwards.\<close>

definition parse_cli :: "string list \<Rightarrow> bool os_proc" where
  "parse_cli argv = parse_opt_letters (hd argv) (getopt_letters (tl argv)) False"

subsection \<open>Running commands\<close>

definition CMDBUFLEN :: nat where "CMDBUFLEN = 100"

fun format_args :: "string \<Rightarrow> string list \<Rightarrow> string" where
  "format_args [] args = []"
| "format_args (c # cs) args =
     (if c = CHR ''%'' \<and> cs \<noteq> [] \<and> hd cs = CHR ''s'' \<and> args \<noteq> []
      then hd args @ format_args (tl cs) (tl args)
      else c # format_args cs args)"

definition run_cmd :: "bool \<Rightarrow> string \<Rightarrow> string list \<Rightarrow> int os_proc" where
  "run_cmd debug cmd args =
     (let buf = take (CMDBUFLEN - 1) (format_args cmd args);
          system = bind_proc (call (O_system buf)) (\<lambda>r. Finish (os_rc r))
      in if debug then say (O_printf (''EXEC: '' @ buf @ [CHR 0x0A]) []) system else system)"

subsection \<open>The tap device\<close>

definition taproute :: string where "taproute = ''10.0.0.0/24''"

definition set_if_route :: "bool \<Rightarrow> string \<Rightarrow> string \<Rightarrow> int os_proc" where
  "set_if_route debug dev cidr = run_cmd debug ''ip route add dev %s %s'' [dev, cidr]"

definition set_if_address :: "bool \<Rightarrow> string \<Rightarrow> string \<Rightarrow> int os_proc" where
  "set_if_address debug dev cidr = run_cmd debug ''ip address add dev %s local %s'' [dev, cidr]"

definition set_if_up :: "bool \<Rightarrow> string \<Rightarrow> int os_proc" where
  "set_if_up debug dev = run_cmd debug ''ip link set dev %s up'' [dev]"

text \<open>
  \<open>tun_alloc\<close> gives the descriptor or the error of \<open>ioctl\<close>, and the name copied to \<open>dev\<close>, which has 10
  bytes: a longer name sets the fault flag.
\<close>

record tun =
  tn_fd :: int
  tn_dev :: string
  tn_fault :: bool

definition tun_alloc :: "string \<Rightarrow> tun os_proc" where
  "tun_alloc dev =
     bind_proc (call (O_open ''/dev/net/tap'')) (\<lambda>r.
       let fd = os_rc r in
       if fd < 0
       then say (O_perror (''Cannot open TUN/TAP dev'' @ [CHR 0x0A] @ ''Make sure one exists with ''
                           @ [CHR 0x27] @ ''$ mknod /dev/net/tap c 10 200'' @ [CHR 0x27])) (Exits 1)
       else bind_proc (call (O_tunsetiff fd (take 16 dev))) (\<lambda>r.
         if os_rc r < 0
         then say (O_perror ''ERR: Could not ioctl tun'') (say (O_close fd)
                (Finish \<lparr>tn_fd = os_rc r, tn_dev = dev, tn_fault = False\<rparr>))
         else Finish \<lparr>tn_fd = fd, tn_dev = os_name r, tn_fault = 10 \<le> length (os_name r)\<rparr>))"

definition tap_step :: "int os_proc \<Rightarrow> string \<Rightarrow> 'a os_proc \<Rightarrow> 'a os_proc" where
  "tap_step cmd complaint rest =
     bind_proc cmd (\<lambda>rc. if rc \<noteq> 0 then say (O_print_err (complaint @ [CHR 0x0A]) []) rest else rest)"

definition tun_init :: "bool \<Rightarrow> tun os_proc" where
  "tun_init debug =
     bind_proc (tun_alloc []) (\<lambda>tn.
       tap_step (set_if_up debug (tn_dev tn)) ''ERROR when setting up if''
      (tap_step (set_if_route debug (tn_dev tn) taproute) ''ERROR when setting route for if''
      (tap_step (set_if_address debug (tn_dev tn) tapaddr) ''ERROR when setting addr for if''
      (Finish tn))))"

subsection \<open>\<open>main\<close>\<close>

definition SIGINT :: int where "SIGINT = 2"
definition SIGQUIT :: int where "SIGQUIT = 3"

definition init_signals :: "unit os_proc" where
  "init_signals =
     bind_proc (call (O_block_signals {SIGINT, SIGQUIT})) (\<lambda>r.
       if os_rc r \<noteq> 0 then say (O_print_err (''SIG_BLOCK error'' @ [CHR 0x0A]) []) (Exits 1) else Finish ())"

definition drop_capability :: "capability \<Rightarrow> string \<Rightarrow> unit os_proc" where
  "drop_capability c complaint =
     bind_proc (call (O_capbset_drop c)) (\<lambda>r.
       if os_rc r = - 1 then say (O_perror complaint) (Exits 1) else Finish ())"

definition init_security :: "unit os_proc" where
  "init_security =
     bind_proc (drop_capability CAP_NET_ADMIN ''Error on network admin capability drop'') (\<lambda>_.
       drop_capability CAP_SETPCAP ''Error on capability set drop'')"

definition create_thread :: "thread \<Rightarrow> unit os_proc" where
  "create_thread th =
     bind_proc (call (O_create th)) (\<lambda>r.
       if os_rc r \<noteq> 0 then say (O_print_err (''Could not create core thread'' @ [CHR 0x0A]) []) (Finish ())
       else Finish ())"

definition run_threads :: "unit os_proc" where
  "run_threads =
     bind_proc (create_thread THREAD_CORE) (\<lambda>_.
     bind_proc (create_thread THREAD_TIMERS) (\<lambda>_.
     bind_proc (create_thread THREAD_IPC) (\<lambda>_. create_thread THREAD_SIGNAL)))"

primrec join_threads :: "thread list \<Rightarrow> unit os_proc" where
  "join_threads [] = Finish ()"
| "join_threads (th # ths) =
     bind_proc (call (O_join th)) (\<lambda>r.
       if os_rc r \<noteq> 0 then say (O_print_err (''Error when joining threads'' @ [CHR 0x0A]) []) (Exits 1)
       else join_threads ths)"

definition wait_for_threads :: "unit os_proc" where
  "wait_for_threads = join_threads [THREAD_CORE, THREAD_TIMERS, THREAD_IPC]"

text \<open>What the devices and \<open>dev\<close> held is not read any more after they are given back.\<close>

definition free_stack :: "world \<Rightarrow> world" where
  "free_stack w = free_routes (free_arp (abort_sockets w))"

text \<open>
  \<open>run\<close> is what the threads make of the stack until they are joined.  The result is the device
  and the stack at the end of \<open>main\<close>.
\<close>

definition hfip_main :: "string list \<Rightarrow> (bytes \<Rightarrow> int) \<Rightarrow> (stack \<Rightarrow> world) \<Rightarrow> (tun \<times> world) os_proc" where
  "hfip_main argv wr run =
     bind_proc (parse_cli argv) (\<lambda>debug.
     bind_proc init_signals (\<lambda>_.
     bind_proc (tun_init debug) (\<lambda>tn.
       let stack = the (init_stack wr) in
     bind_proc init_security (\<lambda>_.
     bind_proc run_threads (\<lambda>_.
     bind_proc wait_for_threads (\<lambda>_. Finish (tn, free_stack (run stack))))))))"

text \<open>
  \<open>stop_stack_handler\<close>, cut off after \<open>fuel\<close> signals.  When \<open>sigwait\<close> fails it looks at the
  signal it got before.  The result is \<open>running\<close>.
\<close>

fun stop_stack_handler :: "nat \<Rightarrow> int \<Rightarrow> bool os_proc" where
  "stop_stack_handler 0 signo = Finish True"
| "stop_stack_handler (Suc fuel) signo =
     bind_proc (call (O_sigwait {SIGINT, SIGQUIT})) (\<lambda>r.
       let signo = (if os_rc r = 0 then os_signo r else signo);
           rest = (if signo = SIGINT \<or> signo = SIGQUIT
                   then say (O_cancel THREAD_IPC) (say (O_cancel THREAD_CORE) (say (O_cancel THREAD_TIMERS)
                          (Finish False)))
                   else say (O_printf (''Unexpected signal %d'' @ [CHR 0x0A]) [signo]) (stop_stack_handler fuel signo))
       in if os_rc r \<noteq> 0 then say (O_print_err (''Sigwait failed: %d'' @ [CHR 0x0A]) [os_rc r]) rest else rest)"

subsection \<open>The listening socket\<close>

definition ipc_sockname :: string where "ipc_sockname = ''/tmp/hfip.socket''"

definition fail :: "string \<Rightarrow> 'a os_proc" where
  "fail complaint = say (O_perror complaint) (Exits 1)"

text \<open>The endless loop, cut off after \<open>n\<close> connections.\<close>

fun accept_loop :: "nat \<Rightarrow> int \<Rightarrow> ipc_server \<Rightarrow> ipc_server os_proc" where
  "accept_loop 0 fd sv = Finish sv"
| "accept_loop (Suc n) fd sv =
     bind_proc (call (O_accept fd)) (\<lambda>r.
       let datasock = os_rc r in
       if datasock = - 1 then fail ''IPC accept''
       else let sv = ipc_alloc_thread datasock sv in
         bind_proc (call (O_create_ipc datasock)) (\<lambda>r.
           if os_rc r \<noteq> 0
           then say (O_print_err (''Error on socket thread creation'' @ [CHR 0x0A]) []) (Exits 1)
           else accept_loop n fd sv))"

definition start_ipc_listener :: "nat \<Rightarrow> ipc_server \<Rightarrow> ipc_server os_proc" where
  "start_ipc_listener n sv =
     say (O_unlink ipc_sockname)
      (if min (length ipc_sockname) 108 = 108
       then say (O_print_err (''Path for UNIX socket is too long'' @ [CHR 0x0A]) []) (Exits (- 1))
       else
         bind_proc (call O_unix_socket) (\<lambda>r.
           let fd = os_rc r in
           if fd < 0 then fail ''IPC listener UNIX socket''
           else bind_proc (call (O_bind fd (take 107 ipc_sockname))) (\<lambda>r.
             if os_rc r = - 1 then fail ''IPC bind''
             else bind_proc (call (O_listen fd 20)) (\<lambda>r.
               if os_rc r = - 1 then fail ''IPC listen''
               else bind_proc (call (O_chmod ipc_sockname 511)) (\<lambda>r.
                 if os_rc r = - 1 then fail ''Chmod on hf-ip IPC UNIX socket failed''
                 else accept_loop n fd sv)))))"

subsection \<open>What a run does\<close>

text \<open>The threads a run creates, and the calls that succeeded in it.\<close>

fun creates :: "os_trace \<Rightarrow> thread list" where
  "creates [] = []"
| "creates ((O_create th, r) # t) = th # creates t"
| "creates (_ # t) = creates t"

lemma creates_append [simp]: "creates (t @ t') = creates t @ creates t'"
  by (induction t rule: creates.induct) simp_all

definition ok_call :: "os_trace \<Rightarrow> oscall \<Rightarrow> (osret \<Rightarrow> bool) \<Rightarrow> bool" where
  "ok_call t c P \<longleftrightarrow> (\<exists>r. (c, r) \<in> set t \<and> P r)"

text \<open>A part that creates no thread and ends the process, with status 1, when it does not return.\<close>

definition silent :: "(oscall \<Rightarrow> 's \<Rightarrow> osret \<times> 's) \<Rightarrow> 'a os_proc \<Rightarrow> bool" where
  "silent os p \<longleftrightarrow> (\<forall>s. case exec os p s of (t, out, s') \<Rightarrow>
     creates t = [] \<and> (\<forall>n. out = Exited n \<longrightarrow> n = 1))"

lemma silent_bind: "silent os p \<Longrightarrow> (\<And>x. silent os (f x)) \<Longrightarrow> silent os (bind_proc p f)"
  unfolding silent_def exec_bind by (fastforce split: prod.splits outcome.splits)

lemma silent_basic [simp]:
  "silent os (Finish x)" "silent os (Exits 1)"
  "(\<And>th. c \<noteq> O_create th) \<Longrightarrow> silent os (call c)"
  "(\<And>th. c \<noteq> O_create th) \<Longrightarrow> silent os p \<Longrightarrow> silent os (say c p)"
proof -
  have "creates ((c, r) # t) = creates t" if "\<And>th. c \<noteq> O_create th" for r t
    using that by (cases c) auto
  then show "(\<And>th. c \<noteq> O_create th) \<Longrightarrow> silent os (call c)"
    "(\<And>th. c \<noteq> O_create th) \<Longrightarrow> silent os p \<Longrightarrow> silent os (say c p)"
    by (fastforce simp: silent_def split: prod.splits)+
qed (simp_all add: silent_def)

lemma silent_usage: "silent os (usage app)"
  by (simp add: usage_def)

lemma silent_parse: "silent os (parse_cli argv)"
proof -
  have "silent os (parse_opt_letters app opts d)" for app opts d
    by (induction app opts d rule: parse_opt_letters.induct) (simp_all add: silent_usage)
  then show ?thesis by (simp add: parse_cli_def)
qed

lemma silent_cmd: "silent os (run_cmd debug cmd args)"
  by (simp add: run_cmd_def Let_def silent_bind)

lemma silent_tap: "silent os cmd \<Longrightarrow> silent os rest \<Longrightarrow> silent os (tap_step cmd complaint rest)"
  by (simp add: tap_step_def silent_bind)

lemma silent_tun: "silent os (tun_init debug)"
  by (auto intro!: silent_bind silent_tap silent_cmd
      simp: tun_init_def tun_alloc_def set_if_up_def set_if_route_def set_if_address_def Let_def)

lemma exec_silent:
  assumes "silent os p" "exec os p s = (t, out, s')"
  shows "creates t = []" "out = Exited n \<Longrightarrow> n = 1"
  using assms by (auto simp: silent_def dest!: spec [of _ s])

text \<open>What returning from a part tells.\<close>

lemma init_signals_returned:
  "exec os init_signals s = (t, Returned x, s') \<Longrightarrow> ok_call t (O_block_signals {SIGINT, SIGQUIT}) (\<lambda>r. os_rc r = 0)"
  by (auto simp: init_signals_def exec_bind ok_call_def split: prod.splits if_splits)

lemma tun_init_returned:
  assumes "exec os (tun_init debug) s = (t, Returned tn, s')"
  shows "ok_call t (O_open ''/dev/net/tap'') (\<lambda>r. 0 \<le> os_rc r)"
proof -
  obtain t1 tn1 s1 where a: "exec os (tun_alloc []) s = (t1, Returned tn1, s1)" "set t1 \<subseteq> set t"
    using assms by (auto simp: tun_init_def exec_bind split: prod.splits outcome.splits)
  from a(1) have "ok_call t1 (O_open ''/dev/net/tap'') (\<lambda>r. 0 \<le> os_rc r)"
    by (auto simp: tun_alloc_def Let_def exec_bind ok_call_def not_less split: prod.splits outcome.splits if_splits)
  with a(2) show ?thesis by (auto simp: ok_call_def)
qed

lemma init_security_returned:
  assumes "exec os init_security s = (t, Returned x, s')"
  shows "ok_call t (O_capbset_drop CAP_NET_ADMIN) (\<lambda>r. os_rc r \<noteq> - 1)
    \<and> ok_call t (O_capbset_drop CAP_SETPCAP) (\<lambda>r. os_rc r \<noteq> - 1)"
  using assms by (auto simp: init_security_def drop_capability_def exec_bind ok_call_def
      split: prod.splits outcome.splits if_splits)

lemma silent_guards: "silent os init_signals" "silent os init_security" "silent os wait_for_threads"
proof -
  have "silent os (join_threads ths)" for ths by (induction ths) (simp_all add: silent_bind)
  then show "silent os init_signals" "silent os init_security" "silent os wait_for_threads"
    by (simp_all add: init_signals_def init_security_def drop_capability_def wait_for_threads_def silent_bind)
qed

lemma run_threads_all:
  "\<exists>t s'. exec os run_threads s = (t, Returned (), s')
     \<and> creates t = [THREAD_CORE, THREAD_TIMERS, THREAD_IPC, THREAD_SIGNAL]"
proof -
  have one: "\<exists>t s'. exec os (create_thread th) s = (t, Returned (), s') \<and> creates t = [th]" for th s
    by (cases "os (O_create th) s"; cases "os (O_print_err (''Could not create core thread'' @ [CHR 0x0A]) []) (snd (os (O_create th) s))")
      (simp add: create_thread_def exec_bind)
  obtain t1 s1 where 1: "exec os (create_thread THREAD_CORE) s = (t1, Returned (), s1)" "creates t1 = [THREAD_CORE]"
    using one by blast
  obtain t2 s2 where 2: "exec os (create_thread THREAD_TIMERS) s1 = (t2, Returned (), s2)" "creates t2 = [THREAD_TIMERS]"
    using one by blast
  obtain t3 s3 where 3: "exec os (create_thread THREAD_IPC) s2 = (t3, Returned (), s3)" "creates t3 = [THREAD_IPC]"
    using one by blast
  obtain t4 s4 where 4: "exec os (create_thread THREAD_SIGNAL) s3 = (t4, Returned (), s4)" "creates t4 = [THREAD_SIGNAL]"
    using one by blast
  show ?thesis by (simp add: run_threads_def exec_bind 1 2 3 4)
qed

text \<open>
  C34: Whatever the kernel answers, \<open>main\<close> either ends with status 1 without having created a thread,
  or creates its four threads, in order, after it has blocked the signals that stop it, opened the
  tap device and dropped the capability to administer the network and the one to regain it.
\<close>

theorem threads_unprivileged:
  "case exec os (hfip_main argv wr run) s of (t, out, s') \<Rightarrow>
    creates t = [] \<and> out = Exited 1 \<or>
    (\<exists>pre post. t = pre @ post \<and> creates pre = []
      \<and> creates post = [THREAD_CORE, THREAD_TIMERS, THREAD_IPC, THREAD_SIGNAL]
      \<and> ok_call pre (O_block_signals {SIGINT, SIGQUIT}) (\<lambda>r. os_rc r = 0)
      \<and> ok_call pre (O_open ''/dev/net/tap'') (\<lambda>r. 0 \<le> os_rc r)
      \<and> ok_call pre (O_capbset_drop CAP_NET_ADMIN) (\<lambda>r. os_rc r \<noteq> - 1)
      \<and> ok_call pre (O_capbset_drop CAP_SETPCAP) (\<lambda>r. os_rc r \<noteq> - 1))"
proof -
  let ?before = "bind_proc (parse_cli argv) (\<lambda>debug. bind_proc init_signals (\<lambda>_.
     bind_proc (tun_init debug) (\<lambda>tn. bind_proc init_security (\<lambda>_. Finish tn))))"
  let ?after = "\<lambda>tn. bind_proc run_threads (\<lambda>_. bind_proc wait_for_threads
     (\<lambda>_. Finish (tn, free_stack (run (the (init_stack wr))))))"
  have main: "hfip_main argv wr run = bind_proc ?before ?after" by (simp add: hfip_main_def bind_proc_assoc Let_def)
  have quiet: "silent os ?before" by (intro silent_bind silent_parse silent_guards silent_tun silent_basic)
  obtain t1 out1 s1 where b: "exec os ?before s = (t1, out1, s1)" by (metis prod_cases3)
  note c1 = exec_silent [OF quiet b]
  show ?thesis
  proof (cases out1)
    case (Exited n)
    then show ?thesis using c1 b by (simp add: main exec_bind [of os ?before])
  next
    case (Returned tn)
    from b [unfolded Returned] have guards: "ok_call t1 (O_block_signals {SIGINT, SIGQUIT}) (\<lambda>r. os_rc r = 0)"
      "ok_call t1 (O_open ''/dev/net/tap'') (\<lambda>r. 0 \<le> os_rc r)"
      "ok_call t1 (O_capbset_drop CAP_NET_ADMIN) (\<lambda>r. os_rc r \<noteq> - 1)"
      "ok_call t1 (O_capbset_drop CAP_SETPCAP) (\<lambda>r. os_rc r \<noteq> - 1)"
      by (auto simp: exec_bind ok_call_def split: prod.splits outcome.splits
          dest!: init_signals_returned tun_init_returned init_security_returned)
    obtain t2 s2 where r: "exec os run_threads s1 = (t2, Returned (), s2)"
      "creates t2 = [THREAD_CORE, THREAD_TIMERS, THREAD_IPC, THREAD_SIGNAL]"
      using run_threads_all [of os s1] by blast
    obtain t3 out3 s3 where w: "exec os wait_for_threads s2 = (t3, out3, s3)" by (metis prod_cases3)
    have "\<exists>out. exec os (hfip_main argv wr run) s = (t1 @ t2 @ t3, out, s3)"
      by (cases out3) (simp_all add: main exec_bind [of os ?before] exec_bind [of os run_threads]
          exec_bind [of os wait_for_threads] b Returned r(1) w)
    then obtain out where e: "exec os (hfip_main argv wr run) s = (t1 @ t2 @ t3, out, s3)" ..
    show ?thesis
      unfolding e prod.case
      by (rule disjI2, rule exI [of _ t1], rule exI [of _ "t2 @ t3"])
        (use exec_silent(1) [OF silent_guards(3) w] r(2) guards c1(1) in simp)
  qed
qed

text \<open>A start on a kernel where everything succeeds, and a second one with an unknown option.\<close>

definition good_os :: "oscall \<Rightarrow> unit \<Rightarrow> osret \<times> unit" where
  "good_os c s = (\<lparr>os_rc = (case c of O_open _ \<Rightarrow> 3 | _ \<Rightarrow> 0), os_name = ''tap0'', os_signo = SIGINT\<rparr>, s)"

lemma startup_sequence:
  "map fst (fst (exec good_os (hfip_main [''hf-ip''] wr run) ())) =
    [O_block_signals {SIGINT, SIGQUIT}, O_open ''/dev/net/tap'', O_tunsetiff 3 [],
     O_system ''ip link set dev tap0 up'', O_system ''ip route add dev tap0 10.0.0.0/24'',
     O_system ''ip address add dev tap0 local 10.0.0.5'',
     O_capbset_drop CAP_NET_ADMIN, O_capbset_drop CAP_SETPCAP,
     O_create THREAD_CORE, O_create THREAD_TIMERS, O_create THREAD_IPC, O_create THREAD_SIGNAL,
     O_join THREAD_CORE, O_join THREAD_TIMERS, O_join THREAD_IPC]"
  by (simp add: hfip_main_def parse_cli_def exec_bind init_signals_def good_os_def tun_init_def tun_alloc_def
      tap_step_def set_if_up_def set_if_route_def set_if_address_def run_cmd_def CMDBUFLEN_def taproute_def
      tapaddr_def init_security_def drop_capability_def run_threads_def create_thread_def wait_for_threads_def)

lemma startup_usage:
  "case exec good_os (hfip_main [''hf-ip'', ''-dx''] wr run) () of (t, out, s) \<Rightarrow> length t = 10 \<and> out = Exited 1"
  by (simp add: hfip_main_def parse_cli_def exec_bind good_os_def usage_def)

text \<open>The thread that waits for signals stops the other three and ends.\<close>

lemma stop_on_sigint:
  "map fst (fst (exec good_os (stop_stack_handler (Suc n) signo) ())) =
     [O_sigwait {SIGINT, SIGQUIT}, O_cancel THREAD_IPC, O_cancel THREAD_CORE, O_cancel THREAD_TIMERS]"
  by (simp add: exec_bind good_os_def Let_def)

subsection \<open>What the listener does\<close>

text \<open>The calls for the connections accepted: \<open>accept\<close>, and a thread for the descriptor it gave.\<close>

definition served :: "int \<Rightarrow> (osret \<times> osret) list \<Rightarrow> os_trace" where
  "served fd rs = concat (map (\<lambda>(a, c). [(O_accept fd, a), (O_create_ipc (os_rc a), c)]) rs)"

lemma exec_fail [simp]: "exec os (fail complaint) s = (case os (O_perror complaint) s of (r, s) \<Rightarrow> ([(O_perror complaint, r)], Exited 1, s))"
  by (simp add: fail_def split: prod.splits)

lemma exec_accept_loop:
  assumes "exec os (accept_loop n fd sv) s = (t, out, s')"
  shows "out = Exited 1 \<or> (\<exists>rs. t = served fd rs \<and> length rs = n
     \<and> (\<forall>(a, c) \<in> set rs. os_rc a \<noteq> - 1 \<and> os_rc c = 0)
     \<and> out = Returned (fold (\<lambda>(a, c). ipc_alloc_thread (os_rc a)) rs sv))"
  using assms
proof (induction n arbitrary: sv s t out s')
  case 0
  then show ?case by (simp add: served_def)
next
  case (Suc n)
  obtain a s1 where a: "os (O_accept fd) s = (a, s1)" by (metis surj_pair)
  obtain c s2 where c: "os (O_create_ipc (os_rc a)) s1 = (c, s2)" by (metis surj_pair)
  show ?case
  proof (cases "os_rc a \<noteq> - 1 \<and> os_rc c = 0")
    case True
    obtain t1 out1 s3 where r: "exec os (accept_loop n fd (ipc_alloc_thread (os_rc a) sv)) s2 = (t1, out1, s3)"
      by (metis prod_cases3)
    then have t: "t = (O_accept fd, a) # (O_create_ipc (os_rc a), c) # t1" "out = out1"
      using Suc.prems a c True by (auto simp: exec_bind Let_def split: outcome.splits)
    from Suc.IH [OF r] show ?thesis
    proof
      assume "\<exists>rs. t1 = served fd rs \<and> length rs = n \<and> (\<forall>(a, c) \<in> set rs. os_rc a \<noteq> - 1 \<and> os_rc c = 0)
        \<and> out1 = Returned (fold (\<lambda>(a, c). ipc_alloc_thread (os_rc a)) rs (ipc_alloc_thread (os_rc a) sv))"
      then obtain rs where "t1 = served fd rs" "length rs = n" "\<forall>(a, c) \<in> set rs. os_rc a \<noteq> - 1 \<and> os_rc c = 0"
        "out1 = Returned (fold (\<lambda>(a, c). ipc_alloc_thread (os_rc a)) rs (ipc_alloc_thread (os_rc a) sv))"
        by blast
      then show ?thesis using True t by (intro disjI2 exI [of _ "(a, c) # rs"]) (simp add: served_def)
    qed (simp add: t)
  next
    case False
    then show ?thesis using Suc.prems a c
      by (auto simp: exec_bind Let_def split: prod.splits if_splits)
  qed
qed

lemma alloc_threads:
  "sv_sockets (fold (\<lambda>(a, c). ipc_alloc_thread (os_rc a)) rs sv) = sv_sockets sv @ map (\<lambda>(a, c). \<lparr>th_sock = os_rc a\<rparr>) rs"
  "sv_socket_count (fold (\<lambda>(a, c). ipc_alloc_thread (os_rc a)) rs sv) = sv_socket_count sv + of_nat (length rs)"
  by (induction rs arbitrary: sv) (auto simp: ipc_alloc_thread_def)

text \<open>
  Up to its \<open>n\<close>-th connection the listener either ends the whole process with status 1, or has
  made its socket, bound it to the path, listened and opened it to everyone, in this order and once,
  and then accepted connection after connection, starting for each a thread with the descriptor
  \<open>accept\<close> gave before it accepts the next; the list of threads has grown by an entry for each.
\<close>

theorem listener_serves:
  "case exec os (start_ipc_listener n sv) s of (t, out, s') \<Rightarrow>
    out = Exited 1 \<or>
    (\<exists>r1 r2 r3 r4 r5 rs sv'. 0 \<le> os_rc r2 \<and> out = Returned sv' \<and> length rs = n
      \<and> t = [(O_unlink ipc_sockname, r1), (O_unix_socket, r2), (O_bind (os_rc r2) ipc_sockname, r3),
             (O_listen (os_rc r2) 20, r4), (O_chmod ipc_sockname 511, r5)] @ served (os_rc r2) rs
      \<and> list_all (\<lambda>(a, c). os_rc a \<noteq> - 1 \<and> os_rc c = 0) rs
      \<and> sv_sockets sv' = sv_sockets sv @ map (\<lambda>(a, c). \<lparr>th_sock = os_rc a\<rparr>) rs
      \<and> sv_socket_count sv' = sv_socket_count sv + of_nat n)"
proof -
  have path: "\<not> min (length ipc_sockname) 108 = 108" "take 107 ipc_sockname = ipc_sockname"
    by (simp_all add: ipc_sockname_def)
  obtain r1 s1 where 1: "os (O_unlink ipc_sockname) s = (r1, s1)" by (metis surj_pair)
  obtain r2 s2 where 2: "os O_unix_socket s1 = (r2, s2)" by (metis surj_pair)
  let ?fd = "os_rc r2"
  obtain r3 s3 where 3: "os (O_bind ?fd ipc_sockname) s2 = (r3, s3)" by (metis surj_pair)
  obtain r4 s4 where 4: "os (O_listen ?fd 20) s3 = (r4, s4)" by (metis surj_pair)
  obtain r5 s5 where 5: "os (O_chmod ipc_sockname 511) s4 = (r5, s5)" by (metis surj_pair)
  obtain t out s' where l: "exec os (accept_loop n ?fd sv) s5 = (t, out, s')" by (metis prod_cases3)
  show ?thesis
  proof (cases "?fd < 0 \<or> os_rc r3 = - 1 \<or> os_rc r4 = - 1 \<or> os_rc r5 = - 1")
    case True
    then show ?thesis
      by (auto simp: start_ipc_listener_def path exec_bind Let_def 1 2 3 4 5 split: prod.splits outcome.splits)
  next
    case False
    then have e: "exec os (start_ipc_listener n sv) s = ([(O_unlink ipc_sockname, r1), (O_unix_socket, r2),
        (O_bind ?fd ipc_sockname, r3), (O_listen ?fd 20, r4), (O_chmod ipc_sockname 511, r5)] @ t, out, s')"
      by (cases out) (simp_all add: start_ipc_listener_def path exec_bind Let_def 1 2 3 4 5 l)
    from exec_accept_loop [OF l] show ?thesis
    proof (elim disjE exE conjE)
      fix rs
      assume "t = served ?fd rs" "length rs = n" "\<forall>(a, c) \<in> set rs. os_rc a \<noteq> - 1 \<and> os_rc c = 0"
        "out = Returned (fold (\<lambda>(a, c). ipc_alloc_thread (os_rc a)) rs sv)"
      then show ?thesis
        unfolding e prod.case using False alloc_threads [of rs sv]
        by (intro disjI2 exI [of _ r1] exI [of _ r2] exI [of _ r3] exI [of _ r4] exI [of _ r5] exI [of _ rs]) (simp add: list_all_iff)
    qed (simp add: e)
  qed
qed

end
