(* ===== verification/Apps.thy ===== *)
theory Apps
  imports Process Prelude
begin

unbundle bit_operations_syntax

text \<open>
  The two client programs of the repository, \<open>apps/curl/curl.c\<close> and \<open>apps/curl-poll/curl-poll.c\<close>,
  which fetch a page over the socket calls: processes over the calls of libc they make, the result
  of \<open>main\<close> with a flag that tells whether memory outside the read buffer was read.
\<close>

subsection \<open>Calls\<close>

text \<open>\<open>A_put\<close> is \<open>printf\<close> of the string in the read buffer, \<open>A_printf\<close> and \<open>A_eprintf\<close> print messages,
  \<open>A_eprintd\<close> one with a number.  \<open>ap_text\<close> is what \<open>gai_strerror\<close> says of the result.\<close>

datatype appcall =
    A_getaddrinfo string string
  | A_printf string
  | A_eprintf string
  | A_eprintd string int
  | A_perror string
  | A_socket
  | A_setnonblock int
  | A_connect int bytes nat
  | A_poll int u16
  | A_write int bytes
  | A_read int nat
  | A_put bytes
  | A_abort
  | A_close int

record appret =
  ap_rc :: int
  ap_errno :: int
  ap_text :: string
  ap_addrs :: "bytes list"
  ap_revents :: u16
  ap_data :: bytes

type_synonym 'a app = "(appcall, appret, 'a) proc"
type_synonym app_trace = "(appcall \<times> appret) list"

definition MAX_HOSTNAME :: nat where "MAX_HOSTNAME = 50"
definition RLEN :: nat where "RLEN = 4096"
definition ev_in :: u16 where "ev_in = 1"
definition ev_out :: u16 where "ev_out = 4"
definition ev_err_hup :: u16 where "ev_err_hup = 8 OR 16"
definition in_progress :: int where "in_progress = 115"

abbreviation (input) newline :: string where "newline \<equiv> [CHR 0x0A]"
abbreviation (input) crlf :: string where "crlf \<equiv> [CHR 0x0D, CHR 0x0A]"

text \<open>\<open>main\<close> ends: a message, and the value it returns.\<close>

definition quit :: "appcall \<Rightarrow> int \<Rightarrow> (int \<times> bool) app" where
  "quit c n = say c (Finish (n, False))"

text \<open>\<open>getaddrinfo\<close> fails, finds an address, or finds none; curl-poll prints to the other stream.\<close>

definition get_address :: "(string \<Rightarrow> appcall) \<Rightarrow> string \<Rightarrow> string \<Rightarrow> bytes option app" where
  "get_address out host port =
     bind_proc (call (A_getaddrinfo host port)) (\<lambda>r.
       if ap_rc r \<noteq> 0 then say (out (''getaddrinfo: '' @ ap_text r @ newline)) (Exits 1)
       else case ap_addrs r of [] \<Rightarrow> Finish None | a # _ \<Rightarrow> Finish (Some (take 16 a)))"

definition curl_get_address :: "string \<Rightarrow> string \<Rightarrow> bytes option app" where
  "curl_get_address = get_address A_printf"

definition curl_poll_get_address :: "string \<Rightarrow> string \<Rightarrow> bytes option app" where
  "curl_poll_get_address = get_address A_eprintf"

text \<open>The 512 bytes of \<open>str\<close> end in a zero.\<close>

definition request :: "string \<Rightarrow> string \<Rightarrow> string" where
  "request host port = take 511
     (''GET / HTTP/1.1'' @ crlf @ ''Host: '' @ host @ '':'' @ port @ crlf @ ''Connection: close'' @ crlf @ crlf)"

definition ascii :: "string \<Rightarrow> bytes" where
  "ascii = map of_char"

text \<open>The arguments, which both programs check in the same way.\<close>

definition with_address ::
  "(string \<Rightarrow> appcall) \<Rightarrow> (string \<Rightarrow> string \<Rightarrow> bytes option app) \<Rightarrow> string list \<Rightarrow>
     (bytes \<Rightarrow> string \<Rightarrow> (int \<times> bool) app) \<Rightarrow> (int \<times> bool) app" where
  "with_address out resolve argv go =
     (if length argv \<noteq> 3 \<or> min (length (argv ! 1)) MAX_HOSTNAME = MAX_HOSTNAME
      then quit (out (''Curl called but HOST or PORT not given or invalid'' @ newline)) 1
      else if min (length (argv ! 2)) 6 = 6
      then quit (out (''Curl called but PORT malformed'' @ newline)) 1
      else bind_proc (resolve (argv ! 1) (argv ! 2)) (\<lambda>addr.
        case addr of
          None \<Rightarrow> quit (out (''Curl could not resolve hostname'' @ newline)) 1
        | Some addr \<Rightarrow> go addr (request (argv ! 1) (argv ! 2))))"

text \<open>
  \<open>read\<close> stores its bytes at the start of the buffer; \<open>%s\<close> prints up to the first zero, and goes on
  behind the buffer when there is none.
\<close>

definition fill :: "bytes \<Rightarrow> bytes \<Rightarrow> bytes" where
  "fill buf data = data @ drop (length data) buf"

definition c_string :: "bytes \<Rightarrow> bytes" where
  "c_string buf = takeWhile (\<lambda>x. x \<noteq> 0) buf"

subsection \<open>curl\<close>

text \<open>
  The loop, ended after \<open>fuel\<close> reads as if the peer had closed: the last result of \<open>read\<close>, and
  whether printing left the buffer.  \<open>buf\<close> is zeroed once, before the loop.
\<close>

fun curl_loop :: "nat \<Rightarrow> int \<Rightarrow> bytes \<Rightarrow> bool \<Rightarrow> (int \<times> bool) app" where
  "curl_loop 0 sock buf fault = Finish (0, fault)"
| "curl_loop (Suc fuel) sock buf fault =
     bind_proc (call (A_read sock RLEN)) (\<lambda>r.
       if ap_rc r > 0
       then let buf = fill buf (ap_data r)
            in say (A_put (c_string buf)) (curl_loop fuel sock buf (fault \<or> 0 \<notin> set buf))
       else Finish (ap_rc r, fault))"

definition curl_main :: "nat \<Rightarrow> string list \<Rightarrow> (int \<times> bool) app" where
  "curl_main fuel argv =
     with_address A_printf curl_get_address argv (\<lambda>addr str.
       bind_proc (call A_socket) (\<lambda>r.
         let sock = ap_rc r in
       bind_proc (call (A_connect sock addr 16)) (\<lambda>r.
         if ap_rc r = - 1 then quit (A_perror ''Curl could not establish connection'') 1
         else
       bind_proc (call (A_write sock (ascii str))) (\<lambda>r.
         if ap_rc r \<noteq> int (length str) then quit (A_printf (''Write error'' @ newline)) 1
         else
       bind_proc (curl_loop fuel sock (replicate RLEN 0) False) (\<lambda>(rlen, fault).
         if rlen = - 1 then say (A_perror ''Curl read error'') (Finish (1, fault))
         else say (A_close sock) (Finish (0, fault)))))))"

subsection \<open>curl-poll\<close>

text \<open>
  The loop of curl-poll, with a buffer of its own in every turn: \<open>Some\<close> of the value \<open>main\<close> returns
  at once, or \<open>None\<close> after a \<open>break\<close>.
\<close>

fun curl_poll_loop :: "nat \<Rightarrow> int \<Rightarrow> bool \<Rightarrow> (int option \<times> bool) app" where
  "curl_poll_loop 0 sock fault = Finish (None, fault)"
| "curl_poll_loop (Suc fuel) sock fault =
     bind_proc (call (A_poll sock ev_in)) (\<lambda>r.
       let rev = ap_revents r;
           hup = (\<lambda>fault. if rev AND ev_err_hup \<noteq> 0
                          then say (A_eprintd (''POLLHUP/ERR received %d'' @ newline) (uint rev)) (Finish (None, fault))
                          else curl_poll_loop fuel sock fault)
       in if ap_rc r < 0 then say (A_perror ''Poll failed'') (Finish (Some 1, fault))
          else if rev AND ev_in \<noteq> 0
          then bind_proc (call (A_read sock RLEN)) (\<lambda>r.
                 if ap_rc r = - 1 then say (A_perror ''Read error'') (Finish (Some 1, fault))
                 else if ap_rc r = 0 then Finish (None, fault)
                 else let buf = fill (replicate RLEN 0) (ap_data r)
                      in say (A_put (c_string buf)) (hup (fault \<or> 0 \<notin> set buf)))
          else hup fault)"

definition curl_poll_main :: "nat \<Rightarrow> string list \<Rightarrow> (int \<times> bool) app" where
  "curl_poll_main fuel argv =
     with_address A_eprintf curl_poll_get_address argv (\<lambda>addr str.
       bind_proc (call A_socket) (\<lambda>r.
         let sock = ap_rc r in
       bind_proc (call (A_setnonblock sock)) (\<lambda>r.
         if ap_rc r = - 1 then quit (A_perror ''Setting socket nonblocking'') 1
         else
       bind_proc (call (A_connect sock addr 16)) (\<lambda>r.
         if ap_rc r = - 1 \<and> ap_errno r \<noteq> in_progress
         then quit (A_perror ''Curl could not establish connection'') 1
         else
       bind_proc (call (A_poll sock ev_out)) (\<lambda>r.
         if ap_rc r < 1 then quit (A_perror ''Poll failed'') 1
         else if ap_revents r AND ev_out = 0 then say A_abort (Exits 134)
         else
       bind_proc (call (A_write sock (ascii str))) (\<lambda>r.
         if ap_rc r \<noteq> int (length str) then quit (A_perror ''Write error'') 1
         else
       bind_proc (curl_poll_loop fuel sock False) (\<lambda>(ret, fault).
         case ret of
           Some n \<Rightarrow> Finish (n, fault)
         | None \<Rightarrow> say (A_close sock) (Finish (0, fault)))))))))"

subsection \<open>What is printed\<close>

text \<open>
  A peer and a libc that do all that is asked, and give the bytes of the page in the pieces \<open>ds\<close>,
  one for each \<open>read\<close>.
\<close>

definition answer :: "int \<Rightarrow> appret" where
  "answer rc = \<lparr>ap_rc = rc, ap_errno = 0, ap_text = [], ap_addrs = [], ap_revents = 0, ap_data = []\<rparr>"

fun serving :: "appcall \<Rightarrow> bytes list \<Rightarrow> appret \<times> bytes list" where
  "serving (A_getaddrinfo host port) ds = ((answer 0)\<lparr>ap_addrs := [replicate 16 0]\<rparr>, ds)"
| "serving (A_poll fd events) ds = ((answer 1)\<lparr>ap_revents := events\<rparr>, ds)"
| "serving (A_write fd bs) ds = (answer (int (length bs)), ds)"
| "serving (A_read fd n) [] = (answer 0, [])"
| "serving (A_read fd n) (d # ds) = ((answer (int (length d)))\<lparr>ap_data := d\<rparr>, ds)"
| "serving A_socket ds = (answer 3, ds)"
| "serving c ds = (answer 0, ds)"

fun printed :: "app_trace \<Rightarrow> bytes" where
  "printed [] = []"
| "printed ((A_put bs, r) # t) = bs @ printed t"
| "printed (_ # t) = printed t"

fun written :: "app_trace \<Rightarrow> (int \<times> bytes) list" where
  "written [] = []"
| "written ((A_write fd bs, r) # t) = (fd, bs) # written t"
| "written (_ # t) = written t"

lemma trace_append [simp]: "printed (t @ t') = printed t @ printed t'" "written (t @ t') = written t @ written t'"
  by (induction t rule: printed.induct; simp) (induction t rule: written.induct; simp)

text \<open>The pieces the programs can show: some bytes, not as many as the buffer has, and no zero.\<close>

definition text_piece :: "bytes \<Rightarrow> bool" where
  "text_piece d \<longleftrightarrow> d \<noteq> [] \<and> length d < RLEN \<and> 0 \<notin> set d"

lemma fill_zeros:
  assumes "length prev < RLEN" "length d < RLEN"
  shows "fill (prev @ replicate (RLEN - length prev) 0) d =
    fill prev d @ replicate (RLEN - length (fill prev d)) 0"
  using assms by (cases "length d \<le> length prev") (simp_all add: fill_def)

lemma c_string_zeros: "0 \<notin> set d \<Longrightarrow> length d < RLEN \<Longrightarrow> c_string (d @ replicate (RLEN - length d) 0) = d"
  by (cases "RLEN - length d") (auto simp: c_string_def takeWhile_append)

text \<open>What curl shows: a piece covers as much of what was there before as it is long.\<close>

fun shown :: "bytes \<Rightarrow> bytes list \<Rightarrow> bytes" where
  "shown prev [] = []"
| "shown prev (d # ds) = fill prev d @ shown (fill prev d) ds"

lemma curl_loop_run:
  assumes "list_all text_piece ds" "length prev < RLEN" "0 \<notin> set prev"
  shows "\<exists>t. exec serving (curl_loop (Suc (length ds)) sock (prev @ replicate (RLEN - length prev) 0) fault) ds
      = (t, Returned (0, fault), []) \<and> printed t = shown prev ds \<and> written t = []"
  using assms
proof (induction ds arbitrary: prev)
  case Nil
  then show ?case by (simp add: exec_bind answer_def)
next
  case (Cons d ds)
  let ?p = "fill prev d"
  have d: "0 < length d" "length d < RLEN" "0 \<notin> set d" using Cons.prems(1) by (simp_all add: text_piece_def)
  have p: "length ?p < RLEN" "0 \<notin> set ?p"
    using d Cons.prems(2,3) by (auto simp: fill_def dest: in_set_dropD)
  from Cons.IH [OF _ p] Cons.prems(1) obtain t where
    t: "exec serving (curl_loop (Suc (length ds)) sock (?p @ replicate (RLEN - length ?p) 0) fault) ds
      = (t, Returned (0, fault), [])" "printed t = shown ?p ds" "written t = []" by auto
  have "0 \<in> set (?p @ replicate (RLEN - length ?p) 0)" using p(1) by auto
  then show ?case
    using d t c_string_zeros [OF p(2,1)]
    by (simp add: exec_bind answer_def fill_zeros [OF Cons.prems(2) d(2)] del: curl_loop.simps(2) add: curl_loop.simps(2) [of "Suc (length ds)"])
qed

lemma curl_poll_loop_run:
  assumes "list_all text_piece ds"
  shows "\<exists>t. exec serving (curl_poll_loop (Suc (length ds)) sock fault) ds = (t, Returned (None, fault), [])
    \<and> printed t = concat ds \<and> written t = []"
  using assms
proof (induction ds)
  case Nil
  then show ?case by (simp add: exec_bind answer_def ev_in_def Let_def)
next
  case (Cons d ds)
  have d: "0 < length d" "length d < RLEN" "0 \<notin> set d" using Cons.prems(1) by (simp_all add: text_piece_def)
  from Cons obtain t where t: "exec serving (curl_poll_loop (Suc (length ds)) sock fault) ds = (t, Returned (None, fault), [])"
    "printed t = concat ds" "written t = []" by auto
  have f: "fill (replicate RLEN 0) d = d @ replicate (RLEN - length d) 0" by (simp add: fill_def)
  have z: "0 \<in> set (d @ replicate (RLEN - length d) 0)" using d(2) by auto
  have e: "ev_in AND ev_in \<noteq> 0" "ev_in AND ev_err_hup = 0" "ev_in \<noteq> 0" by (simp_all add: ev_in_def ev_err_hup_def)
  show ?case
    using d t z c_string_zeros [OF d(3,2)]
    by (simp add: exec_bind answer_def Let_def f e del: curl_poll_loop.simps(2) add: curl_poll_loop.simps(2) [of "Suc (length ds)"])
qed

lemma shown_length: "length (concat ds) \<le> length (shown prev ds)"
proof (induction ds arbitrary: prev)
  case (Cons d ds)
  then show ?case using Cons [of "fill prev d"] by (simp add: fill_def trans_le_add2)
qed simp

lemma shown_stream: "shown prev ds = concat ds \<longleftrightarrow> sorted (length prev # map length ds) \<or> ds = []"
proof (induction ds arbitrary: prev)
  case (Cons d ds)
  show ?case
  proof (cases "length prev \<le> length d")
    case True
    then have "fill prev d = d" by (simp add: fill_def)
    then show ?thesis using Cons [of d] True by (auto intro: order_trans [OF True])
  next
    case False
    then have "length (concat (d # ds)) < length (shown prev (d # ds))"
      using shown_length [of ds "fill prev d"] by (simp add: fill_def)
    then have "shown prev (d # ds) \<noteq> concat (d # ds)" by (metis less_irrefl)
    then show ?thesis using False by simp
  qed
qed simp

lemma request_fits:
  assumes "length host < MAX_HOSTNAME" "length port < 6"
  shows "request host port = ''GET / HTTP/1.1'' @ crlf @ ''Host: '' @ host @ '':'' @ port @ crlf @ ''Connection: close'' @ crlf @ crlf"
  using assms by (simp add: request_def MAX_HOSTNAME_def)

text \<open>
  C35: with a peer that sends a page in pieces of text smaller than the read buffer, curl-poll prints
  the page, and so does curl exactly when no piece is shorter than one before it: the buffer
  of curl is zeroed only once, so the end of a longer piece is printed again behind a shorter one.
  Both send one request, whole, end with status 0 and never read outside the buffer.
\<close>

theorem curl_prints_page_iff:
  assumes "list_all text_piece ds" "length host < MAX_HOSTNAME" "length port < 6"
  shows "\<exists>t t'. exec serving (curl_poll_main (Suc (length ds)) [app, host, port]) ds = (t, Returned (0, False), [])
    \<and> printed t = concat ds
    \<and> exec serving (curl_main (Suc (length ds)) [app, host, port]) ds = (t', Returned (0, False), [])
    \<and> (printed t' = concat ds \<longleftrightarrow> sorted (map length ds))
    \<and> written t = [(3, ascii (request host port))] \<and> written t' = [(3, ascii (request host port))]"
proof -
  have args: "min (length host) MAX_HOSTNAME \<noteq> MAX_HOSTNAME" "min (length port) 6 \<noteq> 6" using assms(2,3) by simp_all
  have out: "ev_out AND ev_out \<noteq> 0" "ev_out \<noteq> 0" by (simp_all add: ev_out_def)
  have len: "int (length (ascii str)) = int (length str)" for str by (simp add: ascii_def)
  obtain t where t: "exec serving (curl_poll_loop (Suc (length ds)) 3 False) ds = (t, Returned (None, False), [])"
    "printed t = concat ds" "written t = []"
    using curl_poll_loop_run [OF assms(1)] by blast
  have "0 < RLEN" by (simp add: RLEN_def)
  then obtain t' where t': "exec serving (curl_loop (Suc (length ds)) 3 (replicate RLEN 0) False) ds = (t', Returned (0, False), [])"
    "printed t' = shown [] ds" "written t' = []"
    using curl_loop_run [OF assms(1), of "[]" 3 False] by auto
  have iff: "shown [] ds = concat ds \<longleftrightarrow> sorted (map length ds)" using shown_stream [of "[]" ds] by auto
  note run = with_address_def curl_get_address_def curl_poll_get_address_def get_address_def args exec_bind answer_def len Let_def
  have "\<exists>u. exec serving (curl_poll_main (Suc (length ds)) [app, host, port]) ds = (u, Returned (0, False), [])
      \<and> printed u = concat ds \<and> written u = [(3, ascii (request host port))]"
    by (simp add: curl_poll_main_def run out t del: curl_poll_loop.simps(2))
  moreover have "\<exists>u. exec serving (curl_main (Suc (length ds)) [app, host, port]) ds = (u, Returned (0, False), [])
      \<and> printed u = shown [] ds \<and> written u = [(3, ascii (request host port))]"
    by (simp add: curl_main_def run t' del: curl_loop.simps(2))
  ultimately show ?thesis unfolding iff [symmetric] by (elim exE conjE) (intro exI conjI, assumption+, simp_all)
qed

theorem curl_prints_page_iff_witness:
  "\<exists>t t'. printed t = [72, 105, 33] \<and> printed t' \<noteq> [72, 105, 33]
    \<and> exec serving (curl_poll_main 3 [''curl-poll'', ''10.0.0.5'', ''80'']) [[72, 105], [33]] = (t, Returned (0, False), [])
    \<and> exec serving (curl_main 3 [''curl'', ''10.0.0.5'', ''80'']) [[72, 105], [33]] = (t', Returned (0, False), [])"
  using curl_prints_page_iff [of "[[72, 105], [33]]" "''10.0.0.5''" "''80''" "''curl-poll''"]
    curl_prints_page_iff [of "[[72, 105], [33]]" "''10.0.0.5''" "''80''" "''curl''"]
  by (auto simp: text_piece_def RLEN_def MAX_HOSTNAME_def numeral_3_eq_3)

end
