(* ===== verification/Ipc_Server.thy ===== *)
theory Ipc_Server
  imports Ipc "HOL-Library.Multiset"
begin

unbundle bit_operations_syntax

text \<open>
  Properties of the IPC server on its own: a message naming a socket its process does not have is
  refused, whatever else it holds; and the list of threads against the threads there are.
\<close>

subsection \<open>Sockets of other processes\<close>

lemma rd8_drop: "rd8 (drop n m) i = rd8 m (n + i)"
  by (auto simp: rd8_def less_diff_conv2)

lemma rd32_drop: "rd32 (drop n m) i = rd32 m (n + i)"
  by (simp add: rd32_def rd8_drop add.assoc)

text \<open>
  The requests on a socket; their structures all start with its descriptor.  \<open>request_ok\<close> holds when
  the lengths in the message stay within the server's stack and buffer.
\<close>

definition request_types :: "u16 set" where
  "request_types = {IPC_CONNECT, IPC_WRITE, IPC_READ, IPC_CLOSE, IPC_FCNTL, IPC_GETSOCKOPT,
     IPC_GETPEERNAME, IPC_GETSOCKNAME}"

definition request_ok :: "ipc_env \<Rightarrow> bytes \<Rightarrow> bool" where
  "request_ok e buf \<longleftrightarrow>
     (let t = im_type (dec_ipc_msg buf)
      in (t = IPC_WRITE \<longrightarrow> unat (rd64 (drop 6 buf) 4) \<le> ev_stack e \<and> ev_more e (unat (rd64 (drop 6 buf) 4) - 8174) \<noteq> None)
       \<and> (t = IPC_READ \<longrightarrow> unat (rd64 (drop 6 buf) 4) \<le> ev_stack e)
       \<and> (t = IPC_FCNTL \<longrightarrow> sint (rd32 (drop 6 buf) 4) = F_GETFL \<or> sint (rd32 (drop 6 buf) 4) = F_SETFL)
       \<and> (t = IPC_GETSOCKOPT \<longrightarrow> 22 + unat (rd32 (drop 6 buf) 12) \<le> length buf))"

lemma reply_hdr_own: "im_type (dec_ipc_msg buf) = t \<Longrightarrow> reply_hdr t buf = enc_ipc_msg (dec_ipc_msg buf)"
  unfolding reply_hdr_def by (rule arg_cong [where f = enc_ipc_msg]) simp

lemma ipc_err_of_EBADF [simp]: "ipc_err_of (- EBADF) = \<lparr>ie_rc = - 1, ie_err = 9\<rparr>"
  by (simp add: ipc_err_of_def EBADF_def)

text \<open>
  C32: A request on a descriptor that is not a socket of the requesting process, in particular one of
  another process, is answered with \<open>-1\<close> and \<open>EBADF\<close>, and changes nothing.
\<close>

theorem foreign_socket_refused:
  assumes "get_socket (msg_pid buf) (sint (rd32 buf 6)) w = None"
    and "im_type (dec_ipc_msg buf) \<in> request_types" "request_ok e buf"
  shows "\<exists>rc rest. demux_ipc_socket_call e buf w
    = Done rc (Some (enc_ipc_msg (dec_ipc_msg buf) @ enc_ipc_err \<lparr>ie_rc = - 1, ie_err = 9\<rparr> @ rest)) buf w
    \<and> rc \<noteq> - 1"
proof -
  let ?t = "im_type (dec_ipc_msg buf)"
  have fd: "get_socket (msg_pid buf) (sint (rd32 (drop 6 buf) 0)) w = None"
    using assms(1) by (simp add: rd32_drop)
  have ne: "- EBADF \<noteq> - 1" by (simp add: EBADF_def)
  note hdr = reply_hdr_own [OF refl, of buf]
  consider "?t = IPC_CONNECT" | "?t = IPC_WRITE" | "?t = IPC_READ" | "?t = IPC_CLOSE" | "?t = IPC_FCNTL"
    | "?t = IPC_GETSOCKOPT" | "?t = IPC_GETPEERNAME" | "?t = IPC_GETSOCKNAME"
    using assms(2) by (auto simp: request_types_def)
  then show ?thesis
  proof cases
    case 1
    then show ?thesis
      using fd reply_hdr_own [of buf IPC_CONNECT]
      by (simp add: demux_ipc_socket_call_def ipc_types ipc_connect_def dec_ipc_connect_def connect_call_def
          ipc_connect_done_def ipc_write_rc_def Let_def)
  next
    case 2
    then show ?thesis
      using fd reply_hdr_own [of buf IPC_WRITE] assms(3)
      by (auto simp: demux_ipc_socket_call_def ipc_types ipc_write_def dec_ipc_write_def write_call_def
          ipc_write_rc_def request_ok_def Let_def split: if_splits)
  next
    case 3
    then show ?thesis
      using fd reply_hdr_own [of buf IPC_READ] assms(3) 
      by (simp add: demux_ipc_socket_call_def ipc_types ipc_read_def dec_ipc_read_def read_call_def
          ipc_read_done_def ipc_read_reply_def request_ok_def Let_def EBADF_def)
  next
    case 4
    then show ?thesis
      using fd reply_hdr_own [of buf IPC_CLOSE]
      by (simp add: demux_ipc_socket_call_def ipc_types ipc_close_def dec_ipc_close_def close_call_def
          ipc_write_rc_def Let_def)
  next
    case 5
    then show ?thesis
      using fd reply_hdr_own [of buf IPC_FCNTL] assms(3)
      by (auto simp: demux_ipc_socket_call_def ipc_types ipc_fcntl_def dec_ipc_fcntl_def fcntl_call_def
          ipc_write_rc_def request_ok_def Let_def)
  next
    case 6
    then show ?thesis
      using fd reply_hdr_own [of buf IPC_GETSOCKOPT] assms(3) ne
      by (simp add: demux_ipc_socket_call_def ipc_types ipc_getsockopt_def dec_ipc_sockopt_def
          getsockopt_call_def request_ok_def Let_def)
  next
    case 7
    then show ?thesis
      using fd reply_hdr_own [of buf IPC_GETPEERNAME] ne
      by (simp add: demux_ipc_socket_call_def ipc_types ipc_getpeername_def dec_ipc_sockname_def
          getpeername_call_def name_reply_def Let_def)
  next
    case 8
    then show ?thesis
      using fd reply_hdr_own [of buf IPC_GETSOCKNAME] ne
      by (simp add: demux_ipc_socket_call_def ipc_types ipc_getsockname_def dec_ipc_sockname_def
          getsockname_call_def name_reply_def Let_def)
  qed
qed

subsection \<open>The threads\<close>

text \<open>
  The runs of the server: \<open>running\<close> are the descriptors of its threads, \<open>failed\<close> those of
  threads that ended because a request failed.  \<open>accept(2)\<close> gives a descriptor no thread is using.
\<close>

inductive ipc_run :: "ipc_server \<Rightarrow> int multiset \<Rightarrow> int multiset \<Rightarrow> bool" where
  start: "sv_sockets sv = [] \<Longrightarrow> sv_socket_count sv = 0 \<Longrightarrow> ipc_run sv {#} {#}"
| accept: "ipc_run sv running failed \<Longrightarrow> s \<notin># running \<Longrightarrow>
    ipc_run (ipc_alloc_thread s sv) (add_mset s running) failed"
| turn: "ipc_run sv running failed \<Longrightarrow> s \<in># running \<Longrightarrow> socket_ipc_open e s got buf sv = (t, reply, sv') \<Longrightarrow>
    t \<noteq> Ended \<Longrightarrow> ipc_run sv' running failed"
| hangup: "ipc_run sv running failed \<Longrightarrow> s \<in># running \<Longrightarrow> got = None \<or> got = Some [] \<Longrightarrow>
    socket_ipc_open e s got buf sv = (t, reply, sv') \<Longrightarrow> ipc_run sv' (running - {#s#}) failed"
| fail: "ipc_run sv running failed \<Longrightarrow> s \<in># running \<Longrightarrow> got = Some d \<Longrightarrow> d \<noteq> [] \<Longrightarrow>
    socket_ipc_open e s got buf sv = (Ended, reply, sv') \<Longrightarrow>
    ipc_run sv' (running - {#s#}) (add_mset s failed)"
| wake: "ipc_run sv running failed \<Longrightarrow> s \<in># running \<Longrightarrow> socket_ipc_wake s wt buf sv = (t, reply, sv') \<Longrightarrow>
    t \<noteq> Ended \<Longrightarrow> ipc_run sv' running failed"
| fail_asleep: "ipc_run sv running failed \<Longrightarrow> s \<in># running \<Longrightarrow>
    socket_ipc_wake s wt buf sv = (Ended, reply, sv') \<Longrightarrow> ipc_run sv' (running - {#s#}) (add_mset s failed)"
| stack: "ipc_run sv running failed \<Longrightarrow> ipc_run (sv\<lparr>sv_world := w\<rparr>) running failed"

lemma ipc_next_threads:
  "ipc_next s r sv = (t, reply, sv') \<Longrightarrow>
     sv_sockets sv' = sv_sockets sv \<and> sv_socket_count sv' = sv_socket_count sv"
  by (auto simp: ipc_next_def split: ipc_outcome.splits if_splits)

lemma free_thread_mset:
  "s \<in> th_sock ` set ths \<Longrightarrow>
     \<exists>ths'. free_thread s ths = Some ths'
       \<and> image_mset th_sock (mset ths) = add_mset s (image_mset th_sock (mset ths'))
       \<and> length ths = Suc (length ths')"
proof (induction ths)
  case (Cons th ths)
  show ?case
  proof (cases "th_sock th = s")
    case False
    with Cons obtain ths' where "free_thread s ths = Some ths'"
      "image_mset th_sock (mset ths) = add_mset s (image_mset th_sock (mset ths'))"
      "length ths = Suc (length ths')" by auto
    with False show ?thesis by simp
  qed simp
qed simp

lemma socket_ipc_open_threads:
  assumes "socket_ipc_open e s got buf sv = (t, reply, sv')"
  shows "if got = None \<or> got = Some [] then sv' = ipc_free_thread s sv \<and> t = Ended
         else sv_sockets sv' = sv_sockets sv \<and> sv_socket_count sv' = sv_socket_count sv"
  using assms ipc_next_threads
  by (auto simp: socket_ipc_open_def split: option.splits if_splits)

text \<open>
  C33: Whatever the clients do, the list of the server has one entry for each running thread and one
  for each thread that ended in a failed request, and \<open>socket_count\<close> is its length: the entry of a
  client that hangs up is removed, that of a failed one never is.
\<close>

theorem ipc_threads_counted:
  assumes "ipc_run sv running failed"
  shows "image_mset th_sock (mset (sv_sockets sv)) = running + failed
    \<and> sv_socket_count sv = int (length (sv_sockets sv))"
  using assms
proof induction
  case (hangup sv running failed s got e buf t reply sv')
  then have sv': "sv' = ipc_free_thread s sv"
    using socket_ipc_open_threads [OF hangup.hyps(4)] by auto
  have "s \<in># image_mset th_sock (mset (sv_sockets sv))"
    using hangup by simp
  then obtain ths' where ths': "free_thread s (sv_sockets sv) = Some ths'"
    "image_mset th_sock (mset (sv_sockets sv)) = add_mset s (image_mset th_sock (mset ths'))"
    "length (sv_sockets sv) = Suc (length ths')"
    using free_thread_mset [of s "sv_sockets sv"] by auto
  obtain running' where "running = add_mset s running'"
    using hangup.hyps(2) by (blast dest: multi_member_split)
  with ths' hangup.IH show ?case
    by (simp add: sv' ipc_free_thread_def)
next
  case (fail sv running failed s got d e buf reply sv')
  from socket_ipc_open_threads [OF fail.hyps(5)] fail.hyps(3,4)
  have "sv_sockets sv' = sv_sockets sv" "sv_socket_count sv' = sv_socket_count sv" by auto
  with fail show ?case by (simp add: insert_DiffM2 add.commute flip: add_mset_add_single)
next
  case (turn sv running failed s e got buf t reply sv')
  from socket_ipc_open_threads [OF turn.hyps(3)] turn.hyps(4)
  have "sv_sockets sv' = sv_sockets sv" "sv_socket_count sv' = sv_socket_count sv"
    by (auto split: if_splits)
  with turn show ?case by simp
next
  case (wake sv running failed s wt buf t reply sv')
  with ipc_next_threads show ?case by (fastforce simp: socket_ipc_wake_def)
next
  case (fail_asleep sv running failed s wt buf reply sv')
  with ipc_next_threads [of s _ sv Ended reply sv'] show ?case
    by (fastforce simp: socket_ipc_wake_def)
qed (auto simp: ipc_alloc_thread_def)

end
