(* ===== verification/System.thy ===== *)
theory System
  imports Sock_Frame Ipc_Server
begin

unbundle bit_operations_syntax

text \<open>
  The process as a whole: a step is a frame read from the tap device, a round of the timers, the
  run of a thread they started, a message of a client, whatever its bytes, or a client's call going
  on after it slept.  In every world such steps can reach, the table of sockets is well-formed.
\<close>

inductive sys_step :: "world \<Rightarrow> world \<Rightarrow> bool" where
  frame: "sys_step w (netdev_rx f w)"
| tick: "sys_step w (timers_round busy w)"
| thread: "sys_step w (run_thread w)"
| message: "demux_ipc_socket_call e buf w = Done rc reply buf' w' \<Longrightarrow> sys_step w w'"
| message_waits: "demux_ipc_socket_call e buf w = Wait wt buf' w' \<Longrightarrow> sys_step w w'"
| resumed: "ipc_resume wt buf w = Done rc reply buf' w' \<Longrightarrow> sys_step w w'"
| resumed_waits: "ipc_resume wt buf w = Wait wt' buf' w' \<Longrightarrow> sys_step w w'"

inductive reachable :: "world \<Rightarrow> bool" where
  boot: "w_sockets w = [] \<Longrightarrow> w_conns w = (\<lambda>_. None) \<Longrightarrow> w_fd w = 4097 \<Longrightarrow> reachable w"
| step: "reachable w \<Longrightarrow> sys_step w w' \<Longrightarrow> reachable w'"

subsection \<open>The table\<close>

text \<open>
  The sockets listed are distinct and have their \<open>sk\<close>; every socket allocated has a reference and a
  descriptor from 4097 on that was handed out; and no two have the same.
\<close>

definition conn_ok :: "world \<Rightarrow> nat \<Rightarrow> conn \<Rightarrow> bool" where
  "conn_ok w i cn \<longleftrightarrow> i < w_next w \<and> 1 \<le> so_refcnt (cn_sock cn)
     \<and> 4097 \<le> so_fd (cn_sock cn) \<and> so_fd (cn_sock cn) < w_fd w"

definition table_ok :: "world \<Rightarrow> bool" where
  "table_ok w \<longleftrightarrow>
     distinct (w_sockets w)
     \<and> (\<forall>i\<in>set (w_sockets w). \<exists>cn. w_conns w i = Some cn \<and> cn_sk cn \<noteq> None)
     \<and> (\<forall>i cn. w_conns w i = Some cn \<longrightarrow> conn_ok w i cn)
     \<and> (\<forall>i j a b. w_conns w i = Some a \<longrightarrow> w_conns w j = Some b
          \<longrightarrow> so_fd (cn_sock a) = so_fd (cn_sock b) \<longrightarrow> i = j)
     \<and> 4097 \<le> w_fd w"

definition table :: "world \<Rightarrow> nat list \<times> (nat \<Rightarrow> conn option) \<times> nat \<times> int" where
  "table w = (w_sockets w, w_conns w, w_next w, w_fd w)"

lemma table_ok_cong: "table_ok w \<Longrightarrow> table w' = table w \<Longrightarrow> table_ok w'"
  by (simp add: table_ok_def conn_ok_def table_def)

lemma table_more: "stack.more w' = stack.more (w :: world) \<Longrightarrow> table w' = table w"
  by (cases w; cases w') (simp add: table_def)

lemma table_base [simp]:
  "table (check b w) = table w" "table (touch n w) = table w" "table (put_skb n k w) = table w"
  "table (free_skb n w) = table w" "table (snd (alloc_skb m w)) = table w" "table (s_arp_cache_update f w) = table w"
  "table (s_threads_update g w) = table w" "table (w_sock_amount_update h w) = table w"
  "table (timers_round busy w) = table w"
  by (simp_all add: check_def touch_def put_skb_def free_skb_def alloc_skb_def timers_round_def timers_tick_def
      table_def Let_def split: prod.split)

lemma table_ip_output [simp]: "table (snd (ip_output sk b w)) = table w"
  using ip_output_frame [where b = b and B = UNIV and sk = sk and s = w]
  by (intro table_more) (simp add: tx_frame_def)

lemma table_transmit [simp]: "table (snd (netdev_transmit b dst t w)) = table w"
  by (simp add: netdev_transmit_def tun_write_def Let_def split: option.split)
    (simp add: table_def check_def put_skb_def Let_def)

lemma table_arp [simp]: "table (arp_reply b dev w) = table w" "table (arp_rcv b w) = table w"
proof -
  show reply: "table (arp_reply b dev w) = table w" for dev w
    by (simp add: arp_reply_def Let_def case_prod_beta)
  show "table (arp_rcv b w) = table w"
    by (simp add: arp_rcv_def Let_def case_prod_beta reply split: option.split)
qed

lemma table_icmp [simp]: "table (icmpv4_incoming b w) = table w"
  by (simp add: icmpv4_incoming_def icmpv4_reply_def Let_def case_prod_beta)

subsection \<open>Work on one socket\<close>

definition same_sock :: "int \<Rightarrow> tcpctx \<Rightarrow> tcpctx \<Rightarrow> bool" where
  "same_sock d c c' \<longleftrightarrow>
     (case (ident c, ident c') of ((i, fd, pid, r), (i', fd', pid', r')) \<Rightarrow>
        i' = i \<and> fd' = fd \<and> pid' = pid \<and> r + d \<le> r')"

lemma same_sock_ident: "ident c' = ident c \<Longrightarrow> same_sock 0 c c'"
  by (simp add: same_sock_def split: prod.split)

lemma same_sock_trans: "same_sock d c c' \<Longrightarrow> same_sock e c' c'' \<Longrightarrow> same_sock (d + e) c c''"
  by (auto simp: same_sock_def split: prod.splits)

lemma same_sock_acquire: "same_sock 1 c (snd (socket_wr_acquire c))"
  by (simp add: same_sock_def ident_def socket_wr_acquire_def Let_def check_def upd_sock_def)

lemma same_sock_release: "same_sock (- 1) c (socket_release c)"
  by (simp add: same_sock_def ident_def socket_release_def Let_def check_def upd_sock_def)

lemma same_sock_locked:
  assumes "\<And>c. same_sock 0 c (snd (f c))"
  shows "same_sock 0 c (snd (locked f c))"
  using same_sock_trans [OF same_sock_trans [OF same_sock_acquire assms] same_sock_release, of c]
  by (simp add: locked_def case_prod_beta)

lemma focus_sel:
  "focus i w = Some c \<Longrightarrow>
     \<exists>cn k. w_conns w i = Some cn \<and> cn_sk cn = Some k \<and> c_sk c = k \<and> c_sock c = cn_sock cn \<and> c_sid c = i"
  by (auto simp: focus_def stack.defs tcpctx.defs split: option.splits Option.bind_splits)

lemma table_unfocus:
  "table (unfocus c w) = (w_sockets w, (w_conns w)(c_sid c :=
     (if so_refcnt (c_sock c) = 0 then None else Some \<lparr>cn_sock = c_sock c, cn_sk = Some (c_sk c)\<rparr>)),
     w_next w, w_fd w)"
  by (simp add: unfocus_def table_def Let_def stack.defs world.defs)

lemma table_ok_upd:
  assumes "table_ok w" "w_conns w i = Some cn"
    and "so_fd (cn_sock cn') = so_fd (cn_sock cn)" "1 \<le> so_refcnt (cn_sock cn')"
    and "i \<in> set (w_sockets w) \<Longrightarrow> cn_sk cn' \<noteq> None"
    and "table w' = (w_sockets w, (w_conns w)(i \<mapsto> cn'), w_next w, w_fd w)"
  shows "table_ok w'"
proof -
  have w': "w_sockets w' = w_sockets w" "w_conns w' = (w_conns w)(i \<mapsto> cn')" "w_next w' = w_next w" "w_fd w' = w_fd w"
    using assms(6) by (simp_all add: table_def)
  have "conn_ok w i cn" using assms(1,2) by (simp add: table_ok_def)
  then have ok: "conn_ok w i cn'" using assms(3,4) by (simp add: conn_ok_def)
  have inj: "w_conns w i = Some a \<Longrightarrow> w_conns w j = Some b \<Longrightarrow> so_fd (cn_sock a) = so_fd (cn_sock b) \<Longrightarrow> i = j"
    for i j a b using assms(1) unfolding table_ok_def by blast
  have "distinct (w_sockets w')" "4097 \<le> w_fd w'" using assms(1) w' by (simp_all add: table_ok_def)
  moreover have "\<forall>j\<in>set (w_sockets w'). \<exists>cn. w_conns w' j = Some cn \<and> cn_sk cn \<noteq> None"
    using assms(1,5) unfolding table_ok_def w' by simp
  moreover have "\<forall>j cn. w_conns w' j = Some cn \<longrightarrow> conn_ok w' j cn"
    using assms(1) ok unfolding table_ok_def conn_ok_def w' by simp
  moreover have "\<forall>j k a b. w_conns w' j = Some a \<longrightarrow> w_conns w' k = Some b
      \<longrightarrow> so_fd (cn_sock a) = so_fd (cn_sock b) \<longrightarrow> j = k"
  proof (intro allI impI)
    fix j k a b
    assume ab: "w_conns w' j = Some a" "w_conns w' k = Some b" "so_fd (cn_sock a) = so_fd (cn_sock b)"
    consider "j = i" "k = i" | "j = i" "k \<noteq> i" | "j \<noteq> i" "k = i" | "j \<noteq> i" "k \<noteq> i" by blast
    then show "j = k"
    proof cases
      case 2
      with ab assms(3) have "so_fd (cn_sock cn) = so_fd (cn_sock b)" "w_conns w k = Some b" by (simp_all add: w')
      with inj [OF assms(2)] 2 show ?thesis by blast
    next
      case 3
      with ab assms(3) have "so_fd (cn_sock a) = so_fd (cn_sock cn)" "w_conns w j = Some a" by (simp_all add: w')
      with inj [OF _ assms(2)] 3 show ?thesis by blast
    next
      case 4
      with ab inj show ?thesis by (simp add: w')
    qed simp
  qed
  ultimately show ?thesis unfolding table_ok_def by blast
qed

lemma table_ok_unfocus:
  assumes "table_ok w" "focus i w = Some c" "same_sock 0 c c'"
  shows "table_ok (unfocus c' w)"
proof -
  from focus_sel [OF assms(2)] obtain cn k where cn: "w_conns w i = Some cn" "cn_sk cn = Some k"
    "c_sock c = cn_sock cn" "c_sid c = i" by blast
  have "1 \<le> so_refcnt (cn_sock cn)" using assms(1) cn(1) by (auto simp: table_ok_def conn_ok_def)
  then have c': "c_sid c' = i" "so_fd (c_sock c') = so_fd (cn_sock cn)" "1 \<le> so_refcnt (c_sock c')"
    using assms(3) cn by (auto simp: same_sock_def ident_def)
  then show ?thesis
    by (intro table_ok_upd [OF assms(1) cn(1), of "\<lparr>cn_sock = c_sock c', cn_sk = Some (c_sk c')\<rparr>"])
      (simp_all add: table_unfocus)
qed

lemma table_ok_on_conn:
  assumes "table_ok w" "\<And>c. same_sock 0 c (snd (f c))"
  shows "table_ok (snd (on_conn i d f w))"
proof (cases "focus i w")
  case None
  then show ?thesis by (auto simp: on_conn_def intro: table_ok_cong [OF assms(1)])
next
  case (Some c)
  then show ?thesis
    using table_ok_unfocus [OF assms(1) Some assms(2)] by (simp add: on_conn_def case_prod_beta)
qed

lemma same_sock_map: "same_sock d c c' \<Longrightarrow> ident d' = ident c' \<Longrightarrow> same_sock d c d'"
  by (simp add: same_sock_def)

lemma same_sock_handler:
  assumes "\<And>c. ident (f c) = ident c"
  shows "same_sock 0 c (socket_release (f (snd (socket_wr_acquire c))))"
  using same_sock_trans [OF same_sock_map [OF same_sock_acquire assms] same_sock_release] by simp

text \<open>The threads of the timers.\<close>

lemma handler_delack: "same_sock 0 c (tcp_send_delack c)"
  using same_sock_handler [where c = c and f = "\<lambda>c. snd (tcp_send_ack (tcp_release_delack_timer
      (upd_sk (\<lambda>k. k\<lparr>tk_delacks := 0\<rparr>) c)))"]
  by (simp add: tcp_send_delack_def Let_def)

lemma handler_linger: "same_sock 0 c (tcp_linger c)"
  using same_sock_handler [where c = c and f = "\<lambda>c. snd (tcp_done (upd_sk (\<lambda>k. k\<lparr>tk_linger := None\<rparr>)
      (timer_cancel (tk_linger (c_sk c)) c)))"]
  by (simp add: tcp_linger_def Let_def)

lemma ident_abort [simp]: "ident (snd (tcp_abort c)) = ident c"
  by (simp add: tcp_abort_def)

lemma handler_user: "same_sock 0 c (tcp_user_timeout c)"
  using same_sock_handler [where c = c and f = "\<lambda>c. snd (tcp_abort (upd_sk (\<lambda>k. k\<lparr>tk_linger := None\<rparr>)
      (timer_cancel (tk_linger (c_sk c)) c)))"]
  by (simp add: tcp_user_timeout_def Let_def)

lemma released: "ident d = ident (snd (socket_wr_acquire c)) \<Longrightarrow> same_sock 0 c (socket_release d)"
  using same_sock_trans [OF same_sock_map [OF same_sock_acquire [of c]] same_sock_release [of d]] by simp

lemma handler_connect_rto: "same_sock 0 c (tcp_connect_rto c)"
  unfolding tcp_connect_rto_def Let_def by (rule released) (simp split: option.split)

lemma ident_notify_user [simp]: "ident (tcp_notify_user c) = ident c"
  by (simp add: tcp_notify_user_def split: tcp_states.split)

lemma handler_rto: "same_sock 0 c (tcp_retransmission_timeout c)"
  unfolding tcp_retransmission_timeout_def Let_def case_prod_beta
  by (auto split: option.split intro!: released)

text \<open>The calls.\<close>

lemma ident_close [simp]: "ident (snd (inet_close c)) = ident c"
  by (simp add: inet_close_def tcp_close_def)

lemma ident_write: "inet_write buf c = Some (rc, c') \<Longrightarrow> ident c' = ident c"
  by (auto simp: inet_write_def tcp_write_def split: if_splits dest: ident_tcp_send)

lemma ident_connect_call [simp]: "ident (snd (tcp_v4_connect isn p a c)) = ident c"
proof -
  have "ident (snd (generate_port c)) = ident c" for c
    by (simp add: generate_port_def ident_def Let_def)
  then show ?thesis by (simp add: tcp_v4_connect_def Let_def case_prod_beta)
qed

lemma receive_round_same:
  "tcp_receive_round len rlen buf c = Received r b c' \<Longrightarrow> ident c' = ident c"
  "tcp_receive_round len rlen buf c = Sleep r b c' \<Longrightarrow> same_sock (- 1) c c'"
proof -
  let ?d = "snd (snd (tcp_data_dequeue (len - rlen) c))"
  have d: "ident ?d = ident c" by simp
  have rel: "same_sock (- 1) c (sleep_recv (socket_release ?d))"
    using same_sock_map [OF same_sock_trans [OF same_sock_ident [OF d] same_sock_release [of ?d]]] by simp
  show "tcp_receive_round len rlen buf c = Received r b c' \<Longrightarrow> ident c' = ident c"
    by (auto simp: tcp_receive_round_def receive_done_def Let_def case_prod_beta split: if_splits)
  show "tcp_receive_round len rlen buf c = Sleep r b c' \<Longrightarrow> same_sock (- 1) c c'"
    using rel by (auto simp: tcp_receive_round_def receive_done_def Let_def case_prod_beta split: if_splits)
qed

lemma tcp_read_same:
  "tcp_read len c = Received r b c' \<Longrightarrow> ident c' = ident c"
  "tcp_read len c = Sleep r b c' \<Longrightarrow> same_sock (- 1) c c'"
  by (auto simp: tcp_read_def tcp_receive_def split: tcp_states.splits if_splits dest: receive_round_same)

lemma connect_finish_same: "connect_finish c = Connect_ret rc c' \<Longrightarrow> same_sock 1 c c'"
proof -
  let ?a = "snd (socket_wr_acquire c)"
  have "same_sock 1 c (upd_sock (\<lambda>k. k\<lparr>so_state := SS_CONNECTED\<rparr>) ?a)"
    by (rule same_sock_map [OF same_sock_acquire]) (simp add: ident_def)
  then show "connect_finish c = Connect_ret rc c' \<Longrightarrow> same_sock 1 c c'"
    using same_sock_acquire by (auto simp: connect_finish_def Let_def split: if_splits)
qed

lemma connect_finish_ret: "connect_finish c \<noteq> Connect_sleep c'"
  by (auto simp: connect_finish_def Let_def)

lemma same_sock_less: "same_sock d c c' \<Longrightarrow> e \<le> d \<Longrightarrow> same_sock e c c'"
  by (auto simp: same_sock_def split: prod.splits)

lemma connect_wait_same:
  "connect_wait c = Connect_ret rc c' \<Longrightarrow> same_sock 0 c c'"
  "connect_wait c = Connect_sleep c' \<Longrightarrow> same_sock (- 1) c c'"
  using same_sock_less [OF connect_finish_same] same_sock_map [OF same_sock_release]
  by (auto simp: connect_wait_def connect_finish_ret split: if_splits)

lemma connect_resume_same:
  "connect_resume c = Connect_ret rc c' \<Longrightarrow> same_sock 1 c c'"
  "connect_resume c = Connect_sleep c' \<Longrightarrow> same_sock 0 c c'"
  using same_sock_trans [OF same_sock_acquire connect_wait_same(1)]
    same_sock_trans [OF same_sock_acquire connect_wait_same(2)]
  by (fastforce simp: connect_resume_def)+

lemma stream_connect_same:
  "inet_stream_connect isn a n c = Connect_ret rc c' \<Longrightarrow> same_sock 0 c c'"
  "inet_stream_connect isn a n c = Connect_sleep c' \<Longrightarrow> same_sock (- 1) c c'"
proof -
  let ?c = "upd_sk (\<lambda>k. k\<lparr>sk_err := - EINPROGRESS\<rparr>) (upd_sock (\<lambda>k. k\<lparr>so_state := SS_CONNECTING\<rparr>)
      (snd (tcp_v4_connect isn (sin_port a) (s_addr a) (upd_sk (\<lambda>k. k\<lparr>sk_err := - EISCONN\<rparr>) c))))"
  have i: "ident ?c = ident c"
    using ident_connect_call [of isn "sin_port a" "s_addr a" "upd_sk (\<lambda>k. k\<lparr>sk_err := - EISCONN\<rparr>) c"]
    by (simp add: ident_def)
  have dis: "ident (snd (tcp_disconnect c)) = ident c" by (simp add: tcp_disconnect_def)
  note same = same_sock_trans [OF same_sock_ident [OF i] connect_wait_same(1), simplified]
    same_sock_trans [OF same_sock_ident [OF i] connect_wait_same(2), simplified]
  show "inet_stream_connect isn a n c = Connect_ret rc c' \<Longrightarrow> same_sock 0 c c'"
    using i dis same(1)
    by (auto simp: inet_stream_connect_def Let_def split: if_splits socket_state.splits intro: same_sock_ident)
  show "inet_stream_connect isn a n c = Connect_sleep c' \<Longrightarrow> same_sock (- 1) c c'"
    using same(2) by (auto simp: inet_stream_connect_def Let_def split: if_splits socket_state.splits)
qed

subsection \<open>Making and removing sockets\<close>

lemma upd_conn_table:
  assumes "w_conns w i = Some cn" "so_refcnt (f (cn_sock cn)) \<noteq> 0"
  shows "table (upd_conn i f w)
    = (w_sockets w, (w_conns w)(i \<mapsto> cn\<lparr>cn_sock := f (cn_sock cn)\<rparr>), w_next w, w_fd w)"
  using assms by (simp add: upd_conn_def table_def Let_def)

text \<open>A socket being worked on: it has a reference of its own.\<close>

definition busy_ok :: "nat \<Rightarrow> world \<Rightarrow> bool" where
  "busy_ok i w \<longleftrightarrow> table_ok w \<and> (\<exists>cn. w_conns w i = Some cn \<and> 2 \<le> so_refcnt (cn_sock cn))"

lemma busy_ok_cong: "busy_ok i w \<Longrightarrow> table w' = table w \<Longrightarrow> busy_ok i w'"
  using table_ok_cong [of w w'] by (auto simp: busy_ok_def table_def)

lemma acquire_ok:
  assumes "table_ok w" "w_conns w i = Some cn"
  shows "busy_ok i (acquire i w) \<and> w_sockets (acquire i w) = w_sockets w"
proof -
  have r: "1 \<le> so_refcnt (cn_sock cn)" using assms by (auto simp: table_ok_def conn_ok_def)
  let ?f = "\<lambda>k. k\<lparr>so_locked := True, so_refcnt := so_refcnt k + 1\<rparr>"
  have t: "table (acquire i w) = (w_sockets w, (w_conns w)(i \<mapsto> cn\<lparr>cn_sock := ?f (cn_sock cn)\<rparr>), w_next w, w_fd w)"
    unfolding acquire_def using r by (intro upd_conn_table assms(2)) simp
  moreover have "table_ok (acquire i w)"
    using r assms(1,2) by (intro table_ok_upd [OF assms _ _ _ t]) (auto simp: table_ok_def)
  ultimately show ?thesis using r by (simp add: busy_ok_def table_def)
qed

lemma release_ok:
  assumes "busy_ok i w"
  shows "table_ok (release i w)"
proof -
  from assms obtain cn where cn: "table_ok w" "w_conns w i = Some cn" "2 \<le> so_refcnt (cn_sock cn)"
    by (auto simp: busy_ok_def)
  show ?thesis
    unfolding release_def
    by (rule table_ok_upd [OF cn(1,2) _ _ _ upd_conn_table [OF cn(2)]])
      (use cn in \<open>auto simp: table_ok_def\<close>)
qed

lemma drop_from_list:
  assumes "busy_ok i w"
  shows "busy_ok i (w\<lparr>w_sockets := removeAll i (w_sockets w), w_sock_amount := n\<rparr>)"
  using assms by (auto simp: busy_ok_def table_ok_def conn_ok_def distinct_removeAll)

lemma busy_on_conn:
  assumes "busy_ok i w" "\<And>c. ident (f c) = ident c"
  shows "busy_ok i (snd (on_conn i d (\<lambda>c. (r, f c)) w))
    \<and> w_sockets (snd (on_conn i d (\<lambda>c. (r, f c)) w)) = w_sockets w"
proof (cases "focus i w")
  case None
  then show ?thesis
    using busy_ok_cong [OF assms(1) table_base(1)] table_base(1) [of False w]
    by (simp add: on_conn_def table_def)
next
  case (Some c)
  from focus_sel [OF Some] obtain cn where cn: "w_conns w i = Some cn" "c_sock c = cn_sock cn" "c_sid c = i"
    by blast
  have t: "table_ok (unfocus (f c) w)"
    using assms by (intro table_ok_unfocus [OF _ Some] same_sock_ident) (simp_all add: busy_ok_def)
  have "ident (f c) = ident c" by (rule assms(2))
  then have "c_sid (f c) = i" "so_refcnt (c_sock (f c)) = so_refcnt (cn_sock cn)"
    using cn by (simp_all add: ident_def)
  then show ?thesis
    using assms(1) cn(1) t Some table_unfocus [of "f c" w]
    by (auto simp: busy_ok_def on_conn_def table_def)
qed

lemma ident_sock_free [simp]: "ident (sock_free c) = ident c"
  by (simp add: sock_free_def Let_def)

lemma inet_free_ok:
  assumes "busy_ok i w" "i \<notin> set (w_sockets w)"
  shows "busy_ok i (inet_free i w) \<and> w_sockets (inet_free i w) = w_sockets w"
proof -
  let ?w = "snd (on_conn i () (\<lambda>c. ((), sock_free c)) w)"
  have b: "busy_ok i ?w" "w_sockets ?w = w_sockets w"
    using busy_on_conn [OF assms(1) ident_sock_free, of "()" "()"] by blast+
  then obtain cn where cn: "table_ok ?w" "w_conns ?w i = Some cn" "2 \<le> so_refcnt (cn_sock cn)"
    by (auto simp: busy_ok_def)
  have t: "table (inet_free i w) = (w_sockets ?w, (w_conns ?w)(i \<mapsto> cn\<lparr>cn_sk := None\<rparr>), w_next ?w, w_fd ?w)"
    using cn(2) by (simp add: inet_free_def Let_def table_def)
  have "table_ok (inet_free i w)"
    using cn assms(2) b(2) by (intro table_ok_upd [OF cn(1,2) _ _ _ t]) simp_all
  with t cn(3) b(2) show ?thesis by (simp add: busy_ok_def table_def)
qed

lemma sleep_off_ok:
  assumes "busy_ok i w" "i \<notin> set (w_sockets w)"
  shows "busy_ok i (upd_conn i (\<lambda>k. k\<lparr>so_sleeping := False\<rparr>) w)"
proof -
  from assms obtain cn where cn: "table_ok w" "w_conns w i = Some cn" "2 \<le> so_refcnt (cn_sock cn)"
    by (auto simp: busy_ok_def)
  let ?f = "\<lambda>k. k\<lparr>so_sleeping := False\<rparr>"
  have t: "table (upd_conn i ?f w) = (w_sockets w, (w_conns w)(i \<mapsto> cn\<lparr>cn_sock := ?f (cn_sock cn)\<rparr>), w_next w, w_fd w)"
    using cn(3) by (intro upd_conn_table cn(2)) simp
  have "table_ok (upd_conn i ?f w)"
    using cn assms(2) by (intro table_ok_upd [OF cn(1,2) _ _ _ t]) simp_all
  with t cn(3) show ?thesis by (simp add: busy_ok_def table_def)
qed

lemma socket_free_ok:
  assumes "table_ok w" "w_conns w i \<noteq> None"
  shows "table_ok (snd (socket_free i w))"
proof -
  from assms(2) obtain cn where "w_conns w i = Some cn" by blast
  with acquire_ok [OF assms(1)] have a: "busy_ok i (acquire i w)" by blast
  let ?w = "(acquire i w)\<lparr>w_sockets := removeAll i (w_sockets (acquire i w)),
      w_sock_amount := w_sock_amount (acquire i w) - 1\<rparr>"
  have d: "busy_ok i ?w" "i \<notin> set (w_sockets ?w)" using drop_from_list [OF a] by simp_all
  then obtain cn' where cn': "w_conns ?w i = Some cn'" by (auto simp: busy_ok_def)
  let ?v = "if so_ops (cn_sock cn') then inet_free i ?w else ?w"
  have "busy_ok i ?v" "i \<notin> set (w_sockets ?v)" using inet_free_ok [OF d] d by simp_all
  from release_ok [OF sleep_off_ok [OF this]] show ?thesis
    using cn' by (simp add: socket_free_def Let_def)
qed

lemma gc_ok:
  assumes "table_ok w"
  shows "table_ok (socket_garbage_collect i w)"
proof (cases "socket_find i w")
  case (Some j)
  then have "j \<in> set (w_sockets w)" by (auto simp: socket_find_def find_Some_iff)
  then have "w_conns w j \<noteq> None" using assms by (auto simp: table_ok_def)
  with socket_free_ok [OF assms this] Some show ?thesis by (simp add: socket_garbage_collect_def)
qed (use assms in \<open>simp add: socket_garbage_collect_def\<close>)

lemma handler_ok: "table_ok w \<Longrightarrow> table_ok (run_handler h i w)"
  by (cases h) (auto simp: run_handler_def intro!: gc_ok table_ok_on_conn handler_delack handler_linger
      handler_user handler_connect_rto handler_rto)

lemma thread_ok: "table_ok w \<Longrightarrow> table_ok (run_thread w)"
  by (auto simp: run_thread_def intro!: handler_ok intro: table_ok_cong split: list.split)

lemma locked_ok:
  "table_ok w \<Longrightarrow> (\<And>c. ident (snd (f c)) = ident c) \<Longrightarrow> table_ok (snd (on_conn i d (locked f) w))"
  by (intro table_ok_on_conn same_sock_locked same_sock_ident)

lemma frame_ok:
  assumes "table_ok w"
  shows "table_ok (netdev_rx f w)"
proof -
  have tcp: "table_ok (tcp_in b v)" if "table_ok v" for b v
    unfolding tcp_in_def Let_def
    by (auto split: option.split intro!: locked_ok intro: table_ok_cong [OF that])
  have ip: "table_ok (ip_rcv b v)" if "table_ok v" for b v
    unfolding ip_rcv_def Let_def using that
    by (auto intro!: tcp intro: table_ok_cong [OF that])
  have rcv: "table_ok (netdev_receive b v)" if "table_ok v" for b v
    unfolding netdev_receive_def Let_def using that
    by (auto intro!: ip intro: table_ok_cong [OF that])
  show ?thesis
    unfolding netdev_rx_def Let_def case_prod_beta
    by (auto split: option.split intro!: rcv intro: table_ok_cong [OF assms])
qed

subsection \<open>Messages\<close>

lemma get_socket_listed:
  assumes "table_ok w" "get_socket pid fd w = Some i"
  shows "w_conns w i \<noteq> None"
proof -
  have "i \<in> set (w_sockets w)" using assms(2) by (auto simp: get_socket_def find_Some_iff)
  with assms(1) show ?thesis by (auto simp: table_ok_def)
qed

fun result_world :: "call_result \<Rightarrow> world" where
  "result_world (Ret rc buf w) = w"
| "result_world (Block_connect i w) = w"
| "result_world (Block_read i len rlen buf w) = w"

lemma unfocus_released:
  assumes "table_ok w" "focus i w = Some c" "same_sock 1 c c'"
  shows "table_ok (unfocus (socket_release c') w)"
    and "w_conns (unfocus (socket_release c') w) i \<noteq> None"
proof -
  have s: "same_sock 0 c (socket_release c')"
    using same_sock_trans [OF assms(3) same_sock_release [of c']] by simp
  show "table_ok (unfocus (socket_release c') w)"
    by (rule table_ok_unfocus [OF assms(1,2) s])
  from focus_sel [OF assms(2)] obtain cn where cn: "w_conns w i = Some cn" "c_sock c = cn_sock cn" "c_sid c = i"
    by blast
  then have "1 \<le> so_refcnt (c_sock c)" using assms(1) by (auto simp: table_ok_def conn_ok_def)
  then show "w_conns (unfocus (socket_release c') w) i \<noteq> None"
    using table_unfocus [of "socket_release c'" w] s cn(3) by (auto simp: table_def same_sock_def ident_def)
qed

lemma connect_result_ok:
  assumes "table_ok w" "focus i w = Some c"
    and "\<And>rc c'. r = Connect_ret rc c' \<Longrightarrow> same_sock 1 c c'"
    and "\<And>c'. r = Connect_sleep c' \<Longrightarrow> same_sock 0 c c'"
  shows "table_ok (result_world (connect_result i w r))"
proof (cases r)
  case (Connect_ret rc c')
  note u = unfocus_released [OF assms(1,2) assms(3) [OF Connect_ret]]
  with socket_free_ok [OF u] Connect_ret show ?thesis by (simp add: connect_result_def Let_def)
next
  case (Connect_sleep c')
  with table_ok_unfocus [OF assms(1,2) assms(4)] show ?thesis by (simp add: connect_result_def)
qed

lemma connect_call_ok:
  assumes "table_ok w"
  shows "table_ok (result_world (connect_call pid fd isn a n w))"
proof (cases "get_socket pid fd w")
  case (Some i)
  show ?thesis
  proof (cases "focus i w")
    case None
    with Some show ?thesis by (auto simp: connect_call_def intro: table_ok_cong [OF assms])
  next
    case (Some c)
    show ?thesis
      using \<open>get_socket pid fd w = Some i\<close> Some
        same_sock_trans [OF same_sock_acquire stream_connect_same(1)]
        same_sock_trans [OF same_sock_acquire stream_connect_same(2)]
      by (auto simp: connect_call_def intro!: connect_result_ok [OF assms Some] dest: sym)
  qed
qed (use assms in \<open>simp add: connect_call_def\<close>)

lemma connect_wake_ok:
  assumes "table_ok w"
  shows "table_ok (result_world (connect_wake i w))"
proof (cases "focus i w")
  case None
  then show ?thesis by (auto simp: connect_wake_def intro: table_ok_cong [OF assms])
next
  case (Some c)
  then show ?thesis
    using connect_resume_same by (auto simp: connect_wake_def intro!: connect_result_ok [OF assms Some])
qed

lemma read_result_ok:
  assumes "table_ok w" "focus i w = Some c"
    and "\<And>rc b c'. r = Received rc b c' \<Longrightarrow> same_sock 1 c c'"
    and "\<And>rc b c'. r = Sleep rc b c' \<Longrightarrow> same_sock 0 c c'"
  shows "table_ok (result_world (read_result i len w r))"
proof (cases r)
  case (Received rc b c')
  with unfocus_released [OF assms(1,2) assms(3) [OF Received]] show ?thesis by (simp add: read_result_def)
next
  case (Sleep rc b c')
  with table_ok_unfocus [OF assms(1,2) assms(4)] show ?thesis by (simp add: read_result_def)
qed

lemma read_call_ok:
  assumes "table_ok w"
  shows "table_ok (result_world (read_call pid fd len w))"
proof (cases "get_socket pid fd w")
  case (Some i)
  show ?thesis
  proof (cases "focus i w")
    case None
    with Some show ?thesis by (auto simp: read_call_def intro: table_ok_cong [OF assms])
  next
    case (Some c)
    show ?thesis
      using \<open>get_socket pid fd w = Some i\<close> Some same_sock_map [OF same_sock_acquire tcp_read_same(1)]
        same_sock_trans [OF same_sock_acquire tcp_read_same(2)]
      by (auto simp: read_call_def inet_read_def intro!: read_result_ok [OF assms Some] dest: sym)
  qed
qed (use assms in \<open>simp add: read_call_def\<close>)

lemma read_wake_ok:
  assumes "table_ok w"
  shows "table_ok (result_world (read_wake i len rlen buf w))"
proof (cases "focus i w")
  case None
  then show ?thesis by (auto simp: read_wake_def intro: table_ok_cong [OF assms])
next
  case (Some c)
  then show ?thesis
    using same_sock_map [OF same_sock_acquire receive_round_same(1)]
      same_sock_trans [OF same_sock_acquire receive_round_same(2)]
    by (auto simp: read_wake_def tcp_receive_resume_def intro!: read_result_ok [OF assms Some] dest: sym)
qed

lemma write_call_ok:
  assumes "table_ok w" "write_call pid fd buf w = Some (rc, w')"
  shows "table_ok w'"
proof (cases "get_socket pid fd w")
  case (Some i)
  show ?thesis
  proof (cases "focus i w")
    case None
    with Some assms show ?thesis by (auto simp: write_call_def intro: table_ok_cong)
  next
    case (Some c)
    with \<open>get_socket pid fd w = Some i\<close> assms(2) obtain c' where c':
      "inet_write buf (snd (socket_wr_acquire c)) = Some (rc, c')" "w' = unfocus (socket_release c') w"
      by (auto simp: write_call_def)
    with unfocus_released(1) [OF assms(1) Some same_sock_map [OF same_sock_acquire ident_write [OF c'(1)]]]
    show ?thesis by simp
  qed
qed (use assms in \<open>simp add: write_call_def\<close>)

lemma simple_calls_ok:
  assumes "table_ok w"
  shows "table_ok (snd (close_call pid fd w))" "table_ok (snd (fcntl_call pid fd cmd arg w))"
    "table_ok (snd (getsockopt_call pid fd level optname w))" "table_ok (snd (getpeername_call pid fd w))"
    "table_ok (snd (getsockname_call pid fd w))"
  unfolding close_call_def fcntl_call_def getsockopt_call_def getpeername_call_def getsockname_call_def
  using assms by (auto split: option.split intro!: locked_ok) (simp add: ident_def)?

lemma poll_pass_ok: "table_ok w \<Longrightarrow> table_ok (snd (snd (poll_pass pid fds w)))"
proof (induction fds arbitrary: w)
  case (Cons p ps)
  show ?case
  proof (cases "get_socket pid (pf_fd p) w")
    case (Some i)
    have "table_ok (snd (on_conn i 0 (locked (\<lambda>c. (sk_poll_events (c_sk c), c))) w))"
      using Cons.prems by (rule locked_ok) simp
    with Cons.IH Some show ?thesis by (simp add: Let_def case_prod_beta)
  qed (use Cons.prems in simp)
qed simp

lemma poll_round_ok: "table_ok w \<Longrightarrow> table_ok (snd (snd (poll_round pid fds timeout w)))"
  using poll_pass_ok [of w pid fds] by (auto simp: poll_round_def split: prod.split sum.split)

lemma alloc_ok:
  assumes "table_ok w" "alloc_socket pid w = (i, w')"
  shows "table_ok w'" "i = w_next w" "i \<notin> set (w_sockets w')" "w_sockets w' = w_sockets w"
    "\<exists>cn. w_conns w' i = Some cn \<and> cn_sk cn = None \<and> so_refcnt (cn_sock cn) = 1 \<and> so_fd (cn_sock cn) = w_fd w
      \<and> so_pid (cn_sock cn) = pid"
proof -
  show i: "i = w_next w" and sel: "w_sockets w' = w_sockets w"
    and "\<exists>cn. w_conns w' i = Some cn \<and> cn_sk cn = None \<and> so_refcnt (cn_sock cn) = 1 \<and> so_fd (cn_sock cn) = w_fd w
      \<and> so_pid (cn_sock cn) = pid"
    using assms(2) by (auto simp: alloc_socket_def Let_def)
  have ok: "\<forall>j cn. w_conns w j = Some cn \<longrightarrow> conn_ok w j cn" using assms(1) by (simp add: table_ok_def)
  then have fresh: "w_conns w i = None" "\<And>j cn. w_conns w j = Some cn \<Longrightarrow> so_fd (cn_sock cn) < w_fd w"
    "\<And>j cn. w_conns w j = Some cn \<Longrightarrow> j < w_next w"
    using i by (cases "w_conns w i", auto simp: conn_ok_def)
  then show "i \<notin> set (w_sockets w')" using assms(1) sel by (auto simp: table_ok_def)
  let ?so = "\<lparr>so_fd = w_fd w, so_pid = pid, so_refcnt = 1, so_state = SS_UNCONNECTED, so_type = 0,
      so_flags = O_RDWR, so_ops = False, so_sleeping = False, so_locked = False\<rparr>"
  have so: "so_refcnt ?so = 1" "so_fd ?so = w_fd w" "w_conns w' = (w_conns w)(i \<mapsto> \<lparr>cn_sock = ?so, cn_sk = None\<rparr>)"
    "w_next w' = Suc (w_next w)" "w_fd w' = w_fd w + 1"
    using assms(2) by (auto simp: alloc_socket_def Let_def)
  have "distinct (w_sockets w')" "4097 \<le> w_fd w'" using assms(1) so sel by (simp_all add: table_ok_def)
  moreover have "\<forall>j\<in>set (w_sockets w'). \<exists>cn. w_conns w' j = Some cn \<and> cn_sk cn \<noteq> None"
    using assms(1) so(3) sel fresh(1) by (auto simp: table_ok_def)
  moreover have "\<forall>j cn. w_conns w' j = Some cn \<longrightarrow> conn_ok w' j cn"
  proof (intro allI impI)
    fix j cn
    assume j: "w_conns w' j = Some cn"
    show "conn_ok w' j cn"
    proof (cases "j = i")
      case True
      with j so(3) have "cn = \<lparr>cn_sock = ?so, cn_sk = None\<rparr>" by simp
      with so(1,2,4,5) True i assms(1) show ?thesis by (simp add: conn_ok_def table_ok_def)
    next
      case False
      with j so(3) have "w_conns w j = Some cn" by simp
      with ok have "conn_ok w j cn" by blast
      with so(4,5) show ?thesis by (simp add: conn_ok_def)
    qed
  qed
  moreover have "\<forall>j k a b. w_conns w' j = Some a \<longrightarrow> w_conns w' k = Some b
      \<longrightarrow> so_fd (cn_sock a) = so_fd (cn_sock b) \<longrightarrow> j = k"
  proof (intro allI impI)
    fix j k a b
    assume ab: "w_conns w' j = Some a" "w_conns w' k = Some b" "so_fd (cn_sock a) = so_fd (cn_sock b)"
    consider "j = i" "k = i" | "j = i" "k \<noteq> i" | "j \<noteq> i" "k = i" | "j \<noteq> i" "k \<noteq> i" by blast
    then show "j = k"
    proof cases
      case 4
      with ab have "w_conns w j = Some a" "w_conns w k = Some b" by (simp_all add: so(3))
      with ab(3) assms(1) show ?thesis unfolding table_ok_def by blast
    qed (use ab so(2,3) fresh(2) in \<open>fastforce+\<close>)
  qed
  ultimately show "table_ok w'" unfolding table_ok_def by blast
qed

lemma inet_create_sel:
  "inet_create protocol cn = (rc, cn') \<Longrightarrow> so_fd (cn_sock cn') = so_fd (cn_sock cn)
     \<and> so_refcnt (cn_sock cn') = so_refcnt (cn_sock cn) \<and> so_pid (cn_sock cn') = so_pid (cn_sock cn)
     \<and> (rc = 0 \<longrightarrow> cn_sk cn' \<noteq> None)"
  by (auto simp: inet_create_def Let_def split: if_splits)

lemma list_ok:
  assumes "table_ok w" "w_conns w i = Some cn" "cn_sk cn \<noteq> None" "i \<notin> set (w_sockets w)"
  shows "table_ok (w\<lparr>w_sockets := w_sockets w @ [i], w_sock_amount := n\<rparr>)"
  using assms by (auto simp: table_ok_def conn_ok_def)

lemma socket_call_ok:
  assumes "table_ok w"
  shows "table_ok (snd (socket_call pid domain type protocol w))"
proof -
  obtain i w1 where a: "alloc_socket pid w = (i, w1)" by (meson surj_pair)
  from alloc_ok [OF assms a] obtain cn where w1: "table_ok w1" "i \<notin> set (w_sockets w1)"
    "w_conns w1 i = Some cn" "so_refcnt (cn_sock cn) = 1" by auto
  let ?f = "\<lambda>k. k\<lparr>so_type := sint (of_int type :: u16)\<rparr>"
  let ?w2 = "check (0 \<le> domain \<and> domain < 128) (upd_conn i ?f w1)"
  have "table (upd_conn i ?f w1) = (w_sockets w1, (w_conns w1)(i \<mapsto> cn\<lparr>cn_sock := ?f (cn_sock cn)\<rparr>), w_next w1, w_fd w1)"
    using w1(4) by (intro upd_conn_table w1(3)) simp
  then have t: "table ?w2 = (w_sockets w1, (w_conns w1)(i \<mapsto> cn\<lparr>cn_sock := ?f (cn_sock cn)\<rparr>), w_next w1, w_fd w1)"
    by simp
  have w2: "table_ok ?w2" "w_conns ?w2 i = Some (cn\<lparr>cn_sock := ?f (cn_sock cn)\<rparr>)" "i \<notin> set (w_sockets ?w2)"
    using w1 t by (auto intro!: table_ok_upd [OF w1(1,3) _ _ _ t] simp: table_def)
  obtain rc cn' where c: "inet_create protocol (the (w_conns ?w2 i)) = (rc, cn')" by (meson surj_pair)
  then have cn': "so_fd (cn_sock cn') = so_fd (cn_sock cn)" "so_refcnt (cn_sock cn') = 1"
    "rc = 0 \<Longrightarrow> cn_sk cn' \<noteq> None"
    using inet_create_sel w1(4) w2(2) by fastforce+
  let ?w3 = "?w2\<lparr>w_conns := (w_conns ?w2)(i \<mapsto> cn')\<rparr>"
  have w3: "table_ok ?w3" "w_conns ?w3 i = Some cn'" "i \<notin> set (w_sockets ?w3)"
    using w2 cn' by (auto intro!: table_ok_upd [OF w2(1,2), of cn'] simp: table_def)
  let ?w4 = "?w3\<lparr>w_sockets := w_sockets ?w3 @ [i], w_sock_amount := w_sock_amount ?w3 + 1\<rparr>"
  have free: "table_ok (snd (socket_free i ?w2))" "table_ok (snd (socket_free i ?w3))"
    using socket_free_ok [OF w2(1)] socket_free_ok [OF w3(1)] w2(2) w3(2) by auto
  have "table_ok (release i (acquire i ?w4))" if "rc = 0"
  proof -
    have "table_ok ?w4" by (rule list_ok [OF w3(1,2) cn'(3) [OF that] w3(3)])
    moreover have "w_conns ?w4 i = Some cn'" using w3(2) by simp
    ultimately show ?thesis using release_ok acquire_ok by blast
  qed
  then show ?thesis
    unfolding socket_call_def a Let_def prod.case c using free
    by (cases "domain = 2"; cases "rc = 0";
        simp only: if_True if_False not_False_eq_True not_True_eq_False simp_thms snd_conv)
qed

text \<open>What an outcome leaves, when it is not a hang.\<close>

definition outcome_ok :: "ipc_outcome \<Rightarrow> bool" where
  "outcome_ok r = (case r of Done rc reply buf w \<Rightarrow> table_ok w | Wait wt buf w \<Rightarrow> table_ok w | Hang \<Rightarrow> True)"

lemma outcome_simps [simp]:
  "outcome_ok (Done rc reply buf w) = table_ok w" "outcome_ok (Wait wt buf w) = table_ok w" "outcome_ok Hang"
  by (simp_all add: outcome_ok_def)

lemma done_ok:
  "table_ok (result_world r) \<Longrightarrow> outcome_ok (ipc_read_done buf r)"
  "table_ok (result_world r) \<Longrightarrow> outcome_ok (ipc_connect_done buf r)"
  by (cases r; simp add: ipc_read_done_def ipc_connect_done_def)+

lemma poll_done_ok: "table_ok (snd (snd r)) \<Longrightarrow> outcome_ok (ipc_poll_done buf r)"
  by (auto simp: ipc_poll_done_def split: prod.split sum.split)

lemma check_ok [simp]: "table_ok w \<Longrightarrow> table_ok (check b w)"
  by (rule table_ok_cong) simp_all

lemma write_ok:
  assumes "table_ok w"
  shows "outcome_ok (ipc_write e buf w)"
  unfolding ipc_write_def Let_def
  by (auto simp: assms split: option.split prod.split dest: write_call_ok [OF check_ok [OF assms]])

lemma fcntl_ok: "table_ok w \<Longrightarrow> outcome_ok (ipc_fcntl buf w)"
  using simple_calls_ok(2) by (auto simp: ipc_fcntl_def Let_def case_prod_beta)

lemma demux_ok:
  assumes "table_ok w"
  shows "outcome_ok (demux_ipc_socket_call e buf w)"
proof -
  note calls = socket_call_ok [OF assms] simple_calls_ok [OF assms] connect_call_ok [OF assms]
  have "outcome_ok (ipc_read e buf w)" for e buf
    unfolding ipc_read_def Let_def by (intro done_ok read_call_ok check_ok assms)
  moreover have "outcome_ok (ipc_connect e buf w)" for e buf
    unfolding ipc_connect_def Let_def by (intro done_ok calls)
  moreover have "outcome_ok (ipc_poll buf w)" for buf
    unfolding ipc_poll_def Let_def by (intro poll_done_ok poll_round_ok check_ok assms)
  ultimately show ?thesis
    using write_ok [OF assms] fcntl_ok [OF assms] calls assms
    by (simp add: demux_ipc_socket_call_def ipc_socket_def ipc_close_def ipc_getsockopt_def
        ipc_getpeername_def ipc_getsockname_def Let_def case_prod_beta)
qed

lemma resume_ok:
  assumes "table_ok w"
  shows "outcome_ok (ipc_resume wt buf w)"
proof (cases wt)
  case (Wait_connect i)
  then show ?thesis by (auto simp: ipc_resume_def intro: done_ok connect_wake_ok assms)
next
  case (Wait_read i len rlen got)
  then show ?thesis by (auto simp: ipc_resume_def intro: done_ok read_wake_ok assms)
next
  case (Wait_poll fds timeout)
  then show ?thesis by (auto simp: ipc_resume_def intro: poll_done_ok poll_round_ok assms)
qed

lemma sys_step_ok:
  assumes "sys_step w w'" "table_ok w"
  shows "table_ok w'"
  using assms
proof cases
  case (message e buf rc reply buf')
  then show ?thesis using demux_ok [OF assms(2), of e buf] by simp
next
  case (message_waits e buf wt buf')
  then show ?thesis using demux_ok [OF assms(2), of e buf] by simp
next
  case (resumed wt buf rc reply buf')
  then show ?thesis using resume_ok [OF assms(2), of wt buf] by simp
next
  case (resumed_waits wt buf wt' buf')
  then show ?thesis using resume_ok [OF assms(2), of wt buf] by simp
qed (auto intro: frame_ok thread_ok table_ok_cong [OF assms(2)])

lemma reachable_ok: "reachable w \<Longrightarrow> table_ok w"
proof (induction rule: reachable.induct)
  case (boot w)
  then show ?case by (simp add: table_ok_def)
next
  case (step w w')
  then show ?case by (blast intro: sys_step_ok)
qed

text \<open>
  C10: Whatever frames arrive, timers fire and messages clients send, in any order, the socket table
  stays well-formed: every socket in the list is there once, is allocated and has its \<open>sk\<close>, so no
  lookup follows a dangling pointer; every socket has a reference count of at least one and a
  descriptor handed out before; and no two sockets have the same descriptor.
\<close>

theorem socket_table_invariant:
  assumes "reachable w"
  shows "distinct (w_sockets w)
    \<and> (\<forall>i\<in>set (w_sockets w). \<exists>cn k. w_conns w i = Some cn \<and> cn_sk cn = Some k)
    \<and> (\<forall>i cn. w_conns w i = Some cn \<longrightarrow> i < w_next w \<and> 1 \<le> so_refcnt (cn_sock cn)
         \<and> 4097 \<le> so_fd (cn_sock cn) \<and> so_fd (cn_sock cn) < w_fd w)
    \<and> inj_on (\<lambda>i. so_fd (cn_sock (the (w_conns w i)))) (dom (w_conns w))"
proof -
  have ok: "table_ok w" by (rule reachable_ok [OF assms])
  then have "inj_on (\<lambda>i. so_fd (cn_sock (the (w_conns w i)))) (dom (w_conns w))"
    unfolding table_ok_def inj_on_def by fastforce
  with ok show ?thesis unfolding table_ok_def conn_ok_def by blast
qed

text \<open>Descriptors are compared as 32-bit numbers, which are equal only where the descriptors are.\<close>

lemma fd_words_eq:
  assumes "(of_int a :: u32) = of_int b" "0 \<le> a" "a < 2147483648" "0 \<le> b" "b < 2147483648"
  shows "a = b"
proof -
  have "a mod 4294967296 = b mod 4294967296"
    using arg_cong [OF assms(1), of uint] by (simp add: uint_word_of_int take_bit_eq_mod)
  with assms(2-) show ?thesis by simp
qed

lemma get_socket_entry:
  assumes "get_socket pid fd w = Some i" "table_ok w" "w_fd w \<le> 2147483648" "0 \<le> fd" "fd < 2147483648"
  shows "\<exists>cn. w_conns w i = Some cn \<and> so_pid (cn_sock cn) = pid \<and> so_fd (cn_sock cn) = fd"
proof -
  from assms(1) obtain cn where cn: "w_conns w i = Some cn" "so_pid (cn_sock cn) = pid"
    "(of_int (so_fd (cn_sock cn)) :: u32) = of_int fd"
    by (auto simp: get_socket_def find_Some_iff split: option.splits)
  from cn(1) assms(2) have "conn_ok w i cn" by (simp add: table_ok_def)
  with fd_words_eq [OF cn(3)] assms(3-) have "so_fd (cn_sock cn) = fd" by (simp add: conn_ok_def)
  with cn show ?thesis by blast
qed

lemma get_socket_new:
  assumes "table_ok w" "w_fd w < 2147483648"
  shows "get_socket pid (w_fd w) w = None"
proof (cases "get_socket pid (w_fd w) w")
  case (Some i)
  have "4097 \<le> w_fd w" using assms(1) by (simp add: table_ok_def)
  with get_socket_entry [OF Some assms(1)] assms(2) obtain cn where
    "w_conns w i = Some cn" "so_fd (cn_sock cn) = w_fd w" by auto
  with assms(1) show ?thesis by (fastforce simp: table_ok_def conn_ok_def)
qed

lemma socket_call_result:
  assumes "socket_call pid 2 type protocol w = (fd, w')" "0 \<le> fd"
  shows "fd = w_fd w \<and> w_fd w' = w_fd w + 1 \<and> w_next w \<in> set (w_sockets w')
    \<and> (\<exists>cn. w_conns w' (w_next w) = Some cn \<and> so_pid (cn_sock cn) = pid \<and> so_fd (cn_sock cn) = w_fd w)"
  using assms
  by (auto simp: socket_call_def alloc_socket_def inet_create_def upd_conn_def acquire_def release_def check_def
      Let_def split: if_splits)

lemma get_socket_only:
  assumes "table_ok w" "w_fd w \<le> 2147483648" "i \<in> set (w_sockets w)" "w_conns w i = Some cn"
    and "so_pid (cn_sock cn) = pid" "so_fd (cn_sock cn) = fd"
  shows "get_socket p fd w = (if p = pid then Some i else None)"
proof -
  have "conn_ok w i cn" using assms(1,4) by (simp add: table_ok_def)
  then have fd: "0 \<le> fd" "fd < 2147483648" using assms(2,6) by (simp_all add: conn_ok_def)
  have uniq: "j = i \<and> p = pid" if j: "get_socket p fd w = Some j" for j
  proof -
    from get_socket_entry [OF j assms(1,2) fd] obtain b where
      b: "w_conns w j = Some b" "so_pid (cn_sock b) = p" "so_fd (cn_sock b) = fd" by blast
    with assms(1,4,6) have "j = i" unfolding table_ok_def by metis
    with b assms(4,5) show ?thesis by simp
  qed
  have "get_socket pid fd w \<noteq> None"
    using assms(3-6) by (auto simp: get_socket_def find_None_iff)
  with uniq show ?thesis by (cases "get_socket p fd w") auto
qed

text \<open>
  C16: A descriptor belongs to one process: in a reachable world, while the counter of descriptors is
  within a C int, two lookups of one descriptor that both find a socket are made by the same process
  and find the same socket; and a \<open>socket\<close> call that succeeds returns a descriptor that no process
  could look up before, and that the calling process, and no other, can look up after.
\<close>

theorem descriptors_isolate_processes:
  assumes "reachable w" "w_fd w < 2147483648" "0 \<le> fd" "fd < 2147483648"
  shows "(get_socket pid fd w = Some i \<longrightarrow> get_socket pid' fd w = Some j \<longrightarrow> i = j \<and> pid = pid')
    \<and> (socket_call pid 2 type protocol w = (new, w') \<longrightarrow> 0 \<le> new \<longrightarrow>
         new = w_fd w \<and> get_socket p new w = None
         \<and> get_socket p new w' = (if p = pid then Some (w_next w) else None))"
proof (intro conjI impI)
  have ok: "table_ok w" by (rule reachable_ok [OF assms(1)])
  assume found: "get_socket pid fd w = Some i" "get_socket pid' fd w = Some j"
  note entry = get_socket_entry [OF _ ok less_imp_le [OF assms(2)] assms(3,4)]
  from entry [OF found(1)] entry [OF found(2)] obtain a b where ab:
    "w_conns w i = Some a" "so_pid (cn_sock a) = pid" "so_fd (cn_sock a) = fd"
    "w_conns w j = Some b" "so_pid (cn_sock b) = pid'" "so_fd (cn_sock b) = fd" by blast
  with ok show "i = j" unfolding table_ok_def by metis
  with ab show "pid = pid'" by simp
next
  have ok: "table_ok w" by (rule reachable_ok [OF assms(1)])
  assume new: "socket_call pid 2 type protocol w = (new, w')" "0 \<le> new"
  note r = socket_call_result [OF new]
  then show "new = w_fd w" by simp
  with get_socket_new [OF ok assms(2)] show "get_socket p new w = None" by simp
  have "table_ok w'" using socket_call_ok [OF ok, of pid 2 type protocol] new(1) by simp
  with r assms(2) get_socket_only show "get_socket p new w' = (if p = pid then Some (w_next w) else None)"
    by auto
qed

end
