(* ===== verification/Libhfip.thy ===== *)
theory Libhfip
  imports Ipc_Msg
begin

unbundle bit_operations_syntax

text \<open>
  The client library \<open>tools/libhfip.c\<close>, preloaded into an unmodified program: it takes the place of
  the socket calls of libc, sends those on a hf-ip socket to the server as messages and passes the
  others on.  What libc does is not the library's: a call is a program (\<open>prog\<close>) that names the
  libc calls it makes (\<open>Sys\<close>) and goes on with what they return; \<open>run\<close> executes it against any
  model of them.  \<open>Exit\<close> is \<open>exit(3)\<close>, \<open>Fuel\<close> a loop cut off.  The pointers of the caller's
  arguments appear as the values read through them, and as values returned beside the result.
\<close>

record sysret =
  r_rc :: int
  r_errno :: int
  r_data :: bytes
  r_fds :: "pollfd list"

datatype syscall =
    S_socket int int int
  | S_connect int bytes int
  | S_close int
  | S_write int bytes
  | S_read int nat
  | S_sendto int bytes int "bytes option" int
  | S_recvfrom int nat int
  | S_poll "pollfd list" int
  | S_select int
  | S_setsockopt int int int bytes
  | S_getsockopt int int int bytes
  | S_getpeername int
  | S_getsockname int
  | S_fcntl int int int

datatype 'a prog = Return 'a | Exit | Fuel | Sys syscall "sysret \<Rightarrow> 'a prog"

primrec bind_prog :: "'a prog \<Rightarrow> ('a \<Rightarrow> 'b prog) \<Rightarrow> 'b prog" where
  "bind_prog (Return x) f = f x"
| "bind_prog Exit f = Exit"
| "bind_prog Fuel f = Fuel"
| "bind_prog (Sys c k) f = Sys c (\<lambda>r. bind_prog (k r) f)"

text \<open>\<open>None\<close> is a libc call that does not return.\<close>

primrec run :: "(syscall \<Rightarrow> 's \<Rightarrow> (sysret \<times> 's) option) \<Rightarrow> 'a prog \<Rightarrow> 's \<Rightarrow> ('a option \<times> 's) option" where
  "run libc (Return x) s = Some (Some x, s)"
| "run libc Exit s = Some (None, s)"
| "run libc Fuel s = None"
| "run libc (Sys c k) s = (case libc c s of None \<Rightarrow> None | Some (r, s) \<Rightarrow> run libc (k r) s)"

subsection \<open>The state of the library\<close>

text \<open>
  The list \<open>hfip_socks\<close> with its count, \<open>errno\<close>, the process id, and what uninitialised memory
  holds.  \<open>hs_freed\<close> marks an entry that \<open>hfip_free\<close> gave back to \<open>malloc\<close> while the list still
  links it; \<open>lb_fault\<close> is set when such an entry is read, and when memory outside an object is.
\<close>

record hfip_sock =
  hs_hffd :: int
  hs_fd :: int
  hs_freed :: bool

record lib =
  lb_socks :: "hfip_sock list"
  lb_count :: int
  lb_errno :: int
  lb_pid :: u32
  lb_junk :: bytes
  lb_fault :: bool

definition lcheck :: "bool \<Rightarrow> lib \<Rightarrow> lib" where
  "lcheck c l = (if c then l else l\<lparr>lb_fault := True\<rparr>)"

text \<open>A libc call that fails sets \<open>errno\<close>.\<close>

definition note_errno :: "sysret \<Rightarrow> lib \<Rightarrow> lib" where
  "note_errno r l = (if r_rc r = - 1 then l\<lparr>lb_errno := r_errno r\<rparr> else l)"

definition sys :: "syscall \<Rightarrow> lib \<Rightarrow> (sysret \<Rightarrow> lib \<Rightarrow> 'a prog) \<Rightarrow> 'a prog" where
  "sys c l k = Sys c (\<lambda>r. k r (note_errno r l))"

text \<open>Passing a call on: its result, and the bytes it stored for the caller.\<close>

definition pass :: "syscall \<Rightarrow> lib \<Rightarrow> (int \<times> bytes option \<times> lib) prog" where
  "pass c l = sys c l (\<lambda>r l. Return (r_rc r, Some (r_data r), l))"

definition pass_rc :: "syscall \<Rightarrow> lib \<Rightarrow> (int \<times> lib) prog" where
  "pass_rc c l = sys c l (\<lambda>r l. Return (r_rc r, l))"

definition hfip_alloc :: hfip_sock where
  "hfip_alloc = \<lparr>hs_hffd = 0, hs_fd = 0, hs_freed = False\<rparr>"

text \<open>The search stops at the first entry for the descriptor; reading a freed one is a fault.\<close>

fun sock_search :: "int \<Rightarrow> hfip_sock list \<Rightarrow> hfip_sock option \<times> bool" where
  "sock_search fd [] = (None, True)"
| "sock_search fd (k # ks) =
     (if hs_fd k = fd then (Some k, \<not> hs_freed k)
      else case sock_search fd ks of (r, ok) \<Rightarrow> (r, ok \<and> \<not> hs_freed k))"

definition hfip_get_sock :: "int \<Rightarrow> lib \<Rightarrow> hfip_sock option \<times> lib" where
  "hfip_get_sock fd l = (case sock_search fd (lb_socks l) of (r, ok) \<Rightarrow> (r, lcheck ok l))"

definition is_socket_supported :: "int \<Rightarrow> int \<Rightarrow> int \<Rightarrow> bool" where
  "is_socket_supported domain type protocol \<longleftrightarrow>
     domain = 2 \<and> odd type \<and> (protocol = 0 \<or> protocol = 6)"

text \<open>
  The address of the server's socket, \<open>/tmp/hfip.socket\<close>, as the bytes of a \<open>sockaddr_un\<close>.
\<close>

definition sockname_path :: bytes where
  "sockname_path = map (\<lambda>c. of_nat (of_char c)) ''/tmp/hfip.socket''"

definition sockaddr_un :: "bytes \<Rightarrow> bytes" where
  "sockaddr_un path = le16 1 @ take 107 path @ replicate (108 - length (take 107 path)) 0"

definition init_socket :: "lib \<Rightarrow> (int \<times> lib) prog" where
  "init_socket l =
     sys (S_socket 1 1 0) l (\<lambda>r l.
       if r_rc r = - 1 then Exit
       else sys (S_connect (r_rc r) (sockaddr_un sockname_path) 110) l (\<lambda>r' l.
         if r_rc r' = - 1 then Exit else Return (r_rc r, l)))"

definition free_socket :: "int \<Rightarrow> lib \<Rightarrow> (int \<times> lib) prog" where
  "free_socket hffd l = pass_rc (S_close hffd) l"

text \<open>What a buffer holds after \<open>read(2)\<close>: the bytes read, and behind them what was there.\<close>

definition filled :: "sysret \<Rightarrow> nat \<Rightarrow> bytes \<Rightarrow> bytes" where
  "filled r n old = take n (r_data r) @ drop (length (take n (r_data r))) old"

text \<open>\<open>n\<close> bytes of memory that was not initialised.\<close>

definition junk :: "nat \<Rightarrow> lib \<Rightarrow> bytes" where
  "junk n l = take n (lb_junk l) @ replicate (n - length (lb_junk l)) 0"

definition transmit_hfip :: "int \<Rightarrow> bytes \<Rightarrow> lib \<Rightarrow> (int \<times> lib) prog" where
  "transmit_hfip hffd msg l =
     sys (S_write hffd msg) l (\<lambda>w l.
     sys (S_read hffd 512) l (\<lambda>r l.
       let buf = filled r 512 (junk 4096 l);
           response = dec_ipc_msg buf;
           sent = dec_ipc_msg msg;
           err = dec_ipc_err (drop 6 buf)
       in if im_type response \<noteq> im_type sent \<or> im_pid response \<noteq> im_pid sent then Return (- 1, l)
          else Return (sint (ie_rc err),
                 if ie_rc err = - 1 then l\<lparr>lb_errno := sint (ie_err err)\<rparr> else l)))"

definition lib_msg :: "u16 \<Rightarrow> lib \<Rightarrow> bytes \<Rightarrow> bytes" where
  "lib_msg t l payload = enc_ipc_msg \<lparr>im_type = t, im_pid = lb_pid l\<rparr> @ payload"

subsection \<open>The calls\<close>

definition hfip_socket :: "int \<Rightarrow> int \<Rightarrow> int \<Rightarrow> lib \<Rightarrow> (int \<times> lib) prog" where
  "hfip_socket domain type protocol l =
     (if \<not> is_socket_supported domain type protocol then pass_rc (S_socket domain type protocol) l
      else bind_prog (init_socket l) (\<lambda>(hffd, l).
        let sock = hfip_alloc\<lparr>hs_hffd := hffd\<rparr>;
            before = lb_socks l;
            l = l\<lparr>lb_socks := before @ [sock], lb_count := lb_count l + 1\<rparr>;
            usersock = \<lparr>is_domain = of_int domain, is_type = of_int type,
                        is_protocol = of_int protocol\<rparr>
        in bind_prog (transmit_hfip hffd (lib_msg IPC_SOCKET l (enc_ipc_socket usersock)) l) (\<lambda>(sockfd, l).
             if sockfd = - 1 then Return (- 1, l\<lparr>lb_socks := before @ [sock\<lparr>hs_freed := True\<rparr>]\<rparr>)
             else Return (sockfd, l\<lparr>lb_socks := before @ [sock\<lparr>hs_fd := sockfd\<rparr>]\<rparr>))))"

definition hfip_close :: "int \<Rightarrow> lib \<Rightarrow> (int \<times> lib) prog" where
  "hfip_close fd l =
     (case hfip_get_sock fd l of
        (None, l) \<Rightarrow> pass_rc (S_close fd) l
      | (Some sock, l) \<Rightarrow>
          bind_prog (transmit_hfip (hs_hffd sock)
              (lib_msg IPC_CLOSE l (enc_ipc_close \<lparr>icl_sockfd = of_int fd\<rparr>)) l) (\<lambda>(rc, l).
            bind_prog (free_socket (hs_hffd sock) l) (\<lambda>(rc', l). Return (rc, l))))"

text \<open>\<open>addr\<close> is the 16 bytes the argument points to.\<close>

definition hfip_connect :: "int \<Rightarrow> bytes \<Rightarrow> int \<Rightarrow> lib \<Rightarrow> (int \<times> lib) prog" where
  "hfip_connect sockfd addr addrlen l =
     (case hfip_get_sock sockfd l of
        (None, l) \<Rightarrow> pass_rc (S_connect sockfd addr addrlen) l
      | (Some sock, l) \<Rightarrow>
          transmit_hfip (hs_hffd sock)
            (lib_msg IPC_CONNECT l (enc_ipc_connect
               \<lparr>ic_sockfd = of_int sockfd, ic_addr = addr, ic_addrlen = of_int addrlen\<rparr>)) l)"

definition hfip_write :: "int \<Rightarrow> bytes \<Rightarrow> lib \<Rightarrow> (int \<times> lib) prog" where
  "hfip_write sockfd buf l =
     (case hfip_get_sock sockfd l of
        (None, l) \<Rightarrow> pass_rc (S_write sockfd buf) l
      | (Some sock, l) \<Rightarrow>
          transmit_hfip (hs_hffd sock)
            (lib_msg IPC_WRITE l
               (enc_ipc_write \<lparr>iw_sockfd = of_int sockfd, iw_len = of_nat (length buf)\<rparr> @ buf)) l)"

text \<open>
  The exchange shared by \<open>read\<close>, \<open>getsockopt\<close>, \<open>getpeername\<close> and \<open>getsockname\<close>: write the message,
  read the reply into a cleared buffer of \<open>rlen\<close> bytes and compare its header.  The continuation
  gets the reply behind the header, or nothing when the header is not the one expected.
\<close>

definition exchange ::
  "int \<Rightarrow> u16 \<Rightarrow> bytes \<Rightarrow> nat \<Rightarrow> lib \<Rightarrow> (bytes option \<Rightarrow> lib \<Rightarrow> 'a prog) \<Rightarrow> 'a prog" where
  "exchange hffd t payload rlen l k =
     sys (S_write hffd (lib_msg t l payload)) l (\<lambda>w l.
     sys (S_read hffd rlen) l (\<lambda>r l.
       let rbuf = filled r rlen (replicate rlen 0);
           response = dec_ipc_msg rbuf
       in if im_type response \<noteq> t \<or> im_pid response \<noteq> lb_pid l then k None l
          else k (Some (drop 6 rbuf)) l))"

text \<open>The second component is the caller's buffer where it was written.\<close>

definition hfip_read :: "int \<Rightarrow> nat \<Rightarrow> lib \<Rightarrow> (int \<times> bytes option \<times> lib) prog" where
  "hfip_read sockfd len l =
     (case hfip_get_sock sockfd l of
        (None, l) \<Rightarrow> pass (S_read sockfd len) l
      | (Some sock, l) \<Rightarrow>
          exchange (hs_hffd sock) IPC_READ
            (enc_ipc_read \<lparr>ir_sockfd = of_int sockfd, ir_len = of_nat len\<rparr>) (26 + len) l (\<lambda>reply l.
            case reply of None \<Rightarrow> Return (- 1, None, l)
            | Some b \<Rightarrow>
                let error = dec_ipc_err b;
                    data = dec_ipc_read (drop 8 b);
                    n = unat (ir_len data)
                in if sint (ie_rc error) < 0
                   then Return (sint (ie_rc error), None, l\<lparr>lb_errno := sint (ie_err error)\<rparr>)
                   else if len < n then Return (- 1, None, l)
                   else Return (int n, Some (mread b 20 n @ replicate (len - n) 0), l)))"

definition hfip_sendto :: "int \<Rightarrow> bytes \<Rightarrow> int \<Rightarrow> bytes option \<Rightarrow> int \<Rightarrow> lib \<Rightarrow> (int \<times> lib) prog" where
  "hfip_sendto fd buf flags dest_addr dest_len l =
     (case hfip_get_sock fd l of
        (None, l) \<Rightarrow> pass_rc (S_sendto fd buf flags dest_addr dest_len) l
      | (Some sock, l) \<Rightarrow> hfip_write fd buf l)"

definition hfip_send :: "int \<Rightarrow> bytes \<Rightarrow> int \<Rightarrow> lib \<Rightarrow> (int \<times> lib) prog" where
  "hfip_send fd buf flags l = hfip_sendto fd buf flags None 0 l"

definition hfip_recvfrom :: "int \<Rightarrow> nat \<Rightarrow> int \<Rightarrow> lib \<Rightarrow> (int \<times> bytes option \<times> lib) prog" where
  "hfip_recvfrom fd len flags l =
     (case hfip_get_sock fd l of
        (None, l) \<Rightarrow> pass (S_recvfrom fd len flags) l
      | (Some sock, l) \<Rightarrow> hfip_read fd len l)"

definition hfip_recv :: "int \<Rightarrow> nat \<Rightarrow> int \<Rightarrow> lib \<Rightarrow> (int \<times> bytes option \<times> lib) prog" where
  "hfip_recv fd len flags l = hfip_recvfrom fd len flags l"

subsection \<open>\<open>poll\<close>\<close>

text \<open>
  The entries of hf-ip sockets and the others, by their position in \<open>fds\<close>, and the connection to
  the server of the last hf-ip socket seen.
\<close>

fun poll_split ::
  "nat \<Rightarrow> pollfd list \<Rightarrow> lib \<Rightarrow> nat list \<times> nat list \<times> int \<Rightarrow> (nat list \<times> nat list \<times> int) \<times> lib" where
  "poll_split i [] l (hfip, kern, hffd) = ((hfip, kern, hffd), l)"
| "poll_split i (p # ps) l (hfip, kern, hffd) =
     (case hfip_get_sock (pf_fd p) l of
        (Some sock, l) \<Rightarrow> poll_split (Suc i) ps l (hfip @ [i], kern, hs_hffd sock)
      | (None, l) \<Rightarrow> poll_split (Suc i) ps l (hfip, kern @ [i], hffd))"

fun put_events :: "nat list \<Rightarrow> ipc_pollfd list \<Rightarrow> pollfd list \<Rightarrow> pollfd list" where
  "put_events (i # is) (p # ps) fds =
     put_events is ps (fds[i := (fds ! i)\<lparr>pf_events := ipf_events p, pf_revents := ipf_revents p\<rparr>])"
| "put_events is ps fds = fds"

definition ipc_of_pollfd :: "pollfd \<Rightarrow> ipc_pollfd" where
  "ipc_of_pollfd p =
     \<lparr>ipf_fd = of_int (pf_fd p), ipf_events = pf_events p, ipf_revents = pf_revents p\<rparr>"

type_synonym poll_result = "int \<times> pollfd list \<times> lib"

text \<open>
  The half of a turn that asks the server; \<open>events\<close> is the count from libc's \<open>poll\<close>.  \<open>Inr\<close> goes
  round the loop again.
\<close>

definition poll_server ::
  "nat list \<Rightarrow> int \<Rightarrow> int \<Rightarrow> bool \<Rightarrow> int \<Rightarrow> pollfd list \<Rightarrow> lib \<Rightarrow> (poll_result + pollfd list \<times> lib) prog" where
  "poll_server hfip hffd timeout blocking events fds l =
     (let n = length hfip;
          fail = (\<lambda>l. Return (Inl (- 1, fds, l\<lparr>lb_errno := EAGAIN\<rparr>)));
          payload = enc_ipc_poll \<lparr>ipo_nfds = of_nat n, ipo_timeout = of_int timeout\<rparr>
                    @ enc_pollfds (map (\<lambda>i. ipc_of_pollfd (fds ! i)) hfip);
          rlen = 14 + 8 * n
      in sys (S_write hffd (lib_msg IPC_POLL l payload)) l (\<lambda>w l.
         if r_rc w = - 1 then fail l
         else sys (S_read hffd rlen) l (\<lambda>r l.
           if r_rc r = - 1 then fail l
           else
             let rbuf = filled r rlen (replicate rlen 0);
                 response = dec_ipc_msg rbuf;
                 error = dec_ipc_err (drop 6 rbuf);
                 rc = sint (ie_rc error)
             in if im_type response \<noteq> IPC_POLL \<or> im_pid response \<noteq> lb_pid l then fail l
                else if rc < 0 then Return (Inl (rc, fds, l\<lparr>lb_errno := sint (ie_err error)\<rparr>))
                else
                  let fds = put_events hfip (dec_pollfds n (drop 14 rbuf)) fds;
                      result = events + rc
                  in Return (if result > 0 \<or> \<not> blocking then Inl (result, fds, l)
                             else Inr (fds, l)))))"

text \<open>
  A turn of the loop.  \<open>_poll(*kernel_fds, kernel_nfds, timeout)\<close> is given the address of the first
  entry of libc's and their number, so it sees that many entries of \<open>fds\<close> from there on.
\<close>

definition poll_turn ::
  "nat list \<Rightarrow> nat list \<Rightarrow> int \<Rightarrow> int \<Rightarrow> bool \<Rightarrow> pollfd list \<Rightarrow> lib \<Rightarrow> (poll_result + pollfd list \<times> lib) prog" where
  "poll_turn hfip kern hffd timeout blocking fds l =
     (case kern of
        [] \<Rightarrow> if hfip = [] then Return (Inl (0, fds, l))
              else poll_server hfip hffd timeout blocking 0 fds l
      | k0 # _ \<Rightarrow>
          let n = length kern
          in sys (S_poll (take n (drop k0 fds)) timeout) l (\<lambda>r l.
               if r_rc r = - 1 then Return (Inl (- 1, fds, l\<lparr>lb_errno := EAGAIN\<rparr>))
               else
                 let fds = take k0 fds @ take n (r_fds r) @ drop (k0 + n) fds
                 in if hfip = [] then Return (Inl (r_rc r, fds, l))
                    else poll_server hfip hffd timeout blocking (r_rc r) fds l))"

fun poll_loop ::
  "nat \<Rightarrow> nat list \<Rightarrow> nat list \<Rightarrow> int \<Rightarrow> int \<Rightarrow> bool \<Rightarrow> pollfd list \<Rightarrow> lib \<Rightarrow> poll_result prog" where
  "poll_loop 0 hfip kern hffd timeout blocking fds l = Fuel"
| "poll_loop (Suc n) hfip kern hffd timeout blocking fds l =
     bind_prog (poll_turn hfip kern hffd timeout blocking fds l) (\<lambda>r.
       case r of Inl res \<Rightarrow> Return res
       | Inr (fds, l) \<Rightarrow> poll_loop n hfip kern hffd timeout blocking fds l)"

definition hfip_poll :: "nat \<Rightarrow> pollfd list \<Rightarrow> int \<Rightarrow> lib \<Rightarrow> poll_result prog" where
  "hfip_poll fuel fds timeout l =
     (case poll_split 0 fds l ([], [], 0) of
        ((hfip, kern, hffd), l) \<Rightarrow>
          let blocking = (kern \<noteq> [] \<and> hfip \<noteq> [] \<and> timeout = - 1)
          in poll_loop fuel hfip kern hffd (if blocking then 100 else timeout) blocking fds l)"

definition poll_chk :: "nat \<Rightarrow> pollfd list \<Rightarrow> int \<Rightarrow> lib \<Rightarrow> poll_result prog" where
  "poll_chk fuel fds timeout l = hfip_poll fuel fds timeout l"

definition hfip_ppoll :: "lib \<Rightarrow> (int \<times> lib) prog" where
  "hfip_ppoll l = Return (- 1, l)"

text \<open>The descriptor sets of \<open>select\<close> go to libc as they are.\<close>

definition hfip_select :: "int \<Rightarrow> lib \<Rightarrow> (int \<times> lib) prog" where
  "hfip_select nfds l = pass_rc (S_select nfds) l"

subsection \<open>Options, names and flags\<close>

definition hfip_setsockopt :: "int \<Rightarrow> int \<Rightarrow> int \<Rightarrow> bytes \<Rightarrow> lib \<Rightarrow> (int \<times> lib) prog" where
  "hfip_setsockopt fd level optname optval l =
     (case hfip_get_sock fd l of
        (None, l) \<Rightarrow> pass_rc (S_setsockopt fd level optname optval) l
      | (Some sock, l) \<Rightarrow> Return (0, l))"

text \<open>What a call stored through its last two pointers: a value and its length.\<close>

type_synonym stored = "(bytes \<times> u32) option"

definition pass_stored :: "syscall \<Rightarrow> lib \<Rightarrow> (int \<times> stored \<times> lib) prog" where
  "pass_stored c l =
     sys c l (\<lambda>r l. Return (r_rc r, Some (r_data r, of_nat (length (r_data r))), l))"

text \<open>
  \<open>optval\<close> is the caller's buffer, \<open>*optlen\<close> its length.  It is copied behind the local \<open>opts\<close>, which
  has no room for it, and the value of the reply is read as an \<open>int\<close>, whatever its length.
\<close>

definition hfip_getsockopt :: "int \<Rightarrow> int \<Rightarrow> int \<Rightarrow> bytes \<Rightarrow> lib \<Rightarrow> (int \<times> stored \<times> lib) prog" where
  "hfip_getsockopt fd level optname optval l =
     (case hfip_get_sock fd l of
        (None, l) \<Rightarrow> pass_stored (S_getsockopt fd level optname optval) l
      | (Some sock, l) \<Rightarrow>
          let n = length optval;
              l = lcheck (n = 0) l;
              opts = \<lparr>iso_fd = of_int fd, iso_level = of_int level, iso_optname = of_int optname,
                      iso_optlen = of_nat n\<rparr>
          in exchange (hs_hffd sock) IPC_GETSOCKOPT (enc_ipc_sockopt opts @ optval) (30 + n) l (\<lambda>reply l.
               case reply of None \<Rightarrow> Return (- 1, None, l)
               | Some b \<Rightarrow>
                   let error = dec_ipc_err b;
                       optres = dec_ipc_sockopt (drop 8 b)
                   in if ie_rc error \<noteq> 0
                      then Return (sint (ie_rc error), None, l\<lparr>lb_errno := sint (ie_err error)\<rparr>)
                      else Return (0, Some (le32 (- rd32 b 24), iso_optlen optres), lcheck (4 \<le> n) l)))"

definition hfip_name :: "u16 \<Rightarrow> syscall \<Rightarrow> int \<Rightarrow> lib \<Rightarrow> (int \<times> stored \<times> lib) prog" where
  "hfip_name t libc_call socket l =
     (case hfip_get_sock socket l of
        (None, l) \<Rightarrow> pass_stored libc_call l
      | (Some sock, l) \<Rightarrow>
          let name = (dec_ipc_sockname (junk 136 l))\<lparr>isn_socket := of_int socket\<rparr>
          in exchange (hs_hffd sock) t (enc_ipc_sockname name) 150 l (\<lambda>reply l.
               case reply of None \<Rightarrow> Return (- 1, None, l)
               | Some b \<Rightarrow>
                   let error = dec_ipc_err b;
                       nameres = dec_ipc_sockname (drop 8 b);
                       n = unat (isn_address_len nameres)
                   in if ie_rc error \<noteq> 0
                      then Return (sint (ie_rc error), None, l\<lparr>lb_errno := sint (ie_err error)\<rparr>)
                      else Return (0, Some (take n (isn_sa_data nameres), isn_address_len nameres),
                             lcheck (n \<le> 128) l)))"

definition hfip_getpeername :: "int \<Rightarrow> lib \<Rightarrow> (int \<times> stored \<times> lib) prog" where
  "hfip_getpeername socket l = hfip_name IPC_GETPEERNAME (S_getpeername socket) socket l"

definition hfip_getsockname :: "int \<Rightarrow> lib \<Rightarrow> (int \<times> stored \<times> lib) prog" where
  "hfip_getsockname socket l = hfip_name IPC_GETSOCKNAME (S_getsockname socket) socket l"

text \<open>The message has room for a \<open>struct flock\<close> and an \<open>int\<close>, 36 bytes, left as they are found.\<close>

definition hfip_fcntl :: "int \<Rightarrow> int \<Rightarrow> int \<Rightarrow> lib \<Rightarrow> (int \<times> lib) prog" where
  "hfip_fcntl fildes cmd arg l =
     (case hfip_get_sock fildes l of
        (None, l) \<Rightarrow> pass_rc (S_fcntl fildes cmd arg) l
      | (Some sock, l) \<Rightarrow>
          let fc = enc_ipc_fcntl \<lparr>ifc_sockfd = of_int fildes, ifc_cmd = of_int cmd\<rparr>;
              data = junk 36 l
          in if cmd = 3 then transmit_hfip (hs_hffd sock) (lib_msg IPC_FCNTL l (fc @ data)) l
             else if cmd = 4
             then transmit_hfip (hs_hffd sock)
                    (lib_msg IPC_FCNTL l (fc @ mwrite data 0 (le32 (of_int arg)))) l
             else Return (- 1, l\<lparr>lb_errno := EINVAL\<rparr>))"

end
