(* ===== verification/Ipc_Link.thy ===== *)
theory Ipc_Link
  imports Ipc Libhfip
begin

unbundle bit_operations_syntax

text \<open>
  A client process and its thread of the server, put together.  The locale \<open>ipc_service\<close> states
  what the library relies on: a message written to the connection is answered by a reply that the
  next read gets whole.  Its lemmas say what the library's exchanges then return.  \<open>link_libc\<close> is
  the connection to a server thread running \<open>socket_ipc_open\<close>, and interprets it: calls made
  through the library do what the calls of the socket layer do.
\<close>

subsection \<open>C ints in messages\<close>

definition int32 :: "int \<Rightarrow> bool" where
  "int32 i \<longleftrightarrow> - 2147483648 < i \<and> i < 2147483648"

lemma sint_of_int32 [simp]: "int32 i \<Longrightarrow> sint (of_int i :: u32) = i"
  by (simp add: int32_def signed_of_int signed_take_bit_int_eq_self)

lemma int32_minus: "int32 i \<Longrightarrow> int32 (- i)"
  by (auto simp: int32_def)

lemma of_int32_eq_minus1: "int32 i \<Longrightarrow> (of_int i :: u32) = - 1 \<longleftrightarrow> i = - 1"
  using sint_of_int32 [of i] by (auto dest: arg_cong [where f = sint])

lemma sint_minus1_u32 [simp]: "sint (- 1 :: u32) = - 1"
  by simp

text \<open>What a program sees of the result of a call of the socket layer.\<close>

definition client_rc :: "int \<Rightarrow> int" where
  "client_rc rc = (if rc < 0 then - 1 else rc)"

definition client_lib :: "int \<Rightarrow> lib \<Rightarrow> lib" where
  "client_lib rc l = (if rc < 0 then l\<lparr>lb_errno := - rc\<rparr> else l)"

lemma ipc_err_of_view:
  assumes "int32 rc"
  shows "sint (ie_rc (ipc_err_of rc)) = client_rc rc"
    and "(if ie_rc (ipc_err_of rc) = - 1 then l\<lparr>lb_errno := sint (ie_err (ipc_err_of rc))\<rparr> else l)
           = client_lib rc l"
    and "sint (ie_rc (ipc_err_of rc)) < 0 \<longleftrightarrow> rc < 0"
    and "rc < 0 \<Longrightarrow> sint (ie_err (ipc_err_of rc)) = - rc"
  using assms sint_of_int32 [OF int32_minus [OF assms]] of_int32_eq_minus1 [OF assms]
  by (auto simp: ipc_err_of_def client_rc_def client_lib_def)

subsection \<open>Running programs\<close>

lemma run_sys [simp]:
  "run libc (sys c l k) s =
     (case libc c s of None \<Rightarrow> None | Some (r, s) \<Rightarrow> run libc (k r (note_errno r l)) s)"
  by (simp add: sys_def)

lemma run_bind [simp]:
  "run libc (bind_prog p f) s =
     (case run libc p s of None \<Rightarrow> None | Some (None, s) \<Rightarrow> Some (None, s)
      | Some (Some x, s) \<Rightarrow> run libc (f x) s)"
  by (induction p arbitrary: s) (auto split: option.splits prod.splits)

lemma note_errno_ok [simp]: "r_rc r \<noteq> - 1 \<Longrightarrow> note_errno r l = l"
  by (simp add: note_errno_def)

lemma filled_all: "length (r_data r) \<le> n \<Longrightarrow> filled r n old = r_data r @ drop (length (r_data r)) old"
  by (simp add: filled_def)

subsection \<open>The interface\<close>

locale ipc_service =
  fixes libc :: "syscall \<Rightarrow> 's \<Rightarrow> (sysret \<times> 's) option"
    and hffd :: int
    and serve :: "bytes \<Rightarrow> 's \<Rightarrow> (bytes \<times> 's) option"
    and ready :: "'s \<Rightarrow> bool"
  assumes answered:
    "ready s \<Longrightarrow> serve m s = Some (r, s') \<Longrightarrow>
       \<exists>w s1. libc (S_write hffd m) s = Some (w, s1) \<and> r_rc w \<noteq> - 1
         \<and> (\<forall>n. length r \<le> n \<longrightarrow>
              (\<exists>g. libc (S_read hffd n) s1 = Some (g, s') \<and> r_rc g \<noteq> - 1 \<and> r_data g = r))"
begin

lemma answered_elim:
  assumes "ready s" "serve m s = Some (r, s')" "length r \<le> n"
  obtains w s1 g where "libc (S_write hffd m) s = Some (w, s1)" "r_rc w \<noteq> - 1"
    "libc (S_read hffd n) s1 = Some (g, s')" "r_rc g \<noteq> - 1" "r_data g = r"
  using answered [OF assms(1,2)] assms(3) by blast

lemma transmit:
  assumes "ready s"
    and "serve (enc_ipc_msg h @ p) s = Some (enc_ipc_msg h @ enc_ipc_err (ipc_err_of rc), s')"
    and "int32 rc"
  shows "run libc (transmit_hfip hffd (enc_ipc_msg h @ p) l) s
           = Some (Some (client_rc rc, client_lib rc l), s')"
proof -
  have "length (enc_ipc_msg h @ enc_ipc_err (ipc_err_of rc)) \<le> 512" by simp
  from answered_elim [OF assms(1,2) this] obtain w s1 g where
    "libc (S_write hffd (enc_ipc_msg h @ p)) s = Some (w, s1)" "r_rc w \<noteq> - 1"
    "libc (S_read hffd 512) s1 = Some (g, s')" "r_rc g \<noteq> - 1"
    "r_data g = enc_ipc_msg h @ enc_ipc_err (ipc_err_of rc)" .
  then show ?thesis
    using ipc_err_of_view(1,2) [OF assms(3)]
    by (simp add: transmit_hfip_def Let_def filled_all cong: if_cong split del: if_split)
qed

lemma exchanged:
  assumes "ready s"
    and "serve (lib_msg t l p) s = Some (enc_ipc_msg \<lparr>im_type = t, im_pid = lb_pid l\<rparr> @ b, s')"
    and "6 + length b \<le> n"
  shows "run libc (exchange hffd t p n l k) s
           = run libc (k (Some (b @ replicate (n - (6 + length b)) 0)) l) s'"
proof -
  let ?r = "enc_ipc_msg \<lparr>im_type = t, im_pid = lb_pid l\<rparr> @ b"
  have "length ?r \<le> n" using assms(3) by simp
  from answered_elim [OF assms(1,2) this] obtain w s1 g where
    "libc (S_write hffd (lib_msg t l p)) s = Some (w, s1)" "r_rc w \<noteq> - 1"
    "libc (S_read hffd n) s1 = Some (g, s')" "r_rc g \<noteq> - 1" "r_data g = ?r" .
  then show ?thesis
    using assms(3) by (simp add: exchange_def Let_def filled_all)
qed

end

subsection \<open>The connection to a server thread\<close>

text \<open>
  The server, the client's thread in it, and the bytes on their way to the client.  What the client
  writes is read by a waiting thread, at most \<open>IPC_BUFLEN\<close> bytes first, the rest when it asks; a
  read with nothing there waits for the thread, so a call that sleeps does not return.
\<close>

record link =
  lk_server :: ipc_server
  lk_thread :: thread_state
  lk_in :: bytes

definition sysret_ok :: "int \<Rightarrow> bytes \<Rightarrow> sysret" where
  "sysret_ok rc d = \<lparr>r_rc = rc, r_errno = 0, r_data = d, r_fds = []\<rparr>"

definition link_turn :: "ipc_env \<Rightarrow> int \<Rightarrow> bytes \<Rightarrow> link \<Rightarrow> link option" where
  "link_turn e sfd d lk =
     (case lk_thread lk of
        Reading buf \<Rightarrow>
          (case socket_ipc_open (e\<lparr>ev_more := \<lambda>n. Some (take n (drop IPC_BUFLEN d))\<rparr>) sfd
                  (Some (take IPC_BUFLEN d)) buf (lk_server lk) of
             (t, reply, sv) \<Rightarrow>
               Some \<lparr>lk_server = sv, lk_thread = t,
                     lk_in = lk_in lk @ (case reply of None \<Rightarrow> [] | Some r \<Rightarrow> r)\<rparr>)
      | _ \<Rightarrow> None)"

definition link_libc :: "ipc_env \<Rightarrow> int \<Rightarrow> int \<Rightarrow> syscall \<Rightarrow> link \<Rightarrow> (sysret \<times> link) option" where
  "link_libc e sfd hffd c lk =
     (case c of
        S_socket d t p \<Rightarrow> Some (sysret_ok hffd [], lk)
      | S_connect fd a n \<Rightarrow>
          if fd = hffd
          then Some (sysret_ok 0 [],
                 \<lparr>lk_server = ipc_alloc_thread sfd (lk_server lk),
                  lk_thread = Reading (take IPC_BUFLEN (ev_junk e @ replicate IPC_BUFLEN 0)), lk_in = []\<rparr>)
          else None
      | S_write fd d \<Rightarrow>
          if fd = hffd then map_option (\<lambda>lk. (sysret_ok (int (length d)) [], lk)) (link_turn e sfd d lk)
          else None
      | S_read fd n \<Rightarrow>
          if fd = hffd \<and> lk_in lk \<noteq> []
          then Some (sysret_ok (int (length (take n (lk_in lk)))) (take n (lk_in lk)),
                 lk\<lparr>lk_in := drop n (lk_in lk)\<rparr>)
          else None
      | S_close fd \<Rightarrow>
          if fd = hffd then map_option (\<lambda>lk. (sysret_ok 0 [], lk)) (link_turn e sfd [] lk) else None
      | _ \<Rightarrow> None)"

definition link_ready :: "link \<Rightarrow> bool" where
  "link_ready lk \<longleftrightarrow> lk_in lk = [] \<and> (\<exists>buf. lk_thread lk = Reading buf \<and> length buf = IPC_BUFLEN)"

definition link_serve :: "ipc_env \<Rightarrow> int \<Rightarrow> bytes \<Rightarrow> link \<Rightarrow> (bytes \<times> link) option" where
  "link_serve e sfd m lk =
     (case link_turn e sfd m lk of None \<Rightarrow> None
      | Some lk' \<Rightarrow> if lk_in lk' = [] then None else Some (lk_in lk', lk'\<lparr>lk_in := []\<rparr>))"

interpretation lk: ipc_service "link_libc e sfd hffd" hffd "link_serve e sfd" link_ready
  for e sfd hffd
proof unfold_locales
  fix s m r s'
  assume "link_ready s" and "link_serve e sfd m s = Some (r, s')"
  then obtain lk where lk: "link_turn e sfd m s = Some lk" "lk_in lk = r" "r \<noteq> []"
    "s' = lk\<lparr>lk_in := []\<rparr>"
    by (auto simp: link_serve_def split: option.splits if_splits)
  then show "\<exists>w s1. link_libc e sfd hffd (S_write hffd m) s = Some (w, s1) \<and> r_rc w \<noteq> - 1
      \<and> (\<forall>n. length r \<le> n \<longrightarrow> (\<exists>g. link_libc e sfd hffd (S_read hffd n) s1 = Some (g, s')
            \<and> r_rc g \<noteq> - 1 \<and> r_data g = r))"
    by (simp add: link_libc_def sysret_ok_def)
qed


subsection \<open>Calls through the connection\<close>

text \<open>The calls answered by a result alone, made through the library and on the socket layer.\<close>

datatype sock_call = Do_connect bytes int | Do_write bytes | Do_close | Do_getfl | Do_setfl int

fun lib_call :: "sock_call \<Rightarrow> int \<Rightarrow> lib \<Rightarrow> (int \<times> lib) prog" where
  "lib_call (Do_connect addr n) fd l = hfip_connect fd addr n l"
| "lib_call (Do_write buf) fd l = hfip_write fd buf l"
| "lib_call Do_close fd l = hfip_close fd l"
| "lib_call Do_getfl fd l = hfip_fcntl fd 3 0 l"
| "lib_call (Do_setfl flags) fd l = hfip_fcntl fd 4 flags l"

fun direct_call :: "sock_call \<Rightarrow> u32 \<Rightarrow> int \<Rightarrow> int \<Rightarrow> world \<Rightarrow> (int \<times> world) option" where
  "direct_call (Do_connect addr n) isn pid fd w =
     (case connect_call pid fd isn (dec_sockaddr addr) n w of Ret rc _ w \<Rightarrow> Some (rc, w) | _ \<Rightarrow> None)"
| "direct_call (Do_write buf) isn pid fd w = write_call pid fd buf w"
| "direct_call Do_close isn pid fd w = Some (close_call pid fd w)"
| "direct_call Do_getfl isn pid fd w = Some (fcntl_call pid fd 3 0 w)"
| "direct_call (Do_setfl flags) isn pid fd w = Some (fcntl_call pid fd 4 flags w)"

text \<open>Arguments a C program can pass, and for \<open>write\<close> a length the server's stack has room for.\<close>

fun call_ok :: "nat \<Rightarrow> sock_call \<Rightarrow> bool" where
  "call_ok stk (Do_connect addr n) \<longleftrightarrow> length addr = 16 \<and> int32 n"
| "call_ok stk (Do_write buf) \<longleftrightarrow> length buf \<le> stk \<and> length buf < 2147483648"
| "call_ok stk Do_close \<longleftrightarrow> True"
| "call_ok stk Do_getfl \<longleftrightarrow> True"
| "call_ok stk (Do_setfl flags) \<longleftrightarrow> int32 flags"

fun call_type :: "sock_call \<Rightarrow> u16" where
  "call_type (Do_connect addr n) = IPC_CONNECT"
| "call_type (Do_write buf) = IPC_WRITE"
| "call_type Do_close = IPC_CLOSE"
| "call_type Do_getfl = IPC_FCNTL"
| "call_type (Do_setfl flags) = IPC_FCNTL"

fun call_payload :: "sock_call \<Rightarrow> int \<Rightarrow> lib \<Rightarrow> bytes" where
  "call_payload (Do_connect addr n) fd l =
     enc_ipc_connect \<lparr>ic_sockfd = of_int fd, ic_addr = addr, ic_addrlen = of_int n\<rparr>"
| "call_payload (Do_write buf) fd l =
     enc_ipc_write \<lparr>iw_sockfd = of_int fd, iw_len = of_nat (length buf)\<rparr> @ buf"
| "call_payload Do_close fd l = enc_ipc_close \<lparr>icl_sockfd = of_int fd\<rparr>"
| "call_payload Do_getfl fd l = enc_ipc_fcntl \<lparr>ifc_sockfd = of_int fd, ifc_cmd = 3\<rparr> @ junk 36 l"
| "call_payload (Do_setfl flags) fd l =
     enc_ipc_fcntl \<lparr>ifc_sockfd = of_int fd, ifc_cmd = 4\<rparr> @ mwrite (junk 36 l) 0 (le32 (of_int flags))"

lemma length_junk [simp]: "length (junk n l) = n"
  by (simp add: junk_def)

lemma lib_call_eq:
  assumes "sock_search fd (lb_socks l) = (Some sock, True)"
  shows "lib_call c fd l =
    (let p = transmit_hfip (hs_hffd sock) (lib_msg (call_type c) l (call_payload c fd l)) l
     in if c = Do_close
        then bind_prog p (\<lambda>(rc, l). bind_prog (free_socket (hs_hffd sock) l) (\<lambda>(rc', l). Return (rc, l)))
        else p)"
  using assms
  by (cases c) (simp_all add: hfip_connect_def hfip_write_def hfip_close_def hfip_fcntl_def
      hfip_get_sock_def lcheck_def Let_def)

text \<open>What the server answers to the message of a call.\<close>

lemma hdr_fields [simp]:
  "msg_pid (enc_ipc_msg h @ xs) = sint (im_pid h)"
  "reply_hdr t (enc_ipc_msg h @ xs) = enc_ipc_msg \<lparr>im_type = t, im_pid = im_pid h\<rparr>"
  by (simp_all add: msg_pid_def reply_hdr_def)

lemma call_served:
  assumes "call_ok (ev_stack e) c" "int32 fd"
    and "ev_more e = (\<lambda>n. Some (take n (drop IPC_BUFLEN (lib_msg (call_type c) l (call_payload c fd l)))))"
    and "direct_call c (ev_iss e) (sint (lb_pid l)) fd w = Some (rc, w')"
    and "buf = take IPC_BUFLEN (lib_msg (call_type c) l (call_payload c fd l)) @ stale"
  shows "demux_ipc_socket_call e buf w
    = Done 0 (Some (enc_ipc_msg \<lparr>im_type = call_type c, im_pid = lb_pid l\<rparr> @ enc_ipc_err (ipc_err_of rc))) buf w'"
proof (cases c)
  case (Do_connect addr n)
  then show ?thesis
    using assms
    by (auto simp: lib_msg_def demux_ipc_socket_call_def ipc_types ipc_connect_def Let_def
        ipc_connect_done_def ipc_write_rc_def split: call_result.splits)
next
  case Do_close
  then show ?thesis
    using assms
    by (auto simp: lib_msg_def demux_ipc_socket_call_def ipc_types ipc_close_def Let_def
        ipc_write_rc_def)
next
  case Do_getfl
  then show ?thesis
    using assms
    by (auto simp: lib_msg_def demux_ipc_socket_call_def ipc_types ipc_fcntl_def Let_def
        ipc_write_rc_def)
next
  case (Do_setfl flags)
  then show ?thesis
    using assms
    by (auto simp: lib_msg_def demux_ipc_socket_call_def ipc_types ipc_fcntl_def Let_def
        ipc_write_rc_def mwrite_def)
next
  case (Do_write data)
  let ?h = "\<lparr>im_type = IPC_WRITE, im_pid = lb_pid l\<rparr>"
  let ?p = "\<lparr>iw_sockfd = of_int fd, iw_len = of_nat (length data)\<rparr> :: ipc_write"
  have "length data < 18446744073709551616"
    using assms(1) Do_write by simp
  then have len: "unat (of_nat (length data) :: u64) = length data"
    by (simp add: unat_of_nat)
  have buf: "buf = enc_ipc_msg ?h @ enc_ipc_write ?p @ take 8174 data @ stale"
    using assms(5) Do_write by (simp add: lib_msg_def)
  have front: "mread buf 18 (if length data > 8174 then 8174 else length data) = take 8174 data"
    by (simp add: buf mread_def)
  have more: "ev_more e n = Some (take n (drop 8174 data))" for n
    using assms(3) Do_write by (simp add: lib_msg_def)
  have "ipc_write e buf w = Done 0 (Some (ipc_write_rc buf IPC_WRITE rc)) buf w'"
    using assms(1,2,4) Do_write
    unfolding ipc_write_def Let_def
    by (simp add: front more) (simp add: buf len)
  then show ?thesis
    using Do_write by (simp add: demux_ipc_socket_call_def buf ipc_types ipc_write_rc_def)
qed

text \<open>A message that a handler answers is answered on the connection.\<close>

lemma link_serve_done:
  assumes "lk_thread lk = Reading old" "lk_in lk = []" "m \<noteq> []" "length old = IPC_BUFLEN"
    and "demux_ipc_socket_call (e\<lparr>ev_more := \<lambda>n. Some (take n (drop IPC_BUFLEN m))\<rparr>)
           (take IPC_BUFLEN m @ drop (length m) old) (sv_world (lk_server lk)) = Done rc (Some r) buf w"
    and "r \<noteq> []" "rc \<noteq> - 1"
  shows "link_serve e sfd m lk
    = Some (r, \<lparr>lk_server = (lk_server lk)\<lparr>sv_world := w\<rparr>, lk_thread = Reading buf, lk_in = []\<rparr>)"
proof -
  have "drop (length (take IPC_BUFLEN m)) old = drop (length m) old"
    using assms(4) by (simp add: min_def)
  then show ?thesis
    using assms by (simp add: link_serve_def link_turn_def socket_ipc_open_def ipc_next_def)
qed

lemma lib_msg_ne [simp]: "lib_msg t l p \<noteq> []"
  by (simp add: lib_msg_def enc_ipc_msg_def le16_def)

lemma enc_ipc_msg_ne [simp]: "enc_ipc_msg h \<noteq> []"
  by (simp add: enc_ipc_msg_def le16_def)

lemma call_transmitted:
  assumes "link_ready lk" "call_ok (ev_stack e) c" "int32 fd" "int32 rc"
    and "direct_call c (ev_iss e) (sint (lb_pid l)) fd (sv_world (lk_server lk)) = Some (rc, w')"
  obtains buf where "length buf = IPC_BUFLEN"
    "run (link_libc e sfd hffd) (transmit_hfip hffd (lib_msg (call_type c) l (call_payload c fd l)) l) lk
       = Some (Some (client_rc rc, client_lib rc l),
               \<lparr>lk_server = (lk_server lk)\<lparr>sv_world := w'\<rparr>, lk_thread = Reading buf, lk_in = []\<rparr>)"
proof -
  let ?m = "lib_msg (call_type c) l (call_payload c fd l)"
  let ?h = "\<lparr>im_type = call_type c, im_pid = lb_pid l\<rparr>"
  from assms(1) obtain old where old: "lk_thread lk = Reading old" "lk_in lk = []"
    "length old = IPC_BUFLEN" by (auto simp: link_ready_def)
  let ?buf = "take IPC_BUFLEN ?m @ drop (length ?m) old"
  have "demux_ipc_socket_call (e\<lparr>ev_more := \<lambda>n. Some (take n (drop IPC_BUFLEN ?m))\<rparr>) ?buf
      (sv_world (lk_server lk))
    = Done 0 (Some (enc_ipc_msg ?h @ enc_ipc_err (ipc_err_of rc))) ?buf w'"
    using assms by (intro call_served) simp_all
  from link_serve_done [OF old(1,2) _ old(3) this]
  have "link_serve e sfd ?m lk = Some (enc_ipc_msg ?h @ enc_ipc_err (ipc_err_of rc),
      \<lparr>lk_server = (lk_server lk)\<lparr>sv_world := w'\<rparr>, lk_thread = Reading ?buf, lk_in = []\<rparr>)"
    by simp
  from lk.transmit [OF assms(1) this [unfolded lib_msg_def] assms(4), folded lib_msg_def]
  show thesis
    by (rule that [rotated]) (use old(3) in simp)
qed

text \<open>
  C9: A \<open>connect\<close>, \<open>write\<close>, \<open>close\<close> or \<open>fcntl\<close> that a program makes through the library on a hf-ip
  socket does what the call of the socket layer does, with the same arguments, in the server: if
  that call ends with result \<open>rc\<close> in the world \<open>w'\<close>, the library call returns, the server's world
  is \<open>w'\<close>, and the program gets \<open>rc\<close>, or \<open>-1\<close> and \<open>errno = -rc\<close> when \<open>rc\<close> is negative.  This is so
  for writes of any length, also when the message does not fit the buffer of the server.
\<close>

theorem calls_through_server:
  assumes "sock_search fd (lb_socks l) = (Some sock, True)" "hs_hffd sock = hffd"
    and "link_ready lk" "call_ok (ev_stack e) c" "int32 fd" "int32 rc"
    and "direct_call c (ev_iss e) (sint (lb_pid l)) fd (sv_world (lk_server lk)) = Some (rc, w')"
  shows "\<exists>lk'. run (link_libc e sfd hffd) (lib_call c fd l) lk
           = Some (Some (client_rc rc, client_lib rc l), lk')
         \<and> sv_world (lk_server lk') = w' \<and> (c \<noteq> Do_close \<longrightarrow> link_ready lk')"
proof -
  from assms obtain buf where buf: "length buf = IPC_BUFLEN"
    "run (link_libc e sfd hffd) (transmit_hfip hffd (lib_msg (call_type c) l (call_payload c fd l)) l) lk
       = Some (Some (client_rc rc, client_lib rc l),
               \<lparr>lk_server = (lk_server lk)\<lparr>sv_world := w'\<rparr>, lk_thread = Reading buf, lk_in = []\<rparr>)"
    using call_transmitted by blast
  show ?thesis
  proof (cases "c = Do_close")
    case True
    then show ?thesis
      using buf assms(2) unfolding lib_call_eq [OF assms(1)] Let_def
      by (simp add: free_socket_def pass_rc_def link_libc_def link_turn_def socket_ipc_open_def
          sysret_ok_def ipc_free_thread_def split: option.splits)
  next
    case False
    then show ?thesis
      using buf assms(2) unfolding lib_call_eq [OF assms(1)] Let_def
      by (simp add: link_ready_def)
  qed
qed

subsection \<open>Reading\<close>

lemma unat_u64_of_nat: "n < 2147483648 \<Longrightarrow> unat (of_nat n :: u64) = n"
  by (simp add: unat_of_nat)

lemma sint_len_u32: "n < 2147483648 \<Longrightarrow> sint (ucast (of_nat n :: u64) :: u32) = int n"
proof -
  assume "n < 2147483648"
  then have "(ucast (of_nat n :: u64) :: u32) = of_int (int n)"
    by (simp add: unsigned_of_nat take_bit_nat_eq_self)
  moreover have "int32 (int n)"
    using \<open>n < 2147483648\<close> by (simp add: int32_def)
  ultimately show ?thesis
    by (simp only: sint_of_int32)
qed

lemma read_served:
  assumes "len \<le> ev_stack e" "len < 2147483648" "int32 fd" "int32 rlen"
    and "rlen < 0 \<or> rlen = int (length got) \<and> length got \<le> len"
    and "read_call (sint (lb_pid l)) fd (int len) w = Ret rlen got w'"
    and "buf = lib_msg IPC_READ l (enc_ipc_read \<lparr>ir_sockfd = of_int fd, ir_len = of_nat len\<rparr>) @ stale"
  shows "demux_ipc_socket_call e buf w
    = Done 0 (Some (enc_ipc_msg \<lparr>im_type = IPC_READ, im_pid = lb_pid l\<rparr>
        @ enc_ipc_err (ipc_err_of rlen) @ enc_ipc_read \<lparr>ir_sockfd = of_int fd, ir_len = of_int rlen\<rparr>
        @ (if rlen < 0 then [] else got))) buf w'"
proof -
  have err: "\<lparr>ie_rc = (if rlen < 0 then - 1 else of_int rlen),
              ie_err = (if rlen < 0 then of_int (- rlen) else 0)\<rparr> = ipc_err_of rlen"
    by (simp add: ipc_err_of_def)
  have data: "take (nat rlen) (got @ drop (length got) (replicate len 0)) = (if rlen < 0 then [] else got)"
    using assms(5) by auto
  have buf: "buf = enc_ipc_msg \<lparr>im_type = IPC_READ, im_pid = lb_pid l\<rparr>
      @ enc_ipc_read \<lparr>ir_sockfd = of_int fd, ir_len = of_nat len\<rparr> @ stale"
    using assms(7) by (simp add: lib_msg_def)
  have "ipc_read_reply buf rlen got = enc_ipc_msg \<lparr>im_type = IPC_READ, im_pid = lb_pid l\<rparr>
        @ enc_ipc_err (ipc_err_of rlen) @ enc_ipc_read \<lparr>ir_sockfd = of_int fd, ir_len = of_int rlen\<rparr>
        @ (if rlen < 0 then [] else got)"
    unfolding ipc_read_reply_def Let_def err using data
    by (simp add: buf unat_u64_of_nat [OF assms(2)])
  then show ?thesis
    using assms(1-3,6)
    by (simp add: demux_ipc_socket_call_def ipc_types ipc_read_def ipc_read_done_def Let_def buf
        unat_u64_of_nat sint_len_u32)
qed

text \<open>
  C15: A \<open>read\<close> through the library returns what \<open>_read\<close> returns in the server: its bytes at the
  front of the buffer, cleared behind them, and their number; or \<open>-1\<close> with \<open>errno\<close>, the buffer as it
  was.
\<close>

theorem read_through_server:
  assumes "sock_search fd (lb_socks l) = (Some sock, True)" "hs_hffd sock = hffd" "link_ready lk"
    and "len \<le> ev_stack e" "len < 2147483648" "int32 fd" "int32 rlen"
    and "rlen < 0 \<or> rlen = int (length got) \<and> length got \<le> len"
    and "read_call (sint (lb_pid l)) fd (int len) (sv_world (lk_server lk)) = Ret rlen got w'"
  shows "\<exists>lk'. run (link_libc e sfd hffd) (hfip_read fd len l) lk
           = Some (Some (client_rc rlen,
                         if rlen < 0 then None else Some (got @ replicate (len - length got) 0),
                         client_lib rlen l), lk')
         \<and> sv_world (lk_server lk') = w' \<and> link_ready lk'"
proof -
  let ?p = "enc_ipc_read \<lparr>ir_sockfd = of_int fd, ir_len = of_nat len\<rparr>"
  let ?m = "lib_msg IPC_READ l ?p"
  let ?b = "enc_ipc_err (ipc_err_of rlen) @ enc_ipc_read \<lparr>ir_sockfd = of_int fd, ir_len = of_int rlen\<rparr>
        @ (if rlen < 0 then [] else got)"
  from assms(3) obtain old where old: "lk_thread lk = Reading old" "lk_in lk = []"
    "length old = IPC_BUFLEN" by (auto simp: link_ready_def)
  let ?buf = "?m @ drop (length ?m) old"
  let ?lk = "\<lparr>lk_server = (lk_server lk)\<lparr>sv_world := w'\<rparr>, lk_thread = Reading ?buf, lk_in = []\<rparr>"
  have m: "length ?m = 18" by (simp add: lib_msg_def)
  have "demux_ipc_socket_call (e\<lparr>ev_more := \<lambda>n. Some (take n (drop IPC_BUFLEN ?m))\<rparr>)
      (take IPC_BUFLEN ?m @ drop (length ?m) old) (sv_world (lk_server lk))
    = Done 0 (Some (enc_ipc_msg \<lparr>im_type = IPC_READ, im_pid = lb_pid l\<rparr> @ ?b)) ?buf w'"
    using assms m by (subst read_served [where fd = fd and rlen = rlen and got = got and len = len
          and l = l and w' = w' and stale = "drop (length ?m) old"]) simp_all
  from link_serve_done [OF old(1,2) _ old(3) this]
  have serve: "link_serve e sfd ?m lk
      = Some (enc_ipc_msg \<lparr>im_type = IPC_READ, im_pid = lb_pid l\<rparr> @ ?b, ?lk)"
    by simp
  have "6 + length ?b \<le> 26 + len" using assms(8) by auto
  note ex = lk.exchanged [OF assms(3) serve this]
  have "run (link_libc e sfd hffd) (hfip_read fd len l) lk
      = Some (Some (client_rc rlen,
                         if rlen < 0 then None else Some (got @ replicate (len - length got) 0),
                         client_lib rlen l), ?lk)"
  proof (cases "rlen < 0")
    case True
    then show ?thesis
      using assms(1,2) ipc_err_of_view [OF assms(7)]
      by (simp add: hfip_read_def hfip_get_sock_def lcheck_def ex client_lib_def client_rc_def Let_def)
  next
    case False
    then have rlen: "rlen = int (length got)" "length got \<le> len" using assms(8) by auto
    then have "unat (of_int rlen :: u64) = length got"
      using assms(5) by (simp add: unat_u64_of_nat)
    moreover have "mread (?b @ xs) 20 (length got) = got" for xs
      using False by (simp add: mread_def)
    ultimately show ?thesis
      using assms(1,2) ipc_err_of_view [OF assms(7)] rlen False
      by (simp add: hfip_read_def hfip_get_sock_def lcheck_def ex client_lib_def client_rc_def Let_def)
  qed
  moreover have "link_ready ?lk" using m old(3) by (simp add: link_ready_def)
  ultimately show ?thesis by fastforce
qed

subsection \<open>Polling\<close>

definition same_entry :: "pollfd \<Rightarrow> pollfd \<Rightarrow> bool" where
  "same_entry p p' \<longleftrightarrow> pf_fd p' = pf_fd p \<and> pf_events p' = pf_events p"

lemma poll_pass_entries:
  "poll_pass pid fds w = (r, fds', w') \<Longrightarrow> list_all2 same_entry fds fds'"
proof (induction fds arbitrary: w r fds' w')
  case (Cons p ps)
  then show ?case
    by (auto simp: same_entry_def list_all2_refl Let_def split: option.splits prod.splits)
qed simp

lemma poll_round_entries:
  assumes "poll_round pid fds timeout w = (r, fds', w')"
  shows "list_all2 same_entry fds fds'"
proof (cases "poll_pass pid fds w")
  case (fields r1 fds1 w1)
  with poll_pass_entries [OF this] assms show ?thesis
    by (auto simp: poll_round_def split: sum.splits if_splits)
qed

lemma of_pollfd_sel [simp]:
  "ipf_events (of_pollfd p) = pf_events p" "ipf_revents (of_pollfd p) = pf_revents p"
  by (simp_all add: of_pollfd_def)

lemma put_events_all:
  assumes "list_all2 same_entry fds fds'" "length pre = k"
  shows "put_events [k..<k + length fds] (map of_pollfd fds') (pre @ fds) = pre @ fds'"
  using assms
proof (induction arbitrary: k pre rule: list_all2_induct)
  case (Cons p ps p' ps')
  have p': "p\<lparr>pf_events := pf_events p', pf_revents := pf_revents p'\<rparr> = p'"
    using Cons.hyps(1) by (simp add: same_entry_def)
  have "put_events [Suc k..<Suc k + length ps] (map of_pollfd ps') ((pre @ [p']) @ ps) = (pre @ [p']) @ ps'"
    using Cons.prems by (intro Cons.IH) simp
  then show ?case
    using Cons.prems by (simp add: upt_conv_Cons p' nth_append list_update_append del: upt_Suc)
qed simp

text \<open>Of several sockets the library asks over the connection of the last.\<close>

lemma poll_split_all:
  assumes "\<forall>p\<in>set fds. \<exists>sock. sock_search (pf_fd p) (lb_socks l) = (Some sock, True)"
    and "fds \<noteq> []" "sock_search (pf_fd (last fds)) (lb_socks l) = (Some sock, True)"
  shows "poll_split k fds l (h, [], x) = ((h @ [k..<k + length fds], [], hs_hffd sock), l)"
  using assms
proof (induction fds arbitrary: k h x)
  case (Cons p ps)
  obtain s where s: "sock_search (pf_fd p) (lb_socks l) = (Some s, True)" using Cons.prems(1) by auto
  show ?case
  proof (cases "ps = []")
    case True
    then show ?thesis using Cons.prems(3) by (simp add: hfip_get_sock_def lcheck_def)
  next
    case False
    with Cons.IH [OF _ False] Cons.prems s show ?thesis
      by (simp add: hfip_get_sock_def lcheck_def upt_conv_Cons del: upt_Suc)
  qed
qed simp

lemma map_nth_front: "map (\<lambda>i. f (xs ! i)) [0..<length xs] = map f xs"
  by (rule nth_equalityI) simp_all

definition poll_msg :: "lib \<Rightarrow> pollfd list \<Rightarrow> int \<Rightarrow> bytes" where
  "poll_msg l fds timeout =
     lib_msg IPC_POLL l (enc_ipc_poll \<lparr>ipo_nfds = of_nat (length fds), ipo_timeout = of_int timeout\<rparr>
       @ enc_pollfds (map ipc_of_pollfd fds))"

lemma poll_served:
  assumes "length fds \<le> 1021" "\<forall>p\<in>set fds. int32 (pf_fd p)" "int32 timeout"
    and "poll_round (sint (lb_pid l)) fds timeout w = (Inl rc, fds', w')"
    and "buf = poll_msg l fds timeout @ stale" "length buf = IPC_BUFLEN"
  shows "demux_ipc_socket_call e buf w
    = Done 0 (Some (enc_ipc_msg \<lparr>im_type = IPC_POLL, im_pid = lb_pid l\<rparr> @ enc_ipc_err (ipc_err_of rc)
        @ enc_pollfds (map of_pollfd fds'))) buf w'"
proof -
  let ?ps = "map ipc_of_pollfd fds"
  let ?po = "\<lparr>ipo_nfds = of_nat (length fds), ipo_timeout = of_int timeout\<rparr> :: ipc_poll"
  have buf: "buf = enc_ipc_msg \<lparr>im_type = IPC_POLL, im_pid = lb_pid l\<rparr> @ enc_ipc_poll ?po
      @ enc_pollfds ?ps @ stale"
    using assms(5) by (simp add: poll_msg_def lib_msg_def)
  have n: "unat (of_nat (length fds) :: u64) = length ?ps"
    using assms(1) by (simp add: unat_u64_of_nat)
  have "map to_pollfd ?ps = fds"
    using assms(2) by (auto simp: to_pollfd_def ipc_of_pollfd_def intro!: map_idI)
  moreover have "drop 18 buf = enc_pollfds ?ps @ stale"
    by (simp add: buf)
  ultimately have "ipc_poll buf w = ipc_poll_done buf (poll_round (sint (lb_pid l)) fds timeout w)"
    using assms(1,3,6) dec_enc_pollfds [of ?ps stale]
    unfolding ipc_poll_def Let_def
    by (simp add: buf n del: dec_enc_pollfds)
  then show ?thesis
    using assms(4) by (simp add: demux_ipc_socket_call_def buf ipc_types ipc_poll_done_def ipc_poll_reply_def)
qed

lemma length_poll_msg [simp]: "length (poll_msg l fds timeout) = 18 + 8 * length fds"
  by (simp add: poll_msg_def lib_msg_def)

lemma poll_msg_eq:
  "poll_msg l fds timeout =
     lib_msg IPC_POLL l (enc_ipc_poll \<lparr>ipo_nfds = of_nat (length fds), ipo_timeout = of_int timeout\<rparr>
       @ enc_pollfds (map (\<lambda>i. ipc_of_pollfd (fds ! i)) [0..<length fds]))"
  unfolding poll_msg_def map_nth_front [of ipc_of_pollfd fds] ..

text \<open>
  C29: A \<open>poll\<close> of any hf-ip sockets, each with its own connection to the server, and of no others,
  whose round in the server ends: the library asks once, over the connection of the last socket,
  about all of them, whichever connections they have; the call returns the server's count with the
  events it found stored in the entries, or \<open>-1\<close> with \<open>errno\<close>, the entries as they were.
\<close>

theorem poll_through_server:
  assumes "\<forall>p\<in>set fds. int32 (pf_fd p) \<and> (\<exists>sock. sock_search (pf_fd p) (lb_socks l) = (Some sock, True))"
    and "link_ready lk" "fds \<noteq> []" "length fds \<le> 1021" "int32 timeout" "int32 rc"
    and "poll_round (sint (lb_pid l)) fds timeout (sv_world (lk_server lk)) = (Inl rc, fds', w')"
    and "sock_search (pf_fd (last fds)) (lb_socks l) = (Some sock, True)" "hs_hffd sock = hffd"
  shows "\<exists>lk'. run (link_libc e sfd hffd) (hfip_poll (Suc n) fds timeout l) lk
           = Some (Some (client_rc rc, if rc < 0 then fds else fds', client_lib rc l), lk')
         \<and> sv_world (lk_server lk') = w' \<and> link_ready lk'"
proof -
  let ?m = "poll_msg l fds timeout"
  let ?r = "enc_ipc_msg \<lparr>im_type = IPC_POLL, im_pid = lb_pid l\<rparr> @ enc_ipc_err (ipc_err_of rc)
        @ enc_pollfds (map of_pollfd fds')"
  from assms(2) obtain old where old: "lk_thread lk = Reading old" "lk_in lk = []"
    "length old = IPC_BUFLEN" by (auto simp: link_ready_def)
  let ?buf = "?m @ drop (length ?m) old"
  let ?lk = "\<lparr>lk_server = (lk_server lk)\<lparr>sv_world := w'\<rparr>, lk_thread = Reading ?buf, lk_in = []\<rparr>"
  note same = poll_round_entries [OF assms(7)]
  then have len: "length fds' = length fds" by (simp add: list_all2_lengthD)
  have ne: "?m \<noteq> []" by (simp add: poll_msg_def)
  have "demux_ipc_socket_call (e\<lparr>ev_more := \<lambda>n. Some (take n (drop IPC_BUFLEN ?m))\<rparr>)
      (take IPC_BUFLEN ?m @ drop (length ?m) old) (sv_world (lk_server lk)) = Done 0 (Some ?r) ?buf w'"
    using assms old(3) by (subst poll_served [where fds = fds and timeout = timeout and l = l
          and rc = rc and fds' = fds' and w' = w' and stale = "drop (length ?m) old"]) auto
  from link_serve_done [OF old(1,2) ne old(3) this]
  have serve: "link_serve e sfd ?m lk = Some (?r, ?lk)" by simp
  have "length ?r \<le> 14 + 8 * length fds" by (simp add: len)
  from lk.answered_elim [OF assms(2) serve this] obtain w s1 g where io:
    "link_libc e sfd hffd (S_write hffd ?m) lk = Some (w, s1)" "r_rc w \<noteq> - 1"
    "link_libc e sfd hffd (S_read hffd (14 + 8 * length fds)) s1 = Some (g, ?lk)" "r_rc g \<noteq> - 1"
    "r_data g = ?r" .
  have filled: "filled g (14 + 8 * length fds) (replicate (14 + 8 * length fds) 0) = ?r"
    using io(5) len by (simp add: filled_def)
  have put: "put_events [0..<length fds] (map of_pollfd fds') fds = fds'"
    using put_events_all [OF same, of "[]" 0] by simp
  have dec: "dec_pollfds (length fds) (enc_pollfds (map of_pollfd fds')) = map of_pollfd fds'"
    using dec_enc_pollfds [of "map of_pollfd fds'" "[]"] len by simp
  have split: "poll_split 0 fds l ([], [], 0) = (([0..<length fds], [], hffd), l)"
    using poll_split_all [OF _ assms(3,8), of 0 "[]" 0] assms(1,9) by simp
  have turn: "run (link_libc e sfd hffd)
      (poll_server [0..<length fds] hffd timeout False 0 fds l) lk
      = Some (Some (Inl (client_rc rc, if rc < 0 then fds else fds', client_lib rc l)), ?lk)"
    using io filled put dec ipc_err_of_view [OF assms(6)]
    unfolding poll_server_def Let_def
    by (simp flip: poll_msg_eq add: client_lib_def client_rc_def)
  have "run (link_libc e sfd hffd) (hfip_poll (Suc n) fds timeout l) lk
      = Some (Some (client_rc rc, if rc < 0 then fds else fds', client_lib rc l), ?lk)"
    using assms(3) by (simp add: hfip_poll_def split poll_turn_def turn)
  moreover have "link_ready ?lk" using old(3) assms(4) by (simp add: link_ready_def)
  ultimately show ?thesis by fastforce
qed

end
