(* ===== verification/Ipc_Session.thy ===== *)
theory Ipc_Session
  imports Ipc_Link
begin

unbundle bit_operations_syntax

text \<open>
  The calls that open a connection to the server or store through pointers (\<open>socket\<close>,
  \<open>getpeername\<close>, \<open>getsockname\<close>, \<open>getsockopt\<close>), a process's own sockets against others', and the
  list of threads of the server.
\<close>

subsection \<open>Opening a socket\<close>

definition opened :: "int \<Rightarrow> int \<Rightarrow> lib \<Rightarrow> lib" where
  "opened hffd rc l =
     client_lib rc
       (l\<lparr>lb_socks := lb_socks l @ [if rc < 0 then \<lparr>hs_hffd = hffd, hs_fd = 0, hs_freed = True\<rparr>
                                   else \<lparr>hs_hffd = hffd, hs_fd = rc, hs_freed = False\<rparr>],
          lb_count := lb_count l + 1\<rparr>)"

lemma socket_served:
  assumes "int32 domain" "int32 type" "int32 protocol"
    and "socket_call (sint (lb_pid l)) domain type protocol w = (rc, w')"
    and "buf = lib_msg IPC_SOCKET l (enc_ipc_socket \<lparr>is_domain = of_int domain, is_type = of_int type,
                                     is_protocol = of_int protocol\<rparr>) @ stale"
  shows "demux_ipc_socket_call e buf w
    = Done 0 (Some (enc_ipc_msg \<lparr>im_type = IPC_SOCKET, im_pid = lb_pid l\<rparr> @ enc_ipc_err (ipc_err_of rc)))
        buf w'"
  using assms
  by (simp add: lib_msg_def demux_ipc_socket_call_def ipc_types ipc_socket_def Let_def ipc_write_rc_def)

text \<open>
  C30: A supported \<open>socket\<close> call opens a connection to the server, which starts a thread for it and
  makes the socket; the program gets its descriptor, and the library remembers it with the
  connection, so later calls on it go there.
\<close>

theorem socket_through_server:
  assumes "is_socket_supported domain type protocol" "int32 type" "int32 rc" "hffd \<noteq> - 1"
    and "socket_call (sint (lb_pid l)) domain type protocol (sv_world (lk_server lk)) = (rc, w')"
  shows "\<exists>lk'. run (link_libc e sfd hffd) (hfip_socket domain type protocol l) lk
           = Some (Some (client_rc rc, opened hffd rc l), lk')
         \<and> lk_server lk' = (ipc_alloc_thread sfd (lk_server lk))\<lparr>sv_world := w'\<rparr> \<and> link_ready lk'"
proof -
  let ?l = "l\<lparr>lb_socks := lb_socks l @ [\<lparr>hs_hffd = hffd, hs_fd = 0, hs_freed = False\<rparr>],
             lb_count := lb_count l + 1\<rparr>"
  let ?p = "enc_ipc_socket \<lparr>is_domain = of_int domain, is_type = of_int type, is_protocol = of_int protocol\<rparr>"
  let ?old = "take IPC_BUFLEN (ev_junk e @ replicate IPC_BUFLEN 0)"
  let ?sv = "ipc_alloc_thread sfd (lk_server lk)"
  let ?lk = "\<lparr>lk_server = ?sv, lk_thread = Reading ?old, lk_in = []\<rparr>"
  let ?m = "lib_msg IPC_SOCKET ?l ?p"
  let ?buf = "?m @ drop (length ?m) ?old"
  let ?lk' = "\<lparr>lk_server = ?sv\<lparr>sv_world := w'\<rparr>, lk_thread = Reading ?buf, lk_in = []\<rparr>"
  have m: "length ?m = 18" by (simp add: lib_msg_def)
  have ready: "link_ready ?lk" by (simp add: link_ready_def)
  have ints: "int32 domain" "int32 protocol"
    using assms(1) by (auto simp: is_socket_supported_def int32_def)
  have "sv_world ?sv = sv_world (lk_server lk)"
    by (simp add: ipc_alloc_thread_def)
  then have demux: "demux_ipc_socket_call (e\<lparr>ev_more := \<lambda>n. Some (take n (drop IPC_BUFLEN ?m))\<rparr>)
      (take IPC_BUFLEN ?m @ drop (length ?m) ?old) (sv_world (lk_server ?lk))
      = Done 0 (Some (enc_ipc_msg \<lparr>im_type = IPC_SOCKET, im_pid = lb_pid l\<rparr> @ enc_ipc_err (ipc_err_of rc)))
          ?buf w'"
    using assms(2,5) ints m
    by (subst socket_served [where rc = rc and w' = w' and l = ?l and domain = domain and type = type
          and protocol = protocol and stale = "drop (length ?m) ?old"]) simp_all
  have "link_serve e sfd ?m ?lk
      = Some (enc_ipc_msg \<lparr>im_type = IPC_SOCKET, im_pid = lb_pid l\<rparr> @ enc_ipc_err (ipc_err_of rc), ?lk')"
    using link_serve_done [OF _ _ _ _ demux, of sfd] by simp
  from lk.transmit [where hffd = hffd and l = ?l, OF ready _ assms(3)] this
  have "run (link_libc e sfd hffd) (transmit_hfip hffd ?m ?l) ?lk
      = Some (Some (client_rc rc, client_lib rc ?l), ?lk')"
    by (simp add: lib_msg_def)
  moreover have "run (link_libc e sfd hffd) (init_socket l) lk = Some (Some (hffd, l), ?lk)"
    using assms(4) by (simp add: init_socket_def link_libc_def sysret_ok_def)
  moreover have "client_rc rc = - 1 \<longleftrightarrow> rc < 0" by (simp add: client_rc_def)
  moreover have "link_ready ?lk'" using m by (simp add: link_ready_def)
  ultimately show ?thesis
    using assms(1) by (simp add: hfip_socket_def hfip_alloc_def opened_def client_lib_def client_rc_def Let_def)
qed

subsection \<open>Names and options\<close>

lemma name_served:
  assumes "136 \<le> length (ev_junk e)" "int32 fd" "length (isn_sa_data nm) = 128"
    and "getpeername_call (sint (lb_pid l)) fd w = ((rc, addr), w')"
    and "buf = lib_msg IPC_GETPEERNAME l (enc_ipc_sockname (nm\<lparr>isn_socket := of_int fd\<rparr>)) @ stale"
  shows "\<exists>nr. demux_ipc_socket_call e buf w
      = Done rc (Some (enc_ipc_msg \<lparr>im_type = IPC_GETPEERNAME, im_pid = lb_pid l\<rparr>
                  @ enc_ipc_err (ipc_err_of rc) @ enc_ipc_sockname nr)) buf w'
    \<and> length (isn_sa_data nr) = 128 \<and> isn_socket nr = of_int fd
    \<and> (\<forall>a. addr = Some a \<longrightarrow> isn_address_len nr = 16 \<and> take 8 (isn_sa_data nr) = enc_sockaddr a)"
proof -
  have buf: "buf = enc_ipc_msg \<lparr>im_type = IPC_GETPEERNAME, im_pid = lb_pid l\<rparr>
      @ enc_ipc_sockname (nm\<lparr>isn_socket := of_int fd\<rparr>) @ stale"
    using assms(5) by (simp add: lib_msg_def)
  have "length (isn_sa_data (dec_ipc_sockname (ev_junk e))) = 128"
    using assms(1) by (simp add: dec_ipc_sockname_def length_mread)
  then show ?thesis
    using assms(2-4)
    by (auto simp: demux_ipc_socket_call_def buf ipc_types ipc_getpeername_def name_reply_def Let_def
        mwrite_def split: option.splits)
qed

text \<open>
  \<open>getpeername\<close> through the library stores the name the server found, a \<open>sockaddr_in\<close> whose
  first 8 bytes are its family, port and address, and the length 16; when the server found none,
  the program gets \<open>-1\<close> and \<open>errno\<close>, and nothing is stored.
\<close>

theorem getpeername_through_server:
  assumes "sock_search fd (lb_socks l) = (Some sock, True)" "hs_hffd sock = hffd" "link_ready lk"
    and "int32 fd" "136 \<le> length (ev_junk e)" "int32 rc"
    and "getpeername_call (sint (lb_pid l)) fd (sv_world (lk_server lk)) = ((rc, addr), w')"
    and "if rc = 0 then addr = Some a else rc < - 1"
  shows "\<exists>lk' out. run (link_libc e sfd hffd) (hfip_getpeername fd l) lk
           = Some (Some (client_rc rc, out, client_lib rc l), lk')
         \<and> sv_world (lk_server lk') = w' \<and> link_ready lk'
         \<and> (if rc = 0 then \<exists>pad. length pad = 8 \<and> out = Some (enc_sockaddr a @ pad, 16) else out = None)"
proof -
  let ?nm = "(dec_ipc_sockname (junk 136 l))\<lparr>isn_socket := of_int fd\<rparr>"
  let ?m = "lib_msg IPC_GETPEERNAME l (enc_ipc_sockname ?nm)"
  let ?h = "\<lparr>im_type = IPC_GETPEERNAME, im_pid = lb_pid l\<rparr>"
  from assms(3) obtain old where old: "lk_thread lk = Reading old" "lk_in lk = []"
    "length old = IPC_BUFLEN" by (auto simp: link_ready_def)
  let ?buf = "?m @ drop (length ?m) old"
  let ?lk = "\<lparr>lk_server = (lk_server lk)\<lparr>sv_world := w'\<rparr>, lk_thread = Reading ?buf, lk_in = []\<rparr>"
  have nm: "length (isn_sa_data (dec_ipc_sockname (junk 136 l))) = 128"
    by (simp add: dec_ipc_sockname_def length_mread)
  have m: "length ?m = 142" using nm by (simp add: lib_msg_def)
  from name_served [OF _ assms(4) nm assms(7) refl, of "e\<lparr>ev_more := \<lambda>n. Some (take n (drop IPC_BUFLEN ?m))\<rparr>"
      "drop (length ?m) old"] assms(5)
  obtain nr where nr: "demux_ipc_socket_call (e\<lparr>ev_more := \<lambda>n. Some (take n (drop IPC_BUFLEN ?m))\<rparr>) ?buf
        (sv_world (lk_server lk))
      = Done rc (Some (enc_ipc_msg ?h @ enc_ipc_err (ipc_err_of rc) @ enc_ipc_sockname nr)) ?buf w'"
    "length (isn_sa_data nr) = 128"
    "\<And>a. addr = Some a \<Longrightarrow> isn_address_len nr = 16 \<and> take 8 (isn_sa_data nr) = enc_sockaddr a"
    by auto
  have rc: "rc \<noteq> - 1" using assms(8) by (auto split: if_splits)
  have "link_serve e sfd ?m lk
      = Some (enc_ipc_msg ?h @ enc_ipc_err (ipc_err_of rc) @ enc_ipc_sockname nr, ?lk)"
    using m nr(1) by (intro link_serve_done [OF old(1,2) _ old(3) _ _ rc]) simp_all
  note ex = lk.exchanged [OF assms(3) this, of 150]
  have ready: "link_ready ?lk" using m old(3) by (simp add: link_ready_def)
  show ?thesis
  proof (cases "rc = 0")
    case True
    then have a: "isn_address_len nr = 16" "take 8 (isn_sa_data nr) = enc_sockaddr a"
      using assms(8) nr(3) by auto
    then have "take 16 (isn_sa_data nr) = enc_sockaddr a @ take 8 (drop 8 (isn_sa_data nr))"
      using take_add [of 8 8 "isn_sa_data nr"] by simp
    then have run: "run (link_libc e sfd hffd) (hfip_getpeername fd l) lk
        = Some (Some (0, Some (enc_sockaddr a @ take 8 (drop 8 (isn_sa_data nr)), 16), l), ?lk)"
      using True assms(1,2) nr(2) a(1)
      by (simp add: ex hfip_getpeername_def hfip_name_def hfip_get_sock_def lcheck_def Let_def ipc_err_of_def)
    then show ?thesis
      using True ready nr(2)
      by (intro exI [where x = ?lk] exI [where x = "Some (enc_sockaddr a @ take 8 (drop 8 (isn_sa_data nr)), 16)"])
        (simp add: client_rc_def client_lib_def)
  next
    case False
    then have "rc < 0" using assms(8) by auto
    then have "ie_rc (ipc_err_of rc) \<noteq> 0" by (simp add: ipc_err_of_def)
    then show ?thesis
      using False assms(1,2) nr(2) ready ipc_err_of_view [OF assms(6)] \<open>rc < 0\<close>
      by (auto simp: ex hfip_getpeername_def hfip_name_def hfip_get_sock_def lcheck_def Let_def
          client_rc_def client_lib_def)
  qed
qed

text \<open>The option's value, an \<open>int\<close>, is stored into the message and sent back with it.\<close>

lemma mwrite_seg:
  "length xs = off \<Longrightarrow> length bs = length old \<Longrightarrow> mwrite (xs @ old @ ys) off bs = xs @ bs @ ys"
  by (simp add: mwrite_def)

lemma sockopt_served:
  assumes "int32 fd" "int32 level" "int32 optname" "length optval = 4" "length buf = IPC_BUFLEN"
    and "getsockopt_call (sint (lb_pid l)) fd level optname w = ((rc, val), w')"
    and "buf = lib_msg IPC_GETSOCKOPT l (enc_ipc_sockopt \<lparr>iso_fd = of_int fd, iso_level = of_int level,
                 iso_optname = of_int optname, iso_optlen = 4\<rparr> @ optval) @ stale"
  shows "demux_ipc_socket_call e buf w
    = Done rc (Some (enc_ipc_msg \<lparr>im_type = IPC_GETSOCKOPT, im_pid = lb_pid l\<rparr> @ enc_ipc_err (ipc_err_of rc)
        @ enc_ipc_sockopt \<lparr>iso_fd = of_int fd, iso_level = of_int level, iso_optname = of_int optname,
                           iso_optlen = 4\<rparr>
        @ (case val of None \<Rightarrow> optval | Some v \<Rightarrow> le32 (of_int v))))
        (take 22 buf @ (case val of None \<Rightarrow> optval | Some v \<Rightarrow> le32 (of_int v)) @ stale) w'"
proof -
  let ?h = "\<lparr>im_type = IPC_GETSOCKOPT, im_pid = lb_pid l\<rparr>"
  let ?o = "\<lparr>iso_fd = of_int fd, iso_level = of_int level, iso_optname = of_int optname, iso_optlen = 4\<rparr>
      :: ipc_sockopt"
  let ?v = "case val of None \<Rightarrow> optval | Some v \<Rightarrow> le32 (of_int v)"
  have buf: "buf = enc_ipc_msg ?h @ enc_ipc_sockopt ?o @ optval @ stale"
    using assms(7) by (simp add: lib_msg_def)
  have opt: "enc_ipc_sockopt ?o = (le32 (of_int fd) @ le32 (of_int level) @ le32 (of_int optname)) @ le32 4"
    by (simp add: enc_ipc_sockopt_def)
  have "mwrite buf 18 (le32 4) = buf"
    unfolding buf opt append_assoc
    by (subst append_assoc [symmetric], subst append_assoc [symmetric], subst append_assoc [symmetric],
        subst mwrite_seg) simp_all
  moreover have "mwrite buf 22 (le32 v) = (enc_ipc_msg ?h @ enc_ipc_sockopt ?o) @ le32 v @ stale" for v
    unfolding buf using assms(4) by (subst append_assoc [symmetric], subst mwrite_seg) simp_all
  ultimately have stored: "(case val of None \<Rightarrow> buf
      | Some v \<Rightarrow> mwrite (mwrite buf 18 (le32 4)) 22 (le32 (of_int v)))
      = enc_ipc_msg ?h @ enc_ipc_sockopt ?o @ ?v @ stale"
    by (auto simp: buf split: option.splits)
  have v: "length ?v = 4" using assms(4) by (simp split: option.splits)
  then have "26 + length stale = IPC_BUFLEN" using assms(4,5) by (simp add: buf)
  moreover have "mread (enc_ipc_msg ?h @ enc_ipc_sockopt ?o @ ?v @ stale) 22 4 = ?v"
    using v by (simp add: mread_def)
  moreover have "take 22 buf = enc_ipc_msg ?h @ enc_ipc_sockopt ?o"
    by (simp add: buf)
  moreover have "getsockopt_call (msg_pid buf) (sint (iso_fd ?o)) (sint (iso_level ?o))
      (sint (iso_optname ?o)) w = ((rc, val), w')"
    using assms(1-3,6) by (simp add: buf)
  moreover have "dec_ipc_sockopt (drop 6 buf) = ?o" "im_type (dec_ipc_msg buf) = IPC_GETSOCKOPT"
    by (simp_all add: buf)
  ultimately show ?thesis
    using v
    by (simp add: demux_ipc_socket_call_def ipc_types ipc_getsockopt_def Let_def stored)
qed

text \<open>
  C31: \<open>getsockopt\<close> through the library: the program gets the value the server found with its sign
  changed, so a pending error comes out as a positive number as with libc, and the length 4; an
  option the server does not know gives \<open>-1\<close> and \<open>errno\<close>.  On the way the library writes the option
  value behind its local \<open>opts\<close>, outside the object.
\<close>

theorem getsockopt_through_server:
  assumes "sock_search fd (lb_socks l) = (Some sock, True)" "hs_hffd sock = hffd" "link_ready lk"
    and "int32 fd" "int32 level" "int32 optname" "length optval = 4" "int32 rc"
    and "getsockopt_call (sint (lb_pid l)) fd level optname (sv_world (lk_server lk)) = ((rc, val), w')"
    and "if rc = 0 then val = Some v else rc < - 1"
  shows "\<exists>lk'. run (link_libc e sfd hffd) (hfip_getsockopt fd level optname optval l) lk
           = Some (Some (client_rc rc, if rc = 0 then Some (le32 (of_int (- v)), 4) else None,
                         (client_lib rc l)\<lparr>lb_fault := True\<rparr>), lk')
         \<and> sv_world (lk_server lk') = w' \<and> link_ready lk'"
proof -
  let ?o = "\<lparr>iso_fd = of_int fd, iso_level = of_int level, iso_optname = of_int optname, iso_optlen = 4\<rparr>
      :: ipc_sockopt"
  let ?l = "l\<lparr>lb_fault := True\<rparr>"
  let ?m = "lib_msg IPC_GETSOCKOPT ?l (enc_ipc_sockopt ?o @ optval)"
  let ?h = "\<lparr>im_type = IPC_GETSOCKOPT, im_pid = lb_pid ?l\<rparr>"
  let ?v = "case val of None \<Rightarrow> optval | Some v \<Rightarrow> le32 (of_int v)"
  let ?b = "enc_ipc_err (ipc_err_of rc) @ enc_ipc_sockopt ?o @ ?v"
  from assms(3) obtain old where old: "lk_thread lk = Reading old" "lk_in lk = []"
    "length old = IPC_BUFLEN" by (auto simp: link_ready_def)
  have m: "length ?m = 26" using assms(7) by (simp add: lib_msg_def)
  let ?buf = "take 22 (?m @ drop 26 old) @ ?v @ drop 26 old"
  let ?lk = "\<lparr>lk_server = (lk_server lk)\<lparr>sv_world := w'\<rparr>, lk_thread = Reading ?buf, lk_in = []\<rparr>"
  have v: "length ?v = 4" using assms(7) by (simp split: option.splits)
  have rc: "rc \<noteq> - 1" using assms(10) by (auto split: if_splits)
  have "demux_ipc_socket_call (e\<lparr>ev_more := \<lambda>n. Some (take n (drop IPC_BUFLEN ?m))\<rparr>)
      (?m @ drop 26 old) (sv_world (lk_server lk))
      = Done rc (Some (enc_ipc_msg ?h @ ?b)) ?buf w'"
    using assms(9) m old(3) by (intro sockopt_served [OF assms(4-7)]) simp_all
  then have "link_serve e sfd ?m lk = Some (enc_ipc_msg ?h @ ?b, ?lk)"
    using m by (intro link_serve_done [OF old(1,2) _ old(3) _ _ rc]) simp_all
  moreover have "6 + length ?b \<le> 34" using v by simp
  ultimately have ex: "run (link_libc e sfd hffd) (exchange hffd IPC_GETSOCKOPT
      (enc_ipc_sockopt ?o @ optval) 34 ?l k) lk
      = run (link_libc e sfd hffd) (k (Some ?b) ?l) ?lk" for k :: "_ \<Rightarrow> _ \<Rightarrow> (int \<times> stored \<times> lib) prog"
    using lk.exchanged [OF assms(3), of e sfd IPC_GETSOCKOPT ?l "enc_ipc_sockopt ?o @ optval" ?b ?lk 34] v
    by simp
  have "rd32 ?b 24 = rd32 ?v 0" by simp
  moreover have "rc = 0 \<Longrightarrow> rd32 ?v 0 = of_int v" using assms(10) by simp
  moreover have "ie_rc (ipc_err_of rc) = 0 \<longleftrightarrow> rc = 0" "rc \<noteq> 0 \<Longrightarrow> rc < 0"
    using assms(10) by (auto simp: ipc_err_of_def split: if_splits)
  ultimately have "run (link_libc e sfd hffd) (hfip_getsockopt fd level optname optval l) lk
      = Some (Some (client_rc rc, if rc = 0 then Some (le32 (of_int (- v)), 4) else None,
                    (client_lib rc l)\<lparr>lb_fault := True\<rparr>), ?lk)"
    using assms(1,2,7,10) ipc_err_of_view [OF assms(8)]
    by (simp add: ex hfip_getsockopt_def hfip_get_sock_def lcheck_def Let_def client_rc_def client_lib_def)
  moreover have "link_ready ?lk" using m old(3) v by (simp add: link_ready_def)
  ultimately show ?thesis by fastforce
qed

end
