(* ===== verification/Ipc_Demo.thy ===== *)
theory Ipc_Demo
  imports Ipc_Session Ipc_Server
begin

unbundle bit_operations_syntax

text \<open>
  The theorems on the IPC server and the library at concrete inputs: process 77 has one socket,
  descriptor 4097, whose connection the peer has closed; its library reaches the server over
  descriptor 5, the server's end is 9.
\<close>

definition demo_socket :: socket where
  "demo_socket = \<lparr>so_fd = 4097, so_pid = 77, so_refcnt = 1, so_state = SS_CONNECTED, so_type = 1,
     so_flags = O_RDWR, so_ops = True, so_sleeping = False, so_locked = False\<rparr>"

definition demo_sk :: tcp_sock where
  "demo_sk = tcp_alloc_sock\<lparr>sk_state := TCP_CLOSE_WAIT, sk_err := - 111, sk_poll_events := POLLOUT,
     sk_dport := 80, sk_daddr := 0x0a000005, tk_flags := TCP_FIN\<rparr>"

definition demo_world :: world where
  "demo_world = stack.extend (booted (\<lambda>f. int (length f)))
     (world.fields 40000 4098 1 [0] [0 \<mapsto> \<lparr>cn_sock = demo_socket, cn_sk = Some demo_sk\<rparr>] 1)"

definition demo_lib :: lib where
  "demo_lib = \<lparr>lb_socks = [\<lparr>hs_hffd = 5, hs_fd = 4097, hs_freed = False\<rparr>], lb_count = 1, lb_errno = 0,
     lb_pid = 77, lb_junk = [], lb_fault = False\<rparr>"

definition demo_server :: ipc_server where
  "demo_server = \<lparr>sv_sockets = [\<lparr>th_sock = 9\<rparr>], sv_socket_count = 1, sv_closed = [], sv_world = demo_world\<rparr>"

definition demo_link :: link where
  "demo_link = \<lparr>lk_server = demo_server, lk_thread = Reading (replicate 8192 0), lk_in = []\<rparr>"

definition demo_env :: ipc_env where
  "demo_env = \<lparr>ev_iss = 1000, ev_stack = 100000, ev_junk = replicate 136 7, ev_more = \<lambda>n. None\<rparr>"

lemma demo_world_sel [simp]:
  "w_conns demo_world = [0 \<mapsto> \<lparr>cn_sock = demo_socket, cn_sk = Some demo_sk\<rparr>]"
  "w_sockets demo_world = [0]" "w_fd demo_world = 4098" "w_next demo_world = 1"
  by (simp_all add: demo_world_def stack.defs world.defs)

lemma demo_socket_sel [simp]:
  "so_fd demo_socket = 4097" "so_pid demo_socket = 77" "so_flags demo_socket = 2" "so_refcnt demo_socket = 1"
  by (simp_all add: demo_socket_def O_RDWR_def)

lemma demo_sk_sel [simp]:
  "sk_state demo_sk = TCP_CLOSE_WAIT" "sk_err demo_sk = - 111" "sk_poll_events demo_sk = 4"
  "sk_dport demo_sk = 80" "sk_daddr demo_sk = 0x0a000005" "tk_flags demo_sk = 1" "sk_receive_queue demo_sk = []"
  by (simp_all add: demo_sk_def POLLOUT_def TCP_FIN_def tcp_alloc_sock_def sock.defs zero_sock_def)

lemma demo_get_socket [simp]:
  "get_socket 77 4097 demo_world = Some 0" "get_socket 78 4097 demo_world = None"
  by (simp_all add: get_socket_def)

lemma demo_focus [simp]:
  "focus 0 demo_world = Some (stack.extend (stack.truncate demo_world)
     (tcpctx.fields 0 (w_port demo_world) demo_sk demo_socket))"
  by (simp add: focus_def)

lemma demo_focus_sel [simp]:
  "c_sk (stack.extend s (tcpctx.fields i p k c)) = k"
  "c_sock (stack.extend s (tcpctx.fields i p k c)) = c"
  by (simp_all add: stack.defs tcpctx.defs)

lemma wr_acquire_sel [simp]:
  "c_sk (snd (socket_wr_acquire c)) = c_sk c"
  "so_flags (c_sock (snd (socket_wr_acquire c))) = so_flags (c_sock c)"
  by (simp_all add: socket_wr_acquire_def upd_sock_def Let_def check_def)

lemma demo_ready [simp]: "link_ready demo_link" "lk_server demo_link = demo_server"
  "sv_world demo_server = demo_world"
  by (simp_all add: link_ready_def demo_link_def demo_server_def)

lemma demo_sock [simp]:
  "sock_search 4097 (lb_socks demo_lib) = (Some \<lparr>hs_hffd = 5, hs_fd = 4097, hs_freed = False\<rparr>, True)"
  "lb_pid demo_lib = 77"
  by (simp_all add: demo_lib_def)

lemma demo_env_sel [simp]: "ev_stack demo_env = 100000" "length (ev_junk demo_env) = 136"
  by (simp_all add: demo_env_def)

lemma demo_getfl: "\<exists>w'. fcntl_call 77 4097 3 0 demo_world = (2, w')"
  by (simp add: fcntl_call_def on_conn_def locked_def)

theorem calls_through_server_witness:
  "\<exists>lk'. run (link_libc demo_env 9 5) (lib_call Do_getfl 4097 demo_lib) demo_link = Some (Some (2, demo_lib), lk')"
proof -
  from demo_getfl obtain w' where w': "fcntl_call 77 4097 3 0 demo_world = (2, w')" ..
  show ?thesis
    using calls_through_server [where c = Do_getfl and fd = 4097 and l = demo_lib and rc = 2 and hffd = 5
        and lk = demo_link and e = demo_env and w' = w' and sfd = 9,
        OF demo_sock(1)] w'
    by (auto simp: int32_def client_rc_def client_lib_def)
qed

lemma wr_acquire_state [simp]:
  "state_of (snd (socket_wr_acquire c)) = state_of c"
  by simp

lemma demo_read: "\<exists>w'. read_call 77 4097 10 demo_world = Ret 0 [] w'"
  by (simp add: read_call_def inet_read_def tcp_read_def read_result_def TCP_FIN_def)

theorem read_through_server_witness:
  "\<exists>lk'. run (link_libc demo_env 9 5) (hfip_read 4097 10 demo_lib) demo_link
     = Some (Some (0, Some (replicate 10 0), demo_lib), lk')"
proof -
  from demo_read obtain w' where w': "read_call 77 4097 10 demo_world = Ret 0 [] w'" ..
  show ?thesis
    using read_through_server [where fd = 4097 and l = demo_lib and rlen = 0 and hffd = 5 and len = 10
        and lk = demo_link and e = demo_env and w' = w' and sfd = 9 and got = "[]",
        OF demo_sock(1)] w'
    by (auto simp: int32_def client_rc_def client_lib_def)
qed

text \<open>
  Two sockets of process 77, 4097 over descriptor 5 and 4098 over descriptor 6, polled together.
\<close>

definition two_world :: world where
  "two_world = stack.extend (booted (\<lambda>f. int (length f)))
     (world.fields 40000 4099 2 [0, 1]
       [0 \<mapsto> \<lparr>cn_sock = demo_socket, cn_sk = Some demo_sk\<rparr>,
        1 \<mapsto> \<lparr>cn_sock = demo_socket\<lparr>so_fd := 4098\<rparr>, cn_sk = Some demo_sk\<rparr>] 2)"

definition two_lib :: lib where
  "two_lib = demo_lib\<lparr>lb_socks := [\<lparr>hs_hffd = 5, hs_fd = 4097, hs_freed = False\<rparr>,
     \<lparr>hs_hffd = 6, hs_fd = 4098, hs_freed = False\<rparr>], lb_count := 2\<rparr>"

definition two_link :: link where
  "two_link = demo_link\<lparr>lk_server := demo_server\<lparr>sv_world := two_world\<rparr>\<rparr>"

definition two_fds :: "int \<Rightarrow> pollfd list" where
  "two_fds ev = [\<lparr>pf_fd = 4097, pf_events = 4, pf_revents = of_int ev\<rparr>, \<lparr>pf_fd = 4098, pf_events = 1, pf_revents = 0\<rparr>]"

lemma look_at_conn:
  fixes w :: world
  assumes "w_conns w i = Some \<lparr>cn_sock = so, cn_sk = Some k\<rparr>" "so_refcnt so = 1"
  obtains w' so' where "on_conn i d (locked (\<lambda>c. (g (c_sk c), c))) w = (g k, w')"
    "w_sockets w' = w_sockets w" "w_conns w' = (w_conns w)(i \<mapsto> \<lparr>cn_sock = so', cn_sk = Some k\<rparr>)"
    "so_fd so' = so_fd so" "so_pid so' = so_pid so"
proof -
  let ?r = "on_conn i d (locked (\<lambda>c. (g (c_sk c), c))) w"
  let ?so = "so\<lparr>so_refcnt := 1, so_locked := False\<rparr>"
  obtain so' where "fst ?r = g k" "w_sockets (snd ?r) = w_sockets w"
    "w_conns (snd ?r) = (w_conns w)(i \<mapsto> \<lparr>cn_sock = so', cn_sk = Some k\<rparr>)" "so_fd so' = so_fd so" "so_pid so' = so_pid so"
    using assms
    by (auto simp: on_conn_def focus_def locked_def unfocus_def socket_wr_acquire_def socket_release_def
        upd_sock_def check_def Let_def stack.defs world.defs tcpctx.defs)
  then show thesis by (intro that [of "snd ?r" so']) (simp_all add: prod_eq_iff)
qed

lemma two_poll: "\<exists>w'. poll_round 77 (two_fds 0) 0 two_world = (Inl 1, two_fds 4, w')"
proof -
  have w: "w_sockets two_world = [0, 1]" "w_conns two_world 0 = Some \<lparr>cn_sock = demo_socket, cn_sk = Some demo_sk\<rparr>"
    "w_conns two_world (Suc 0) = Some \<lparr>cn_sock = demo_socket\<lparr>so_fd := 4098\<rparr>, cn_sk = Some demo_sk\<rparr>"
    by (simp_all add: two_world_def stack.defs world.defs)
  obtain w1 so where w1: "on_conn 0 0 (locked (\<lambda>c. (sk_poll_events (c_sk c), c))) two_world = (4, w1)"
    "w_sockets w1 = [0, 1]" "w_conns w1 = (w_conns two_world)(0 \<mapsto> \<lparr>cn_sock = so, cn_sk = Some demo_sk\<rparr>)"
    "so_fd so = 4097" "so_pid so = 77"
    using look_at_conn [OF w(2), of 0 sk_poll_events] w(1) by auto
  have c1: "w_conns w1 (Suc 0) = Some \<lparr>cn_sock = demo_socket\<lparr>so_fd := 4098\<rparr>, cn_sk = Some demo_sk\<rparr>"
    by (simp add: w1(3) w(3))
  obtain w2 where w2: "on_conn (Suc 0) 0 (locked (\<lambda>c. (sk_poll_events (c_sk c), c))) w1 = (4, w2)"
    using look_at_conn [OF c1, of 0 sk_poll_events] by auto
  have get: "get_socket 77 4097 two_world = Some 0" "get_socket 77 4098 w1 = Some (Suc 0)"
    by (simp_all add: get_socket_def w w1 c1)
  have ev: "4 AND (4 OR POLLHUP OR POLLERR OR POLLNVAL) = 4" "4 AND (1 OR POLLHUP OR POLLERR OR POLLNVAL) = 0"
    by (simp_all add: poll_defs)
  show ?thesis
    by (simp add: poll_round_def two_fds_def get w1(1) w2 ev)
qed

theorem poll_through_server_witness:
  "\<exists>lk'. run (link_libc demo_env 9 6) (hfip_poll 1 (two_fds 0) 0 two_lib) two_link
     = Some (Some (1, two_fds 4, two_lib), lk')"
proof -
  from two_poll obtain w' where w': "poll_round 77 (two_fds 0) 0 two_world = (Inl 1, two_fds 4, w')" ..
  have socks: "sock_search 4097 (lb_socks two_lib) = (Some \<lparr>hs_hffd = 5, hs_fd = 4097, hs_freed = False\<rparr>, True)"
    "sock_search 4098 (lb_socks two_lib) = (Some \<lparr>hs_hffd = 6, hs_fd = 4098, hs_freed = False\<rparr>, True)"
    "lb_pid two_lib = 77"
    by (simp_all add: two_lib_def)
  have "two_fds 0 \<noteq> []" "length (two_fds 0) \<le> 1021" "pf_fd (last (two_fds 0)) = 4098"
    by (simp_all add: two_fds_def)
  moreover have "\<forall>p\<in>set (two_fds 0). int32 (pf_fd p) \<and> (\<exists>sock. sock_search (pf_fd p) (lb_socks two_lib) = (Some sock, True))"
    by (simp add: two_fds_def int32_def socks)
  moreover have "link_ready two_link" "sv_world (lk_server two_link) = two_world"
    by (simp_all add: two_link_def link_ready_def demo_link_def)
  ultimately show ?thesis
    using poll_through_server [where fds = "two_fds 0" and l = two_lib and rc = 1 and hffd = 6
        and fds' = "two_fds 4" and sock = "\<lparr>hs_hffd = 6, hs_fd = 4098, hs_freed = False\<rparr>" and lk = two_link and e = demo_env and w' = w' and sfd = 9 and timeout = 0 and n = 0] w'
    by (auto simp: int32_def client_rc_def client_lib_def socks)
qed

lemma demo_socket_call: "\<exists>w'. socket_call 77 2 1 0 demo_world = (4098, w')"
  by (simp add: socket_call_def alloc_socket_def upd_conn_def inet_create_def acquire_def Let_def O_RDWR_def)

theorem socket_through_server_witness:
  "\<exists>lk'. run (link_libc demo_env 9 6) (hfip_socket 2 1 0 demo_lib) demo_link
     = Some (Some (4098, opened 6 4098 demo_lib), lk') \<and> link_ready lk'"
proof -
  from demo_socket_call obtain w' where w': "socket_call 77 2 1 0 demo_world = (4098, w')" ..
  show ?thesis
    using socket_through_server [where domain = 2 and type = 1 and protocol = 0 and rc = 4098 and hffd = 6
        and l = demo_lib and lk = demo_link and w' = w' and e = demo_env and sfd = 9] w'
    by (auto simp: int32_def client_rc_def is_socket_supported_def)
qed

lemma demo_peer:
  "\<exists>w'. getpeername_call 77 4097 demo_world
     = ((0, Some \<lparr>sa_family = AF_INET, sin_port = htons 80, s_addr = htonl 0x0a000005\<rparr>), w')"
  by (simp add: getpeername_call_def on_conn_def locked_def inet_getpeername_def)

theorem getpeername_through_server_witness:
  "\<exists>lk' pad. run (link_libc demo_env 9 5) (hfip_getpeername 4097 demo_lib) demo_link
     = Some (Some (0, Some (enc_sockaddr \<lparr>sa_family = AF_INET, sin_port = htons 80,
                                          s_addr = htonl 0x0a000005\<rparr> @ pad, 16), demo_lib), lk')"
proof -
  from demo_peer obtain w' where w': "getpeername_call 77 4097 demo_world
     = ((0, Some \<lparr>sa_family = AF_INET, sin_port = htons 80, s_addr = htonl 0x0a000005\<rparr>), w')" ..
  show ?thesis
    using getpeername_through_server [where fd = 4097 and l = demo_lib and rc = 0 and hffd = 5
        and lk = demo_link and e = demo_env and w' = w' and sfd = 9, OF demo_sock(1)] w'
    by (fastforce simp: int32_def client_rc_def client_lib_def)
qed

lemma demo_opt: "\<exists>w'. getsockopt_call 77 4097 1 4 demo_world = ((0, Some (- 111)), w')"
  by (simp add: getsockopt_call_def on_conn_def locked_def)

theorem getsockopt_through_server_witness:
  "\<exists>lk'. run (link_libc demo_env 9 5) (hfip_getsockopt 4097 1 4 [0, 0, 0, 0] demo_lib) demo_link
     = Some (Some (0, Some (le32 111, 4), demo_lib\<lparr>lb_fault := True\<rparr>), lk')"
proof -
  from demo_opt obtain w' where w': "getsockopt_call 77 4097 1 4 demo_world = ((0, Some (- 111)), w')" ..
  show ?thesis
    using getsockopt_through_server [where fd = 4097 and l = demo_lib and rc = 0 and hffd = 5 and level = 1
        and optname = 4 and optval = "[0, 0, 0, 0]" and v = "- 111"
        and lk = demo_link and e = demo_env and w' = w' and sfd = 9, OF demo_sock(1)] w'
    by (auto simp: int32_def client_rc_def client_lib_def)
qed

theorem foreign_socket_refused_witness:
  "\<exists>rc rest. demux_ipc_socket_call demo_env
       (enc_ipc_msg \<lparr>im_type = IPC_CLOSE, im_pid = 78\<rparr> @ enc_ipc_close \<lparr>icl_sockfd = 4097\<rparr>) demo_world
     = Done rc (Some (enc_ipc_msg \<lparr>im_type = IPC_CLOSE, im_pid = 78\<rparr>
         @ enc_ipc_err \<lparr>ie_rc = - 1, ie_err = 9\<rparr> @ rest))
         (enc_ipc_msg \<lparr>im_type = IPC_CLOSE, im_pid = 78\<rparr> @ enc_ipc_close \<lparr>icl_sockfd = 4097\<rparr>) demo_world"
proof -
  let ?m = "enc_ipc_msg \<lparr>im_type = IPC_CLOSE, im_pid = 78\<rparr> @ enc_ipc_close \<lparr>icl_sockfd = 4097\<rparr>"
  have "get_socket (msg_pid ?m) (sint (rd32 ?m 6)) demo_world = None"
    by (simp add: msg_pid_def enc_ipc_close_def)
  moreover have "im_type (dec_ipc_msg ?m) \<in> request_types" "request_ok demo_env ?m"
    by (simp_all add: request_types_def request_ok_def ipc_types)
  ultimately show ?thesis
    using foreign_socket_refused [of ?m demo_world demo_env] by auto
qed

text \<open>A request to write more than the message holds, on a connection that breaks before the rest arrives.\<close>

definition cut_message :: bytes where
  "cut_message = enc_ipc_msg \<lparr>im_type = IPC_WRITE, im_pid = 77\<rparr>
     @ enc_ipc_write \<lparr>iw_sockfd = 4097, iw_len = 9000\<rparr>"

definition cut_server :: ipc_server where
  "cut_server = demo_server\<lparr>sv_sockets := [\<lparr>th_sock = 9\<rparr>], sv_socket_count := 1\<rparr>"

lemma cut_message_ends:
  "socket_ipc_open demo_env 9 (Some cut_message) (replicate 8192 0) cut_server
     = (Ended, None, cut_server\<lparr>sv_closed := [9]\<rparr>)"
  by (simp add: socket_ipc_open_def ipc_next_def demux_ipc_socket_call_def ipc_write_def cut_message_def
      cut_server_def demo_server_def demo_env_def ipc_types Let_def)

theorem ipc_threads_counted_witness:
  "ipc_run (cut_server\<lparr>sv_closed := [9]\<rparr>) {#} {#9#}
     \<and> image_mset th_sock (mset (sv_sockets cut_server)) = {#9#} \<and> sv_socket_count cut_server = 1"
proof -
  let ?sv = "cut_server\<lparr>sv_sockets := [], sv_socket_count := 0\<rparr>"
  let ?srv = "cut_server\<lparr>sv_closed := [9]\<rparr>"
  have "ipc_run (ipc_alloc_thread 9 ?sv) (add_mset 9 {#}) {#}"
    by (rule ipc_run.accept [OF ipc_run.start]) simp_all
  moreover have "ipc_alloc_thread 9 ?sv = cut_server"
    by (simp add: ipc_alloc_thread_def cut_server_def)
  ultimately have "ipc_run cut_server {#9#} {#}" by simp
  then have "ipc_run ?srv ({#9#} - {#9#}) {#9#}"
    by (rule ipc_run.fail [OF _ _ refl _ cut_message_ends]) (simp_all add: cut_message_def)
  then have run: "ipc_run ?srv {#} {#9#}" by simp
  from ipc_threads_counted [OF run] run show ?thesis by (simp add: cut_server_def)
qed

end
