(* ===== verification/System_Demo.thy ===== *)
theory System_Demo
  imports System Ipc_Demo
begin

unbundle bit_operations_syntax

text \<open>
  A reachable world to which the properties of the process as a whole are applied: the stack has
  booted, and the message of a client that makes a socket has been handled.
\<close>

definition boot_world :: world where
  "boot_world = stack.extend (booted (\<lambda>f. int (length f))) (world.fields 40000 4097 0 [] (\<lambda>_. None) 0)"

definition socket_message :: bytes where
  "socket_message = enc_ipc_msg \<lparr>im_type = IPC_SOCKET, im_pid = 77\<rparr>
     @ enc_ipc_socket \<lparr>is_domain = 2, is_type = 1, is_protocol = 6\<rparr>"

definition served_world :: world where
  "served_world = snd (socket_call 77 2 1 6 boot_world)"

lemma boot_sel [simp]: "w_sockets boot_world = []" "w_conns boot_world = (\<lambda>_. None)" "w_fd boot_world = 4097"
  "w_next boot_world = 0"
  by (simp_all add: boot_world_def stack.defs world.defs)

lemma boot_reachable: "reachable boot_world"
  by (rule reachable.boot) simp_all

lemma socket_call_boot: "socket_call 77 2 1 6 boot_world = (4097, served_world)"
  by (simp add: served_world_def socket_call_def alloc_socket_def inet_create_def upd_conn_def acquire_def
      release_def check_def Let_def)

lemma served_sel [simp]: "w_sockets served_world = [0]" "w_fd served_world = 4098" "w_next served_world = 1"
  by (simp_all add: served_world_def socket_call_def alloc_socket_def inet_create_def upd_conn_def acquire_def
      release_def check_def Let_def)

lemma message_served: "\<exists>rc reply. demux_ipc_socket_call demo_env socket_message boot_world
    = Done rc reply socket_message served_world"
  by (simp add: demux_ipc_socket_call_def ipc_socket_def socket_message_def msg_pid_def ipc_types
      socket_call_boot Let_def)

lemma served_reachable: "reachable served_world"
  using message_served by (blast intro: reachable.step [OF boot_reachable] sys_step.message)

theorem socket_table_invariant_witness:
  "w_sockets served_world = [0] \<and> (\<exists>cn k. w_conns served_world 0 = Some cn \<and> cn_sk cn = Some k)"
  using socket_table_invariant [OF served_reachable] by simp

theorem descriptors_isolate_processes_witness:
  "get_socket 77 4097 served_world = Some 0 \<and> get_socket 78 4097 served_world = None
     \<and> fst (socket_call 78 2 1 6 served_world) = 4098
     \<and> get_socket 77 4098 (snd (socket_call 78 2 1 6 served_world)) = None"
proof -
  have "get_socket 77 4097 served_world = Some 0 \<and> get_socket 78 4097 served_world = None"
    using descriptors_isolate_processes [OF boot_reachable, where pid = 77 and type = 1 and protocol = 6
        and new = 4097 and w' = served_world and fd = 0] socket_call_boot by simp
  moreover have "fst (socket_call 78 2 1 6 served_world) = 4098"
    by (simp add: socket_call_def alloc_socket_def inet_create_def upd_conn_def acquire_def
        release_def check_def Let_def)
  moreover from this have "get_socket 77 4098 (snd (socket_call 78 2 1 6 served_world)) = None"
    using descriptors_isolate_processes [OF served_reachable, where pid = 78 and type = 1 and protocol = 6
        and new = 4098 and w' = "snd (socket_call 78 2 1 6 served_world)" and fd = 0 and p = 77]
    by (cases "socket_call 78 2 1 6 served_world") simp
  ultimately show ?thesis by blast
qed

end
