(* ===== verification/Wire_Format.thy ===== *)
theory Wire_Format
  imports Tcp_Wire
begin

unbundle bit_operations_syntax

text \<open>
  The bytes on the wire against the RFCs: the Internet checksum of RFC 1071, and each field of a frame
  at the offset and in the byte order of RFC 894, RFC 791 and RFC 793, for frames written and for
  frames read.  Nothing here refers to the records of \<open>Headers\<close> but through the code that fills and
  reads them.
\<close>

subsection \<open>The Internet checksum\<close>

text \<open>
  The checksum as RFC 1071 defines it: the bytes in network order make 16 bit words, an odd last
  byte is the high one; they are added with end-around carry, and the sum is complemented.
\<close>

fun be_words :: "bytes \<Rightarrow> nat list" where
  "be_words (a # b # rest) = (256 * unat a + unat b) # be_words rest"
| "be_words [a] = [256 * unat a]"
| "be_words [] = []"

definition ones_add :: "nat \<Rightarrow> nat \<Rightarrow> nat" where
  "ones_add a b = (if a + b > 65535 then a + b - 65535 else a + b)"

definition rfc1071 :: "bytes \<Rightarrow> nat" where
  "rfc1071 bs = 65535 - foldl ones_add 0 (be_words bs)"

lemma be_words_le: "w \<in> set (be_words bs) \<Longrightarrow> w \<le> 65535"
proof (induction bs rule: be_words.induct)
  case (1 a b rest)
  have "256 * unat a + unat b \<le> 65535" using unat_u8_less [of a] unat_u8_less [of b] by linarith
  with 1 show ?case by auto
next
  case (2 a)
  then show ?case using unat_u8_less [of a] by simp
qed simp

lemma ones_sum:
  assumes "\<forall>w\<in>set ws. w \<le> 65535" "x \<le> 65535"
  shows "foldl ones_add x ws \<le> 65535
    \<and> foldl ones_add x ws mod 65535 = (x + sum_list ws) mod 65535
    \<and> (foldl ones_add x ws = 0 \<longleftrightarrow> x + sum_list ws = 0)"
  using assms
proof (induction ws arbitrary: x)
  case (Cons w ws)
  have le: "ones_add x w \<le> 65535" using Cons.prems by (auto simp: ones_add_def)
  have m: "(ones_add x w + sum_list ws) mod 65535 = (x + w + sum_list ws) mod 65535"
  proof (cases "x + w > 65535")
    case True
    then have "x + w + sum_list ws = ones_add x w + sum_list ws + 65535"
      by (simp add: ones_add_def)
    then show ?thesis by (simp only: mod_add_self2)
  qed (simp add: ones_add_def)
  have z: "ones_add x w = 0 \<longleftrightarrow> x + w = 0" by (auto simp: ones_add_def)
  show ?case using Cons.IH [of "ones_add x w"] Cons.prems(1) le m z by (auto simp: add.assoc)
qed simp

lemma be_words_wsum: "sum_list (be_words bs) mod 65535 = 256 * wsum bs mod 65535"
proof (induction bs rule: be_words.induct)
  case (1 a b rest)
  have "256 * wsum (a # b # rest) = (256 * unat a + unat b + 256 * wsum rest) + 65535 * unat b"
    by simp
  then have "256 * wsum (a # b # rest) mod 65535 = (256 * unat a + unat b + 256 * wsum rest) mod 65535"
    by (metis mod_mult_self2)
  also have "\<dots> = (256 * unat a + unat b + sum_list (be_words rest)) mod 65535"
    using 1 by (metis mod_add_right_eq)
  finally show ?case by simp
qed simp_all

lemma be_words_zero: "sum_list (be_words bs) = 0 \<longleftrightarrow> wsum bs = 0"
  by (induction bs rule: be_words.induct) auto

lemma unat_bswap16: "unat (bswap16 x) = 256 * (unat x mod 256) + unat x div 256"
proof -
  obtain lo hi where x: "x = of_le16 lo hi" by (metis of_le16_le16)
  show ?thesis
    using unat_u8_less [of lo] by (simp add: x bswap16_of_le16 unat_of_le16)
qed

lemma bswap_mod: "unat (bswap16 x) mod 65535 = 256 * unat x mod 65535"
proof -
  have "256 * unat x = unat (bswap16 x) + 65535 * (unat x div 256)"
    using mod_mult_div_eq [of "unat x" 256] unfolding unat_bswap16 by linarith
  then show ?thesis by (metis mod_mult_self2)
qed

lemma same_residue:
  assumes "x \<le> (65535 :: nat)" "y \<le> 65535" "x mod 65535 = y mod 65535" "x = 0 \<longleftrightarrow> y = 0"
  shows "x = y"
  using assms by (cases "x = 65535"; cases "y = 65535") auto

lemma checksum_rfc:
  assumes "length bs \<le> 131072"
  shows "unat (ntohs (checksum bs 0)) = rfc1071 bs"
proof -
  have "wsum bs \<le> 65535 * ((length bs + 1) div 2)" by (rule wsum_bound)
  also have "\<dots> \<le> 65535 * 65536" using assms by (intro mult_left_mono) auto
  finally have w: "wsum bs < 2 ^ 32" by simp
  let ?f = "fold_sum (0 + sum_every_16bits bs)"
  let ?r = "foldl ones_add 0 (be_words bs)"
  have f: "unat ?f \<le> 65535" "unat ?f mod 65535 = wsum bs mod 65535" "unat ?f = 0 \<longleftrightarrow> wsum bs = 0"
    using fold_sum_le fold_sum_mod fold_sum_0 unat_sum_every_16bits [OF w]
    by (simp_all add: unat_eq_zero) (metis unat_eq_zero unat_sum_every_16bits w)
  let ?x = "ucast ?f :: u16"
  have x: "unat ?x = unat ?f" using f(1) by (simp add: unsigned_ucast_eq take_bit_eq_mod)
  have "unat (bswap16 ?x) = ?r"
  proof (rule same_residue)
    show "unat (bswap16 ?x) \<le> 65535" using unat_u16_less [of "bswap16 ?x"] by simp
    have r: "?r \<le> 65535 \<and> ?r mod 65535 = sum_list (be_words bs) mod 65535
        \<and> (?r = 0 \<longleftrightarrow> sum_list (be_words bs) = 0)"
      using ones_sum [of "be_words bs" 0] be_words_le by auto
    show "?r \<le> 65535" using r by simp
    have "unat (bswap16 ?x) mod 65535 = 256 * wsum bs mod 65535"
      unfolding bswap_mod x using f(2) by (metis mod_mult_right_eq)
    then show "unat (bswap16 ?x) mod 65535 = ?r mod 65535" using r be_words_wsum by simp
    have "unat (bswap16 ?x) = 0 \<longleftrightarrow> unat ?x = 0"
      using bswap16_inj [of ?x 0] by (metis bswap16_0 unat_eq_zero)
    then show "unat (bswap16 ?x) = 0 \<longleftrightarrow> ?r = 0" using r be_words_zero x f(3) by simp
  qed
  moreover have "bswap16 (NOT ?x) = NOT (bswap16 ?x)"
    by (rule bit_word_eqI) (auto simp: bit_bswap16 bit_simps)
  ultimately show ?thesis
    unfolding checksum_def rfc1071_def by (simp add: unat_not_u16)
qed

text \<open>
  C38: \<open>checksum\<close>, which adds the words as the little-endian host reads them, in 32 bits, and folds
  the carries at the end, is the checksum of RFC 1071 in network byte order, for every region up to
  128 KiB.
\<close>

theorem checksum_is_rfc1071:
  assumes "length bs \<le> 131072"
  shows "unat (ntohs (checksum bs 0)) = rfc1071 bs"
  using assms by (rule checksum_rfc)

text \<open>The example of RFC 1071, section 3: the words 0001 f203 f4f5 f6f7 add up to ddf2.\<close>

theorem checksum_is_rfc1071_witness:
  "unat (ntohs (checksum [0x00, 0x01, 0xf2, 0x03, 0xf4, 0xf5, 0xf6, 0xf7] 0)) = 65535 - 0xddf2"
  using checksum_is_rfc1071 [of "[0x00, 0x01, 0xf2, 0x03, 0xf4, 0xf5, 0xf6, 0xf7]"]
  by (simp add: rfc1071_def ones_add_def)

subsection \<open>The bytes of a header\<close>

lemma length_20_cases:
  assumes "length b = 20"
  obtains b0 b1 b2 b3 b4 b5 b6 b7 b8 b9 b10 b11 b12 b13 b14 b15 b16 b17 b18 b19 where
    "b = [b0, b1, b2, b3, b4, b5, b6, b7, b8, b9, b10, b11, b12, b13, b14, b15, b16, b17, b18, b19]"
  using assms by (auto simp: length_Suc_conv numeral_eq_Suc)

lemma pack_nibbles_split: "pack_nibbles (ucast x) (ucast (drop_bit 4 x)) = x"
  by (rule bit_word_eqI) (auto simp: pack_nibbles_def bit_simps)

lemma enc_dec_iphdr: "length b = 20 \<Longrightarrow> enc_iphdr (dec_iphdr b) = b"
  by (elim length_20_cases)
    (simp add: enc_iphdr_def dec_iphdr_def le16_of_le16 le32_of_le32 pack_nibbles_split)

lemma pack_flags_bits:
  "pack_flags [bit x 0, bit x 1, bit x 2, bit x 3, bit x 4, bit x 5, bit x 6, bit x 7] = x"
proof (rule bit_word_eqI)
  fix n assume "n < LENGTH(8)"
  then have "n \<in> {0, 1, 2, 3, 4, 5, 6, 7}" by auto
  then show "bit (pack_flags [bit x 0, bit x 1, bit x 2, bit x 3, bit x 4, bit x 5, bit x 6, bit x 7]) n = bit x n"
    by (auto simp: bit_pack_flags)
qed

lemma enc_dec_tcphdr: "length b = 20 \<Longrightarrow> enc_tcphdr (dec_tcphdr b) = b"
  by (elim length_20_cases)
    (simp add: enc_tcphdr_def dec_tcphdr_def th_flags_def le16_of_le16 le32_of_le32 pack_nibbles_split
      pack_flags_bits [simplified])

subsection \<open>Fields of a frame\<close>

text \<open>The number in the \<open>n\<close> bytes from offset \<open>i\<close> on, in network byte order.\<close>

definition net_num :: "bytes \<Rightarrow> nat" where
  "net_num bs = foldl (\<lambda>n b. 256 * n + unat b) 0 bs"

definition field :: "bytes \<Rightarrow> nat \<Rightarrow> nat \<Rightarrow> nat" where
  "field F i n = net_num (take n (drop i F))"

lemma unat_of_le32: "unat (of_le32 a b c d) = unat (of_le16 a b) + 65536 * unat (of_le16 c d)"
proof -
  have e: "of_le32 a b c d = ucast (of_le16 a b) OR push_bit 16 (ucast (of_le16 c d))"
    by (rule bit_word_eqI) (auto simp: bit_of_le32 bit_of_le16 bit_simps)
  have "ucast (of_le16 a b) AND push_bit 16 (ucast (of_le16 c d)) = (0 :: u32)"
    by (rule bit_word_eqI) (auto simp: bit_simps)
  then have "of_le32 a b c d = ucast (of_le16 a b) + 65536 * ucast (of_le16 c d)"
    unfolding e by (simp add: disjunctive_add_eq_or [symmetric] push_bit_eq_mult)
  moreover have "unat (of_le16 a b) < 65536" "unat (of_le16 c d) < 65536"
    using unat_u16_less by blast+
  ultimately show ?thesis by (simp add: unat_word_ariths unsigned_ucast_eq take_bit_eq_mod)
qed

lemma net_num_le16: "net_num (le16 v) = unat (ntohs v)"
proof -
  obtain a b where v: "v = of_le16 a b" by (metis of_le16_le16)
  show ?thesis by (simp add: v le16_of_le16 bswap16_of_le16 unat_of_le16 net_num_def)
qed

lemma bswap32_of_le32: "bswap32 (of_le32 a b c d) = of_le32 d c b a"
  by (rule bit_word_eqI) (auto simp: bit_bswap32 bit_of_le32)

lemma net_num_le32: "net_num (le32 v) = unat (ntohl v)"
proof -
  obtain a b c d where v: "v = of_le32 a b c d" by (metis of_le32_le32)
  show ?thesis by (simp add: v le32_of_le32 bswap32_of_le32 unat_of_le32 unat_of_le16 net_num_def)
qed

lemma net_num_byte: "net_num [b] = unat b"
  by (simp add: net_num_def)

lemma unat_pack_nibbles: "unat (pack_nibbles lo hi) = unat lo + 16 * unat hi"
proof -
  have "ucast lo AND push_bit 4 (ucast hi) = (0 :: u8)"
    by (rule bit_word_eqI) (auto simp: bit_simps)
  then have "pack_nibbles lo hi = ucast lo + 16 * ucast hi"
    unfolding pack_nibbles_def by (simp add: disjunctive_add_eq_or [symmetric] push_bit_eq_mult)
  moreover have "unat lo < 16" "unat hi < 16" using unsigned_less [of lo] unsigned_less [of hi] by simp_all
  ultimately show ?thesis by (simp add: unat_word_ariths unsigned_ucast_eq take_bit_eq_mod)
qed

text \<open>A field is found by skipping the parts before it.\<close>

lemma field_skip: "length xs \<le> i \<Longrightarrow> field (xs @ ys) i n = field ys (i - length xs) n"
  by (simp add: field_def)

lemma field_here: "n \<le> length xs \<Longrightarrow> field (xs @ ys) 0 n = net_num (take n xs)"
  by (simp add: field_def)

lemma frame_fields:
  fixes macs body :: bytes and ih :: iphdr and h :: tcphdr
  defines "F \<equiv> wire_frame macs ih (enc_tcphdr h @ body)"
  assumes "length macs = 12"
  shows "field F 12 2 = 0x0800" "field F 14 1 = 16 * unat (ip_version ih) + unat (ip_ihl ih)"
    "field F 16 2 = unat (ntohs (ip_len ih))" "field F 20 2 = unat (ntohs (ip_frag_offset ih))"
    "field F 22 1 = unat (ip_ttl ih)" "field F 23 1 = unat (ip_proto ih)"
    "field F 26 4 = unat (ntohl (ip_saddr ih))" "field F 30 4 = unat (ntohl (ip_daddr ih))"
    "field F 34 2 = unat (ntohs (th_sport h))" "field F 36 2 = unat (ntohs (th_dport h))"
    "field F 38 4 = unat (ntohl (th_seq h))" "field F 42 4 = unat (ntohl (th_ack_seq h))"
    "field F 46 1 = 16 * unat (th_hl h) + unat (th_rsvd h)" "F ! 47 = pack_flags (th_flags h)"
    "field F 48 2 = unat (ntohs (th_win h))" "field F 52 2 = unat (ntohs (th_urp h))"
    "take 14 F = macs @ [8, 0]" "take 20 (drop 14 F) = enc_iphdr ih" "drop 54 F = body"
proof -
  have t: "be16 ETH_P_IP = [8, 0]" by code_simp
  have F: "F = macs @ [8, 0] @ enc_iphdr ih @ enc_tcphdr h @ body" by (simp add: F_def wire_frame_def t)
  have tcp: "field F (34 + i) n = field (enc_tcphdr h @ body) i n" for i n
    using assms(2) field_skip [of "macs @ [8, 0] @ enc_iphdr ih" "34 + i" "enc_tcphdr h @ body" n] by (simp add: F)
  have ip: "field F (14 + i) n = field (enc_iphdr ih @ enc_tcphdr h @ body) i n" for i n
    using assms(2) by (simp add: F field_def)
  note nums = net_num_le16 net_num_le32 net_num_byte unat_pack_nibbles
  show "take 14 F = macs @ [8, 0]" "take 20 (drop 14 F) = enc_iphdr ih" "drop 54 F = body"
    using assms(2) by (simp_all add: F)
  show "field F 12 2 = 0x0800" using assms(2) by (simp add: F field_skip field_def net_num_def)
  show "field F 14 1 = 16 * unat (ip_version ih) + unat (ip_ihl ih)"
    "field F 16 2 = unat (ntohs (ip_len ih))" "field F 20 2 = unat (ntohs (ip_frag_offset ih))"
    "field F 22 1 = unat (ip_ttl ih)" "field F 23 1 = unat (ip_proto ih)"
    "field F 26 4 = unat (ntohl (ip_saddr ih))" "field F 30 4 = unat (ntohl (ip_daddr ih))"
    using ip [of 0 1] ip [of 2 2] ip [of 6 2] ip [of 8 1] ip [of 9 1] ip [of 12 4] ip [of 16 4]
    by (simp_all add: enc_iphdr_def field_def nums)
  show "field F 34 2 = unat (ntohs (th_sport h))" "field F 36 2 = unat (ntohs (th_dport h))"
    "field F 38 4 = unat (ntohl (th_seq h))" "field F 42 4 = unat (ntohl (th_ack_seq h))"
    "field F 46 1 = 16 * unat (th_hl h) + unat (th_rsvd h)"
    "field F 48 2 = unat (ntohs (th_win h))" "field F 52 2 = unat (ntohs (th_urp h))"
    using tcp [of 0 2] tcp [of 2 2] tcp [of 4 4] tcp [of 8 4] tcp [of 12 1] tcp [of 14 2] tcp [of 18 2]
    by (simp_all add: enc_tcphdr_def field_def nums)
  show "F ! 47 = pack_flags (th_flags h)"
    using assms(2) by (simp add: F nth_append enc_tcphdr_def)
qed

subsection \<open>Frames written\<close>

text \<open>
  C36: A segment leaves as the RFCs lay it out.  Behind the addresses of the next hop and of the
  device comes the type of IP; then an IP header of 20 bytes with the length of the datagram, no
  fragmentation, protocol 6, the addresses of the device and of the peer, and a checksum that RFC
  1071 verifies; then the ports, the sequence number, rcv_nxt, the length of the header, the flags
  and the window of the connection, every number in network byte order at its offset; then the
  options and data of the buffer.
\<close>

theorem frames_written_by_rfc:
  fixes seq :: u32 and c :: tcpctx
  assumes "tcp_ready b n c" and "route_lookup (sk_daddr (c_sk c)) c = Some rt" "netdev_ok (rt_dev rt)"
    and "arp_get_hwaddr (next_hop rt (sk_daddr (c_sk c))) (s_arp_cache c) = Some dmac" "length dmac = 6"
    and "b_protocol (deref b c) = ucast IP_TCP" and "len = 4 * hdr_words (deref b c) + n"
  shows "\<exists>F. s_tap (snd (tcp_transmit_skb b seq c)) = s_tap c @ [F] \<and> length F = 34 + len
    \<and> take 14 F = dmac @ nd_hwaddr (rt_dev rt) @ [0x08, 0x00]
    \<and> field F 14 1 = 0x45 \<and> field F 16 2 = 20 + len \<and> field F 20 2 = 0x4000 \<and> field F 23 1 = 6
    \<and> field F 26 4 = unat (nd_addr (rt_dev rt)) \<and> field F 30 4 = unat (sk_daddr (c_sk c))
    \<and> rfc1071 (take 20 (drop 14 F)) = 0
    \<and> field F 34 2 = unat (sk_sport (c_sk c)) \<and> field F 36 2 = unat (sk_dport (c_sk c))
    \<and> field F 38 4 = unat seq \<and> field F 42 4 = unat (rcv_nxt (tcb_of c))
    \<and> field F 46 1 = 16 * hdr_words (deref b c)
    \<and> (let h = tcp_hdr (deref b c) in bit (F ! 47) 0 = th_fin h \<and> bit (F ! 47) 1 = th_syn h
        \<and> bit (F ! 47) 2 = th_rst h \<and> bit (F ! 47) 3 = th_psh h \<and> bit (F ! 47) 4 = th_ack h)
    \<and> field F 48 2 = unat (rcv_wnd (tcb_of c)) mod 65536 \<and> field F 52 2 = 0
    \<and> drop 54 F = mread (b_mem (deref b c)) 54 (len - 20)"
proof -
  define k where "k = deref b c"
  define h where "h = (seg_header (c_sk c) seq (tcp_hdr k))\<lparr>th_csum :=
    tcp_udp_checksum (htonl (sk_saddr (c_sk c))) (htonl (sk_daddr (c_sk c))) IP_TCP
      (enc_tcphdr (seg_header (c_sk c) seq (tcp_hdr k)) @ seg_body n k)\<rparr>"
  have seg: "tcp_segment (c_sk c) seq (tcp_hdr k) (seg_body n k) = enc_tcphdr h @ seg_body n k"
    by (simp add: tcp_segment_def Let_def h_def)
  have body: "seg_body n k = mread (b_mem k) 54 (len - 20)" "20 + length (seg_body n k) = len"
    using seg_body_eq [OF assms(1,7)] assms(7) by (simp_all add: k_def)
  obtain ident where tap: "s_tap (snd (tcp_transmit_skb b seq c)) = s_tap c
      @ [wire_frame (dmac @ nd_hwaddr (rt_dev rt)) (wire_ih (c_sk c) rt len ident) (enc_tcphdr h @ seg_body n k)]"
    using transmit_wire [OF assms(1-6), of seq] body(2) unfolding k_def [symmetric] seg by auto
  define F where "F = wire_frame (dmac @ nd_hwaddr (rt_dev rt)) (wire_ih (c_sk c) rt len ident) (enc_tcphdr h @ seg_body n k)"
  have macs: "length (dmac @ nd_hwaddr (rt_dev rt)) = 12" using assms(3,5) by (simp add: netdev_ok_def)
  note f = frame_fields [OF macs, of "wire_ih (c_sk c) rt len ident" h "seg_body n k", folded F_def]
  have "len < 65500" using assms(1,7) by (simp add: tcp_ready_def Let_def)
  then have l: "unat (of_nat (20 + len) :: u16) = 20 + len" by (simp add: unat_of_nat del: of_nat_add)
  have c: "rfc1071 (enc_iphdr (wire_ih (c_sk c) rt len ident)) = 0"
    by (simp flip: checksum_rfc)
  have ih: "ip_frag_offset (wire_ih (c_sk c) rt len ident) = htons 0x4000"
    "ip_saddr (wire_ih (c_sk c) rt len ident) = htonl (nd_addr (rt_dev rt))"
    "ip_daddr (wire_ih (c_sk c) rt len ident) = htonl (sk_daddr (c_sk c))"
    by (simp_all add: wire_ih_def ip_fill_def ip_header_def)
  have hs: "th_sport h = htons (sk_sport (c_sk c))" "th_dport h = htons (sk_dport (c_sk c))" "th_seq h = htonl seq"
    "th_ack_seq h = htonl (rcv_nxt (tcb_of c))" "th_rsvd h = 0" "th_hl h = th_hl (tcp_set_hlen (tcp_hdr k))"
    "th_win h = htons (ucast (rcv_wnd (tcb_of c)))" "th_urp h = 0" "th_flags h = th_flags (tcp_hdr k)"
    by (simp_all add: h_def seg_header_def tcp_hton_def tcp_fill_hdr_def th_flags_def tcp_set_hlen_def)
  have w: "unat (ucast (rcv_wnd (tcb_of c)) :: u16) = unat (rcv_wnd (tcb_of c)) mod 65536"
    by (simp add: unsigned_ucast_eq take_bit_eq_mod)
  have "length F = 34 + len" using macs body(2) by (simp add: F_def wire_frame_def)
  moreover have "bit (F ! 47) 0 = th_fin (tcp_hdr k)" "bit (F ! 47) 1 = th_syn (tcp_hdr k)"
    "bit (F ! 47) 2 = th_rst (tcp_hdr k)" "bit (F ! 47) 3 = th_psh (tcp_hdr k)" "bit (F ! 47) 4 = th_ack (tcp_hdr k)"
    unfolding f(14) hs(9) by (rule flag_bits)+
  ultimately show ?thesis
    unfolding tap k_def [symmetric] Let_def F_def [symmetric]
    by (intro exI [of _ F] conjI)
      (simp_all add: f f(2,6,13) [unfolded One_nat_def] ih hs l c w body(1) hdr_words_def IPV4_def IP_TCP_def del: of_nat_add)
qed

theorem frames_written_by_rfc_witness:
  "\<exists>F. s_tap (snd (tcp_transmit_skb 0 1001 (seg_demo 0x08080808))) = [F] \<and> length F = 58
    \<and> field F 16 2 = 44 \<and> field F 30 4 = 0x08080808 \<and> field F 38 4 = 1001 \<and> field F 46 1 = 0x50
    \<and> drop 54 F = [1, 2, 3, 4]"
proof -
  let ?c = "seg_demo 0x08080808"
  have mem: "mread (b_mem (deref 0 ?c)) 54 4 = [1, 2, 3, 4]" "b_protocol (deref 0 ?c) = ucast IP_TCP"
    "24 = 4 * hdr_words (deref 0 ?c) + 4" "hdr_words (deref 0 ?c) = 5"
    by (simp_all add: seg_demo_skb hdr_words_seg_skb) (simp_all add: seg_skb_def mread_def IP_TCP_def)
  have rt: "route_lookup (sk_daddr (c_sk ?c)) ?c = Some demo_rt"
    "arp_get_hwaddr (next_hop demo_rt (sk_daddr (c_sk ?c))) (s_arp_cache ?c) = Some [2, 0, 0, 0, 0, 1]"
    using seg_demo_route seg_demo_arp by (simp_all only: seg_demo_sel(5))
  have ok: "netdev_ok (rt_dev demo_rt)" by (simp add: demo_rt_def route_alloc_def)
  have dm: "length [2, 0, 0, 0, 0, 1 :: u8] = 6" by simp
  obtain F where F: "s_tap (snd (tcp_transmit_skb 0 1001 ?c)) = s_tap ?c @ [F]" "length F = 34 + 24"
    "field F 16 2 = 20 + 24" "field F 30 4 = unat (sk_daddr (c_sk ?c))" "field F 38 4 = unat (1001 :: u32)"
    "field F 46 1 = 16 * hdr_words (deref 0 ?c)" "drop 54 F = mread (b_mem (deref 0 ?c)) 54 (24 - 20)"
    using frames_written_by_rfc [OF seg_demo_ready rt(1) ok rt(2) dm mem(2,3), of 1001] by blast
  then show ?thesis
    using mem(1,4) by (intro exI [of _ F]) (simp add: seg_demo_sel)
qed

subsection \<open>Frames read\<close>

lemma two_digits: "256 * x + y = 2048 \<Longrightarrow> y < 256 \<Longrightarrow> x = 8 \<and> y = 0" for x y :: nat
  by presburger

lemma two_nibbles: "16 * x + y = 69 \<Longrightarrow> y < 16 \<Longrightarrow> x = 4 \<and> y = 5" for x y :: nat
  by presburger

lemma two_bytes:
  assumes "length bs = 2" "net_num bs = 2048"
  shows "bs = [8, 0]"
proof -
  obtain a b where bs: "bs = [a, b]" using assms(1) by (auto simp: numeral_2_eq_2 length_Suc_conv)
  then have "unat a = 8 \<and> unat b = 0"
    using assms(2) unat_u8_less [of b] by (intro two_digits) (simp_all add: net_num_def)
  then show ?thesis by (simp add: bs word_unat_eq_iff)
qed

text \<open>Any bytes of an IP datagram are a frame of this form.\<close>

lemma frame_split:
  assumes "54 \<le> length F" "field F 12 2 = 0x0800"
  shows "F = wire_frame (take 12 F) (dec_iphdr (take 20 (drop 14 F)))
      (enc_tcphdr (dec_tcphdr (take 20 (drop 34 F))) @ drop 54 F)"
proof -
  have "take 2 (drop 12 F) = [8, 0]" using assms by (intro two_bytes) (simp_all add: field_def)
  moreover have "be16 ETH_P_IP = [8, 0]" by code_simp
  ultimately have "take 2 (drop 12 F) = be16 ETH_P_IP" by simp
  moreover have "F = take 12 F @ take 2 (drop 12 F) @ take 20 (drop 14 F) @ take 20 (drop 34 F) @ drop 54 F"
    using append_take_drop_id [of 12 F] append_take_drop_id [of 2 "drop 12 F"]
      append_take_drop_id [of 20 "drop 14 F"] append_take_drop_id [of 20 "drop 34 F"] by simp
  ultimately show ?thesis
    using assms(1) by (simp add: wire_frame_def enc_dec_iphdr enc_dec_tcphdr)
qed

text \<open>
  C37: A frame is read as the RFCs lay it out.  A frame of type IP with an IP header of 20 bytes, of
  version 4, with protocol 6, a time to live and a checksum that RFC 1071 verifies, goes to the
  connection that is found for the two ports behind it, under its lock, with the sequence number,
  acknowledgement, header length, flags and window that are at their offsets in network byte order;
  and when the datagram is as long as the frame, with the bytes from offset 54 on, as many as are left
  when the header and its options are taken off the datagram.
\<close>

theorem frames_read_by_rfc:
  fixes F :: bytes and w :: world
  assumes "54 \<le> length F" "length F \<le> 1600" and "field F 12 2 = 0x0800" "field F 14 1 = 0x45"
    and "field F 22 1 \<noteq> 0" "field F 23 1 = 6" "rfc1071 (take 20 (drop 14 F)) = 0"
    and "inet_lookup (of_nat (field F 34 2)) (of_nat (field F 36 2)) w = Some i" "focus i w = Some d"
  shows "\<exists>th k. netdev_rx (Some F) w = unfocus (snd (locked (tcp_input_state (s_bnext w) th) (arrive k d))) w
    \<and> unat (th_sport th) = field F 34 2 \<and> unat (th_dport th) = field F 36 2
    \<and> unat (th_seq th) = field F 38 4 \<and> unat (th_ack_seq th) = field F 42 4
    \<and> unat (th_hl th) = field F 46 1 div 16 \<and> unat (th_win th) = field F 48 2
    \<and> th_fin th = bit (F ! 47) 0 \<and> th_syn th = bit (F ! 47) 1 \<and> th_rst th = bit (F ! 47) 2
    \<and> th_psh th = bit (F ! 47) 3 \<and> th_ack th = bit (F ! 47) 4
    \<and> (14 + field F 16 2 = length F \<and> length F = 34 + 4 * (field F 46 1 div 16) + n \<and> 5 \<le> field F 46 1 div 16
        \<longrightarrow> b_seq k = th_seq th \<and> unat (b_dlen k) = n \<and> payload k = take n (drop 54 F))"
proof -
  define ih where "ih = dec_iphdr (take 20 (drop 14 F))"
  define h where "h = dec_tcphdr (take 20 (drop 34 F))"
  let ?seg = "enc_tcphdr h @ drop 54 F" and ?macs = "take 12 F"
  have macs: "length ?macs = 12" using assms(1) by simp
  have F: "wire_frame ?macs ih ?seg = F"
    using frame_split [OF assms(1,3)] unfolding ih_def h_def by simp
  note f = frame_fields [OF macs, of ih h "drop 54 F", unfolded F]
  have "unat (ip_version ih) = 4 \<and> unat (ip_ihl ih) = 5"
    using f(2) assms(4) unsigned_less [of "ip_ihl ih"] by (intro two_nibbles) simp_all
  then have v: "ip_version ih = IPV4" "ip_ihl ih = 5"
    by (simp_all add: IPV4_def word_unat_eq_iff)
  have "unat (ip_proto ih) = 6" using f(6) assms(6) by simp
  then have p: "ip_proto ih = IP_TCP" by (simp add: IP_TCP_def word_unat_eq_iff)
  have ttl: "ip_ttl ih \<noteq> 0" using f(5) assms(5) by auto
  have "unat (ntohs (checksum (enc_iphdr ih) 0)) = 0"
    using assms(7) by (subst checksum_rfc) (simp_all add: f(18))
  then have c: "checksum (enc_iphdr ih) 0 = 0" by (metis bswap16_0 bswap16_inj unat_eq_zero)
  define th where "th = tcp_ntoh h"
  have th: "tcp_ntoh (dec_tcphdr (take 20 ?seg)) = th" by (simp add: th_def enc_simps)
  have ts: "unat (th_sport th) = field F 34 2" "unat (th_dport th) = field F 36 2"
    "unat (th_seq th) = field F 38 4" "unat (th_ack_seq th) = field F 42 4"
    "th_hl th = th_hl h" "unat (th_win th) = field F 48 2" "th_flags th = th_flags h"
    by (simp_all add: th_def tcp_ntoh_def f th_flags_def)
  have "unat (th_rsvd h) < 16" using unsigned_less [of "th_rsvd h"] by simp
  then have hl: "unat (th_hl th) = field F 46 1 div 16" unfolding ts(5) f(13) by simp
  have fl: "th_fin th = bit (F ! 47) 0 \<and> th_syn th = bit (F ! 47) 1 \<and> th_rst th = bit (F ! 47) 2
    \<and> th_psh th = bit (F ! 47) 3 \<and> th_ack th = bit (F ! 47) 4"
    unfolding f(14) ts(7) [symmetric] by (simp only: flag_bits simp_thms)
  have "th_sport th = of_nat (field F 34 2)" "th_dport th = of_nat (field F 36 2)"
    by (simp_all flip: ts(1,2))
  then have look: "inet_lookup (th_sport th) (th_dport th) w = Some i" using assms(8) by simp
  have lens: "20 \<le> length ?seg" "34 + length ?seg \<le> BUFLEN" "34 + length ?seg = length F"
    using assms(1,2) by (simp_all add: BUFLEN_def)
  let ?k = "tcp_init_segment (ip_init_pkt ih) (rx_skb (seg_mem ?macs ih ?seg))"
  have rx: "netdev_rx (Some F) w = unfocus (snd (locked (tcp_input_state (s_bnext w) th) (arrive ?k d))) w"
    using netdev_rx_segment [OF macs v ttl p c lens(1,2) _ assms(9)] look unfolding F th by simp
  have data: "b_seq ?k = th_seq th \<and> unat (b_dlen ?k) = n \<and> payload ?k = take n (drop 54 F)"
    if a: "14 + field F 16 2 = length F" "length F = 34 + 4 * (field F 46 1 div 16) + n" "5 \<le> field F 46 1 div 16"
  proof -
    have "unat (ntohs (ip_len ih)) = 20 + length ?seg" using a(1) f(3) lens(3) by simp
    from arg_cong [OF this, of "of_nat :: nat \<Rightarrow> u16"] have "ntohs (ip_len ih) = of_nat (20 + length ?seg)" by simp
    then have il: "ip_len ih = htons (of_nat (20 + length ?seg))" by (metis bswap16_bswap16)
    have ls: "length ?seg = 4 * unat (th_hl th) + n" "5 \<le> unat (th_hl th)" using a(2,3) lens(3) hl by simp_all
    have "drop 20 ?seg = drop 54 F" by simp
    with init_segment_sel(1,2,5) [OF macs v(2) il ls [folded th] lens(2)] show ?thesis unfolding th by simp
  qed
  show ?thesis
    using rx ts hl fl data by blast
qed

text \<open>A segment of four bytes, with sequence number 500, for the connection of \<open>peer_demo\<close>.\<close>

definition frame_demo :: bytes where
  "frame_demo = replicate 12 0 @ [0x08, 0x00]
     @ [0x45, 0x00, 0x00, 0x2c, 0x00, 0x00, 0x40, 0x00, 0x40, 0x06, 0x20, 0xb9, 10, 0, 0, 4, 8, 8, 8, 8]
     @ [0, 0, 0, 0, 0, 0, 0x01, 0xf4, 0, 0, 0, 0, 0x50, 0x10, 0x10, 0x00, 0, 0, 0, 0] @ [1, 2, 3, 4]"

theorem frames_read_by_rfc_witness:
  "\<exists>d th k. focus 0 peer_demo = Some d
    \<and> netdev_rx (Some frame_demo) peer_demo = unfocus (snd (locked (tcp_input_state 0 th) (arrive k d))) peer_demo
    \<and> unat (th_seq th) = 500 \<and> unat (th_win th) = 4096 \<and> th_ack th \<and> \<not> th_syn th \<and> payload k = [1, 2, 3, 4]"
proof -
  have f: "length frame_demo = 58" "field frame_demo 12 2 = 0x0800" "field frame_demo 14 1 = 0x45"
    "field frame_demo 16 2 = 44" "field frame_demo 22 1 \<noteq> 0" "field frame_demo 23 1 = 6"
    "field frame_demo 34 2 = 0" "field frame_demo 36 2 = 0" "field frame_demo 38 4 = 500"
    "field frame_demo 46 1 = 0x50" "field frame_demo 48 2 = 4096" "drop 54 frame_demo = [1, 2, 3, 4]"
    by (simp_all add: frame_demo_def field_def net_num_def)
  have "frame_demo ! (12 + 35) = 0x10" unfolding frame_demo_def by (subst nth_append_right) simp_all
  then have fl: "frame_demo ! 47 = 0x10" by simp
  have c: "rfc1071 (take 20 (drop 14 frame_demo)) = 0"
    by (simp add: frame_demo_def rfc1071_def ones_add_def)
  have look: "inet_lookup (of_nat (field frame_demo 34 2)) (of_nat (field frame_demo 36 2)) peer_demo = Some 0"
    by (simp add: f(7,8) peer_demo_sel(2))
  have len: "54 \<le> length frame_demo" "length frame_demo \<le> 1600" by (simp_all add: f(1))
  have b: "s_bnext peer_demo = 0" by (simp add: peer_demo_def booted_def static_data_def stack.defs)
  obtain th k where r: "netdev_rx (Some frame_demo) peer_demo = unfocus (snd (locked (tcp_input_state (s_bnext peer_demo) th)
      (arrive k (the (focus 0 peer_demo))))) peer_demo"
    "unat (th_seq th) = field frame_demo 38 4" "unat (th_win th) = field frame_demo 48 2"
    "th_syn th = bit (frame_demo ! 47) 1" "th_ack th = bit (frame_demo ! 47) 4"
    "14 + field frame_demo 16 2 = length frame_demo \<and> length frame_demo = 34 + 4 * (field frame_demo 46 1 div 16) + 4
      \<and> 5 \<le> field frame_demo 46 1 div 16 \<longrightarrow> payload k = take 4 (drop 54 frame_demo)"
    using frames_read_by_rfc [OF len f(2,3,5,6) c look peer_demo_sel(1), of 4] peer_demo_sel(1) by auto
  have "payload k = [1, 2, 3, 4]" using r(6) by (simp only: f) simp
  then show ?thesis
    using r(1-5) peer_demo_sel(1) by (intro exI conjI) (simp_all add: f fl b bit_simps)
qed

end
