(* ===== verification/Queues.thy ===== *)
theory Queues
  imports Skbuff
begin

text \<open>
  Sequences of operations on a buffer queue: the ring of pointers of \<open>include/list.h\<close> with its
  counter, from \<open>skb_queue_init\<close> on, against a list.  This is what lets the later theories keep
  the queues of a connection as lists.
\<close>

datatype queue_op = Op_tail nat | Op_add nat nat | Op_dequeue

text \<open>An operation and what it hands out: the buffer dequeued.\<close>

fun ring_op :: "queue_op \<Rightarrow> ring_queue \<Rightarrow> nat list \<times> ring_queue" where
  "ring_op (Op_tail n) q = ([], skb_queue_tail n q)"
| "ring_op (Op_add n y) q = ([], skb_queue_add n y q)"
| "ring_op Op_dequeue q = (case skb_dequeue q of (b, q) \<Rightarrow> ([b], q))"

fun list_op :: "queue_op \<Rightarrow> nat list \<Rightarrow> nat list \<times> nat list" where
  "list_op (Op_tail n) xs = ([], q_tail n xs)"
| "list_op (Op_add n y) xs = ([], q_add n y xs)"
| "list_op Op_dequeue xs = (case q_dequeue xs of (b, xs) \<Rightarrow> ([b], xs))"

fun run_ops :: "(queue_op \<Rightarrow> 'q \<Rightarrow> nat list \<times> 'q) \<Rightarrow> queue_op list \<Rightarrow> 'q \<Rightarrow> nat list \<times> 'q" where
  "run_ops f [] q = ([], q)"
| "run_ops f (p # ps) q =
     (case f p q of (out, q) \<Rightarrow> case run_ops f ps q of (outs, q) \<Rightarrow> (out @ outs, q))"

text \<open>
  A caller's obligations: a buffer it inserts is not in the queue (nor the queue's head), it inserts
  before a buffer that is, and dequeues only when there is one.
\<close>

fun op_ok :: "nat \<Rightarrow> queue_op \<Rightarrow> nat list \<Rightarrow> bool" where
  "op_ok h (Op_tail n) xs \<longleftrightarrow> n \<noteq> h \<and> n \<notin> set xs \<and> Suc (length xs) < 4294967296"
| "op_ok h (Op_add n y) xs \<longleftrightarrow> n \<noteq> h \<and> n \<notin> set xs \<and> y \<in> set xs \<and> Suc (length xs) < 4294967296"
| "op_ok h Op_dequeue xs \<longleftrightarrow> xs \<noteq> []"

fun ops_ok :: "nat \<Rightarrow> queue_op list \<Rightarrow> nat list \<Rightarrow> bool" where
  "ops_ok h [] xs \<longleftrightarrow> True"
| "ops_ok h (p # ps) xs \<longleftrightarrow> op_ok h p xs \<and> ops_ok h ps (snd (list_op p xs))"

definition rep :: "ring_queue \<Rightarrow> nat list \<Rightarrow> bool" where
  "rep q xs \<longleftrightarrow> ring_good q \<and> ring_items q = xs"

lemma ring_op_head: "q_head (snd (snd (ring_op p q))) = q_head (snd q)"
  by (cases p) (simp_all add: skb_queue_tail_def skb_queue_add_def skb_dequeue_def Let_def)

lemma fresh_if_short:
  assumes "rep q xs" "n \<noteq> q_head (snd q)" "n \<notin> set xs" "Suc (length xs) < 4294967296"
  shows "ring_fresh q n"
proof -
  have "unat (q_len (snd q)) = length xs" using assms(1) by (simp add: rep_def ring_good_def)
  moreover have "unat (- 1 :: 32 word) = 4294967295"
    by (simp add: unsigned_minus_1_eq_mask mask_eq_exp_minus_1)
  ultimately have "q_len (snd q) \<noteq> - 1" using assms(4) by auto
  with assms show ?thesis by (simp add: ring_fresh_def rep_def)
qed

lemma op_simulates:
  assumes "rep q xs" "op_ok (q_head (snd q)) p xs"
  shows "fst (ring_op p q) = fst (list_op p xs) \<and> rep (snd (ring_op p q)) (snd (list_op p xs))"
proof (cases p)
  case (Op_tail n)
  with assms fresh_if_short have "ring_fresh q n" by auto
  with assms(1) ring.tail_law Op_tail show ?thesis by (simp add: rep_def q_tail_def)
next
  case (Op_add n y)
  with assms fresh_if_short have f: "ring_fresh q n" by auto
  obtain as bs where xs: "xs = as @ y # bs" using assms(2) Op_add by (auto dest: split_list)
  have "distinct xs" using assms(1) by (auto simp: rep_def ring_good_def dll_def)
  with ring.add_law [of q n as y bs] assms(1) f xs Op_add show ?thesis
    by (simp add: rep_def q_add_split)
next
  case Op_dequeue
  then obtain x ys where "xs = x # ys" using assms(2) by (cases xs) auto
  with ring.deq_law [of q x ys] assms(1) Op_dequeue show ?thesis
    by (auto simp: rep_def q_dequeue_def split: prod.splits)
qed

lemma ops_simulate:
  "rep q xs \<Longrightarrow> ops_ok (q_head (snd q)) ps xs \<Longrightarrow>
     fst (run_ops ring_op ps q) = fst (run_ops list_op ps xs)
     \<and> rep (snd (run_ops ring_op ps q)) (snd (run_ops list_op ps xs))"
proof (induction ps arbitrary: q xs)
  case (Cons p ps)
  obtain o1 q1 where r: "ring_op p q = (o1, q1)" by (meson surj_pair)
  obtain o2 xs1 where l: "list_op p xs = (o2, xs1)" by (meson surj_pair)
  have s: "o1 = o2" "rep q1 xs1"
    using op_simulates [OF Cons.prems(1), of p] Cons.prems(2) r l by auto
  moreover have "q_head (snd q1) = q_head (snd q)" using ring_op_head [of p q] r by simp
  ultimately show ?case
    using Cons.IH [of q1 xs1] Cons.prems(2) r l by (auto split: prod.splits)
qed simp

text \<open>
  C39: A queue of buffers is a list: after any sequence of the operations a caller may make, starting
  from \<open>skb_queue_init\<close> on memory in any state, the buffers handed out are those of the list
  operations, walking the ring gives the list, \<open>qlen\<close> is its length, and \<open>skb_peek\<close> its head.
\<close>

theorem queue_is_list:
  assumes "ops_ok (q_head (snd q)) ps []"
  shows "case (run_ops ring_op ps (skb_queue_init q), run_ops list_op ps []) of
     ((out, q'), (out', xs)) \<Rightarrow>
       out = out' \<and> ring_items q' = xs \<and> unat (skb_queue_len q') = length xs \<and> skb_peek q' = q_peek xs
       \<and> skb_queue_empty q' = (xs = [])"
proof -
  have "rep (skb_queue_init q) []" using ring_init by (simp add: rep_def)
  moreover have "q_head (snd (skb_queue_init q)) = q_head (snd q)"
    by (simp add: skb_queue_init_def)
  ultimately have "fst (run_ops ring_op ps (skb_queue_init q)) = fst (run_ops list_op ps [])
      \<and> rep (snd (run_ops ring_op ps (skb_queue_init q))) (snd (run_ops list_op ps []))"
    using ops_simulate assms by simp
  then show ?thesis
    using ring_empty
    by (auto simp: rep_def ring_good_def skb_queue_len_def ring.peek_law q_peek_def split: prod.splits)
qed

theorem queue_is_list_witness:
  "fst (run_ops ring_op [Op_tail 1, Op_tail 2, Op_add 3 2, Op_dequeue, Op_dequeue]
     (skb_queue_init (\<lparr>nxt = (\<lambda>_. 0), prv = (\<lambda>_. 0)\<rparr>, \<lparr>q_head = 9, q_len = 5\<rparr>))) = [1, 3]"
proof -
  let ?q = "(\<lparr>nxt = (\<lambda>_. 0), prv = (\<lambda>_. 0)\<rparr>, \<lparr>q_head = 9, q_len = 5\<rparr>) :: ring_queue"
  let ?ps = "[Op_tail 1, Op_tail 2, Op_add 3 2, Op_dequeue, Op_dequeue]"
  have "run_ops list_op ?ps [] = ([1, 3], [2])" and "ops_ok (q_head (snd ?q)) ?ps []"
    by (simp_all add: q_tail_def q_dequeue_def)
  with queue_is_list [of ?q ?ps] show ?thesis
    by (auto simp del: run_ops.simps ops_ok.simps split: prod.splits)
qed

end
