(* ===== verification/Timers.thy ===== *)
theory Timers
  imports Timer Route "HOL-Library.Multiset"
begin

text \<open>
  The timers over any sequence of the operations of src/timer.c: timers are added, cancelled and
  released by the other threads between the rounds of the timer thread, and in a round the locks of
  some timers may be held.  When a handler is started, and that a handle stays valid while its
  holder has not given it up.
\<close>

subsection \<open>Sequences of operations\<close>

datatype timer_op =
    Op_add u32 handler nat
  | Op_oneshot u32 handler nat
  | Op_release nat
  | Op_cancel nat
  | Op_round "nat set"

primrec timer_step :: "timer_op \<Rightarrow> 'a stack_scheme \<Rightarrow> 'a stack_scheme" where
  "timer_step (Op_add d h a) s = snd (timer_add d h a s)"
| "timer_step (Op_oneshot d h a) s = timer_oneshot d h a s"
| "timer_step (Op_release i) s = timer_release (Some i) s"
| "timer_step (Op_cancel i) s = timer_cancel (Some i) s"
| "timer_step (Op_round busy) s = timers_round busy s"

fun timer_run :: "timer_op list \<Rightarrow> 'a stack_scheme \<Rightarrow> 'a stack_scheme" where
  "timer_run [] s = s"
| "timer_run (x # xs) s = timer_run xs (timer_step x s)"

subsection \<open>What is promised\<close>

text \<open>
  The milliseconds a sequence takes; and when a timer fires in what follows it, \<open>now\<close> being the tick
  at the start: in a round that finds its lock free and its time before the new tick, unless it was
  cancelled by then.
\<close>

fun elapsed :: "timer_op list \<Rightarrow> nat" where
  "elapsed [] = 0"
| "elapsed (Op_round busy # xs) = 10 + elapsed xs"
| "elapsed (_ # xs) = elapsed xs"

definition fires :: "nat \<Rightarrow> timer_op list \<Rightarrow> timer \<Rightarrow> bool" where
  "fires now xs t \<longleftrightarrow> \<not> t_cancelled t \<and>
     (\<exists>k<length xs. (case xs ! k of Op_round busy \<Rightarrow> t_id t \<notin> busy | _ \<Rightarrow> False)
        \<and> unat (t_expires t) < now + elapsed (take (Suc k) xs)
        \<and> Op_cancel (t_id t) \<notin> set (take k xs))"

definition new_timer :: "nat \<Rightarrow> int \<Rightarrow> nat \<Rightarrow> u32 \<Rightarrow> handler \<Rightarrow> nat \<Rightarrow> timer" where
  "new_timer i refcnt now d h a =
     \<lparr>t_id = i, t_refcnt = refcnt, t_expires = of_nat now + d, t_cancelled = False, t_handler = h, t_arg = a\<rparr>"

text \<open>The timers added on the way, each with the tick at that moment and the operations after it.\<close>

fun births :: "nat \<Rightarrow> nat \<Rightarrow> timer_op list \<Rightarrow> (nat \<times> timer_op list \<times> timer) list" where
  "births i now [] = []"
| "births i now (Op_add d h a # xs) = (now, xs, new_timer i 1 now d h a) # births (Suc i) now xs"
| "births i now (Op_oneshot d h a # xs) = (now, xs, new_timer i 0 now d h a) # births (Suc i) now xs"
| "births i now (Op_round busy # xs) = births i (now + 10) xs"
| "births i now (_ # xs) = births i now xs"

definition job :: "timer \<Rightarrow> handler \<times> nat" where
  "job t = (t_handler t, t_arg t)"

definition fired :: "(nat \<times> timer_op list \<times> timer) list \<Rightarrow> (handler \<times> nat) multiset" where
  "fired ts = mset (map (\<lambda>(_, _, t). job t) (filter (\<lambda>(now, xs, t). fires now xs t) ts))"

lemma fires_cancelled [simp]: "t_cancelled t \<Longrightarrow> \<not> fires now xs t"
  by (simp add: fires_def)

lemma fires_Nil [simp]: "\<not> fires now [] t"
  by (simp add: fires_def)

lemma fires_round:
  "fires now (Op_round busy # xs) t \<longleftrightarrow> \<not> t_cancelled t
     \<and> (t_id t \<notin> busy \<and> unat (t_expires t) < now + 10 \<or> fires (now + 10) xs t)"
  by (auto simp: fires_def Ex_less_Suc2 add.assoc)

lemma fires_cancel:
  "fires now (Op_cancel i # xs) t \<longleftrightarrow> t_id t \<noteq> i \<and> fires now xs t"
  by (auto simp: fires_def Ex_less_Suc2)

lemma fires_other [simp]:
  "fires now (Op_add d h a # xs) = fires now xs" "fires now (Op_oneshot d h a # xs) = fires now xs"
  "fires now (Op_release i # xs) = fires now xs"
  by (auto simp: fires_def Ex_less_Suc2 fun_eq_iff)

lemma fires_cong:
  "t_id t' = t_id t \<Longrightarrow> t_expires t' = t_expires t \<Longrightarrow> t_cancelled t' = t_cancelled t \<Longrightarrow> fires now xs t' = fires now xs t"
  by (simp add: fires_def cong: timer_op.case_cong)

subsection \<open>One operation\<close>

lemma tick_list_fires:
  assumes "unat tick = now + 10" and "tick_list busy tick ts = (ts', run)"
  shows "mset (map job (filter (fires now (Op_round busy # xs)) ts))
    = mset run + mset (map job (filter (fires (now + 10) xs) ts'))"
  using assms(2)
proof (induction ts arbitrary: ts' run)
  case (Cons t ts)
  obtain ts1 run1 where r: "tick_list busy tick ts = (ts1, run1)" by fastforce
  have due: "t_expires t < tick \<longleftrightarrow> unat (t_expires t) < now + 10"
    by (simp add: word_less_nat_alt assms(1))
  show ?case
    using Cons.prems Cons.IH [OF r]
    by (auto simp: r Let_def fires_round due job_def split: if_splits)
qed simp

lemma filter_upd_timer:
  assumes "\<And>t. job (f t) = job t" and "\<And>t. P (f t) \<longleftrightarrow> P t \<and> R t"
  shows "map job (filter P (upd_timer i f ts)) = map job (filter (\<lambda>t. P t \<and> (t_id t = i \<longrightarrow> R t)) ts)"
  by (induction ts) (use assms in \<open>auto simp: upd_timer_def\<close>)

lemma fired_append: "fired (as @ bs) = fired as + fired bs"
  by (simp add: fired_def)

lemma fired_Cons: "fired ((now, xs, t) # as) = (if fires now xs t then {#job t#} else {#}) + fired as"
  by (simp add: fired_def)

lemma fired_map: "fired (map (\<lambda>t. (now, xs, t)) ts) = mset (map job (filter (fires now xs) ts))"
  by (induction ts) (simp_all add: fired_def)

lemmas fired_simps = fired_append fired_Cons fired_map

lemma unat_tick: "unat (t :: u32) + 10 < 2 ^ 31 \<Longrightarrow> unat (t + 10) = unat t + 10"
  by (simp add: unat_word_ariths)

lemma job_upd [simp]: "job (t\<lparr>t_refcnt := n\<rparr>) = job t" "job (t\<lparr>t_cancelled := b\<rparr>) = job t"
  by (simp_all add: job_def)

lemma fires_refcnt [simp]: "fires now xs (t\<lparr>t_refcnt := n\<rparr>) = fires now xs t"
  by (rule fires_cong) simp_all

lemma threads_fired:
  assumes "unat (s_tick s) + elapsed xs < 2 ^ 31"
  shows "mset (s_threads (timer_run xs s)) = mset (s_threads s)
    + fired (map (\<lambda>t. (unat (s_tick s), xs, t)) (s_timers s) @ births (s_tnext s) (unat (s_tick s)) xs)"
  using assms
proof (induction xs arbitrary: s)
  case Nil
  then show ?case by (simp add: fired_def)
next
  case (Cons x xs)
  let ?s = "timer_step x s" and ?now = "unat (s_tick s)"
  have IH: "mset (s_threads (timer_run xs ?s)) = mset (s_threads ?s)
      + fired (map (\<lambda>t. (unat (s_tick ?s), xs, t)) (s_timers ?s) @ births (s_tnext ?s) (unat (s_tick ?s)) xs)"
    if "unat (s_tick ?s) + elapsed xs < 2 ^ 31" by (rule Cons.IH [OF that])
  show ?case
  proof (cases x)
    case (Op_round busy)
    obtain ts run where r: "tick_list busy (s_tick s + 10) (s_timers s) = (ts, run)" by fastforce
    have n: "unat (s_tick s + 10) = ?now + 10" using Cons.prems Op_round by (intro unat_tick) simp
    show ?thesis
      using IH Cons.prems tick_list_fires [OF n r, of xs]
      by (simp add: Op_round n timers_round_def timers_tick_def r fired_simps add.assoc)
  next
    case (Op_cancel i)
    then show ?thesis
      using IH Cons.prems
      by (simp add: timer_cancel_def fired_simps filter_upd_timer [where R = "\<lambda>_. False"] fires_cancel conj_commute)
  qed (use IH Cons.prems in \<open>simp_all add: timer_add_def timer_oneshot_def timer_release_def timer_alloc_def
      timer_get_tick_def new_timer_def fired_simps filter_upd_timer [where R = "\<lambda>_. True"] ac_simps\<close>)
qed

subsection \<open>Handles\<close>

text \<open>
  The discipline of the callers: a handle given by \<open>timer_add\<close> is cancelled or released once at most,
  and no other is.  \<open>held i\<close> counts the references still to be given up.
\<close>

fun handles_ok :: "(nat \<Rightarrow> int) \<Rightarrow> nat \<Rightarrow> timer_op list \<Rightarrow> bool" where
  "handles_ok held i [] \<longleftrightarrow> True"
| "handles_ok held i (Op_add d h a # xs) \<longleftrightarrow> handles_ok (held(i := 1)) (Suc i) xs"
| "handles_ok held i (Op_oneshot d h a # xs) \<longleftrightarrow> handles_ok (held(i := 0)) (Suc i) xs"
| "handles_ok held i (Op_release j # xs) \<longleftrightarrow> held j > 0 \<and> handles_ok (held(j := held j - 1)) i xs"
| "handles_ok held i (Op_cancel j # xs) \<longleftrightarrow> held j > 0 \<and> handles_ok (held(j := held j - 1)) i xs"
| "handles_ok held i (Op_round busy # xs) \<longleftrightarrow> handles_ok held i xs"

definition refs_ok :: "(nat \<Rightarrow> int) \<Rightarrow> 'a stack_scheme \<Rightarrow> bool" where
  "refs_ok held s \<longleftrightarrow> (\<forall>t\<in>set (s_timers s). t_id t < s_tnext s \<and> t_refcnt t = held (t_id t))
     \<and> (\<forall>i. held i > 0 \<longrightarrow> timer_live i s)"

lemma set_upd_timer: "set (upd_timer i f ts) = (\<lambda>t. if t_id t = i then f t else t) ` set ts"
  by (auto simp: upd_timer_def)

lemma tick_list_keeps:
  assumes "tick_list busy tick ts = (ts', run)"
  shows "\<forall>t'\<in>set ts'. \<exists>t\<in>set ts. t_id t' = t_id t \<and> t_refcnt t' = t_refcnt t"
    and "\<forall>t\<in>set ts. t_refcnt t \<noteq> 0 \<longrightarrow> t_id t \<in> t_id ` set ts'"
  using assms
proof (induction ts arbitrary: ts' run)
  case (Cons t ts)
  obtain ts1 run1 where r: "tick_list busy tick ts = (ts1, run1)" by fastforce
  note ih = Cons.IH [OF r]
  { case 1 then show ?case using ih(1) by (auto simp: r Let_def split: if_splits) }
  { case 2 then show ?case using ih(2) by (auto simp: r Let_def split: if_splits) }
qed simp_all

lemma refs_round:
  assumes "refs_ok held s"
  shows "refs_ok held (timers_round busy s)"
proof -
  obtain ts run where r: "tick_list busy (s_tick s + 10) (s_timers s) = (ts, run)" by fastforce
  show ?thesis
    using assms tick_list_keeps [OF r]
    by (fastforce simp: refs_ok_def timer_live_def timers_round_def timers_tick_def r)
qed

lemma refs_give_up:
  assumes "refs_ok held s" "held i > 0" and "\<And>t. t_id (f t) = t_id t \<and> t_refcnt (f t) = t_refcnt t - 1"
  shows "refs_ok (held(i := held i - 1)) (s\<lparr>s_timers := upd_timer i f (s_timers s)\<rparr>)"
proof -
  let ?ts = "s_timers s"
  have ids: "t_id ` set (upd_timer i f ?ts) = t_id ` set ?ts"
  proof -
    have "t_id (if t_id t = i then f t else t) = t_id t" for t using assms(3) by simp
    then show ?thesis by (simp only: set_upd_timer image_image)
  qed
  moreover have "\<forall>j. held j > 0 \<longrightarrow> j \<in> t_id ` set ?ts"
    using assms(1) by (simp add: refs_ok_def timer_live_def)
  moreover have "\<forall>t\<in>set (upd_timer i f ?ts). t_id t < s_tnext s \<and> t_refcnt t = (held(i := held i - 1)) (t_id t)"
    using assms(1,3) by (auto simp: refs_ok_def set_upd_timer)
  ultimately show ?thesis using assms(2) by (simp add: refs_ok_def timer_live_def)
qed

lemma refs_add:
  assumes "refs_ok held s"
  shows "refs_ok (held(s_tnext s := n))
    (s\<lparr>s_timers := s_timers s @ [timer_alloc n d h a s], s_tnext := Suc (s_tnext s)\<rparr>)"
  using assms by (fastforce simp: refs_ok_def timer_live_def timer_alloc_def)

lemma handles_valid:
  assumes "refs_ok held s" "handles_ok held (s_tnext s) xs" "unat (s_tick s) + elapsed xs < 2 ^ 31"
  shows "s_fault (timer_run xs s) = s_fault s"
  using assms
proof (induction xs arbitrary: s held)
  case (Cons x xs)
  note IH = Cons.IH [of _ "timer_step x s"]
  show ?case
  proof (cases x)
    case (Op_round busy)
    have n: "unat (s_tick s + 10) = unat (s_tick s) + 10" using Cons.prems(3) Op_round by (intro unat_tick) simp
    show ?thesis
      using IH [of held] refs_round [OF Cons.prems(1), of busy] Cons.prems(2,3)
      by (simp add: Op_round timers_round_def timers_tick_def n split: prod.splits)
  next
    case (Op_release i)
    then have "timer_live i s" using Cons.prems by (simp add: refs_ok_def)
    then show ?thesis
      using IH [of "held(i := held i - 1)"] Cons.prems refs_give_up [OF Cons.prems(1), of i "\<lambda>t. t\<lparr>t_refcnt := t_refcnt t - 1\<rparr>"]
      by (simp add: Op_release timer_release_def del: fun_upd_apply)
  next
    case (Op_cancel i)
    then have "timer_live i s" using Cons.prems by (simp add: refs_ok_def)
    then show ?thesis
      using IH [of "held(i := held i - 1)"] Cons.prems
        refs_give_up [OF Cons.prems(1), of i "\<lambda>t. t\<lparr>t_refcnt := t_refcnt t - 1, t_cancelled := True\<rparr>"]
      by (simp add: Op_cancel timer_cancel_def del: fun_upd_apply)
  next
    case (Op_add d h a)
    then show ?thesis
      using IH [of "held(s_tnext s := 1)"] Cons.prems refs_add [OF Cons.prems(1), of 1 d h a]
      by (simp add: timer_add_def del: fun_upd_apply)
  next
    case (Op_oneshot d h a)
    then show ?thesis
      using IH [of "held(s_tnext s := 0)"] Cons.prems refs_add [OF Cons.prems(1), of 0 d h a]
      by (simp add: timer_oneshot_def del: fun_upd_apply)
  qed
qed simp

text \<open>
  C40: Over any sequence of adding, cancelling and releasing timers and of rounds of the timer thread,
  with any locks held, the handlers started are exactly those of the timers that fire, each once, be
  it timers that were there or timers added on the way: a timer fires in the first round after its
  time that finds its lock free, and never when it is cancelled before; releasing it changes nothing.
  And as long as a handle is given up once at most, no freed timer is touched.
\<close>

theorem timers_fire_once:
  assumes "unat (s_tick s) + elapsed xs < 2 ^ 31"
  shows "mset (s_threads (timer_run xs s)) = mset (s_threads s)
      + fired (map (\<lambda>t. (unat (s_tick s), xs, t)) (s_timers s) @ births (s_tnext s) (unat (s_tick s)) xs)
    \<and> (refs_ok held s \<and> handles_ok held (s_tnext s) xs \<longrightarrow> s_fault (timer_run xs s) = s_fault s)"
  using threads_fired [OF assms] handles_valid [OF _ _ assms] by blast

text \<open>
  Three timers: the first is cancelled in time, the second fires a round late, its lock being held in
  the round it is due, and the third, which fires in that round, is released after it has fired.
\<close>

definition timer_ops_demo :: "timer_op list" where
  "timer_ops_demo =
     [Op_add 15 H_linger 7, Op_oneshot 15 H_send_delack 8, Op_round {}, Op_cancel 0,
      Op_add 5 H_linger 9, Op_round {1}, Op_release 2, Op_round {}]"

theorem timers_fire_once_witness:
  "mset (s_threads (timer_run timer_ops_demo (booted (\<lambda>_. 0)))) = {#(H_send_delack, 8), (H_linger, 9)#}
   \<and> \<not> s_fault (timer_run timer_ops_demo (booted (\<lambda>_. 0)))"
proof -
  let ?s = "booted (\<lambda>_. 0)"
  have s: "s_tick ?s = 0" "s_threads ?s = []" "s_timers ?s = []" "s_tnext ?s = 0" "\<not> s_fault ?s"
    by (simp_all add: booted_def static_data_def)
  have "refs_ok (\<lambda>_. 0) ?s" by (simp add: refs_ok_def s)
  moreover have "handles_ok (\<lambda>_. 0) 0 timer_ops_demo" by (simp add: timer_ops_demo_def)
  moreover have "fired (births 0 0 timer_ops_demo) = {#(H_send_delack, 8), (H_linger, 9)#}"
    by (simp add: timer_ops_demo_def fired_simps new_timer_def job_def fires_round fires_cancel)
      (simp add: fired_def)
  ultimately show ?thesis
    using timers_fire_once [of ?s timer_ops_demo "\<lambda>_. 0"] s by (simp add: timer_ops_demo_def)
qed

end
