(* ===== verification/Spec2Isabelle.thy ===== *)
theory Spec2Isabelle
  imports Tcp_Progress Startup Apps System_Demo Wire_Format Queues Timers
begin

text \<open>
  A verification of hf-ip, a TCP/IP stack that runs as a user process on a tap device and serves
  the socket calls of client processes.

  How the program is put together.  A frame read from the tap device (\<open>netdev_rx_loop\<close>,
  src/netdev.c) is an ARP packet (src/arp.c) or an IP datagram (src/ip_input.c), which is an ICMP
  message (src/icmpv4.c) or a TCP segment (\<open>tcp_in\<close>, src/tcp.c), handled by the connection that
  \<open>inet_lookup\<close> finds (src/tcp_input.c, src/tcp_data.c).  Segments are built in
  src/tcp_output.c and leave by \<open>ip_output\<close> (src/ip_output.c), which asks the routing table
  (src/route.c) and the ARP cache (src/dst.c) and ends in \<open>netdev_transmit\<close>.  A timer thread
  (src/timer.c) starts handlers that retransmit, acknowledge and give up.  Calls of client
  processes come in at the socket layer (src/socket.c, src/inet.c).  Packets live in reference
  counted buffers (src/skbuff.c) linked by the intrusive lists of include/list.h.

  Clients are unmodified programs with tools/libhfip.c preloaded, which turns their socket calls
  into messages (include/ipc.h) to the server of src/ipc.c, one thread for each client socket.

  The theories of the code, from the bottom:
    \<^item> \<open>Prelude\<close>: bytes, integers in memory, byte order, reads and writes of byte regions.
    \<^item> \<open>Utils\<close>: src/utils.c.  The checksum is a sum modulo 65535; storing it makes a region verify.
    \<^item> \<open>List_H\<close>: include/list.h on a memory of pointers, with the abstraction \<open>dll\<close> to lists.
    \<^item> \<open>Headers\<close>: the packed structs as records with encoders and decoders (little-endian host).
    \<^item> \<open>Skbuff\<close>: buffers and queues; the interface \<open>skb_fifo\<close> holds of the rings and of lists.
    \<^item> \<open>Stack\<close>: the shared state; a fault flag stands for undefined behaviour.
    \<^item> \<open>Timer\<close>, \<open>Sock\<close>, \<open>Netdev\<close>, \<open>Route\<close>, \<open>Arp\<close>, \<open>Ip_Output\<close>: the layers below TCP.
    \<^item> \<open>Tcp_Conn\<close>, \<open>Tcp_Output\<close>, \<open>Tcp_Data\<close>, \<open>Tcp_Input\<close>, \<open>Tcp\<close>: TCP on one connection.
    \<^item> \<open>Socket\<close>: the sockets of the process and the calls on them (src/socket.c, src/inet.c).
    \<^item> \<open>Rx\<close>: the receive path from the frame up, and the threads timers start.
    \<^item> \<open>Ipc_Msg\<close>: the messages of include/ipc.h; \<open>Ipc\<close>: the server, src/ipc.c; \<open>Libhfip\<close>: the
      library, whose calls are programs over the calls of libc, executed by \<open>run\<close>.
    \<^item> \<open>Startup\<close>: command line, tap device, \<open>main\<close>, the signal thread and the listening socket
      (src/cli.c, src/tuntap_if.c, src/main.c), processes over system calls run by \<open>exec\<close> of
      \<open>Process\<close>; that the threads start only once the capabilities are dropped, and that each
      connection is served.
    \<^item> \<open>Apps\<close>: the clients apps/curl/curl.c and apps/curl-poll/curl-poll.c, and what they print.

  The theories of properties:
    \<^item> \<open>Wire_Format\<close>: each field of a frame, written and read, is where RFC 791 and RFC 793 put it;
      the checksum is that of RFC 1071.
    \<^item> \<open>Queues\<close>: any sequence of operations on a ring of buffers is one on a list.
    \<^item> \<open>Timers\<close>: over any sequence of operations on timers, which handlers are started, and when;
      and that a handle stays valid until it is given up.
    \<^item> \<open>Tcp_Frame\<close>, \<open>Sock_Frame\<close>: what the operations of TCP leave alone; every later proof uses them.
    \<^item> \<open>Tcp_States\<close>: the state machine.  \<open>Tcp_Stream\<close>, \<open>Tcp_Ofo\<close>: the bytes a reader gets, from
      segments in and out of order.  \<open>Tcp_Segment\<close>, \<open>Tcp_Send\<close>, \<open>Tcp_Retx\<close>: the segments sent,
      how data are cut into them, acknowledged and sent again.  \<open>Tcp_Transfer\<close>: a whole
      transfer as a step relation, and the reader's prefix of the sender's data as its invariant;
      \<open>Tcp_Sender\<close>: the same for the sender and its retransmission queue, and where it stalls;
      \<open>Tcp_Open\<close>: the connection set-up ends where the two begin;
      \<open>Tcp_Wire\<close>: a frame one host sends is such a step at the other.
      \<open>Tcp_Emit\<close>: every step of the sender puts on the wire only segments without data and the
      chunks written, at their numbers; \<open>Tcp_Link\<close>: so two hosts and a network that loses, repeats
      and reorders frames hand the reader a prefix, and lose nothing.  \<open>Tcp_Progress\<close>: a
      retransmission that gets through brings the reader past the writer's oldest segment; and
      where the receive window passes the end of the sequence space, nothing is taken any more.
      \<open>Rx_Icmp\<close>: echo replies.
    \<^item> \<open>Ipc_Link\<close>, \<open>Ipc_Session\<close>: a call of the library, run against the server, does what the
      call of the socket layer does.  The locale \<open>ipc_service\<close> is what the library needs of its
      peer, the server's thread its interpretation.  \<open>Ipc_Server\<close>: the server on its own.
    \<^item> \<open>System\<close>: the whole process, whose steps are frames, timers and messages in any order, and
      the invariant of its socket table.  \<open>Ipc_Demo\<close>, \<open>System_Demo\<close>: inputs the properties are
      applied to.

  Modelling conventions.  Every C function that changes state is a function on the state, taking
  and returning it; a result code is an \<open>int\<close>.  Integers keep their width.  A pointer to a
  buffer is its name, \<open>deref\<close> its contents; reading a freed buffer, freeing twice, or leaving
  the bytes of a buffer sets \<open>s_fault\<close> (in the library \<open>lb_fault\<close>), which stays set.  The queues of
  a connection are lists of buffer names, justified by \<open>queue_is_list\<close>.  A step of a thread is
  atomic from taking a socket's lock to releasing it; a call that sleeps is cut there and goes on in
  a step of its own (\<open>read_wake\<close>, \<open>connect_wake\<close>, \<open>ipc_resume\<close>).  The DEBUG macros are off.

  Bounds.  \<open>tcp_send\<close> of \<open>n\<close> bytes runs its loop with fuel \<open>n\<close>, one byte a turn at least, and
  \<open>tcp_send_segments\<close> shows it returns.  \<open>poll\<close> of the library loops until an event: \<open>poll_loop\<close>
  takes the number of turns, and one is enough when only hf-ip sockets are polled.  The endless
  loops of the listener and the signal thread take the number of turns after which they are
  looked at, and those of the clients the number of reads; one more than the pieces of the page
  is enough (\<open>curl_prints_page_iff\<close>).  \<open>ev_stack\<close> is the room the server's stack has for the arrays
  whose length the client sends.

  Not modelled: \<open>get_address\<close> of src/utils.c, which only calls libc; \<open>dlsym\<close> in \<open>__libc_start_main\<close>; the
  debug output; the tunnel example under doc/.
\<close>

end
